(* ===== verification/Prelude.thy ===== *)
theory Prelude
  imports Main "HOL-Library.Sublist"
begin

text \<open>
  Shared vocabulary of the development: the types of identifiers, instants and results, the loop
  combinator \<open>foldM\<close> that renders a Go loop with an early error return, the parts of Go's
  \<open>strings\<close> package the program uses, SQL row updates on tables kept as lists, and the two
  interfaces (\<open>invariant_system\<close>, \<open>keyed_rows\<close>) that several components instantiate.
\<close>

section \<open>Types\<close>

text \<open>
  A \<open>uuid.UUID\<close> is a number, with \<open>uuid.Nil\<close> as 0. A \<open>time.Time\<close> is the number of
  nanoseconds since Go's zero instant, so \<open>IsZero\<close> is equality with 0; a \<open>time.Duration\<close> is a
  number of nanoseconds. Strings are byte strings, as in Go.
\<close>

type_synonym uuid = nat
type_synonym gotime = int
type_synonym duration = int

abbreviation uuid_Nil :: uuid where "uuid_Nil \<equiv> 0"
abbreviation time_zero :: gotime where "time_zero \<equiv> 0"
abbreviation millisecond :: duration where "millisecond \<equiv> 1000000"
abbreviation second :: duration where "second \<equiv> 1000000000"
abbreviation minute :: duration where "minute \<equiv> 60000000000"

text \<open>\<open>Duration.Milliseconds\<close> divides towards zero.\<close>

definition milliseconds :: "duration \<Rightarrow> int" where
  "milliseconds d = (if d < 0 then - ((- d) div millisecond) else d div millisecond)"

text \<open>The facts each component contributes to the shared automation.\<close>

named_theorems store_simps \<open>unfolding rules of the persistent operations\<close>
named_theorems inv_intros \<open>preservation of the invariants by single operations\<close>

section \<open>Loops with early return\<close>

fun foldM :: "('a \<Rightarrow> 's \<Rightarrow> 'e + 's) \<Rightarrow> 'a list \<Rightarrow> 's \<Rightarrow> 'e + 's" where
  "foldM f [] s = Inr s"
| "foldM f (x # xs) s = (case f x s of Inl e \<Rightarrow> Inl e | Inr s' \<Rightarrow> foldM f xs s')"

lemma foldM_append:
  "foldM f (xs @ ys) s = (case foldM f xs s of Inl e \<Rightarrow> Inl e | Inr s' \<Rightarrow> foldM f ys s')"
  by (induction xs arbitrary: s) (auto split: sum.splits)

lemma foldM_Inr_invariant:
  assumes "foldM f xs s = Inr t" and "P s"
    and "\<And>x s s'. x \<in> set xs \<Longrightarrow> P s \<Longrightarrow> f x s = Inr s' \<Longrightarrow> P s'"
  shows "P t"
  using assms
proof (induction xs arbitrary: s)
  case (Cons x xs)
  from Cons.prems(1) obtain s' where "f x s = Inr s'" and "foldM f xs s' = Inr t"
    by (auto split: sum.splits)
  then show ?case using Cons.IH Cons.prems(2,3) by (metis list.set_intros)
qed simp

text \<open>A loop whose every iteration succeeds with a known next state is a fold.\<close>

lemma foldM_total:
  assumes "\<And>x s. x \<in> set xs \<Longrightarrow> f x s = Inr (g x s)"
  shows "foldM f xs s = Inr (fold g xs s)"
  using assms by (induction xs arbitrary: s) auto

section \<open>Go strings\<close>

text \<open>
  \<open>strings.TrimSpace\<close> removes leading and trailing code points with the Unicode property
  White\_Space. The list holds their UTF-8 encodings: tab, newline, vertical tab, form feed,
  carriage return, space, U+0085, U+00A0, U+1680, U+2000 to U+200A, U+2028, U+2029, U+202F, U+205F
  and U+3000. No encoding is a proper prefix or suffix of another, so stripping whole encodings at
  either end removes exactly the code points Go removes.
\<close>

definition white_space :: "string list" where
  "white_space =
     [[CHR 0x09], [CHR 0x0A], [CHR 0x0B], [CHR 0x0C], [CHR 0x0D], [CHR 0x20],
      [CHR 0xC2, CHR 0x85], [CHR 0xC2, CHR 0xA0], [CHR 0xE1, CHR 0x9A, CHR 0x80],
      [CHR 0xE2, CHR 0x80, CHR 0x80], [CHR 0xE2, CHR 0x80, CHR 0x81],
      [CHR 0xE2, CHR 0x80, CHR 0x82], [CHR 0xE2, CHR 0x80, CHR 0x83],
      [CHR 0xE2, CHR 0x80, CHR 0x84], [CHR 0xE2, CHR 0x80, CHR 0x85],
      [CHR 0xE2, CHR 0x80, CHR 0x86], [CHR 0xE2, CHR 0x80, CHR 0x87],
      [CHR 0xE2, CHR 0x80, CHR 0x88], [CHR 0xE2, CHR 0x80, CHR 0x89],
      [CHR 0xE2, CHR 0x80, CHR 0x8A], [CHR 0xE2, CHR 0x80, CHR 0xA8],
      [CHR 0xE2, CHR 0x80, CHR 0xA9], [CHR 0xE2, CHR 0x80, CHR 0xAF],
      [CHR 0xE2, CHR 0x81, CHR 0x9F], [CHR 0xE3, CHR 0x80, CHR 0x80]]"

fun strip_front :: "string list \<Rightarrow> string \<Rightarrow> string option" where
  "strip_front [] s = None"
| "strip_front (p # ps) s = (if prefix p s \<and> p \<noteq> [] then Some (drop (length p) s) else strip_front ps s)"

lemma strip_front_shorter: "strip_front ps s = Some t \<Longrightarrow> length t < length s"
proof (induction ps)
  case (Cons p ps)
  show ?case
  proof (cases "prefix p s \<and> p \<noteq> []")
    case True
    then have "0 < length p" and "length p \<le> length s" by (auto dest: prefix_length_le)
    moreover from True Cons.prems have "length t = length s - length p" by auto
    ultimately show ?thesis by linarith
  next
    case False
    with Cons show ?thesis by auto
  qed
qed simp

function trim_front :: "string list \<Rightarrow> string \<Rightarrow> string" where
  "trim_front ps s = (case strip_front ps s of None \<Rightarrow> s | Some t \<Rightarrow> trim_front ps t)"
  by pat_completeness auto
termination
  by (relation "measure (length \<circ> snd)") (auto dest: strip_front_shorter)

declare trim_front.simps [simp del]

definition trim_space :: "string \<Rightarrow> string" where
  "trim_space s = rev (trim_front (map rev white_space) (rev (trim_front white_space s)))"

text \<open>PostgreSQL's \<open>btrim\<close> with one argument removes spaces only.\<close>

definition btrim :: "string \<Rightarrow> string" where
  "btrim s = rev (dropWhile (\<lambda>c. c = CHR '' '') (rev (dropWhile (\<lambda>c. c = CHR '' '') s)))"

lemma trim_front_fixed: "strip_front ps s = None \<Longrightarrow> trim_front ps s = s"
  by (subst trim_front.simps) simp

lemma strip_front_Nil [simp]: "strip_front ps [] = None"
  by (induction ps) auto

lemma trim_front_Nil [simp]: "trim_front ps [] = []"
  by (simp add: trim_front_fixed)

lemma strip_front_trim_front [simp]: "strip_front ps (trim_front ps s) = None"
proof (induction ps s rule: trim_front.induct)
  case (1 ps s)
  then show ?case
    by (cases "strip_front ps s") (auto simp: trim_front.simps [of ps s])
qed

lemma trim_front_idem [simp]: "trim_front ps (trim_front ps s) = trim_front ps s"
  by (simp add: trim_front_fixed)

lemma suffix_trim_front: "suffix (trim_front ps s) s"
proof (induction ps s rule: trim_front.induct)
  case (1 ps s)
  show ?case
  proof (cases "strip_front ps s")
    case None
    then show ?thesis by (simp add: trim_front_fixed)
  next
    case (Some t)
    then have "suffix t s"
      by (induction ps) (auto split: if_splits simp: suffix_drop)
    moreover have "suffix (trim_front ps t) t" using 1 Some by blast
    ultimately show ?thesis
      using Some by (simp add: trim_front.simps [of ps s] suffix_order.order_trans)
  qed
qed

lemma trim_space_Nil [simp]: "trim_space [] = []"
  by (simp add: trim_space_def)

lemma btrim_Nil [simp]: "btrim [] = []"
  by (simp add: btrim_def)

lemma strip_front_None: "strip_front ps s = None \<longleftrightarrow> (\<forall>p \<in> set ps. p \<noteq> [] \<longrightarrow> \<not> prefix p s)"
  by (induction ps) auto

lemma trim_space_idem [simp]: "trim_space (trim_space s) = trim_space s"
proof -
  let ?ws = white_space and ?sw = "map rev white_space"
  let ?u = "trim_front ?ws s"
  have u: "strip_front ?ws ?u = None" by (rule strip_front_trim_front)
  have "prefix (trim_space s) ?u"
    using suffix_trim_front [of ?sw "rev ?u"] by (simp add: trim_space_def suffix_to_prefix)
  then have "strip_front ?ws (trim_space s) = None"
    using u unfolding strip_front_None by (meson prefix_order.trans)
  then have "trim_front ?ws (trim_space s) = trim_space s" by (rule trim_front_fixed)
  then show ?thesis by (simp add: trim_space_def)
qed

lemma trim_front_first:
  assumes "list_all (\<lambda>p. p \<noteq> [] \<and> hd p \<noteq> c) ps"
  shows "trim_front ps (c # s) = c # s"
proof (rule trim_front_fixed)
  have "\<not> prefix p (c # s)" if "p \<in> set ps" for p
    using assms that by (cases p) (auto simp: list_all_iff)
  then show "strip_front ps (c # s) = None" by (simp add: strip_front_None)
qed

text \<open>A text that neither begins nor ends with a byte of a white-space encoding is kept as it is.\<close>

lemma trim_space_fixed:
  assumes "list_all (\<lambda>p. p \<noteq> [] \<and> hd p \<noteq> hd s) white_space"
    and "list_all (\<lambda>p. p \<noteq> [] \<and> hd p \<noteq> last s) (map rev white_space)" and "s \<noteq> []"
  shows "trim_space s = s"
proof -
  have front: "trim_front white_space s = s"
    using assms(1,3) trim_front_first [of "hd s" white_space "tl s"] by simp
  obtain r where r: "rev s = last s # r" using assms(3) by (cases s rule: rev_cases) auto
  have "trim_front (map rev white_space) (rev s) = rev s"
    unfolding r by (rule trim_front_first) (rule assms(2))
  then show ?thesis by (simp add: trim_space_def front)
qed

text \<open>A text that \<open>TrimSpace\<close> keeps is a text \<open>btrim\<close> keeps: the Go checks imply the SQL ones.\<close>

lemma btrim_eq_Nil: "btrim s = [] \<longleftrightarrow> (\<forall>c \<in> set s. c = CHR '' '')"
proof -
  have "dropWhile P (rev (dropWhile P s)) = [] \<longleftrightarrow> (\<forall>c \<in> set s. P c)" for P :: "char \<Rightarrow> bool"
  proof (induction s)
    case (Cons c s)
    then show ?case by (simp add: dropWhile_eq_Nil_conv)
  qed simp
  then show ?thesis by (simp only: btrim_def rev_is_Nil_conv)
qed

lemma strip_front_space: "strip_front white_space (CHR '' '' # s) = Some s"
  by (simp add: white_space_def)

lemma trim_front_spaces: "(\<forall>c \<in> set s. c = CHR '' '') \<Longrightarrow> trim_front white_space s = []"
proof (induction s)
  case (Cons c s)
  then show ?case
    by (subst trim_front.simps) (simp add: strip_front_space)
qed simp

lemma trim_space_btrim: "trim_space s \<noteq> [] \<Longrightarrow> btrim s \<noteq> []"
proof (rule ccontr)
  assume "trim_space s \<noteq> []" and "\<not> btrim s \<noteq> []"
  then have "trim_front white_space s = []" by (simp add: btrim_eq_Nil trim_front_spaces)
  then have "trim_space s = []" by (simp only: trim_space_def rev.simps trim_front_Nil)
  with \<open>trim_space s \<noteq> []\<close> show False by contradiction
qed

text \<open>\<open>strings.HasPrefix\<close> and \<open>strings.TrimPrefix\<close>.\<close>

definition has_prefix :: "string \<Rightarrow> string \<Rightarrow> bool" where
  "has_prefix s p = (take (length p) s = p)"

definition trim_prefix :: "string \<Rightarrow> string \<Rightarrow> string" where
  "trim_prefix s p = (if has_prefix s p then drop (length p) s else s)"

text \<open>\<open>strings.ReplaceAll(s, p, "")\<close>, \<open>strings.Join\<close> and \<open>%d\<close> of a natural number.\<close>

function remove_all :: "string \<Rightarrow> string \<Rightarrow> string" where
  "remove_all p s = (if s = [] \<or> p = [] then s
     else if has_prefix s p then remove_all p (drop (length p) s)
     else hd s # remove_all p (tl s))"
  by pat_completeness auto
termination
  by (relation "measure (length \<circ> snd)") auto

declare remove_all.simps [simp del]

fun join :: "string \<Rightarrow> string list \<Rightarrow> string" where
  "join sep [] = []"
| "join sep [s] = s"
| "join sep (s # t # r) = s @ sep @ join sep (t # r)"

fun decimal :: "nat \<Rightarrow> string" where
  "decimal n = (if n < 10 then [char_of (48 + n)] else decimal (n div 10) @ [char_of (48 + n mod 10)])"

declare decimal.simps [simp del]

section \<open>Tables as lists of rows\<close>

lemma find_SomeD: "List.find P xs = Some x \<Longrightarrow> x \<in> set xs \<and> P x"
  by (auto simp: find_Some_iff)

text \<open>\<open>UPDATE t SET f WHERE p\<close> and the number of rows it affects.\<close>

definition update_where :: "('r \<Rightarrow> bool) \<Rightarrow> ('r \<Rightarrow> 'r) \<Rightarrow> 'r list \<Rightarrow> 'r list" where
  "update_where p f rows = map (\<lambda>r. if p r then f r else r) rows"

definition rows_affected :: "('r \<Rightarrow> bool) \<Rightarrow> 'r list \<Rightarrow> nat" where
  "rows_affected p rows = length (filter p rows)"

lemma update_where_Nil [simp]: "update_where p f [] = []"
  by (simp add: update_where_def)

lemma update_where_Cons [simp]:
  "update_where p f (r # rs) = (if p r then f r else r) # update_where p f rs"
  by (simp add: update_where_def)

lemma length_update_where [simp]: "length (update_where p f rows) = length rows"
  by (simp add: update_where_def)

lemma set_update_where:
  "set (update_where p f rows) = {r \<in> set rows. \<not> p r} \<union> f ` {r \<in> set rows. p r}"
  by (auto simp: update_where_def)

lemma update_where_none: "rows_affected p rows = 0 \<Longrightarrow> update_where p f rows = rows"
  by (induction rows) (auto simp: rows_affected_def split: if_splits)

lemma update_where_idle: "(\<And>r. r \<in> set rows \<Longrightarrow> \<not> p r) \<Longrightarrow> update_where p f rows = rows"
  by (induction rows) auto

lemma rows_affected_pos: "0 < rows_affected p rows \<longleftrightarrow> (\<exists>r \<in> set rows. p r)"
  by (induction rows) (auto simp: rows_affected_def)

lemma map_update_where:
  "(\<And>r. p r \<Longrightarrow> h (f r) = h r) \<Longrightarrow> map h (update_where p f rows) = map h rows"
  by (induction rows) auto

text \<open>Insertion sort by a strict comparison.\<close>

fun insert_before :: "('a \<Rightarrow> 'a \<Rightarrow> bool) \<Rightarrow> 'a \<Rightarrow> 'a list \<Rightarrow> 'a list" where
  "insert_before lt x [] = [x]"
| "insert_before lt x (y # ys) = (if lt y x then y # insert_before lt x ys else x # y # ys)"

definition order_by :: "('a \<Rightarrow> 'a \<Rightarrow> bool) \<Rightarrow> 'a list \<Rightarrow> 'a list" where
  "order_by lt xs = foldr (insert_before lt) xs []"

lemma set_insert_before [simp]: "set (insert_before lt x ys) = insert x (set ys)"
  by (induction ys) auto

lemma distinct_insert_before: "distinct (insert_before lt x ys) \<longleftrightarrow> x \<notin> set ys \<and> distinct ys"
  by (induction ys) auto

lemma set_order_by [simp]: "set (order_by lt xs) = set xs"
  by (induction xs) (simp_all add: order_by_def)

lemma distinct_order_by [simp]: "distinct (order_by lt xs) = distinct xs"
proof (induction xs)
  case (Cons x xs)
  have "set (foldr (insert_before lt) xs []) = set xs" using set_order_by [of lt xs] by (simp add: order_by_def)
  with Cons show ?case by (simp add: order_by_def distinct_insert_before)
qed (simp add: order_by_def)

text \<open>
  A table with a primary key: no two rows share the key. Updates that keep the key keep the
  constraint, and a lookup by key sees exactly the updated row.
\<close>

locale keyed_rows =
  fixes key :: "'r \<Rightarrow> 'k"
begin

definition lookup :: "'k \<Rightarrow> 'r list \<Rightarrow> 'r option" where
  "lookup k rows = List.find (\<lambda>r. key r = k) rows"

lemma lookup_SomeD: "lookup k rows = Some r \<Longrightarrow> r \<in> set rows \<and> key r = k"
  by (auto simp: lookup_def find_Some_iff)

lemma lookup_None: "lookup k rows = None \<longleftrightarrow> k \<notin> key ` set rows"
  by (auto simp: lookup_def find_None_iff)

lemma lookup_unique:
  assumes "distinct (map key rows)" and "r \<in> set rows"
  shows "lookup (key r) rows = Some r"
  using assms by (induction rows) (auto simp: lookup_def)

lemma distinct_update:
  assumes "\<And>r. p r \<Longrightarrow> key (f r) = key r"
  shows "distinct (map key (update_where p f rows)) = distinct (map key rows)"
  by (simp add: map_update_where assms)

lemma lookup_update:
  assumes "\<And>r. p r \<Longrightarrow> key (f r) = key r"
  shows "lookup k (update_where p f rows) = map_option (\<lambda>r. if p r then f r else r) (lookup k rows)"
  using assms by (induction rows) (auto simp: lookup_def)

lemma same_key_same_row:
  assumes "distinct (map key rows)" and "r \<in> set rows" and "r' \<in> set rows" and "key r = key r'"
  shows "r = r'"
  using assms by (metis lookup_unique option.inject)

end

section \<open>Invariants of transition systems\<close>

inductive reachable_from :: "('s \<Rightarrow> bool) \<Rightarrow> ('s \<Rightarrow> 's \<Rightarrow> bool) \<Rightarrow> 's \<Rightarrow> bool"
  for start :: "'s \<Rightarrow> bool" and step :: "'s \<Rightarrow> 's \<Rightarrow> bool" where
  reach_start: "start s \<Longrightarrow> reachable_from start step s"
| reach_step: "reachable_from start step s \<Longrightarrow> step s t \<Longrightarrow> reachable_from start step t"

locale invariant_system =
  fixes start :: "'s \<Rightarrow> bool" and step :: "'s \<Rightarrow> 's \<Rightarrow> bool" and inv :: "'s \<Rightarrow> bool"
  assumes inv_start: "start s \<Longrightarrow> inv s"
    and inv_step: "inv s \<Longrightarrow> step s t \<Longrightarrow> inv t"
begin

lemma reachable_inv: "reachable_from start step s \<Longrightarrow> inv s"
  by (induction rule: reachable_from.induct) (auto intro: inv_start inv_step)

lemma run_inv: "step\<^sup>*\<^sup>* s t \<Longrightarrow> inv s \<Longrightarrow> inv t"
  by (induction rule: rtranclp_induct) (auto intro: inv_step)

end

end
