(* ===== verification/Dependency_Walk.thy ===== *)
theory Dependency_Walk
  imports Prelude
begin

text \<open>
  The interface shared by the two dependency checkers of the program (the workflow stages of
  \<open>runtime/workflow/graph.go\<close> and the task plans of \<open>internal/core/task_steps.go\<close>): a depth-first
  visit with a set of ids on the current call path and a set of finished ids. A checker that obeys
  the law \<open>visit_done\<close> accepts a graph exactly when every dependency is known and the dependency
  relation is acyclic.
\<close>

definition dep_edges :: "('a \<Rightarrow> 'a list option) \<Rightarrow> ('a \<times> 'a) set" where
  "dep_edges deps = {(d, x). \<exists>ds. deps x = Some ds \<and> d \<in> set ds}"

lemma foldM_cong [fundef_cong]:
  assumes "xs = ys" and "s = t" and "\<And>x u. x \<in> set ys \<Longrightarrow> f x u = g x u"
  shows "foldM f xs s = foldM g ys t"
proof -
  have "\<And>s. foldM f ys s = foldM g ys s"
    using assms(3) by (induction ys) (auto split: sum.splits)
  then show ?thesis using assms(1,2) by simp
qed

locale dependency_walk =
  fixes deps :: "'a \<Rightarrow> 'a list option"
    and ok :: "'a list \<Rightarrow> bool"
    and visit :: "'a set \<Rightarrow> 'a \<Rightarrow> 'a set \<Rightarrow> 'e + 'a set"
  assumes finite_deps: "finite (dom deps)"
    and visit_done: "visit S x V = Inr W \<longleftrightarrow>
      x \<notin> S \<and> (if x \<in> V then W = V
        else \<exists>ds V'. deps x = Some ds \<and> ok ds \<and>
          foldM (visit (insert x S)) ds V = Inr V' \<and> W = insert x V')"
begin

definition closed :: "'a set \<Rightarrow> bool" where
  "closed V \<longleftrightarrow> (\<forall>v \<in> V. \<exists>ds. deps v = Some ds \<and> ok ds \<and> set ds \<subseteq> V)"

definition loopfree :: "'a set \<Rightarrow> bool" where
  "loopfree V \<longleftrightarrow> (\<forall>v \<in> V. (v, v) \<notin> (dep_edges deps)\<^sup>+)"

lemma closed_back:
  assumes "closed V" and "(y, d) \<in> (dep_edges deps)\<^sup>*" and "d \<in> V"
  shows "y \<in> V"
  using assms(2,3)
proof (induction rule: converse_rtrancl_induct)
  case (step y z)
  then have "z \<in> V" by simp
  then obtain ds where "deps z = Some ds" and "set ds \<subseteq> V"
    using assms(1) unfolding closed_def by blast
  with step.hyps(1) show ?case by (auto simp: dep_edges_def)
qed simp

lemma path_shrinks:
  assumes "deps x = Some ds" and "x \<notin> S"
  shows "card (dom deps - insert x S) < card (dom deps - S)"
proof -
  have "x \<in> dom deps - S" using assms by auto
  then have "dom deps - insert x S \<subset> dom deps - S" by auto
  then show ?thesis using finite_deps by (simp add: psubset_card_mono)
qed

text \<open>What one successful visit does to the finished set.\<close>

definition extends :: "'a set \<Rightarrow> 'a set \<Rightarrow> 'a set \<Rightarrow> 'a set \<Rightarrow> bool" where
  "extends S V X W \<longleftrightarrow> closed W \<and> loopfree W \<and> V \<subseteq> W \<and> X \<subseteq> W \<and> W \<inter> S \<subseteq> V"

lemma foldM_extends:
  assumes step: "\<And>d V W. d \<in> set ds \<Longrightarrow> visit S d V = Inr W \<Longrightarrow> closed V \<Longrightarrow> loopfree V \<Longrightarrow> extends S V {d} W"
    and "foldM (visit S) ds V = Inr W" and "closed V" and "loopfree V"
  shows "extends S V (set ds) W"
  using assms
proof (induction ds arbitrary: V)
  case Nil
  then show ?case by (simp add: extends_def)
next
  case (Cons d ds)
  from Cons.prems(2) obtain U where U: "visit S d V = Inr U" and rest: "foldM (visit S) ds U = Inr W"
    by (auto split: sum.splits)
  have e1: "extends S V {d} U" using Cons.prems(1,3,4) U by simp
  then have U': "closed U" "loopfree U" by (simp_all add: extends_def)
  have "extends S U (set ds) W"
    by (rule Cons.IH [OF _ rest U']) (simp add: Cons.prems(1))
  with e1 show ?case unfolding extends_def by auto
qed

lemma visit_extends:
  assumes "visit S x V = Inr W" and "closed V" and "loopfree V"
  shows "extends S V {x} W"
  using assms
proof (induction "card (dom deps - S)" arbitrary: S x V W rule: less_induct)
  case less
  show ?case
  proof (cases "x \<in> V")
    case True
    with less.prems show ?thesis by (auto simp: visit_done extends_def)
  next
    case False
    with less.prems(1) obtain ds V' where x: "x \<notin> S" "deps x = Some ds" "ok ds"
      and fold: "foldM (visit (insert x S)) ds V = Inr V'" and W: "W = insert x V'"
      by (auto simp: visit_done)
    have "extends (insert x S) V (set ds) V'"
      by (rule foldM_extends [OF less.hyps [OF path_shrinks [OF x(2,1)]] fold less.prems(2,3)])
    then have V': "closed V'" "loopfree V'" "V \<subseteq> V'" "set ds \<subseteq> V'" "V' \<inter> insert x S \<subseteq> V"
      by (auto simp: extends_def)
    have "x \<notin> V'" using V'(5) False by auto
    have "(x, x) \<notin> (dep_edges deps)\<^sup>+"
    proof
      assume "(x, x) \<in> (dep_edges deps)\<^sup>+"
      then obtain d where d: "(x, d) \<in> (dep_edges deps)\<^sup>*" "(d, x) \<in> dep_edges deps"
        by (meson tranclD2)
      then have "d \<in> V'" using x(2) V'(4) by (auto simp: dep_edges_def)
      then have "x \<in> V'" by (rule closed_back [OF V'(1) d(1)])
      with \<open>x \<notin> V'\<close> show False ..
    qed
    then have "loopfree W" using V'(2) W by (simp add: loopfree_def)
    moreover have "closed W" using V'(1,4) x W unfolding closed_def by fastforce
    ultimately show ?thesis using V' W x(1) unfolding extends_def by auto
  qed
qed

lemma visit_succeeds:
  assumes known: "\<And>x ds. deps x = Some ds \<Longrightarrow> ok ds \<and> set ds \<subseteq> dom deps"
    and acyclic: "acyclic (dep_edges deps)"
    and "x \<in> dom deps" and "\<forall>s \<in> S. (x, s) \<in> (dep_edges deps)\<^sup>+"
  shows "\<exists>W. visit S x V = Inr W"
  using assms(3,4)
proof (induction "card (dom deps - S)" arbitrary: S x V rule: less_induct)
  case less
  obtain ds where ds: "deps x = Some ds" using less.prems(1) by auto
  have "x \<notin> S" using less.prems(2) acyclic by (auto simp: acyclic_def)
  have "\<exists>W. foldM (visit (insert x S)) es V = Inr W" if "set es \<subseteq> set ds" for es
    using that
  proof (induction es arbitrary: V)
    case (Cons d es)
    have edge: "(d, x) \<in> dep_edges deps" using Cons.prems ds by (auto simp: dep_edges_def)
    then have "\<forall>s \<in> insert x S. (d, s) \<in> (dep_edges deps)\<^sup>+"
      using less.prems(2) by (auto intro: trancl_into_trancl2)
    moreover have "d \<in> dom deps" using known [OF ds] Cons.prems by auto
    ultimately obtain U where U: "visit (insert x S) d V = Inr U"
      using less.hyps [OF path_shrinks [OF ds \<open>x \<notin> S\<close>]] by blast
    with Cons show ?case by simp
  qed simp
  then show ?case using ds \<open>x \<notin> S\<close> known [OF ds] by (cases "x \<in> V") (fastforce simp: visit_done)+
qed

theorem walk_all_iff:
  assumes "set xs = dom deps"
  shows "(\<exists>W. foldM (visit {}) xs {} = Inr W) \<longleftrightarrow>
    (\<forall>x ds. deps x = Some ds \<longrightarrow> ok ds \<and> set ds \<subseteq> dom deps) \<and> acyclic (dep_edges deps)"
    (is "?walk \<longleftrightarrow> ?known \<and> ?acyclic")
proof
  assume ?walk
  then obtain W where W: "foldM (visit {}) xs {} = Inr W" ..
  have "extends {} {} (set xs) W"
    by (rule foldM_extends [OF visit_extends W]) (auto simp: closed_def loopfree_def)
  then have cl: "closed W" and lf: "loopfree W" and "dom deps \<subseteq> W"
    using assms by (auto simp: extends_def)
  moreover have "W \<subseteq> dom deps" using cl by (auto simp: closed_def)
  ultimately have dom: "W = dom deps" by simp
  have ?known using cl unfolding dom closed_def by (metis domI option.inject)
  moreover have ?acyclic
    unfolding acyclic_def
  proof
    fix x
    show "(x, x) \<notin> (dep_edges deps)\<^sup>+"
    proof
      assume "(x, x) \<in> (dep_edges deps)\<^sup>+"
      moreover from this have "x \<in> dom deps" by (auto dest!: tranclD2 simp: dep_edges_def)
      ultimately show False using lf dom by (simp add: loopfree_def)
    qed
  qed
  ultimately show "?known \<and> ?acyclic" ..
next
  assume r: "?known \<and> ?acyclic"
  have "\<exists>W. foldM (visit {}) ys V = Inr W" if "set ys \<subseteq> dom deps" for ys V
    using that
  proof (induction ys arbitrary: V)
    case (Cons y ys)
    have "\<exists>U. visit {} y V = Inr U"
      by (rule visit_succeeds) (use r Cons.prems in auto)
    then obtain U where "visit {} y V = Inr U" ..
    with Cons show ?case by simp
  qed simp
  then show ?walk using assms by blast
qed

end

end
