(* ===== verification/Workflow_Graph.thy ===== *)
theory Workflow_Graph
  imports Dependency_Walk
begin

text \<open>
  \<open>runtime/workflow/graph.go\<close>: validation of durable execution graphs (\<open>Validate\<close>) and the set of
  stages invalidated by rerunning one (\<open>Descendants\<close>).
\<close>

section \<open>Model\<close>

record Node =
  n_ID :: string
  n_DependsOn :: "string list"
  n_RetryFrom :: string
  n_MaxAttempts :: int

datatype workflow_error =
    StageCount
  | StageIDs
  | StageAttempts string
  | DependencyCycle string
  | UnknownDependency string
  | RetryFromNotAncestor string

text \<open>The first loop of \<open>Validate\<close>: it checks each stage and builds the index \<open>byID\<close>.\<close>

definition index_node :: "Node \<Rightarrow> (string \<times> Node) list \<Rightarrow> workflow_error + (string \<times> Node) list" where
  "index_node n byID =
     (if n_ID n = [] \<or> (case map_of byID (n_ID n) of None \<Rightarrow> False | Some m \<Rightarrow> n_ID m \<noteq> [])
      then Inl StageIDs
      else if n_MaxAttempts n < 1 \<or> n_MaxAttempts n > 100 then Inl (StageAttempts (n_ID n))
      else Inr ((n_ID n, n) # byID))"

text \<open>
  The recursive closure \<open>visit\<close>. Its map \<open>visiting\<close> is true exactly for the ids on the call path
  (set before the loop over the dependencies, cleared after it), so it is passed down as the set
  \<open>S\<close>; \<open>visited\<close> is threaded as \<open>V\<close>.
\<close>

function visit :: "(string \<times> Node) list \<Rightarrow> string set \<Rightarrow> string \<Rightarrow> string set \<Rightarrow> workflow_error + string set" where
  "visit byID S i V =
     (if i \<in> S then Inl (DependencyCycle i)
      else if i \<in> V then Inr V
      else case map_of byID i of
          None \<Rightarrow> Inl (UnknownDependency i)
        | Some n \<Rightarrow>
            (case foldM (visit byID (insert i S)) (n_DependsOn n) V of
               Inl e \<Rightarrow> Inl e
             | Inr V' \<Rightarrow> Inr (insert i V')))"
  by pat_completeness auto
termination
proof (relation "measure (\<lambda>(byID, S, i, V). card (fst ` set byID - S))", simp)
  fix byID :: "(string \<times> Node) list" and S i V n d U
  assume "i \<notin> S" and "map_of byID i = Some n"
  then have "i \<in> fst ` set byID - S" by (force dest: map_of_SomeD)
  then have "fst ` set byID - insert i S \<subset> fst ` set byID - S" by auto
  then show "((byID, insert i S, d, U), byID, S, i, V) \<in> measure (\<lambda>(byID, S, i, V). card (fst ` set byID - S))"
    by (simp add: psubset_card_mono)
qed

declare visit.simps [simp del]

text \<open>\<open>Descendants\<close>: one pass of the inner loop over the stages, then the loop until no change.\<close>

fun descend_pass :: "Node list \<Rightarrow> string set \<Rightarrow> bool \<Rightarrow> string set \<times> bool" where
  "descend_pass [] found changed = (found, changed)"
| "descend_pass (n # ns) found changed =
     (if n_ID n \<notin> found \<and> list_ex (\<lambda>d. d \<in> found) (n_DependsOn n)
      then descend_pass ns (insert (n_ID n) found) True
      else descend_pass ns found changed)"

lemma descend_pass_grows: "descend_pass ns found c = (found', c') \<Longrightarrow> found \<subseteq> found'"
  by (induction ns arbitrary: found c) (auto split: if_splits)

lemma descend_pass_changed:
  "descend_pass ns found False = (found', True) \<Longrightarrow> \<exists>n \<in> set ns. n_ID n \<in> found' - found"
proof (induction ns arbitrary: found)
  case (Cons n ns)
  show ?case
  proof (cases "n_ID n \<notin> found \<and> list_ex (\<lambda>d. d \<in> found) (n_DependsOn n)")
    case True
    with Cons.prems have "insert (n_ID n) found \<subseteq> found'"
      by (auto dest: descend_pass_grows)
    with True show ?thesis by auto
  next
    case False
    with Cons show ?thesis by auto
  qed
qed simp

function descend :: "Node list \<Rightarrow> string set \<Rightarrow> string set" where
  "descend nodes found =
     (case descend_pass nodes found False of
        (found', changed) \<Rightarrow> if changed then descend nodes found' else found')"
  by pat_completeness auto
termination
proof (relation "measure (\<lambda>(nodes, found). card (n_ID ` set nodes - found))", simp)
  fix nodes found found' changed
  assume "(found', changed) = descend_pass nodes found False" and changed
  then have p: "descend_pass nodes found False = (found', True)" by simp
  obtain n where "n \<in> set nodes" "n_ID n \<in> found' - found"
    using descend_pass_changed [OF p] by blast
  then have "n_ID ` set nodes - found' \<subset> n_ID ` set nodes - found"
    using descend_pass_grows [OF p] by blast
  then show "((nodes, found'), nodes, found) \<in> measure (\<lambda>(nodes, found). card (n_ID ` set nodes - found))"
    by (simp add: psubset_card_mono)
qed

declare descend.simps [simp del]

definition Descendants :: "Node list \<Rightarrow> string \<Rightarrow> string set" where
  "Descendants nodes root =
     descend nodes (if list_ex (\<lambda>n. n_ID n = root) nodes then {root} else {})"

definition check_retry :: "Node list \<Rightarrow> Node \<Rightarrow> unit \<Rightarrow> workflow_error + unit" where
  "check_retry nodes n u =
     (if n_RetryFrom n \<noteq> [] \<and> n_ID n \<notin> Descendants nodes (n_RetryFrom n)
      then Inl (RetryFromNotAncestor (n_ID n)) else Inr ())"

definition Validate :: "Node list \<Rightarrow> workflow_error + unit" where
  "Validate nodes =
     (if nodes = [] \<or> length nodes > 100 then Inl StageCount
      else case foldM index_node nodes [] of
          Inl e \<Rightarrow> Inl e
        | Inr byID \<Rightarrow>
            (case foldM (\<lambda>n. visit byID {} (n_ID n)) nodes {} of
               Inl e \<Rightarrow> Inl e
             | Inr V \<Rightarrow> foldM (check_retry nodes) nodes ()))"

section \<open>Reachability\<close>

definition stage_edges :: "Node list \<Rightarrow> (string \<times> string) set" where
  "stage_edges nodes = {(d, n_ID n) | d n. n \<in> set nodes \<and> d \<in> set (n_DependsOn n)}"

lemma descend_pass_sound:
  assumes "descend_pass ns found c = (found', c')" and "set ns \<subseteq> set nodes"
    and "\<forall>x \<in> found. (root, x) \<in> (stage_edges nodes)\<^sup>*"
  shows "\<forall>x \<in> found'. (root, x) \<in> (stage_edges nodes)\<^sup>*"
  using assms
proof (induction ns arbitrary: found c)
  case (Cons n ns)
  have new: "(root, n_ID n) \<in> (stage_edges nodes)\<^sup>*" if "list_ex (\<lambda>d. d \<in> found) (n_DependsOn n)"
  proof -
    from that obtain d where "d \<in> set (n_DependsOn n)" "d \<in> found" by (auto simp: list_ex_iff)
    then have "(root, d) \<in> (stage_edges nodes)\<^sup>*" "(d, n_ID n) \<in> stage_edges nodes"
      using Cons.prems by (auto simp: stage_edges_def)
    then show ?thesis by (rule rtrancl_into_rtrancl)
  qed
  show ?case
  proof (cases "n_ID n \<notin> found \<and> list_ex (\<lambda>d. d \<in> found) (n_DependsOn n)")
    case True
    then show ?thesis using Cons.IH [of "insert (n_ID n) found" True] Cons.prems new by auto
  next
    case False
    then show ?thesis using Cons.IH [of found c] Cons.prems by auto
  qed
qed simp

lemma descend_pass_stable:
  assumes "descend_pass ns found False = (found', False)"
  shows "found' = found \<and> (\<forall>n \<in> set ns. (\<exists>d \<in> set (n_DependsOn n). d \<in> found) \<longrightarrow> n_ID n \<in> found)"
proof -
  have stay: "descend_pass ms fd True = (fd', b) \<Longrightarrow> b" for ms fd fd' b
    by (induction ms arbitrary: fd) (auto split: if_splits)
  from assms show ?thesis
    by (induction ns arbitrary: found) (auto split: if_splits simp: list_ex_iff dest: stay)
qed

lemma descend_props:
  assumes "\<forall>x \<in> found. (root, x) \<in> (stage_edges nodes)\<^sup>*"
  shows "found \<subseteq> descend nodes found"
    and "\<forall>x \<in> descend nodes found. (root, x) \<in> (stage_edges nodes)\<^sup>*"
    and "(d, x) \<in> stage_edges nodes \<Longrightarrow> d \<in> descend nodes found \<Longrightarrow> x \<in> descend nodes found"
proof -
  have "found \<subseteq> descend nodes found \<and> (\<forall>x \<in> descend nodes found. (root, x) \<in> (stage_edges nodes)\<^sup>*) \<and>
    (\<forall>d x. (d, x) \<in> stage_edges nodes \<longrightarrow> d \<in> descend nodes found \<longrightarrow> x \<in> descend nodes found)"
    using assms
  proof (induction nodes found rule: descend.induct)
    case (1 nodes found)
    obtain found' changed where p: "descend_pass nodes found False = (found', changed)" by fastforce
    have grow: "found \<subseteq> found'" using p by (rule descend_pass_grows)
    have sound: "\<forall>x \<in> found'. (root, x) \<in> (stage_edges nodes)\<^sup>*"
      using descend_pass_sound [OF p] "1.prems" by simp
    show ?case
    proof (cases changed)
      case True
      with p have "descend nodes found = descend nodes found'" by (simp add: descend.simps [of nodes found])
      with "1.IH" [OF p [symmetric] True sound] grow show ?thesis by auto
    next
      case False
      with p have "descend nodes found = found'" by (simp add: descend.simps [of nodes found])
      moreover have "found' = found \<and> (\<forall>n \<in> set nodes. (\<exists>d \<in> set (n_DependsOn n). d \<in> found) \<longrightarrow> n_ID n \<in> found)"
        using descend_pass_stable p False by simp
      ultimately show ?thesis using "1.prems" by (auto simp: stage_edges_def)
    qed
  qed
  then show "found \<subseteq> descend nodes found"
    and "\<forall>x \<in> descend nodes found. (root, x) \<in> (stage_edges nodes)\<^sup>*"
    and "(d, x) \<in> stage_edges nodes \<Longrightarrow> d \<in> descend nodes found \<Longrightarrow> x \<in> descend nodes found"
    by auto
qed

lemma Descendants_eq:
  "Descendants nodes root =
     (if root \<in> n_ID ` set nodes then {x. (root, x) \<in> (stage_edges nodes)\<^sup>*} else {})"
proof (cases "root \<in> n_ID ` set nodes")
  case True
  then have D: "Descendants nodes root = descend nodes {root}"
    by (auto simp: Descendants_def list_ex_iff)
  note props = descend_props [of "{root}" root nodes, simplified]
  have "x \<in> descend nodes {root}" if "(root, x) \<in> (stage_edges nodes)\<^sup>*" for x
    using that by (induction rule: rtrancl_induct) (use props in auto)
  then show ?thesis using True D props(2) by auto
next
  case False
  have "descend nodes {} = {}"
  proof -
    have "descend_pass ns {} False = ({}, False)" for ns
      by (induction ns) (auto simp: list_ex_iff)
    then show ?thesis by (subst descend.simps) simp
  qed
  then show ?thesis using False by (auto simp: Descendants_def list_ex_iff)
qed

section \<open>Validation\<close>

lemma index_nodes_Inr:
  "foldM index_node ns byID = Inr byID' \<longleftrightarrow>
     (\<forall>n \<in> set ns. n_ID n \<noteq> [] \<and> 1 \<le> n_MaxAttempts n \<and> n_MaxAttempts n \<le> 100) \<and>
     distinct (map n_ID ns) \<and> (\<forall>n \<in> set ns. n_ID n \<notin> fst ` set byID) \<and>
     byID' = rev (map (\<lambda>n. (n_ID n, n)) ns) @ byID"
  if "\<forall>(i, n) \<in> set byID. n_ID n = i \<and> i \<noteq> []"
  using that
proof (induction ns arbitrary: byID)
  case Nil
  then show ?case by auto
next
  case (Cons n ns)
  have old: "(case map_of byID (n_ID n) of None \<Rightarrow> False | Some m \<Rightarrow> n_ID m \<noteq> []) \<longleftrightarrow> n_ID n \<in> fst ` set byID"
  proof (cases "map_of byID (n_ID n)")
    case None
    then have "n_ID n \<notin> fst ` set byID" by (simp add: map_of_eq_None_iff)
    with None show ?thesis by simp
  next
    case (Some m)
    then have "(n_ID n, m) \<in> set byID" by (rule map_of_SomeD)
    with Cons.prems have "n_ID m \<noteq> []" by auto
    with Some \<open>(n_ID n, m) \<in> set byID\<close> show ?thesis by (auto intro: rev_image_eqI)
  qed
  show ?case
  proof (cases "n_ID n = [] \<or> n_ID n \<in> fst ` set byID \<or> n_MaxAttempts n < 1 \<or> n_MaxAttempts n > 100")
    case True
    then show ?thesis by (auto simp: index_node_def old)
  next
    case False
    then have "index_node n byID = Inr ((n_ID n, n) # byID)"
      by (simp add: index_node_def old)
    then show ?thesis
      using False Cons.IH [of "(n_ID n, n) # byID"] Cons.prems by (auto simp: image_iff)
  qed
qed

abbreviation node_index :: "Node list \<Rightarrow> (string \<times> Node) list" where
  "node_index ns \<equiv> rev (map (\<lambda>n. (n_ID n, n)) ns)"

definition node_deps :: "(string \<times> Node) list \<Rightarrow> string \<Rightarrow> string list option" where
  "node_deps byID i = map_option n_DependsOn (map_of byID i)"

lemma dom_node_deps: "dom (node_deps byID) = fst ` set byID"
  by (force simp: node_deps_def dom_def map_of_eq_None_iff simp flip: not_None_eq)

interpretation stage_walk: dependency_walk "node_deps byID" "\<lambda>_. True" "visit byID"
  for byID
proof
  show "finite (dom (node_deps byID))" by (simp add: dom_node_deps)
next
  fix S x V W
  show "visit byID S x V = Inr W \<longleftrightarrow> x \<notin> S \<and> (if x \<in> V then W = V
      else \<exists>ds V'. node_deps byID x = Some ds \<and> True \<and>
        foldM (visit byID (insert x S)) ds V = Inr V' \<and> W = insert x V')"
    by (subst visit.simps) (auto simp: node_deps_def split: option.splits sum.splits)
qed

lemma map_of_node_index:
  "distinct (map n_ID ns) \<Longrightarrow> map_of (node_index ns) i = Some n \<longleftrightarrow> n \<in> set ns \<and> n_ID n = i"
  by (subst map_of_eq_Some_iff) (auto simp: comp_def simp flip: rev_map)

lemma dep_edges_node_index:
  "distinct (map n_ID ns) \<Longrightarrow> dep_edges (node_deps (node_index ns)) = stage_edges ns"
  by (auto simp: dep_edges_def stage_edges_def node_deps_def map_of_node_index)

lemma visit_nodes_foldM:
  "foldM (\<lambda>n. visit byID {} (n_ID n)) ns V = foldM (visit byID {}) (map n_ID ns) V"
  by (induction ns arbitrary: V) (auto split: sum.splits)

lemma check_retry_all:
  "foldM (check_retry nodes) ns () = Inr () \<longleftrightarrow>
     (\<forall>n \<in> set ns. n_RetryFrom n \<noteq> [] \<longrightarrow> n_ID n \<in> Descendants nodes (n_RetryFrom n))"
  by (induction ns) (auto simp: check_retry_def)

text \<open>What \<open>Validate\<close> promises, stated over the stage graph.\<close>

definition valid_workflow :: "Node list \<Rightarrow> bool" where
  "valid_workflow nodes \<longleftrightarrow>
     1 \<le> length nodes \<and> length nodes \<le> 100 \<and> distinct (map n_ID nodes) \<and>
     (\<forall>n \<in> set nodes. n_ID n \<noteq> [] \<and> 1 \<le> n_MaxAttempts n \<and> n_MaxAttempts n \<le> 100 \<and>
        set (n_DependsOn n) \<subseteq> n_ID ` set nodes \<and>
        (n_RetryFrom n \<noteq> [] \<longrightarrow> n_RetryFrom n \<in> n_ID ` set nodes \<and>
           (n_RetryFrom n, n_ID n) \<in> (stage_edges nodes)\<^sup>*)) \<and>
     acyclic (stage_edges nodes)"

lemma walk_nodes:
  assumes "distinct (map n_ID ns)"
  shows "(\<exists>V. foldM (\<lambda>n. visit (node_index ns) {} (n_ID n)) ns {} = Inr V) \<longleftrightarrow>
    (\<forall>n \<in> set ns. set (n_DependsOn n) \<subseteq> n_ID ` set ns) \<and> acyclic (stage_edges ns)"
proof -
  have dom: "dom (node_deps (node_index ns)) = n_ID ` set ns"
    by (auto simp: dom_node_deps image_image)
  have "node_deps (node_index ns) i = Some ds \<longleftrightarrow> (\<exists>n \<in> set ns. n_ID n = i \<and> n_DependsOn n = ds)" for i ds
    using assms by (auto simp: node_deps_def map_of_node_index)
  then have known: "(\<forall>x ds. node_deps (node_index ns) x = Some ds \<longrightarrow> set ds \<subseteq> n_ID ` set ns) \<longleftrightarrow>
    (\<forall>n \<in> set ns. set (n_DependsOn n) \<subseteq> n_ID ` set ns)"
    by (simp only:) blast
  show ?thesis
    using stage_walk.walk_all_iff [of "map n_ID ns" "node_index ns"]
    by (simp add: visit_nodes_foldM dom known dep_edges_node_index [OF assms])
qed

lemma Validate_Inr:
  "Validate nodes = Inr () \<longleftrightarrow>
     nodes \<noteq> [] \<and> length nodes \<le> 100 \<and>
     (\<exists>byID V. foldM index_node nodes [] = Inr byID \<and>
        foldM (\<lambda>n. visit byID {} (n_ID n)) nodes {} = Inr V \<and> foldM (check_retry nodes) nodes () = Inr ())"
  by (auto simp: Validate_def split: sum.splits)

section \<open>Properties\<close>

text \<open>
  \<open>Validate\<close> accepts a workflow exactly when it has 1 to 100 stages with distinct nonempty ids
  and attempt budgets in 1..100, every dependency names a stage, the dependency graph has no cycle
  and every \<open>retry_from\<close> names the stage itself or one of its ancestors.
\<close>

theorem Validate_iff: "Validate nodes = Inr () \<longleftrightarrow> valid_workflow nodes"
proof (cases "distinct (map n_ID nodes)")
  case True
  have "Validate nodes = Inr () \<longleftrightarrow> nodes \<noteq> [] \<and> length nodes \<le> 100 \<and>
     (\<forall>n \<in> set nodes. n_ID n \<noteq> [] \<and> 1 \<le> n_MaxAttempts n \<and> n_MaxAttempts n \<le> 100) \<and>
     (\<exists>V. foldM (\<lambda>n. visit (node_index nodes) {} (n_ID n)) nodes {} = Inr V) \<and>
     foldM (check_retry nodes) nodes () = Inr ()"
    unfolding Validate_Inr by (subst index_nodes_Inr) (use True in auto)
  then show ?thesis
    unfolding walk_nodes [OF True] check_retry_all valid_workflow_def
    using True by (auto simp: Descendants_eq Suc_le_eq split: if_splits)
next
  case False
  then show ?thesis unfolding Validate_Inr valid_workflow_def by (subst index_nodes_Inr) auto
qed

text \<open>
  \<open>Descendants\<close> computes reachability: for a known root it returns exactly the stages that depend
  on the root directly or through others, the root included; for an unknown root, nothing.
\<close>

theorem Descendants_reach:
  "x \<in> Descendants nodes root \<longleftrightarrow> root \<in> n_ID ` set nodes \<and> (root, x) \<in> (stage_edges nodes)\<^sup>*"
  by (simp add: Descendants_eq)

end
