(* ===== verification/Json.thy ===== *)
theory Json
  imports Prelude
begin

text \<open>
  JSON values as the program stores them (PostgreSQL \<open>jsonb\<close> columns) and reads them back: the
  \<open>jsonb\<close> operators its SQL uses, and the decoding of Go structs by \<open>encoding/json\<close>. Numbers are
  integers, which is all the modelled fields hold.
\<close>

datatype json =
    JNull
  | JBool bool
  | JNum int
  | JStr string
  | JArr "json list"
  | JObj "(string \<times> json) list"

section \<open>jsonb operators\<close>

text \<open>\<open>j -> k\<close>: the member of an object; SQL null when the value is no object or lacks the key.\<close>

fun jget :: "json \<Rightarrow> string \<Rightarrow> json option" where
  "jget (JObj kvs) k = map_of kvs k"
| "jget _ k = None"

text \<open>
  \<open>j ->> k\<close>: the member as text. A JSON null is the SQL null. The text of a number, array or object
  is PostgreSQL's rendering, a parameter of the operations that can meet one.
\<close>

fun json_text :: "(json \<Rightarrow> string) \<Rightarrow> json \<Rightarrow> string option" where
  "json_text render JNull = None"
| "json_text render (JBool b) = Some (if b then ''true'' else ''false'')"
| "json_text render (JStr s) = Some s"
| "json_text render j = Some (render j)"

definition jget_text :: "(json \<Rightarrow> string) \<Rightarrow> json \<Rightarrow> string \<Rightarrow> string option" where
  "jget_text render j k = (case jget j k of None \<Rightarrow> None | Some v \<Rightarrow> json_text render v)"

definition set_member :: "string \<Rightarrow> json \<Rightarrow> (string \<times> json) list \<Rightarrow> (string \<times> json) list" where
  "set_member k v kvs = (k, v) # filter (\<lambda>(k', _). k' \<noteq> k) kvs"

text \<open>
  \<open>a || b\<close>: the union of two objects, the right side winning; otherwise the concatenation of two
  arrays, a non-array standing for the array of itself.
\<close>

fun as_array :: "json \<Rightarrow> json list" where
  "as_array (JArr xs) = xs"
| "as_array j = [j]"

fun jconcat :: "json \<Rightarrow> json \<Rightarrow> json" where
  "jconcat (JObj a) (JObj b) = JObj (fold (\<lambda>(k, v). set_member k v) b a)"
| "jconcat a b = JArr (as_array a @ as_array b)"

text \<open>\<open>j - k\<close> on an object removes the member; on an array it removes the equal strings.\<close>

fun jminus :: "json \<Rightarrow> string \<Rightarrow> json" where
  "jminus (JObj kvs) k = JObj (filter (\<lambda>(k', _). k' \<noteq> k) kvs)"
| "jminus (JArr xs) k = JArr (filter (\<lambda>x. x \<noteq> JStr k) xs)"
| "jminus j k = j"

lemma map_of_filter_key:
  "map_of (filter (\<lambda>(k', _). k' \<noteq> k) kvs) x = (if x = k then None else map_of kvs x)"
  by (induction kvs) auto

lemma map_of_set_member: "map_of (set_member k v kvs) x = (if x = k then Some v else map_of kvs x)"
  by (simp add: set_member_def map_of_filter_key)

lemma jget_jconcat:
  "jget (jconcat (JObj a) (JObj b)) k =
     (case map_of (rev b) k of None \<Rightarrow> map_of a k | Some v \<Rightarrow> Some v)"
proof (induction b arbitrary: a)
  case (Cons kv b)
  obtain k' v' where kv: "kv = (k', v')" by fastforce
  have "jget (jconcat (JObj a) (JObj (kv # b))) k = jget (jconcat (JObj (set_member k' v' a)) (JObj b)) k"
    by (simp add: kv)
  also have "\<dots> = (case map_of (rev b) k of None \<Rightarrow> map_of (set_member k' v' a) k | Some v \<Rightarrow> Some v)"
    by (rule Cons.IH)
  finally show ?case
    by (auto simp: kv map_of_set_member map_add_def split: option.splits)
qed simp

lemma jget_jminus: "jget (jminus (JObj kvs) k) x = (if x = k then None else jget (JObj kvs) x)"
  by (simp add: map_of_filter_key)

section \<open>Decoding Go structs\<close>

text \<open>
  \<open>encoding/json\<close> matches the members of an object to struct fields by name, falling back to a
  comparison that ignores case (and identifies U+017F with s and U+212A with k). Members are taken
  in order, a null leaves a field unchanged, a value of the wrong type makes the whole call fail.
  Decoding null into a struct is no error and changes nothing.
\<close>

fun fold_name :: "string \<Rightarrow> string" where
  "fold_name [] = []"
| "fold_name (c # cs) =
     (if c = CHR 0xC5 \<and> (case cs of [] \<Rightarrow> False | d # _ \<Rightarrow> d = CHR 0xBF) then CHR ''s'' # fold_name (tl cs)
      else if c = CHR 0xE2 \<and> take 2 cs = [CHR 0x84, CHR 0xAA] then CHR ''k'' # fold_name (drop 2 cs)
      else (if (65 \<le> (of_char c :: nat) \<and> (of_char c :: nat) \<le> 90)
            then char_of ((of_char c :: nat) + 32) else c) # fold_name cs)"

fun struct_members :: "json \<Rightarrow> (string \<times> json) list option" where
  "struct_members JNull = Some []"
| "struct_members (JObj kvs) = Some kvs"
| "struct_members _ = None"

definition field_values :: "string \<Rightarrow> (string \<times> json) list \<Rightarrow> json list" where
  "field_values name kvs = [v. (k, v) \<leftarrow> kvs, fold_name k = fold_name name, v \<noteq> JNull]"

definition scalar_field :: "(json \<Rightarrow> 'a option) \<Rightarrow> 'a \<Rightarrow> string \<Rightarrow> (string \<times> json) list \<Rightarrow> 'a option" where
  "scalar_field dec dflt name kvs =
     (let vs = map dec (field_values name kvs)
      in if list_all (\<lambda>v. v \<noteq> None) vs then (if vs = [] then Some dflt else last vs) else None)"

fun dec_str :: "json \<Rightarrow> string option" where
  "dec_str (JStr s) = Some s"
| "dec_str _ = None"

fun dec_bool :: "json \<Rightarrow> bool option" where
  "dec_bool (JBool b) = Some b"
| "dec_bool _ = None"

fun dec_int :: "json \<Rightarrow> int option" where
  "dec_int (JNum n) = Some n"
| "dec_int _ = None"

abbreviation str_field :: "string \<Rightarrow> (string \<times> json) list \<Rightarrow> string option" where
  "str_field \<equiv> scalar_field dec_str []"

abbreviation bool_field :: "string \<Rightarrow> (string \<times> json) list \<Rightarrow> bool option" where
  "bool_field \<equiv> scalar_field dec_bool False"

abbreviation int_field :: "string \<Rightarrow> (string \<times> json) list \<Rightarrow> int option" where
  "int_field \<equiv> scalar_field dec_int 0"

text \<open>
  A nested struct decodes every matching object into the same fields, one after the other, which is
  decoding the concatenation of their members.
\<close>

definition nested_members :: "string \<Rightarrow> (string \<times> json) list \<Rightarrow> (string \<times> json) list option" where
  "nested_members name kvs =
     (let ms = map struct_members (field_values name kvs)
      in if list_all (\<lambda>m. m \<noteq> None) ms then Some (concat (map the ms)) else None)"

end
