(* ===== verification/Task_Model.thy ===== *)
theory Task_Model
  imports Json
begin

text \<open>
  The persistent state of the task subsystem: the row types of \<open>internal/core\<close> (\<open>AgentTask\<close>,
  \<open>TaskStep\<close>, \<open>TaskRun\<close>, \<open>TaskArtifact\<close> and the tables beside them) and the database that holds
  them. A table is a list of rows. A nullable column is an option, a text column a byte string with
  the literal values the code compares with.
\<close>

record AgentTask =
  t_ExecutorVersion :: int
  t_ID :: uuid
  t_SoulID :: uuid
  t_UserID :: uuid
  t_Title :: string
  t_Description :: "string option"
  t_AcceptanceCriteria :: "string option"
  t_Strategy :: string
  t_Handler :: string
  t_DelegateTo :: "string option"
  t_Config :: json
  t_Plan :: json
  t_Tools :: "string list"
  t_UseAgents :: "string list"
  t_Schedule :: "string option"
  t_Deadline :: "gotime option"
  t_Cadence :: "string option"
  t_Status :: string
  t_Progress :: json
  t_Result :: "string option"
  t_ErrorMessage :: "string option"
  t_Iteration :: int
  t_MaxIterations :: int
  t_LastRunAt :: "gotime option"
  t_CompletedAt :: "gotime option"
  t_CreatedAt :: gotime
  t_SessionID :: "string option"
  t_RequiredRecheckURLs :: "string list"

record TaskStep =
  s_ProgressAt :: "gotime option"
  s_Tools :: "string list"
  s_NextAttemptAt :: gotime
  s_LastError :: string
  s_TaskID :: uuid
  s_ID :: string
  s_Goal :: string
  s_Acceptance :: string
  s_Kind :: string
  s_Dependencies :: "string list"
  s_Status :: string
  s_Result :: string
  s_Checkpoint :: json
  s_Attempts :: int
  s_MaxAttempts :: int
  s_RunID :: "uuid option"
  s_LeaseUntil :: "gotime option"
  s_HeartbeatAt :: "gotime option"
  s_StartedAt :: "gotime option"
  s_CompletedAt :: "gotime option"
  s_EstimatedMS :: "int option"

record TaskRun =
  r_TaskID :: uuid
  r_RunID :: uuid
  r_LeaseUntil :: gotime
  r_HeartbeatAt :: gotime
  r_NextAttemptAt :: gotime
  r_StartedAt :: gotime

record TaskArtifact =
  a_TaskID :: uuid
  a_Version :: int
  a_Outcome :: string
  a_Body :: string
  a_Reason :: string
  a_CreatedAt :: gotime

record TaskDeliveryRef =
  d_InputID :: string
  d_ItemKey :: string

text \<open>A row of \<open>agent_task_notification_attempts\<close>, and one of its reserved items.\<close>

record NotificationAttempt =
  na_ID :: uuid
  na_TaskID :: uuid
  na_UserID :: uuid
  na_OccurrenceKey :: string
  na_MessageText :: string
  na_State :: string
  na_Receipt :: "json option"
  na_ErrorMessage :: "string option"
  na_AttemptCount :: int
  na_NextAttemptAt :: "gotime option"
  na_LastAttemptAt :: gotime
  na_CreatedAt :: gotime
  na_ResolvedAt :: "gotime option"

record AttemptItem =
  ni_AttemptID :: uuid
  ni_TaskID :: uuid
  ni_Ref :: TaskDeliveryRef

text \<open>Drafts that outlive an iteration: the saved candidate, the checkpoint and the history.\<close>

record TaskSubmission =
  sub_TaskID :: uuid
  sub_Output :: string
  sub_Notify :: string
  sub_Progress :: json
  sub_ToolCalls :: json
  sub_PendingDeliveries :: json
  sub_ReviewAttempts :: int
  sub_NextReviewAt :: gotime
  sub_LastError :: string

record TaskCheckpoint =
  cp_TaskID :: uuid
  cp_ClaimStartedAt :: gotime
  cp_Iteration :: int
  cp_SessionID :: string
  cp_Phase :: string
  cp_Output :: string
  cp_Progress :: json
  cp_ToolCalls :: json
  cp_Receipts :: json
  cp_PendingTool :: "json option"
  cp_UpdatedAt :: gotime

record IterationRow =
  it_TaskID :: uuid
  it_Iteration :: int
  it_Output :: "string option"

record db =
  agent_tasks :: "AgentTask list"
  agent_task_steps :: "TaskStep list"
  agent_task_runs :: "TaskRun list"
  agent_task_artifacts :: "TaskArtifact list"
  notification_attempts :: "NotificationAttempt list"
  notification_items :: "AttemptItem list"
  agent_task_deliveries :: "(uuid \<times> TaskDeliveryRef) list"
  agent_task_submissions :: "TaskSubmission list"
  agent_task_checkpoints :: "TaskCheckpoint list"
  agent_task_iterations :: "IterationRow list"
  agent_task_restarts :: "(uuid \<times> uuid) list"
  agent_task_dismissals :: "uuid list"

text \<open>
  Every error a modelled operation can return. An operation is one transaction: it returns \<open>Inl e\<close>
  (the transaction is rolled back, so the database stays as it was) or \<open>Inr (v, d)\<close> (it committed
  and left the database \<open>d\<close>).
\<close>

datatype plan_error =
    PlanSize
  | StepFields
  | DuplicateStep string
  | InvalidStepKind string
  | InvalidAttemptBudget
  | InvalidTimeEstimate
  | PlanCycle string
  | UnknownStep string
  | DuplicateDependency string

datatype store_error =
    ErrTaskClaimLost
  | ErrNoRows
  | ErrTaskActive
  | ErrTaskNotTerminal
  | ErrTaskRestartUncertain
  | ErrTaskNotRecurring
  | InvalidPlan plan_error
  | InvalidStepLease
  | InvalidTaskLease
  | EmptyStepResult
  | YieldWithRunningSteps
  | InvalidLimit
  | InvalidOutcome string
  | CompletedWithoutResult
  | NoResultOrExplanation
  | RefTooLong
  | MissingArgument string
  | TaskUserPairNotFound
  | PartialOverlap nat nat
  | AttemptInState string
  | InvalidAttemptState string
  | StateLost
  | NoReservedRefs
  | ForeignAutonomousTurn
  | MalformedAutonomousTurn
  | NoLongerRunning
  | ConstraintViolation
  | UnsupportedExecutor
  | NotGraphEligible
  | MalformedJSON

type_synonym 'a tx = "store_error + ('a \<times> db)"

text \<open>
  The clock readings of one transaction: \<open>clk 0\<close> is the start of the transaction (\<open>now()\<close>), the
  later readings are \<open>clock_timestamp()\<close> or \<open>time.Now()\<close> of its later statements. Theorems that
  depend on time going forward assume that the readings are ordered.
\<close>

type_synonym clock = "nat \<Rightarrow> gotime"

definition clock_from :: "gotime \<Rightarrow> clock \<Rightarrow> bool" where
  "clock_from t clk \<longleftrightarrow> t \<le> clk 0 \<and> mono clk"

lemma clock_fromD: "clock_from t clk \<Longrightarrow> t \<le> clk k"
  by (auto simp: clock_from_def dest: monoD [of clk 0 k])

section \<open>Lookups\<close>

definition find_task :: "db \<Rightarrow> uuid \<Rightarrow> AgentTask option" where
  "find_task d i = List.find (\<lambda>t. t_ID t = i) (agent_tasks d)"

definition steps_of :: "db \<Rightarrow> uuid \<Rightarrow> TaskStep list" where
  "steps_of d i = filter (\<lambda>s. s_TaskID s = i) (agent_task_steps d)"

definition find_step :: "db \<Rightarrow> uuid \<Rightarrow> string \<Rightarrow> TaskStep option" where
  "find_step d i sid = List.find (\<lambda>s. s_TaskID s = i \<and> s_ID s = sid) (agent_task_steps d)"

abbreviation step_key :: "TaskStep \<Rightarrow> uuid \<times> string" where
  "step_key s \<equiv> (s_TaskID s, s_ID s)"

text \<open>The primary keys of the tables.\<close>

definition keys_ok :: "db \<Rightarrow> bool" where
  "keys_ok d \<longleftrightarrow> distinct (map t_ID (agent_tasks d)) \<and>
     distinct (map step_key (agent_task_steps d)) \<and>
     distinct (map r_TaskID (agent_task_runs d))"

interpretation task_rows: keyed_rows t_ID .
interpretation step_rows: keyed_rows step_key .
interpretation run_rows: keyed_rows r_TaskID .

lemma find_task_SomeD: "find_task d i = Some t \<Longrightarrow> t \<in> set (agent_tasks d) \<and> t_ID t = i"
  by (auto simp: find_task_def find_Some_iff)

lemma find_task_update:
  assumes "\<And>t. t_ID (f t) = t_ID t"
  shows "find_task (d\<lparr>agent_tasks := update_where p f (agent_tasks d)\<rparr>) i = map_option (\<lambda>t. if p t then f t else t) (find_task d i)"
proof -
  have "List.find (\<lambda>t. t_ID t = i) (update_where p f ts) = map_option (\<lambda>t. if p t then f t else t) (List.find (\<lambda>t. t_ID t = i) ts)" for ts
    using assms by (induction ts) auto
  then show ?thesis by (simp add: find_task_def)
qed

lemma find_step_SomeD:
  "find_step d i sid = Some s \<Longrightarrow> s \<in> set (agent_task_steps d) \<and> s_TaskID s = i \<and> s_ID s = sid"
  by (auto simp: find_step_def find_Some_iff)

lemma find_step_lookup: "find_step d i sid = step_rows.lookup (i, sid) (agent_task_steps d)"
  by (simp add: find_step_def step_rows.lookup_def)

lemma find_task_lookup: "find_task d i = task_rows.lookup i (agent_tasks d)"
  by (simp add: find_task_def task_rows.lookup_def)

text \<open>Every operation of the development starts from an empty database.\<close>

definition empty_db :: db where
  "empty_db = \<lparr>agent_tasks = [], agent_task_steps = [], agent_task_runs = [],
     agent_task_artifacts = [], notification_attempts = [], notification_items = [],
     agent_task_deliveries = [], agent_task_submissions = [], agent_task_checkpoints = [],
     agent_task_iterations = [], agent_task_restarts = [], agent_task_dismissals = []\<rparr>"

text \<open>A pending one-shot task with every optional column empty, for examples.\<close>

definition blank_task :: "uuid \<Rightarrow> uuid \<Rightarrow> int \<Rightarrow> AgentTask" where
  "blank_task i user v = \<lparr>t_ExecutorVersion = v, t_ID = i, t_SoulID = 1, t_UserID = user,
     t_Title = ''task'', t_Description = None, t_AcceptanceCriteria = None, t_Strategy = ''direct'',
     t_Handler = ''background'', t_DelegateTo = None, t_Config = JObj [], t_Plan = JObj [],
     t_Tools = [], t_UseAgents = [], t_Schedule = None, t_Deadline = None, t_Cadence = None,
     t_Status = ''pending'', t_Progress = JObj [], t_Result = None, t_ErrorMessage = None,
     t_Iteration = 0, t_MaxIterations = 10, t_LastRunAt = None, t_CompletedAt = None,
     t_CreatedAt = 1, t_SessionID = None, t_RequiredRecheckURLs = []\<rparr>"

definition blank_step :: "uuid \<Rightarrow> string \<Rightarrow> string \<Rightarrow> TaskStep" where
  "blank_step i sid kind = \<lparr>s_ProgressAt = None, s_Tools = [], s_NextAttemptAt = 1, s_LastError = [],
     s_TaskID = i, s_ID = sid, s_Goal = ''goal'', s_Acceptance = ''acceptance'', s_Kind = kind,
     s_Dependencies = [], s_Status = ''pending'', s_Result = [], s_Checkpoint = JObj [],
     s_Attempts = 0, s_MaxAttempts = 3, s_RunID = None, s_LeaseUntil = None, s_HeartbeatAt = None,
     s_StartedAt = None, s_CompletedAt = None, s_EstimatedMS = None\<rparr>"

end
