(* ===== verification/Step_Plan.thy ===== *)
theory Step_Plan
  imports Dependency_Walk Task_Model
begin

text \<open>
  \<open>ValidateTaskSteps\<close> of \<open>internal/core/task_steps.go\<close>: the acceptance check of a task plan before
  any of its steps is persisted.
\<close>

section \<open>Model\<close>

text \<open>The first loop: field checks of one step, and the index \<open>byID\<close>.\<close>

definition index_step :: "TaskStep \<Rightarrow> (string \<times> TaskStep) list \<Rightarrow> plan_error + (string \<times> TaskStep) list" where
  "index_step step byID =
     (if s_ID step = [] \<or> length (s_ID step) > 80 \<or> trim_space (s_Goal step) = [] \<or>
         trim_space (s_Acceptance step) = [] then Inl StepFields
      else if map_of byID (s_ID step) \<noteq> None then Inl (DuplicateStep (s_ID step))
      else if s_Kind step \<noteq> ''read'' \<and> s_Kind step \<noteq> ''action'' \<and> s_Kind step \<noteq> ''finalize''
        then Inl (InvalidStepKind (s_Kind step))
      else if s_MaxAttempts step < 0 \<or> s_MaxAttempts step > 10 then Inl InvalidAttemptBudget
      else if (case s_EstimatedMS step of None \<Rightarrow> False | Some ms \<Rightarrow> ms \<le> 0) then Inl InvalidTimeEstimate
      else Inr ((s_ID step, step) # byID))"

text \<open>
  The closure \<open>walk\<close>. As in the workflow checker, \<open>visiting\<close> is the set of ids on the call path; the
  loop over the dependencies also keeps the set \<open>seen\<close> of the dependencies already met.
\<close>

function walk :: "(string \<times> TaskStep) list \<Rightarrow> string set \<Rightarrow> string \<Rightarrow> string set \<Rightarrow> plan_error + string set" where
  "walk byID S i V =
     (if i \<in> S then Inl (PlanCycle i)
      else if i \<in> V then Inr V
      else case map_of byID i of
          None \<Rightarrow> Inl (UnknownStep i)
        | Some step \<Rightarrow>
            (case foldM (\<lambda>dep st. case st of (seen, U) \<Rightarrow>
                     if dep \<in> seen then Inl (DuplicateDependency dep)
                     else (case walk byID (insert i S) dep U of
                             Inl e \<Rightarrow> Inl e
                           | Inr U' \<Rightarrow> Inr (insert dep seen, U')))
                   (s_Dependencies step) ({}, V) of
               Inl e \<Rightarrow> Inl e
             | Inr (seen, V') \<Rightarrow> Inr (insert i V')))"
  by pat_completeness auto
termination
proof (relation "measure (\<lambda>(byID, S, i, V). card (fst ` set byID - S))", simp)
  fix byID :: "(string \<times> TaskStep) list" and S i V step dep st seen U
  assume "i \<notin> S" and "map_of byID i = Some step"
  then have "i \<in> fst ` set byID - S" by (force dest: map_of_SomeD)
  then have "fst ` set byID - insert i S \<subset> fst ` set byID - S" by auto
  then show "((byID, insert i S, dep, U), byID, S, i, V) \<in> measure (\<lambda>(byID, S, i, V). card (fst ` set byID - S))"
    by (simp add: psubset_card_mono)
qed

declare walk.simps [simp del]

text \<open>
  The last loop ranges over the map \<open>byID\<close>, in an order Go does not fix: \<open>order\<close> is the sequence of
  its keys.
\<close>

definition ValidateTaskSteps :: "string list \<Rightarrow> TaskStep list \<Rightarrow> plan_error + unit" where
  "ValidateTaskSteps order steps =
     (if steps = [] \<or> length steps > 64 then Inl PlanSize
      else case foldM index_step steps [] of
          Inl e \<Rightarrow> Inl e
        | Inr byID \<Rightarrow>
            (case foldM (walk byID {}) order {} of
               Inl e \<Rightarrow> Inl e
             | Inr V \<Rightarrow> Inr ()))"

section \<open>What the check promises\<close>

definition step_fields_ok :: "TaskStep \<Rightarrow> bool" where
  "step_fields_ok s \<longleftrightarrow> s_ID s \<noteq> [] \<and> length (s_ID s) \<le> 80 \<and>
     trim_space (s_Goal s) \<noteq> [] \<and> trim_space (s_Acceptance s) \<noteq> [] \<and>
     s_Kind s \<in> {''read'', ''action'', ''finalize''} \<and>
     0 \<le> s_MaxAttempts s \<and> s_MaxAttempts s \<le> 10 \<and>
     (case s_EstimatedMS s of None \<Rightarrow> True | Some ms \<Rightarrow> 0 < ms)"

definition plan_edges :: "TaskStep list \<Rightarrow> (string \<times> string) set" where
  "plan_edges steps = {(d, s_ID s) | d s. s \<in> set steps \<and> d \<in> set (s_Dependencies s)}"

definition valid_plan :: "TaskStep list \<Rightarrow> bool" where
  "valid_plan steps \<longleftrightarrow> 1 \<le> length steps \<and> length steps \<le> 64 \<and> distinct (map s_ID steps) \<and>
     (\<forall>s \<in> set steps. step_fields_ok s \<and> distinct (s_Dependencies s) \<and>
        set (s_Dependencies s) \<subseteq> s_ID ` set steps) \<and>
     acyclic (plan_edges steps)"

lemma index_step_Inr:
  "index_step s byID = Inr byID' \<longleftrightarrow>
     step_fields_ok s \<and> s_ID s \<notin> fst ` set byID \<and> byID' = (s_ID s, s) # byID"
  by (auto simp: index_step_def step_fields_ok_def map_of_eq_None_iff split: option.splits)

lemma index_steps_Inr:
  "foldM index_step ss byID = Inr byID' \<longleftrightarrow>
     (\<forall>s \<in> set ss. step_fields_ok s \<and> s_ID s \<notin> fst ` set byID) \<and> distinct (map s_ID ss) \<and>
     byID' = rev (map (\<lambda>s. (s_ID s, s)) ss) @ byID"
proof (induction ss arbitrary: byID)
  case (Cons s ss)
  show ?case
  proof (cases "step_fields_ok s \<and> s_ID s \<notin> fst ` set byID")
    case True
    then have "index_step s byID = Inr ((s_ID s, s) # byID)" by (simp add: index_step_Inr)
    then show ?thesis using True Cons.IH [of "(s_ID s, s) # byID"] by (auto simp: image_iff)
  next
    case False
    then obtain e where "index_step s byID = Inl e"
      by (cases "index_step s byID") (auto simp: index_step_Inr)
    then show ?thesis using False by auto
  qed
qed auto

text \<open>The loop with the duplicate check is the plain loop over distinct dependencies.\<close>

lemma foldM_seen:
  "foldM (\<lambda>dep st. case st of (seen, U) \<Rightarrow>
       if dep \<in> seen then Inl (DuplicateDependency dep)
       else (case f dep U of Inl e \<Rightarrow> Inl e | Inr U' \<Rightarrow> Inr (insert dep seen, U'))) ds (seen, V) = Inr (seen', W) \<longleftrightarrow>
   distinct ds \<and> set ds \<inter> seen = {} \<and> foldM f ds V = Inr W \<and> seen' = seen \<union> set ds"
proof (induction ds arbitrary: seen V)
  case (Cons d ds)
  show ?case
  proof (cases "d \<in> seen")
    case False
    then show ?thesis using Cons.IH [of "insert d seen"] by (cases "f d V") auto
  qed simp
qed auto

abbreviation step_index :: "TaskStep list \<Rightarrow> (string \<times> TaskStep) list" where
  "step_index ss \<equiv> rev (map (\<lambda>s. (s_ID s, s)) ss)"

definition step_deps :: "(string \<times> TaskStep) list \<Rightarrow> string \<Rightarrow> string list option" where
  "step_deps byID i = map_option s_Dependencies (map_of byID i)"

lemma dom_step_deps: "dom (step_deps byID) = fst ` set byID"
  by (force simp: step_deps_def dom_def map_of_eq_None_iff simp flip: not_None_eq)

interpretation plan_walk: dependency_walk "step_deps byID" distinct "walk byID"
  for byID
proof
  show "finite (dom (step_deps byID))" by (simp add: dom_step_deps)
next
  fix S x V W
  show "walk byID S x V = Inr W \<longleftrightarrow> x \<notin> S \<and> (if x \<in> V then W = V
      else \<exists>ds V'. step_deps byID x = Some ds \<and> distinct ds \<and>
        foldM (walk byID (insert x S)) ds V = Inr V' \<and> W = insert x V')"
  proof (cases "map_of byID x")
    case None
    then show ?thesis by (subst walk.simps) (auto simp: step_deps_def)
  next
    case (Some step)
    let ?ds = "s_Dependencies step"
    let ?loop = "foldM (\<lambda>dep st. case st of (seen, U) \<Rightarrow>
      if dep \<in> seen then Inl (DuplicateDependency dep)
      else (case walk byID (insert x S) dep U of Inl e \<Rightarrow> Inl e
            | Inr U' \<Rightarrow> Inr (insert dep seen, U'))) ?ds ({}, V)"
    have loop: "?loop = Inr (seen, V') \<longleftrightarrow>
        distinct ?ds \<and> foldM (walk byID (insert x S)) ?ds V = Inr V' \<and> seen = set ?ds" for seen V'
      using foldM_seen [of "walk byID (insert x S)" ?ds "{}" V seen V'] by simp
    have "walk byID S x V = (if x \<in> S then Inl (PlanCycle x) else if x \<in> V then Inr V
        else case ?loop of Inl e \<Rightarrow> Inl e | Inr (seen, V') \<Rightarrow> Inr (insert x V'))"
      by (subst walk.simps) (simp add: Some)
    then have "walk byID S x V = Inr W \<longleftrightarrow> x \<notin> S \<and> (if x \<in> V then W = V
        else \<exists>seen V'. ?loop = Inr (seen, V') \<and> W = insert x V')"
      by (auto split: sum.splits prod.splits)
    then show ?thesis unfolding loop by (auto simp: step_deps_def Some)
  qed
qed

lemma map_of_step_index:
  "distinct (map s_ID ss) \<Longrightarrow> map_of (step_index ss) i = Some s \<longleftrightarrow> s \<in> set ss \<and> s_ID s = i"
  by (subst map_of_eq_Some_iff) (auto simp: comp_def simp flip: rev_map)

lemma walk_steps:
  assumes "distinct (map s_ID ss)" and "set order = s_ID ` set ss"
  shows "(\<exists>V. foldM (walk (step_index ss) {}) order {} = Inr V) \<longleftrightarrow>
    (\<forall>s \<in> set ss. distinct (s_Dependencies s) \<and> set (s_Dependencies s) \<subseteq> s_ID ` set ss) \<and>
    acyclic (plan_edges ss)"
proof -
  have dom: "dom (step_deps (step_index ss)) = s_ID ` set ss"
    by (auto simp: dom_step_deps image_image)
  have deps: "step_deps (step_index ss) i = Some ds \<longleftrightarrow> (\<exists>s \<in> set ss. s_ID s = i \<and> s_Dependencies s = ds)" for i ds
    using assms(1) by (auto simp: step_deps_def map_of_step_index)
  then have known: "(\<forall>x ds. step_deps (step_index ss) x = Some ds \<longrightarrow> distinct ds \<and> set ds \<subseteq> s_ID ` set ss) \<longleftrightarrow>
    (\<forall>s \<in> set ss. distinct (s_Dependencies s) \<and> set (s_Dependencies s) \<subseteq> s_ID ` set ss)"
    by (simp only:) blast
  have "dep_edges (step_deps (step_index ss)) = plan_edges ss"
    by (auto simp: dep_edges_def plan_edges_def deps)
  then show ?thesis
    using plan_walk.walk_all_iff [of order "step_index ss"] assms(2)
    by (simp add: dom known)
qed

lemma ValidateTaskSteps_Inr:
  "ValidateTaskSteps order steps = Inr () \<longleftrightarrow> steps \<noteq> [] \<and> length steps \<le> 64 \<and>
     (\<exists>byID V. foldM index_step steps [] = Inr byID \<and> foldM (walk byID {}) order {} = Inr V)"
  by (auto simp: ValidateTaskSteps_def split: sum.splits)

lemma ValidateTaskSteps_valid:
  assumes "set order = s_ID ` set steps"
  shows "ValidateTaskSteps order steps = Inr () \<longleftrightarrow> valid_plan steps"
proof (cases "distinct (map s_ID steps)")
  case True
  then show ?thesis
    using walk_steps [OF True assms]
    by (auto simp: ValidateTaskSteps_Inr index_steps_Inr valid_plan_def Suc_le_eq)
next
  case False
  then show ?thesis by (auto simp: ValidateTaskSteps_Inr index_steps_Inr valid_plan_def)
qed

section \<open>Properties\<close>

text \<open>
  C26. \<open>ValidateTaskSteps\<close> accepts a plan exactly when it has 1 to 64 steps with distinct ids, every
  step has its required fields, a known kind, an attempt budget in 0..10 and a positive estimate if
  any, no step repeats a dependency, every dependency names a step of the plan and the dependency
  graph has no cycle; the order in which Go ranges over its map cannot change the verdict.
\<close>

theorem ValidateTaskSteps_iff:
  assumes "set order = s_ID ` set steps"
  shows "ValidateTaskSteps order steps = Inr () \<longleftrightarrow> valid_plan steps"
  using assms by (rule ValidateTaskSteps_valid)

theorem ValidateTaskSteps_iff_witness:
  "ValidateTaskSteps [''a''] [blank_step 1 ''a'' ''read''] = Inr () \<longleftrightarrow> valid_plan [blank_step 1 ''a'' ''read'']"
  by (rule ValidateTaskSteps_iff) (simp add: blank_step_def)

end
