(* ===== verification/Step_Store.thy ===== *)
theory Step_Store
  imports Step_Plan
begin

text \<open>
  The persistent step graph of \<open>internal/core/task_steps.go\<close> and the execution fence of
  \<open>internal/core/task_run.go\<close>. Every operation is one transaction on the database: the arguments are
  the run id the context carries (\<open>WithTaskRunID\<close>, \<open>uuid_Nil\<close> when absent), the clock readings of the
  transaction's statements, the id \<open>uuid.New()\<close> returns, the arguments of the method and the database.
  One reading of the clock serves all occurrences of \<open>clock_timestamp()\<close> in one statement.
\<close>

section \<open>The execution fence\<close>

definition requireTaskRun :: "uuid \<Rightarrow> gotime \<Rightarrow> uuid \<Rightarrow> db \<Rightarrow> store_error + unit" where
  "requireTaskRun run now i d =
     (if run = uuid_Nil then Inl ErrTaskClaimLost
      else if \<exists>r \<in> set (agent_task_runs d). r_TaskID r = i \<and> r_RunID r = run \<and> now < r_LeaseUntil r
        then Inr ()
      else Inl ErrTaskClaimLost)"

definition lockTaskExecution ::
    "uuid \<Rightarrow> clock \<Rightarrow> uuid \<Rightarrow> gotime option \<Rightarrow> bool \<Rightarrow> db \<Rightarrow> store_error + unit" where
  "lockTaskExecution run clk i claim deadline d =
     (case find_task d i of
        None \<Rightarrow> Inl ErrTaskClaimLost
      | Some task \<Rightarrow>
          if t_Status task \<noteq> ''running'' \<or>
             (case claim of None \<Rightarrow> False | Some c \<Rightarrow> t_LastRunAt task \<noteq> Some c)
            then Inl ErrTaskClaimLost
          else if deadline \<and> (case t_Deadline task of None \<Rightarrow> False | Some dl \<Rightarrow> \<not> clk 1 < dl)
            then Inl ErrTaskClaimLost
          else if t_ExecutorVersion task = 2 then requireTaskRun run (clk 2) i d
          else Inr ())"

text \<open>A lease is given in whole milliseconds, between one second and ten minutes.\<close>

definition lease_ok :: "duration \<Rightarrow> bool" where
  "lease_ok lease \<longleftrightarrow> \<not> (lease < second \<or> lease > 10 * minute)"

definition lease_end :: "gotime \<Rightarrow> duration \<Rightarrow> gotime" where
  "lease_end now lease = now + milliseconds lease * millisecond"

section \<open>Plans\<close>

text \<open>The CHECK constraints of migration 026 on a row of \<open>agent_task_steps\<close>.\<close>

definition step_checks :: "TaskStep \<Rightarrow> bool" where
  "step_checks s \<longleftrightarrow> btrim (s_Goal s) \<noteq> [] \<and> btrim (s_Acceptance s) \<noteq> [] \<and>
     s_Kind s \<in> {''read'', ''action'', ''finalize''} \<and>
     s_Status s \<in> {''pending'', ''running'', ''done'', ''blocked'', ''reconciliation''} \<and>
     1 \<le> s_MaxAttempts s \<and> s_MaxAttempts s \<le> 10 \<and>
     (case s_EstimatedMS s of None \<Rightarrow> True | Some ms \<Rightarrow> 0 < ms)"

text \<open>The inserted row: the columns of the statement, the defaults of the table for the rest.\<close>

definition new_step :: "gotime \<Rightarrow> uuid \<Rightarrow> TaskStep \<Rightarrow> TaskStep" where
  "new_step now i step = \<lparr>s_ProgressAt = None, s_Tools = s_Tools step, s_NextAttemptAt = now,
     s_LastError = [], s_TaskID = i, s_ID = s_ID step, s_Goal = s_Goal step,
     s_Acceptance = s_Acceptance step, s_Kind = s_Kind step, s_Dependencies = s_Dependencies step,
     s_Status = ''pending'', s_Result = [], s_Checkpoint = JObj [], s_Attempts = 0,
     s_MaxAttempts = (if s_MaxAttempts step = 0 then 3 else s_MaxAttempts step),
     s_RunID = None, s_LeaseUntil = None, s_HeartbeatAt = None, s_StartedAt = None,
     s_CompletedAt = None, s_EstimatedMS = s_EstimatedMS step\<rparr>"

definition insert_step :: "gotime \<Rightarrow> uuid \<Rightarrow> TaskStep \<Rightarrow> TaskStep list \<Rightarrow> store_error + TaskStep list" where
  "insert_step now i step rows =
     (let row = new_step now i step in
      if step_checks row \<and> step_key row \<notin> step_key ` set rows then Inr (rows @ [row])
      else Inl ConstraintViolation)"

definition SaveTaskSteps ::
    "uuid \<Rightarrow> clock \<Rightarrow> string list \<Rightarrow> uuid \<Rightarrow> gotime \<Rightarrow> TaskStep list \<Rightarrow> db \<Rightarrow> unit tx" where
  "SaveTaskSteps run clk order i claim steps d =
     (case ValidateTaskSteps order steps of
        Inl e \<Rightarrow> Inl (InvalidPlan e)
      | Inr _ \<Rightarrow>
          (case lockTaskExecution run clk i (Some claim) False d of
             Inl e \<Rightarrow> Inl e
           | Inr _ \<Rightarrow>
               (case foldM (insert_step (clk 0) i) steps (agent_task_steps d) of
                  Inl e \<Rightarrow> Inl e
                | Inr rows \<Rightarrow> Inr ((), d\<lparr>agent_task_steps := rows\<rparr>))))"

text \<open>\<open>ORDER BY step_id\<close> follows the database's collation, given by the sort key \<open>coll\<close>.\<close>

definition TaskSteps :: "(string \<Rightarrow> 'k::linorder) \<Rightarrow> uuid \<Rightarrow> db \<Rightarrow> TaskStep list" where
  "TaskSteps coll i d = sort_key (\<lambda>s. coll (s_ID s)) (steps_of d i)"

section \<open>Claims\<close>

definition busy :: "TaskStep \<Rightarrow> bool" where
  "busy s \<longleftrightarrow> s_Status s = ''running'' \<or> s_Status s = ''reconciliation''"

definition claimable :: "gotime \<Rightarrow> uuid \<Rightarrow> string \<Rightarrow> TaskStep list \<Rightarrow> TaskStep \<Rightarrow> bool" where
  "claimable now i stepID rows s \<longleftrightarrow>
     s_TaskID s = i \<and> s_ID s = stepID \<and> s_Status s = ''pending'' \<and> s_NextAttemptAt s \<le> now \<and>
     s_Attempts s < s_MaxAttempts s \<and>
     \<not> (\<exists>peer \<in> set rows. s_TaskID peer = s_TaskID s \<and> busy peer \<and>
          (s_Kind s \<noteq> ''read'' \<or> s_Kind peer \<noteq> ''read'')) \<and>
     \<not> (\<exists>dep \<in> set (s_Dependencies s).
          \<not> (\<exists>parent \<in> set rows. s_TaskID parent = s_TaskID s \<and> s_ID parent = dep \<and>
                s_Status parent = ''done''))"

definition claimed :: "uuid \<Rightarrow> gotime \<Rightarrow> duration \<Rightarrow> TaskStep \<Rightarrow> TaskStep" where
  "claimed new now lease s = s\<lparr>s_Status := ''running'', s_RunID := Some new,
     s_LeaseUntil := Some (lease_end now lease), s_HeartbeatAt := Some now,
     s_StartedAt := (case s_StartedAt s of None \<Rightarrow> Some now | Some t \<Rightarrow> Some t),
     s_Attempts := s_Attempts s + 1\<rparr>"

definition ClaimTaskStep ::
    "uuid \<Rightarrow> clock \<Rightarrow> uuid \<Rightarrow> uuid \<Rightarrow> string \<Rightarrow> duration \<Rightarrow> db \<Rightarrow> TaskStep option tx" where
  "ClaimTaskStep run clk new i stepID lease d =
     (if \<not> lease_ok lease then Inl InvalidStepLease
      else case lockTaskExecution run clk i None True d of
          Inl e \<Rightarrow> Inl e
        | Inr _ \<Rightarrow>
            let rows = agent_task_steps d in
            (case List.find (claimable (clk 3) i stepID rows) rows of
               None \<Rightarrow> Inr (None, d)
             | Some s \<Rightarrow> Inr (Some (claimed new (clk 3) lease s),
                 d\<lparr>agent_task_steps :=
                   update_where (claimable (clk 3) i stepID rows) (claimed new (clk 3) lease) rows\<rparr>)))"

section \<open>Writes under a claim\<close>

definition live_claim :: "gotime \<Rightarrow> uuid \<Rightarrow> string \<Rightarrow> uuid \<Rightarrow> TaskStep \<Rightarrow> bool" where
  "live_claim now i stepID run s \<longleftrightarrow> s_TaskID s = i \<and> s_ID s = stepID \<and> s_RunID s = Some run \<and>
     s_Status s = ''running'' \<and> (case s_LeaseUntil s of None \<Rightarrow> False | Some l \<Rightarrow> now < l)"

text \<open>An \<open>UPDATE\<close> that must match a row: no row affected is a lost claim.\<close>

definition update_claimed :: "(TaskStep \<Rightarrow> bool) \<Rightarrow> (TaskStep \<Rightarrow> TaskStep) \<Rightarrow> db \<Rightarrow> unit tx" where
  "update_claimed p f d =
     (if rows_affected p (agent_task_steps d) = 0 then Inl ErrTaskClaimLost
      else Inr ((), d\<lparr>agent_task_steps := update_where p f (agent_task_steps d)\<rparr>))"

definition completed_row :: "gotime \<Rightarrow> string \<Rightarrow> TaskStep \<Rightarrow> TaskStep" where
  "completed_row now result s = s\<lparr>s_Status := ''done'', s_Result := result,
     s_CompletedAt := Some now, s_ProgressAt := Some now, s_LeaseUntil := None\<rparr>"

definition checkpointed_row :: "gotime \<Rightarrow> json option \<Rightarrow> duration \<Rightarrow> TaskStep \<Rightarrow> TaskStep" where
  "checkpointed_row now checkpoint lease s = s\<lparr>
     s_ProgressAt := (case checkpoint of None \<Rightarrow> s_ProgressAt s
        | Some cp \<Rightarrow> if s_Checkpoint s \<noteq> cp then Some now else s_ProgressAt s),
     s_Checkpoint := (case checkpoint of None \<Rightarrow> s_Checkpoint s | Some cp \<Rightarrow> cp),
     s_HeartbeatAt := Some now, s_LeaseUntil := Some (lease_end now lease)\<rparr>"

text \<open>
  \<open>nullableStepCheckpoint\<close> turns an empty message into SQL null, so the checkpoint is an option of a
  parsed value.
\<close>

definition updateTaskStep ::
    "uuid \<Rightarrow> clock \<Rightarrow> uuid \<Rightarrow> string \<Rightarrow> uuid \<Rightarrow> bool \<Rightarrow> string \<Rightarrow> json option \<Rightarrow> duration \<Rightarrow> db \<Rightarrow> unit tx" where
  "updateTaskStep run clk i stepID srun complete result checkpoint lease d =
     (case lockTaskExecution run clk i None True d of
        Inl e \<Rightarrow> Inl e
      | Inr _ \<Rightarrow>
          update_claimed (live_claim (clk 3) i stepID srun)
            (if complete then completed_row (clk 3) result
             else checkpointed_row (clk 3) checkpoint lease) d)"

definition CheckpointTaskStep ::
    "uuid \<Rightarrow> clock \<Rightarrow> uuid \<Rightarrow> string \<Rightarrow> uuid \<Rightarrow> duration \<Rightarrow> json option \<Rightarrow> db \<Rightarrow> unit tx" where
  "CheckpointTaskStep run clk i stepID srun lease checkpoint d =
     (if \<not> lease_ok lease then Inl InvalidStepLease
      else updateTaskStep run clk i stepID srun False [] checkpoint lease d)"

definition CompleteTaskStep ::
    "uuid \<Rightarrow> clock \<Rightarrow> uuid \<Rightarrow> string \<Rightarrow> uuid \<Rightarrow> string \<Rightarrow> db \<Rightarrow> unit tx" where
  "CompleteTaskStep run clk i stepID srun result d =
     (if trim_space result = [] then Inl EmptyStepResult
      else updateTaskStep run clk i stepID srun True result None 0 d)"

section \<open>Failure and recovery\<close>

text \<open>
  \<open>stepNeedsReconciliationSQL\<close>. The conjunction inside \<open>COALESCE(..., false)\<close> is true exactly when
  every conjunct is true: a null conjunct makes it null or false.
\<close>

definition candidate_saved :: "(json \<Rightarrow> string) \<Rightarrow> json \<Rightarrow> bool" where
  "candidate_saved render cp \<longleftrightarrow>
     jget_text render cp ''candidate_ready'' = Some ''true'' \<and>
     jget_text render cp ''phase'' \<in> {Some ''verification'', Some ''verified''} \<and>
     (case jget cp ''output'' of Some (JStr out) \<Rightarrow> btrim out \<noteq> [] | _ \<Rightarrow> False) \<and>
     (jget cp ''pending_tool'' = None \<or> jget cp ''pending_tool'' = Some JNull)"

definition stepNeedsReconciliation :: "(json \<Rightarrow> string) \<Rightarrow> TaskStep \<Rightarrow> bool" where
  "stepNeedsReconciliation render s \<longleftrightarrow> s_Kind s \<noteq> ''read'' \<and>
     \<not> (s_Kind s = ''finalize'' \<and> s_Tools s = []) \<and> \<not> candidate_saved render (s_Checkpoint s)"

definition recovered :: "(json \<Rightarrow> string) \<Rightarrow> TaskStep \<Rightarrow> TaskStep" where
  "recovered render s = s\<lparr>
     s_Status := (if stepNeedsReconciliation render s then ''reconciliation''
                  else if s_Attempts s \<ge> s_MaxAttempts s then ''blocked'' else ''pending''),
     s_LeaseUntil := None\<rparr>"

definition RecoverTaskSteps :: "(json \<Rightarrow> string) \<Rightarrow> uuid \<Rightarrow> clock \<Rightarrow> uuid \<Rightarrow> db \<Rightarrow> unit tx" where
  "RecoverTaskSteps render run clk i d =
     (case lockTaskExecution run clk i None False d of
        Inl e \<Rightarrow> Inl e
      | Inr _ \<Rightarrow> Inr ((), d\<lparr>agent_task_steps := update_where
          (\<lambda>s. s_TaskID s = i \<and> s_Status s = ''running'' \<and>
               (case s_LeaseUntil s of None \<Rightarrow> False | Some l \<Rightarrow> l \<le> clk 3))
          (recovered render) (agent_task_steps d)\<rparr>))"

definition failed_row :: "(json \<Rightarrow> string) \<Rightarrow> gotime \<Rightarrow> string \<Rightarrow> bool \<Rightarrow> int \<Rightarrow> TaskStep \<Rightarrow> TaskStep" where
  "failed_row render now reason retryable delay_ms s = s\<lparr>s_LastError := reason,
     s_Status := (if stepNeedsReconciliation render s then ''reconciliation''
                  else if retryable \<and> s_Attempts s < s_MaxAttempts s then ''pending'' else ''blocked''),
     s_NextAttemptAt := now + max (min 60 (5 * s_Attempts s) * 1000) delay_ms * millisecond,
     s_LeaseUntil := None\<rparr>"

definition FailTaskStepAfter ::
    "(json \<Rightarrow> string) \<Rightarrow> uuid \<Rightarrow> clock \<Rightarrow> uuid \<Rightarrow> string \<Rightarrow> uuid \<Rightarrow> string \<Rightarrow> bool \<Rightarrow> duration \<Rightarrow> db \<Rightarrow> unit tx" where
  "FailTaskStepAfter render run clk i stepID srun reason retryable delay d =
     (case lockTaskExecution run clk i None False d of
        Inl e \<Rightarrow> Inl e
      | Inr _ \<Rightarrow> update_claimed (live_claim (clk 3) i stepID srun)
          (failed_row render (clk 3) reason retryable (max 0 (milliseconds delay))) d)"

definition FailTaskStep ::
    "(json \<Rightarrow> string) \<Rightarrow> uuid \<Rightarrow> clock \<Rightarrow> uuid \<Rightarrow> string \<Rightarrow> uuid \<Rightarrow> string \<Rightarrow> bool \<Rightarrow> db \<Rightarrow> unit tx" where
  "FailTaskStep render run clk i stepID srun reason retryable d =
     FailTaskStepAfter render run clk i stepID srun reason retryable 0 d"

text \<open>\<open>NULLIF(btrim(x),'')\<close> of a nullable text, and the first of two that is not null.\<close>

definition nonblank :: "string option \<Rightarrow> string option" where
  "nonblank x = (case x of None \<Rightarrow> None | Some s \<Rightarrow> if btrim s = [] then None else Some (btrim s))"

definition coalesce :: "'a option \<Rightarrow> 'a option \<Rightarrow> 'a option" where
  "coalesce x y = (case x of None \<Rightarrow> y | Some v \<Rightarrow> Some v)"

definition unverified_result :: "(json \<Rightarrow> string) \<Rightarrow> TaskStep \<Rightarrow> string" where
  "unverified_result render s = btrim (
     (case coalesce (nonblank (jget_text render (s_Checkpoint s) ''output''))
             (nonblank (jget_text render (s_Checkpoint s) ''last_candidate'')) of None \<Rightarrow> [] | Some t \<Rightarrow> t)
     @ [CHR 0x0A, CHR 0x0A] @ ''[unverified_step_result]'' @ [CHR 0x0A]
     @ ''This step could not be completed: ''
     @ (case nonblank (Some (s_LastError s)) of None \<Rightarrow> ''no confirmed result'' | Some t \<Rightarrow> t)
     @ [CHR 0x0A] @ ''Use only facts its sources support and state this gap explicitly in the deliverable.''
     @ [CHR 0x0A] @ ''[/unverified_step_result]'')"

definition stuck :: "uuid \<Rightarrow> TaskStep \<Rightarrow> bool" where
  "stuck i s \<longleftrightarrow> s_TaskID s = i \<and> (s_Status s = ''blocked'' \<or> s_Status s = ''reconciliation'') \<and>
     s_Kind s \<noteq> ''finalize''"

definition resolved_row :: "(json \<Rightarrow> string) \<Rightarrow> gotime \<Rightarrow> TaskStep \<Rightarrow> TaskStep" where
  "resolved_row render now s = s\<lparr>s_Status := ''done'', s_CompletedAt := Some now,
     s_LeaseUntil := None, s_Result := unverified_result render s\<rparr>"

definition ResolveStuckTaskSteps :: "(json \<Rightarrow> string) \<Rightarrow> uuid \<Rightarrow> clock \<Rightarrow> uuid \<Rightarrow> db \<Rightarrow> nat tx" where
  "ResolveStuckTaskSteps render run clk i d =
     (case lockTaskExecution run clk i None False d of
        Inl e \<Rightarrow> Inl e
      | Inr _ \<Rightarrow> Inr (rows_affected (stuck i) (agent_task_steps d),
          d\<lparr>agent_task_steps := update_where (stuck i) (resolved_row render (clk 3)) (agent_task_steps d)\<rparr>))"

end
