(* ===== verification/Step_Invariant.thy ===== *)
theory Step_Invariant
  imports Step_Store
begin

text \<open>
  The invariant of the step table and its preservation by every operation of \<open>Step_Store\<close>: row
  well-formedness, mutual exclusion of work that is not a pure read, and dependencies that are done
  before a step is ever attempted.
\<close>

section \<open>The invariant\<close>

definition step_wf :: "(json \<Rightarrow> string) \<Rightarrow> TaskStep \<Rightarrow> bool" where
  "step_wf render s \<longleftrightarrow> step_checks s \<and> 0 \<le> s_Attempts s \<and> s_Attempts s \<le> s_MaxAttempts s \<and>
     (s_Status s \<noteq> ''pending'' \<longrightarrow> 1 \<le> s_Attempts s) \<and>
     (s_Status s = ''running'' \<longleftrightarrow> s_LeaseUntil s \<noteq> None) \<and>
     (s_Status s = ''running'' \<longrightarrow> s_RunID s \<noteq> None \<and> s_StartedAt s \<noteq> None) \<and>
     (s_Status s = ''reconciliation'' \<longrightarrow> s_Kind s \<noteq> ''read'') \<and>
     (s_Status s = ''done'' \<longrightarrow> btrim (s_Result s) \<noteq> [] \<and> s_CompletedAt s \<noteq> None) \<and>
     (s_Status s = ''pending'' \<and> 0 < s_Attempts s \<longrightarrow> \<not> stepNeedsReconciliation render s)"

definition exclusive :: "TaskStep list \<Rightarrow> bool" where
  "exclusive rows \<longleftrightarrow> (\<forall>s \<in> set rows. \<forall>t \<in> set rows.
     s_TaskID s = s_TaskID t \<and> s_ID s \<noteq> s_ID t \<and> s_Status s = ''running'' \<and> busy t \<longrightarrow>
     s_Kind s = ''read'' \<and> s_Kind t = ''read'')"

definition step_done :: "TaskStep list \<Rightarrow> uuid \<Rightarrow> string \<Rightarrow> bool" where
  "step_done rows i sid \<longleftrightarrow>
     (\<exists>p \<in> set rows. s_TaskID p = i \<and> s_ID p = sid \<and> s_Status p = ''done'')"

definition deps_done :: "TaskStep list \<Rightarrow> bool" where
  "deps_done rows \<longleftrightarrow> (\<forall>s \<in> set rows. 0 < s_Attempts s \<longrightarrow>
     (\<forall>dep \<in> set (s_Dependencies s). step_done rows (s_TaskID s) dep))"

definition steps_inv :: "(json \<Rightarrow> string) \<Rightarrow> TaskStep list \<Rightarrow> bool" where
  "steps_inv render rows \<longleftrightarrow> distinct (map step_key rows) \<and> (\<forall>s \<in> set rows. step_wf render s) \<and>
     exclusive rows \<and> deps_done rows"

section \<open>Moves of a single row\<close>

text \<open>
  What every write but a claim does to a row: identity, plan and attempt count stay, done stays done,
  and no row becomes running or fenced that was not busy before.
\<close>

definition step_move :: "TaskStep \<Rightarrow> TaskStep \<Rightarrow> bool" where
  "step_move s s' \<longleftrightarrow> step_key s' = step_key s \<and> s_Kind s' = s_Kind s \<and>
     s_Dependencies s' = s_Dependencies s \<and> s_Attempts s' = s_Attempts s \<and>
     (s_Status s = ''done'' \<longrightarrow> s' = s) \<and>
     (s_Status s' = ''running'' \<longrightarrow> s_Status s = ''running'') \<and> (busy s' \<longrightarrow> busy s)"

lemma step_move_refl [simp]: "step_move s s"
  by (simp add: step_move_def)

lemma step_done_update:
  assumes "\<And>r. r \<in> set rows \<Longrightarrow> p r \<Longrightarrow> step_key (f r) = step_key r \<and> (s_Status r = ''done'' \<longrightarrow> f r = r)"
    and "step_done rows i sid"
  shows "step_done (update_where p f rows) i sid"
proof -
  obtain q where q: "q \<in> set rows" "s_TaskID q = i" "s_ID q = sid" "s_Status q = ''done''"
    using assms(2) by (auto simp: step_done_def)
  then have "q \<in> set (update_where p f rows)"
    using assms(1) [of q] by (cases "p q") (auto simp: set_update_where image_iff)
  with q show ?thesis by (auto simp: step_done_def)
qed

lemma exclusive_update:
  assumes "exclusive rows" and "\<And>r. r \<in> set rows \<Longrightarrow> p r \<Longrightarrow> step_move r (f r)"
  shows "exclusive (update_where p f rows)"
proof -
  have origin: "\<exists>r \<in> set rows. step_move r q" if "q \<in> set (update_where p f rows)" for q
    using that assms(2) step_move_refl unfolding set_update_where by blast
  show ?thesis
    unfolding exclusive_def
  proof (intro ballI impI)
    fix s' t' assume "s' \<in> set (update_where p f rows)" and "t' \<in> set (update_where p f rows)"
      and *: "s_TaskID s' = s_TaskID t' \<and> s_ID s' \<noteq> s_ID t' \<and> s_Status s' = ''running'' \<and> busy t'"
    then obtain s t where "s \<in> set rows" "step_move s s'" "t \<in> set rows" "step_move t t'"
      using origin by blast
    with * assms(1) show "s_Kind s' = ''read'' \<and> s_Kind t' = ''read''"
      by (auto simp: exclusive_def step_move_def)
  qed
qed

lemma deps_done_update:
  assumes "deps_done rows" and move: "\<And>r. r \<in> set rows \<Longrightarrow> p r \<Longrightarrow> step_move r (f r)"
  shows "deps_done (update_where p f rows)"
proof -
  have keep: "step_done rows i sid \<Longrightarrow> step_done (update_where p f rows) i sid" for i sid
    using move by (auto intro!: step_done_update simp: step_move_def)
  have "s_Dependencies r = s_Dependencies (f r) \<and> s_TaskID r = s_TaskID (f r) \<and> s_Attempts r = s_Attempts (f r)"
    if "r \<in> set rows" "p r" for r
    using move [OF that] by (simp add: step_move_def)
  then show ?thesis
    using assms(1) keep by (auto simp: deps_done_def set_update_where)
qed

lemma steps_inv_update:
  assumes inv: "steps_inv render rows"
    and move: "\<And>r. r \<in> set rows \<Longrightarrow> p r \<Longrightarrow> step_move r (f r)"
    and wf: "\<And>r. r \<in> set rows \<Longrightarrow> p r \<Longrightarrow> step_wf render r \<Longrightarrow> step_wf render (f r)"
  shows "steps_inv render (update_where p f rows)"
proof -
  have "exclusive (update_where p f rows)" "deps_done (update_where p f rows)"
    using inv move by (simp_all add: steps_inv_def exclusive_update deps_done_update)
  moreover have "step_key (f r) = step_key r" if "r \<in> set rows" "p r" for r
    using move [OF that] by (simp add: step_move_def)
  then have "map step_key (update_where p f rows) = map step_key rows"
    by (auto simp: update_where_def)
  moreover have "\<forall>s \<in> set (update_where p f rows). step_wf render s"
    using inv wf by (auto simp: steps_inv_def set_update_where)
  ultimately show ?thesis using inv by (simp add: steps_inv_def)
qed

section \<open>Claims\<close>

lemma claimed_simps [simp]:
  "s_TaskID (claimed new now lease s) = s_TaskID s" "s_ID (claimed new now lease s) = s_ID s"
  "s_Kind (claimed new now lease s) = s_Kind s"
  "s_Dependencies (claimed new now lease s) = s_Dependencies s"
  "s_Status (claimed new now lease s) = ''running''"
  "s_Attempts (claimed new now lease s) = s_Attempts s + 1"
  by (simp_all add: claimed_def)

lemma step_wf_claimed:
  "step_wf render s \<Longrightarrow> s_Attempts s < s_MaxAttempts s \<Longrightarrow> step_wf render (claimed new now lease s)"
  by (auto simp: step_wf_def step_checks_def claimed_def split: option.splits)

lemma claimable_key:
  assumes "distinct (map step_key rows)" "claimable now i sid rows s" "s \<in> set rows"
    and "claimable now i sid rows s'" "s' \<in> set rows"
  shows "s' = s"
  using step_rows.same_key_same_row [OF assms(1,5,3)] assms(2,4) by (auto simp: claimable_def)

lemma exclusive_claim:
  assumes "exclusive rows" and "distinct (map step_key rows)"
  shows "exclusive (update_where (claimable now i sid rows) (claimed new now lease) rows)"
    (is "exclusive (update_where ?p ?f rows)")
  unfolding exclusive_def
proof (intro ballI impI)
  fix s' t' assume "s' \<in> set (update_where ?p ?f rows)" and "t' \<in> set (update_where ?p ?f rows)"
    and *: "s_TaskID s' = s_TaskID t' \<and> s_ID s' \<noteq> s_ID t' \<and> s_Status s' = ''running'' \<and> busy t'"
  then obtain s t where s: "s \<in> set rows" "s' = (if ?p s then ?f s else s)"
    and t: "t \<in> set rows" "t' = (if ?p t then ?f t else t)"
    by (auto simp: update_where_def)
  have keys: "s_TaskID s = s_TaskID t" "s_ID s \<noteq> s_ID t" using * s t by (auto split: if_splits)
  have "\<not> (?p s \<and> ?p t)" using keys by (auto simp: claimable_def)
  then consider "?p s" "\<not> ?p t" | "\<not> ?p s" "?p t" | "\<not> ?p s" "\<not> ?p t" by blast
  then show "s_Kind s' = ''read'' \<and> s_Kind t' = ''read''"
  proof cases
    case 1 then show ?thesis using * s t keys by (auto simp: claimable_def)
  next
    case 2
    then have "busy s" using * s by (simp add: busy_def)
    with 2 show ?thesis using * s t keys by (auto simp: claimable_def)
  next
    case 3 then show ?thesis using * s t assms(1) by (auto simp: exclusive_def)
  qed
qed

lemma deps_done_claim:
  assumes "deps_done rows"
  shows "deps_done (update_where (claimable now i sid rows) (claimed new now lease) rows)"
    (is "deps_done (update_where ?p ?f rows)")
proof -
  have keep: "step_done rows j x \<Longrightarrow> step_done (update_where ?p ?f rows) j x" for j x
    by (rule step_done_update) (auto simp: claimable_def)
  have "step_done rows (s_TaskID r) dep" if "?p r" "dep \<in> set (s_Dependencies r)" for r dep
    using that by (auto simp: claimable_def step_done_def)
  then show ?thesis
    using assms keep by (auto simp: deps_done_def set_update_where)
qed

lemma steps_inv_claim:
  assumes "steps_inv render rows"
  shows "steps_inv render (update_where (claimable now i sid rows) (claimed new now lease) rows)"
proof -
  have "map step_key (update_where (claimable now i sid rows) (claimed new now lease) rows) = map step_key rows"
    by (simp add: map_update_where)
  then show ?thesis
    using assms exclusive_claim deps_done_claim
    by (auto simp: steps_inv_def set_update_where claimable_def intro!: step_wf_claimed)
qed

section \<open>New plans\<close>

lemma insert_step_Inr:
  "insert_step now i s rows = Inr rows' \<longleftrightarrow> step_checks (new_step now i s) \<and>
     (i, s_ID s) \<notin> step_key ` set rows \<and> rows' = rows @ [new_step now i s]"
  by (auto simp: insert_step_def Let_def new_step_def)

lemma steps_inv_insert:
  assumes "steps_inv render rows" and "insert_step now i s rows = Inr rows'"
  shows "steps_inv render rows'"
proof -
  let ?r = "new_step now i s"
  have r: "step_checks ?r" "(i, s_ID s) \<notin> step_key ` set rows" "rows' = rows @ [?r]"
    using assms(2) by (auto simp: insert_step_Inr)
  have fields: "s_Status ?r = ''pending''" "s_Attempts ?r = 0" "s_LeaseUntil ?r = None" "step_key ?r = (i, s_ID s)"
    by (simp_all add: new_step_def)
  have "step_wf render ?r" using r(1) fields by (auto simp: step_wf_def step_checks_def)
  moreover have "exclusive rows'"
    using assms(1) fields r by (auto simp: steps_inv_def exclusive_def busy_def)
  moreover have "deps_done rows'"
    using assms(1) fields r by (fastforce simp: steps_inv_def deps_done_def step_done_def)
  ultimately show ?thesis using assms(1) r fields by (auto simp: steps_inv_def)
qed

section \<open>Preservation\<close>

text \<open>The rewritten rows of the other operations are moves that keep well-formedness.\<close>

lemma step_move_completed: "s_Status s = ''running'' \<Longrightarrow> step_move s (completed_row now result s)"
  by (simp add: step_move_def completed_row_def busy_def)

lemma step_move_checkpointed: "s_Status s = ''running'' \<Longrightarrow> step_move s (checkpointed_row now cp lease s)"
  by (simp add: step_move_def checkpointed_row_def busy_def)

lemma step_move_recovered: "s_Status s = ''running'' \<Longrightarrow> step_move s (recovered render s)"
  by (simp add: step_move_def recovered_def busy_def)

lemma step_move_failed: "s_Status s = ''running'' \<Longrightarrow> step_move s (failed_row render now reason retry delay s)"
  by (simp add: step_move_def failed_row_def busy_def)

lemma step_move_resolved: "stuck i s \<Longrightarrow> step_move s (resolved_row render now s)"
  by (auto simp: step_move_def resolved_row_def busy_def stuck_def)

lemmas step_moves = step_move_completed step_move_checkpointed step_move_recovered step_move_failed
  step_move_resolved

lemma needs_reconciliation_update [simp]:
  "stepNeedsReconciliation render (s\<lparr>s_Status := x\<rparr>) = stepNeedsReconciliation render s"
  "stepNeedsReconciliation render (s\<lparr>s_LeaseUntil := l\<rparr>) = stepNeedsReconciliation render s"
  "stepNeedsReconciliation render (s\<lparr>s_LastError := e\<rparr>) = stepNeedsReconciliation render s"
  "stepNeedsReconciliation render (s\<lparr>s_NextAttemptAt := t\<rparr>) = stepNeedsReconciliation render s"
  by (simp_all add: stepNeedsReconciliation_def)

lemma needs_reconciliation_not_read: "stepNeedsReconciliation render s \<Longrightarrow> s_Kind s \<noteq> ''read''"
  by (simp add: stepNeedsReconciliation_def)

lemma step_wf_completed:
  "step_wf render s \<Longrightarrow> s_Status s = ''running'' \<Longrightarrow> trim_space result \<noteq> [] \<Longrightarrow>
   step_wf render (completed_row now result s)"
  by (simp add: step_wf_def step_checks_def completed_row_def trim_space_btrim)

lemma step_wf_checkpointed:
  "step_wf render s \<Longrightarrow> s_Status s = ''running'' \<Longrightarrow> step_wf render (checkpointed_row now cp lease s)"
  by (simp add: step_wf_def step_checks_def checkpointed_row_def)

lemma step_wf_recovered:
  "step_wf render s \<Longrightarrow> s_Status s = ''running'' \<Longrightarrow> step_wf render (recovered render s)"
  using needs_reconciliation_not_read [of render s]
  by (simp add: step_wf_def step_checks_def recovered_def)

lemma step_wf_failed:
  "step_wf render s \<Longrightarrow> s_Status s = ''running'' \<Longrightarrow>
   step_wf render (failed_row render now reason retry delay s)"
  using needs_reconciliation_not_read [of render s]
  by (simp add: step_wf_def step_checks_def failed_row_def)

lemma btrim_nonblank: "c \<in> set s \<Longrightarrow> c \<noteq> CHR '' '' \<Longrightarrow> btrim s \<noteq> []"
  by (auto simp: btrim_eq_Nil)

lemma btrim_idem_nonempty: "btrim s \<noteq> [] \<Longrightarrow> btrim (btrim s) \<noteq> []"
proof
  assume "btrim s \<noteq> []" and "btrim (btrim s) = []"
  have "\<forall>c \<in> set (btrim s). c = CHR '' ''" using \<open>btrim (btrim s) = []\<close> by (simp only: btrim_eq_Nil)
  moreover have "last (btrim s) \<noteq> CHR '' ''"
  proof -
    let ?r = "dropWhile (\<lambda>c. c = CHR '' '') (rev (dropWhile (\<lambda>c. c = CHR '' '') s))"
    have "?r \<noteq> []" using \<open>btrim s \<noteq> []\<close> by (simp add: btrim_def)
    then have "hd ?r \<noteq> CHR '' ''" by (rule hd_dropWhile)
    then show ?thesis using \<open>?r \<noteq> []\<close> by (simp add: btrim_def last_rev)
  qed
  ultimately show False using \<open>btrim s \<noteq> []\<close> by (metis last_in_set)
qed

lemma unverified_result_nonblank: "btrim (unverified_result render s) \<noteq> []"
proof -
  have "CHR 0x0A \<in> set (xs @ [CHR 0x0A, CHR 0x0A] @ ys)" for xs ys :: string by simp
  then show ?thesis
    unfolding unverified_result_def by (intro btrim_idem_nonempty btrim_nonblank) auto
qed

lemma step_wf_resolved:
  "step_wf render s \<Longrightarrow> stuck i s \<Longrightarrow> step_wf render (resolved_row render' now s)"
  by (auto simp: step_wf_def step_checks_def resolved_row_def stuck_def unverified_result_nonblank)

lemma update_claimed_inv:
  assumes "update_claimed (live_claim now i sid srun) f d = Inr (u, d')"
    and "steps_inv render (agent_task_steps d)"
    and "\<And>s. s_Status s = ''running'' \<Longrightarrow> step_move s (f s)"
    and "\<And>s. s_Status s = ''running'' \<Longrightarrow> step_wf render s \<Longrightarrow> step_wf render (f s)"
  shows "steps_inv render (agent_task_steps d')"
proof -
  have "agent_task_steps d' = update_where (live_claim now i sid srun) f (agent_task_steps d)"
    using assms(1) by (auto simp: update_claimed_def split: if_splits)
  then show ?thesis
    using steps_inv_update [OF assms(2), of "live_claim now i sid srun" f] assms(3,4)
    by (simp add: live_claim_def)
qed

lemma SaveTaskSteps_inv [inv_intros]:
  assumes "SaveTaskSteps run clk order i claim steps d = Inr (u, d')"
    and "steps_inv render (agent_task_steps d)"
  shows "steps_inv render (agent_task_steps d')"
proof -
  obtain rows where rows: "foldM (insert_step (clk 0) i) steps (agent_task_steps d) = Inr rows"
    and d': "d' = d\<lparr>agent_task_steps := rows\<rparr>"
    using assms(1) by (auto simp: SaveTaskSteps_def split: sum.splits)
  have "steps_inv render rows"
    using rows assms(2) by (rule foldM_Inr_invariant) (rule steps_inv_insert)
  then show ?thesis by (simp add: d')
qed

lemma ClaimTaskStep_inv [inv_intros]:
  assumes "ClaimTaskStep run clk new i sid lease d = Inr (v, d')"
    and "steps_inv render (agent_task_steps d)"
  shows "steps_inv render (agent_task_steps d')"
  using assms by (auto simp: ClaimTaskStep_def Let_def steps_inv_claim split: sum.splits if_splits option.splits)

lemma CheckpointTaskStep_inv [inv_intros]:
  assumes "CheckpointTaskStep run clk i sid srun lease cp d = Inr (v, d')"
    and "steps_inv render (agent_task_steps d)"
  shows "steps_inv render (agent_task_steps d')"
proof -
  have "update_claimed (live_claim (clk 3) i sid srun) (checkpointed_row (clk 3) cp lease) d = Inr (v, d')"
    using assms(1) by (simp add: CheckpointTaskStep_def updateTaskStep_def split: sum.splits if_splits)
  then show ?thesis
    using assms(2) step_move_checkpointed step_wf_checkpointed by (rule update_claimed_inv)
qed

lemma CompleteTaskStep_inv [inv_intros]:
  assumes "CompleteTaskStep run clk i sid srun result d = Inr (v, d')"
    and "steps_inv render (agent_task_steps d)"
  shows "steps_inv render (agent_task_steps d')"
proof -
  have "update_claimed (live_claim (clk 3) i sid srun) (completed_row (clk 3) result) d = Inr (v, d')"
    and "trim_space result \<noteq> []"
    using assms(1) by (simp_all add: CompleteTaskStep_def updateTaskStep_def split: sum.splits if_splits)
  then show ?thesis
    using assms(2) by (auto intro: update_claimed_inv step_move_completed step_wf_completed)
qed

lemma FailTaskStepAfter_inv [inv_intros]:
  assumes "FailTaskStepAfter render run clk i sid srun reason retry delay d = Inr (v, d')"
    and "steps_inv render (agent_task_steps d)"
  shows "steps_inv render (agent_task_steps d')"
proof -
  have "update_claimed (live_claim (clk 3) i sid srun)
      (failed_row render (clk 3) reason retry (max 0 (milliseconds delay))) d = Inr (v, d')"
    using assms(1) by (simp add: FailTaskStepAfter_def split: sum.splits)
  then show ?thesis
    using assms(2) step_move_failed step_wf_failed by (rule update_claimed_inv)
qed

lemma RecoverTaskSteps_inv [inv_intros]:
  assumes "RecoverTaskSteps render run clk i d = Inr (v, d')"
    and "steps_inv render (agent_task_steps d)"
  shows "steps_inv render (agent_task_steps d')"
  using assms
  by (auto simp: RecoverTaskSteps_def split: sum.splits
      intro!: steps_inv_update step_move_recovered step_wf_recovered)

lemma ResolveStuckTaskSteps_inv [inv_intros]:
  assumes "ResolveStuckTaskSteps render run clk i d = Inr (v, d')"
    and "steps_inv render (agent_task_steps d)"
  shows "steps_inv render (agent_task_steps d')"
  using assms
  by (auto simp: ResolveStuckTaskSteps_def split: sum.splits
      intro!: steps_inv_update step_move_resolved step_wf_resolved)

end
