(* ===== verification/Go_Time.thy ===== *)
theory Go_Time
  imports Prelude "HOL-Library.Monad_Syntax"
begin

text \<open>
  The parts of Go's \<open>time\<close> package the program computes with: saturating differences and
  \<open>time.Parse(time.RFC3339, s)\<close>.
\<close>

abbreviation max_duration :: duration where "max_duration \<equiv> 2 ^ 63 - 1"
abbreviation min_duration :: duration where "min_duration \<equiv> - (2 ^ 63)"

text \<open>\<open>t.Sub(u)\<close> saturates at the bounds of a duration.\<close>

definition time_sub :: "gotime \<Rightarrow> gotime \<Rightarrow> duration" where
  "time_sub t u = max min_duration (min max_duration (t - u))"

section \<open>RFC 3339\<close>

definition digit :: "char \<Rightarrow> bool" where
  "digit c \<longleftrightarrow> (of_char c :: nat) \<ge> 48 \<and> (of_char c :: nat) \<le> 57"

definition digit_value :: "char \<Rightarrow> int" where
  "digit_value c = int (of_char c :: nat) - 48"

definition number :: "string \<Rightarrow> int" where
  "number s = foldl (\<lambda>n c. n * 10 + digit_value c) 0 s"

text \<open>\<open>getnum\<close> with \<open>fixed\<close>: exactly \<open>n\<close> digits; a parser returns the value and the rest.\<close>

definition digits :: "nat \<Rightarrow> string \<Rightarrow> (int \<times> string) option" where
  "digits n s = (if length (take n s) = n \<and> list_all digit (take n s)
                 then Some (number (take n s), drop n s) else None)"

definition literal :: "char \<Rightarrow> string \<Rightarrow> string option" where
  "literal c s = (case s of [] \<Rightarrow> None | x # xs \<Rightarrow> if x = c then Some xs else None)"

text \<open>The hour is read with one or two digits.\<close>

definition hour_digits :: "string \<Rightarrow> (int \<times> string) option" where
  "hour_digits s = (case digits 2 s of None \<Rightarrow> digits 1 s | Some r \<Rightarrow> Some r)"

text \<open>
  A fraction the layout does not mention: a period or comma and at least one digit. Digits beyond
  the ninth are dropped.
\<close>

definition fraction :: "string \<Rightarrow> int \<times> string" where
  "fraction s =
     (case s of
        c # d # t \<Rightarrow>
          if (c = CHR ''.'' \<or> c = CHR '','') \<and> digit d then
            let ds = takeWhile digit (d # t); kept = take 9 ds
            in (number kept * 10 ^ (9 - length kept), dropWhile digit (d # t))
          else (0, s)
      | _ \<Rightarrow> (0, s))"

text \<open>The offset in seconds; hours up to 24 and minutes up to 60 are accepted.\<close>

definition zone_offset :: "string \<Rightarrow> (int \<times> string) option" where
  "zone_offset s =
     (case s of
        [] \<Rightarrow> None
      | c # t \<Rightarrow>
          if c = CHR ''Z'' then Some (0, t)
          else if c = CHR ''+'' \<or> c = CHR ''-'' then
            do { (hh, t1) \<leftarrow> digits 2 t;
                 t2 \<leftarrow> literal CHR '':'' t1;
                 (mm, t3) \<leftarrow> digits 2 t2;
                 if hh \<le> 24 \<and> mm \<le> 60
                   then Some ((if c = CHR ''-'' then -1 else 1) * (hh * 3600 + mm * 60), t3) else None }
          else None)"

definition leap_year :: "int \<Rightarrow> bool" where
  "leap_year y \<longleftrightarrow> y mod 4 = 0 \<and> (y mod 100 \<noteq> 0 \<or> y mod 400 = 0)"

definition month_days :: "int \<Rightarrow> int list" where
  "month_days y = [31, if leap_year y then 29 else 28, 31, 30, 31, 30, 31, 31, 30, 31, 30, 31]"

text \<open>Days since 1 January of year 1 in the proleptic Gregorian calendar.\<close>

definition day_number :: "int \<Rightarrow> int \<Rightarrow> int \<Rightarrow> int" where
  "day_number y m d = 365 * (y - 1) + (y - 1) div 4 - (y - 1) div 100 + (y - 1) div 400
     + sum_list (take (nat (m - 1)) (month_days y)) + d - 1"

definition parse_rfc3339 :: "string \<Rightarrow> gotime option" where
  "parse_rfc3339 s =
     do { (y, s1) \<leftarrow> digits 4 s; s2 \<leftarrow> literal CHR ''-'' s1;
          (mo, s3) \<leftarrow> digits 2 s2; s4 \<leftarrow> literal CHR ''-'' s3;
          (d, s5) \<leftarrow> digits 2 s4; s6 \<leftarrow> literal CHR ''T'' s5;
          (hh, s7) \<leftarrow> hour_digits s6; s8 \<leftarrow> literal CHR '':'' s7;
          (mi, s9) \<leftarrow> digits 2 s8; s10 \<leftarrow> literal CHR '':'' s9;
          (sec, s11) \<leftarrow> digits 2 s10;
          let (ns, s12) = fraction s11;
          (off, rest) \<leftarrow> zone_offset s12;
          if 1 \<le> mo \<and> mo \<le> 12 \<and> hh < 24 \<and> mi < 60 \<and> sec < 60 \<and> rest = [] \<and>
             1 \<le> d \<and> d \<le> month_days y ! nat (mo - 1)
            then Some ((day_number y mo d * 86400 + hh * 3600 + mi * 60 + sec - off) * second + ns)
            else None }"

lemma parse_rfc3339_epoch: "parse_rfc3339 ''0001-01-01T00:00:00Z'' = Some 0"
  by code_simp

end
