(* ===== verification/Run_Store.thy ===== *)
theory Run_Store
  imports Step_Invariant Go_Time
begin

text \<open>
  Coordinator leases of \<open>internal/core/task_run.go\<close>: admission of a graph task under the per-owner
  limit, renewal, yielding, the dispatch, expiry and wake-up queries.
\<close>

section \<open>The start gate\<close>

text \<open>
  \<open>graphStartAtSQL\<close>: \<open>start_at\<close> counts when its text has the shape the regular expression
  describes and PostgreSQL accepts it as a timestamp; \<open>pg_timestamptz\<close> is that conversion.
\<close>

fun matches :: "(char \<Rightarrow> bool) list \<Rightarrow> string \<Rightarrow> string option" where
  "matches [] s = Some s"
| "matches (p # ps) [] = None"
| "matches (p # ps) (c # s) = (if p c then matches ps s else None)"

definition zone_shape :: "string \<Rightarrow> bool" where
  "zone_shape s \<longleftrightarrow> s = ''Z'' \<or>
     matches [\<lambda>c. c = CHR ''+'' \<or> c = CHR ''-'', digit, digit, \<lambda>c. c = CHR '':'', digit, digit] s = Some []"

definition start_at_shape :: "string \<Rightarrow> bool" where
  "start_at_shape s \<longleftrightarrow>
     (case matches [digit, digit, digit, digit, \<lambda>c. c = CHR ''-'', digit, digit, \<lambda>c. c = CHR ''-'',
                    digit, digit, \<lambda>c. c = CHR ''T''] s of
        None \<Rightarrow> False
      | Some t \<Rightarrow>
          (case coalesce (matches [\<lambda>c. c = CHR ''0'' \<or> c = CHR ''1'', digit] t)
                         (matches [\<lambda>c. c = CHR ''2'', \<lambda>c. c \<in> set ''0123''] t) of
             None \<Rightarrow> False
           | Some u \<Rightarrow>
               (case matches [\<lambda>c. c = CHR '':'', \<lambda>c. c \<in> set ''012345'', digit,
                              \<lambda>c. c = CHR '':'', \<lambda>c. c \<in> set ''012345'', digit] u of
                  None \<Rightarrow> False
                | Some v \<Rightarrow> zone_shape v \<or>
                    (case matches [\<lambda>c. c = CHR ''.'' \<or> c = CHR '','', digit] v of
                       None \<Rightarrow> False
                     | Some w \<Rightarrow> zone_shape (dropWhile digit w)))))"

definition graph_start_at :: "(json \<Rightarrow> string) \<Rightarrow> (string \<Rightarrow> gotime option) \<Rightarrow> AgentTask \<Rightarrow> gotime option" where
  "graph_start_at render pg_timestamptz t =
     (case jget_text render (t_Config t) ''start_at'' of
        None \<Rightarrow> None
      | Some s \<Rightarrow> if start_at_shape s then pg_timestamptz s else None)"

section \<open>Admission\<close>

definition MaxConcurrentGraphTasksPerUser :: nat where
  "MaxConcurrentGraphTasksPerUser = 2"

text \<open>A task the dispatcher may still run, and the live leases of an owner's tasks.\<close>

definition open_graph_task :: "AgentTask \<Rightarrow> bool" where
  "open_graph_task t \<longleftrightarrow> t_ExecutorVersion t = 2 \<and> (t_Status t = ''pending'' \<or> t_Status t = ''running'')"

definition owner_leases :: "db \<Rightarrow> gotime \<Rightarrow> uuid \<Rightarrow> (TaskRun \<times> AgentTask) list" where
  "owner_leases d now user = [(r, t). r \<leftarrow> agent_task_runs d, t \<leftarrow> agent_tasks d,
     t_ID t = r_TaskID r \<and> t_UserID t = user \<and> open_graph_task t \<and> now < r_LeaseUntil r]"

definition startable :: "(AgentTask \<Rightarrow> gotime option) \<Rightarrow> gotime \<Rightarrow> AgentTask \<Rightarrow> bool" where
  "startable start_at now t \<longleftrightarrow> open_graph_task t \<and>
     (case t_Deadline t of None \<Rightarrow> True | Some dl \<Rightarrow> now < dl) \<and>
     (case start_at t of None \<Rightarrow> True | Some st \<Rightarrow> st \<le> now)"

text \<open>
  \<open>INSERT ... ON CONFLICT(task_id) DO UPDATE ... WHERE ... RETURNING\<close>: a missing row is inserted, an
  expired one that is due is taken over, anything else returns no row.
\<close>

definition upsert_run :: "clock \<Rightarrow> uuid \<Rightarrow> uuid \<Rightarrow> duration \<Rightarrow> TaskRun list \<Rightarrow> (TaskRun \<times> TaskRun list) option" where
  "upsert_run clk new i lease rows =
     (case List.find (\<lambda>r. r_TaskID r = i) rows of
        None \<Rightarrow>
          let run = \<lparr>r_TaskID = i, r_RunID = new, r_LeaseUntil = lease_end (clk 3) lease,
                     r_HeartbeatAt = clk 3, r_NextAttemptAt = clk 0, r_StartedAt = clk 0\<rparr>
          in Some (run, rows @ [run])
      | Some r \<Rightarrow>
          if r_LeaseUntil r \<le> clk 3 \<and> r_NextAttemptAt r \<le> clk 3 then
            let run = r\<lparr>r_RunID := new, r_LeaseUntil := lease_end (clk 3) lease,
                        r_HeartbeatAt := clk 3, r_StartedAt := clk 3\<rparr>
            in Some (run, update_where (\<lambda>r. r_TaskID r = i) (\<lambda>r. r\<lparr>r_RunID := new,
                 r_LeaseUntil := lease_end (clk 3) lease, r_HeartbeatAt := clk 3, r_StartedAt := clk 3\<rparr>) rows)
          else None)"

definition admitted_task :: "gotime \<Rightarrow> AgentTask \<Rightarrow> AgentTask" where
  "admitted_task now t = t\<lparr>t_Status := ''running'', t_LastRunAt := Some now,
     t_Progress := jconcat (jminus (t_Progress t) ''next_attempt_at'') (JObj [(''phase'', JStr ''running'')])\<rparr>"

definition fenced_row :: "(json \<Rightarrow> string) \<Rightarrow> TaskStep \<Rightarrow> TaskStep" where
  "fenced_row render s = (recovered render s)\<lparr>s_LastError := ''coordinator lease lost''\<rparr>"

definition ClaimGraphTask ::
    "(json \<Rightarrow> string) \<Rightarrow> (string \<Rightarrow> gotime option) \<Rightarrow> clock \<Rightarrow> uuid \<Rightarrow> uuid \<Rightarrow> duration \<Rightarrow> db \<Rightarrow> TaskRun option tx" where
  "ClaimGraphTask render pg_timestamptz clk new i lease d =
     (if \<not> lease_ok lease then Inl InvalidTaskLease
      else case List.find (\<lambda>t. t_ID t = i \<and> startable (graph_start_at render pg_timestamptz) (clk 1) t)
                  (agent_tasks d) of
          None \<Rightarrow> Inr (None, d)
        | Some task \<Rightarrow>
            if length (filter (\<lambda>(r, t). t_ID t \<noteq> i) (owner_leases d (clk 2) (t_UserID task)))
                 \<ge> MaxConcurrentGraphTasksPerUser
              then Inr (None, d)
            else case upsert_run clk new i lease (agent_task_runs d) of
                None \<Rightarrow> Inr (None, d)
              | Some (run, runs) \<Rightarrow>
                  Inr (Some run, d\<lparr>agent_task_runs := runs,
                    agent_tasks := update_where (\<lambda>t. t_ID t = i) (admitted_task (clk 4)) (agent_tasks d),
                    agent_task_steps := update_where (\<lambda>s. s_TaskID s = i \<and> s_Status s = ''running'')
                      (fenced_row render) (agent_task_steps d)\<rparr>))"

section \<open>Renewal and release\<close>

definition RenewGraphTask :: "uuid \<Rightarrow> clock \<Rightarrow> uuid \<Rightarrow> duration \<Rightarrow> db \<Rightarrow> unit tx" where
  "RenewGraphTask run clk i lease d =
     (if \<not> lease_ok lease then Inl InvalidTaskLease
      else case lockTaskExecution run clk i None True d of
          Inl e \<Rightarrow> Inl e
        | Inr _ \<Rightarrow>
            (case requireTaskRun run (clk 3) i d of
               Inl e \<Rightarrow> Inl e
             | Inr _ \<Rightarrow> Inr ((), d\<lparr>agent_task_runs := update_where (\<lambda>r. r_TaskID r = i)
                 (\<lambda>r. r\<lparr>r_LeaseUntil := lease_end (clk 4) lease, r_HeartbeatAt := clk 4\<rparr>)
                 (agent_task_runs d)\<rparr>)))"

text \<open>\<open>jsonb_build_object\<close> renders an instant as text; \<open>iso_time\<close> is that rendering.\<close>

definition YieldGraphTask :: "(gotime \<Rightarrow> string) \<Rightarrow> uuid \<Rightarrow> clock \<Rightarrow> uuid \<Rightarrow> gotime \<Rightarrow> db \<Rightarrow> unit tx" where
  "YieldGraphTask iso_time run clk i nxt d =
     (case lockTaskExecution run clk i None False d of
        Inl e \<Rightarrow> Inl e
      | Inr _ \<Rightarrow>
          (case requireTaskRun run (clk 3) i d of
             Inl e \<Rightarrow> Inl e
           | Inr _ \<Rightarrow>
               if \<exists>s \<in> set (agent_task_steps d). s_TaskID s = i \<and> s_Status s = ''running''
                 then Inl YieldWithRunningSteps
               else Inr ((), d\<lparr>
                 agent_task_runs := update_where (\<lambda>r. r_TaskID r = i)
                   (\<lambda>r. r\<lparr>r_LeaseUntil := clk 4, r_NextAttemptAt := nxt\<rparr>) (agent_task_runs d),
                 agent_tasks := update_where (\<lambda>t. t_ID t = i)
                   (\<lambda>t. t\<lparr>t_Status := ''pending'', t_Progress := jconcat (t_Progress t)
                      (JObj [(''phase'', JStr ''retry_wait''), (''next_attempt_at'', JStr (iso_time nxt))])\<rparr>)
                   (agent_tasks d)\<rparr>)))"

text \<open>\<open>jsonbObject\<close> turns an empty or null message into an empty object; \<open>progress\<close> is its value.\<close>

definition SaveGraphProgress :: "uuid \<Rightarrow> clock \<Rightarrow> uuid \<Rightarrow> json \<Rightarrow> db \<Rightarrow> unit tx" where
  "SaveGraphProgress run clk i progress d =
     (case lockTaskExecution run clk i None True d of
        Inl e \<Rightarrow> Inl e
      | Inr _ \<Rightarrow> Inr ((), d\<lparr>agent_tasks := update_where (\<lambda>t. t_ID t = i)
          (\<lambda>t. t\<lparr>t_Progress := jconcat (t_Progress t) progress\<rparr>) (agent_tasks d)\<rparr>))"

section \<open>Queries\<close>

text \<open>The order \<open>last_run_at NULLS FIRST, created_at, id\<close> as a comparison of rows.\<close>

definition dispatch_before :: "AgentTask \<Rightarrow> AgentTask \<Rightarrow> bool" where
  "dispatch_before a b \<longleftrightarrow>
     (let tie = t_CreatedAt a < t_CreatedAt b \<or> t_CreatedAt a = t_CreatedAt b \<and> t_ID a < t_ID b in
      case (t_LastRunAt a, t_LastRunAt b) of
        (None, Some _) \<Rightarrow> True
      | (Some _, None) \<Rightarrow> False
      | (None, None) \<Rightarrow> tie
      | (Some x, Some y) \<Rightarrow> x < y \<or> x = y \<and> tie)"

definition dispatchable :: "(AgentTask \<Rightarrow> gotime option) \<Rightarrow> gotime \<Rightarrow> db \<Rightarrow> AgentTask \<Rightarrow> bool" where
  "dispatchable start_at now d t \<longleftrightarrow> startable start_at now t \<and>
     (\<forall>r \<in> set (agent_task_runs d). r_TaskID r = t_ID t \<longrightarrow>
        r_LeaseUntil r \<le> now \<and> r_NextAttemptAt r \<le> now)"

text \<open>
  \<open>owner_rank + active\<close>: the position of the task among the dispatchable tasks of its owner, plus the
  owner's live leases.
\<close>

definition owner_load :: "(AgentTask \<Rightarrow> gotime option) \<Rightarrow> gotime \<Rightarrow> db \<Rightarrow> AgentTask \<Rightarrow> nat" where
  "owner_load start_at now d t =
     1 + length (filter (\<lambda>u. dispatchable start_at now d u \<and> t_UserID u = t_UserID t \<and> dispatch_before u t) (agent_tasks d))
     + length (owner_leases d now (t_UserID t))"

definition RunnableGraphTasks ::
    "(json \<Rightarrow> string) \<Rightarrow> (string \<Rightarrow> gotime option) \<Rightarrow> gotime \<Rightarrow> int \<Rightarrow> db \<Rightarrow> store_error + AgentTask list" where
  "RunnableGraphTasks render pg_timestamptz now limit d =
     (if limit < 1 \<or> limit > 100 then Inl InvalidLimit
      else
        let start_at = graph_start_at render pg_timestamptz; load = owner_load start_at now d in
        Inr (take (nat limit)
          (order_by (\<lambda>a b. load a < load b \<or> load a = load b \<and> dispatch_before a b)
            (filter (\<lambda>t. dispatchable start_at now d t \<and> load t \<le> MaxConcurrentGraphTasksPerUser) (agent_tasks d)))))"

text \<open>
  \<open>NextGraphWake\<close>: the least boundary after now. \<open>GREATEST\<close> ignores nulls; a zero time stands for no
  boundary.
\<close>

definition graph_boundaries :: "(AgentTask \<Rightarrow> gotime option) \<Rightarrow> db \<Rightarrow> AgentTask \<Rightarrow> gotime list" where
  "graph_boundaries start_at d t =
     (case t_Deadline t of None \<Rightarrow> [] | Some dl \<Rightarrow> [dl]) @
     (if t_Status t = ''pending'' \<or> t_Status t = ''running'' then
        (case (List.find (\<lambda>r. r_TaskID r = t_ID t) (agent_task_runs d), start_at t) of
           (None, None) \<Rightarrow> []
         | (None, Some st) \<Rightarrow> [st]
         | (Some r, None) \<Rightarrow> [max (r_LeaseUntil r) (r_NextAttemptAt r)]
         | (Some r, Some st) \<Rightarrow> [max (max (r_LeaseUntil r) (r_NextAttemptAt r)) st])
      else [])"

definition NextGraphWake :: "(json \<Rightarrow> string) \<Rightarrow> (string \<Rightarrow> gotime option) \<Rightarrow> gotime \<Rightarrow> db \<Rightarrow> gotime" where
  "NextGraphWake render pg_timestamptz now d =
     (let at = filter (\<lambda>b. now < b) (concat (map (graph_boundaries (graph_start_at render pg_timestamptz) d)
            (filter (\<lambda>t. t_ExecutorVersion t = 2 \<and> t_Status t \<in> {''pending'', ''running'', ''paused''}) (agent_tasks d))))
      in if at = [] then time_zero else Min (set at))"

end
