(* ===== verification/Task_Deadline.thy ===== *)
theory Task_Deadline
  imports Run_Store
begin

text \<open>
  Wall-clock limits of tasks: \<open>internal/core/agent_deadline.go\<close>,
  \<open>internal/core/task_research_budget.go\<close>, the expiry query of \<open>task_run.go\<close> and
  \<open>iterationDeadline\<close> of \<open>internal/agenttask/deadline.go\<close>.
\<close>

abbreviation StrategyRecurring :: string where "StrategyRecurring \<equiv> ''recurring''"

definition DefaultTaskWallTimeout :: duration where
  "DefaultTaskWallTimeout = 30 * minute"

definition TaskDeadlineExceeded :: string where
  "TaskDeadlineExceeded = ''wall_clock_deadline_exceeded''"

text \<open>The test the sources repeat: a schedule, a cadence or the recurring strategy.\<close>

definition periodic :: "AgentTask \<Rightarrow> bool" where
  "periodic t \<longleftrightarrow> t_Schedule t \<noteq> None \<or> t_Cadence t \<noteq> None \<or> t_Strategy t = StrategyRecurring"

definition TaskRunsToCompletion :: "AgentTask \<Rightarrow> bool" where
  "TaskRunsToCompletion t \<longleftrightarrow> t_ExecutorVersion t = 2 \<and> t_Schedule t = None \<and> t_Cadence t = None \<and>
     t_Strategy t \<noteq> StrategyRecurring"

definition TaskStopDeadline :: "AgentTask \<Rightarrow> gotime option" where
  "TaskStopDeadline t = (if TaskRunsToCompletion t then None else t_Deadline t)"

definition TaskWallStart :: "AgentTask \<Rightarrow> gotime \<Rightarrow> gotime" where
  "TaskWallStart t now =
     (let start = (if t_CreatedAt t = time_zero then now else t_CreatedAt t) in
      case struct_members (t_Config t) of
        None \<Rightarrow> start
      | Some kvs \<Rightarrow>
          (case str_field ''start_at'' kvs of
             None \<Rightarrow> start
           | Some s \<Rightarrow>
               (case parse_rfc3339 s of
                  None \<Rightarrow> start
                | Some scheduled \<Rightarrow> if scheduled > start then scheduled else start)))"

definition TaskWallDeadline :: "AgentTask \<Rightarrow> gotime \<Rightarrow> duration \<Rightarrow> gotime option" where
  "TaskWallDeadline t now limit =
     (if TaskRunsToCompletion t then None
      else if periodic t then t_Deadline t
      else
        let limit = (if limit \<le> 0 then DefaultTaskWallTimeout else limit);
            deadline = TaskWallStart t now + limit
        in Some (case t_Deadline t of None \<Rightarrow> deadline | Some dl \<Rightarrow> if dl < deadline then dl else deadline))"

definition TaskResearchDeadline :: "AgentTask \<Rightarrow> duration \<Rightarrow> gotime option" where
  "TaskResearchDeadline t reserve =
     (case TaskStopDeadline t of
        None \<Rightarrow> None
      | Some deadline \<Rightarrow>
          let reserve = (if reserve \<le> 0 then 3 * minute else reserve);
              total = time_sub deadline (t_CreatedAt t);
              reserve = (if t_CreatedAt t \<noteq> time_zero \<and> total > 0 \<and> reserve > total div 3
                         then total div 3 else reserve)
          in Some (deadline - reserve))"

definition TaskStepHasCandidate :: "TaskStep \<Rightarrow> bool" where
  "TaskStepHasCandidate s \<longleftrightarrow> s_Kind s = ''read'' \<and>
     (case struct_members (s_Checkpoint s) of
        None \<Rightarrow> False
      | Some kvs \<Rightarrow>
          (case (bool_field ''candidate_ready'' kvs, str_field ''output'' kvs) of
             (Some ready, Some out) \<Rightarrow> ready \<and> trim_space out \<noteq> []
           | _ \<Rightarrow> False))"

definition iterationDeadline :: "duration \<Rightarrow> gotime \<Rightarrow> AgentTask \<Rightarrow> gotime" where
  "iterationDeadline DefaultTaskTimeout now t =
     (case t_Deadline t of
        None \<Rightarrow> now + DefaultTaskTimeout
      | Some dl \<Rightarrow> if dl < now + DefaultTaskTimeout then dl else now + DefaultTaskTimeout)"

section \<open>Store operations\<close>

definition unfinished :: "AgentTask \<Rightarrow> bool" where
  "unfinished t \<longleftrightarrow> t_Status t \<in> {''pending'', ''running'', ''paused''}"

definition DeadlineTasks :: "db \<Rightarrow> AgentTask list" where
  "DeadlineTasks d = sort_key t_CreatedAt (filter (\<lambda>t. t_ExecutorVersion t = 1 \<and>
     (unfinished t \<and> (t_Deadline t \<noteq> None \<or>
        t_Schedule t = None \<and> t_Cadence t = None \<and> t_Strategy t \<noteq> ''recurring'') \<or>
      t_Status t = ''failed'' \<and> t_ErrorMessage t = Some TaskDeadlineExceeded \<and>
        \<not> (\<exists>n \<in> set (notification_items d). ni_TaskID n = t_ID t \<and>
             (d_InputID (ni_Ref n) = ''task_lifecycle'' \<and> d_ItemKey (ni_Ref n) = ''deadline'' \<or>
              d_InputID (ni_Ref n) = ''task_result'')))) (agent_tasks d))"

definition SetTaskDeadline :: "uuid \<Rightarrow> gotime \<Rightarrow> db \<Rightarrow> db" where
  "SetTaskDeadline i deadline d = d\<lparr>agent_tasks := update_where
     (\<lambda>t. t_ExecutorVersion t = 1 \<and> t_ID t = i \<and> unfinished t \<and>
          (case t_Deadline t of None \<Rightarrow> True | Some dl \<Rightarrow> dl > deadline))
     (\<lambda>t. t\<lparr>t_Deadline := Some deadline\<rparr>) (agent_tasks d)\<rparr>"

definition expirable :: "uuid \<Rightarrow> gotime \<Rightarrow> AgentTask \<Rightarrow> bool" where
  "expirable i now t \<longleftrightarrow> t_ExecutorVersion t = 1 \<and> t_ID t = i \<and> unfinished t \<and>
     (case t_Deadline t of None \<Rightarrow> False | Some dl \<Rightarrow> dl \<le> now)"

definition ExpireTask :: "uuid \<Rightarrow> gotime \<Rightarrow> db \<Rightarrow> bool \<times> db" where
  "ExpireTask i now d =
     (rows_affected (expirable i now) (agent_tasks d) > 0,
      d\<lparr>agent_tasks := update_where (expirable i now)
        (\<lambda>t. t\<lparr>t_Status := ''failed'', t_ErrorMessage := Some TaskDeadlineExceeded,
               t_CompletedAt := Some now\<rparr>) (agent_tasks d)\<rparr>)"

definition ExpiredGraphTasks :: "gotime \<Rightarrow> int \<Rightarrow> db \<Rightarrow> store_error + AgentTask list" where
  "ExpiredGraphTasks now limit d =
     (if limit < 1 \<or> limit > 1000 then Inl InvalidLimit
      else
        let rows = filter (\<lambda>t. t_ExecutorVersion t = 2 \<and> unfinished t \<and>
              (case t_Deadline t of None \<Rightarrow> False | Some dl \<Rightarrow> dl \<le> now)) (agent_tasks d);
            tasks = take (nat limit) (order_by (\<lambda>a b. the (t_Deadline a) < the (t_Deadline b) \<or>
              t_Deadline a = t_Deadline b \<and> t_ID a < t_ID b) rows)
        in Inr (filter (\<lambda>t. TaskStopDeadline t \<noteq> None) tasks))"

end
