(* ===== verification/Run_Invariant.thy ===== *)
theory Run_Invariant
  imports Task_Deadline
begin

text \<open>
  What the coordinator leases promise: primary keys stay unique, the step invariant survives a change
  of coordinator, and no owner holds more live leases than the admission limit.
\<close>

section \<open>Live leases of an owner\<close>

definition leased :: "db \<Rightarrow> gotime \<Rightarrow> uuid \<Rightarrow> uuid set" where
  "leased d now user = {i. \<exists>r \<in> set (agent_task_runs d). \<exists>t \<in> set (agent_tasks d).
     r_TaskID r = i \<and> t_ID t = i \<and> t_UserID t = user \<and> open_graph_task t \<and> now < r_LeaseUntil r}"

lemma finite_leased [simp]: "finite (leased d now user)"
proof -
  have "leased d now user \<subseteq> r_TaskID ` set (agent_task_runs d)" by (auto simp: leased_def)
  then show ?thesis by (rule finite_subset) simp
qed

lemma leased_antimono: "now \<le> later \<Longrightarrow> leased d later user \<subseteq> leased d now user"
  by (force simp: leased_def)

lemma filter_unique:
  assumes "distinct (map f xs)" and "\<And>x. P x \<Longrightarrow> f x = k"
  shows "length (filter P xs) = (if \<exists>x \<in> set xs. P x then 1 else 0)"
  using assms
proof (induction xs)
  case (Cons x xs)
  have "filter P xs = []" if "P x"
    using that Cons.prems by (auto simp: filter_empty_conv dest: image_eqI [of _ f])
  then show ?case using Cons by auto
qed simp

definition lease_row :: "AgentTask list \<Rightarrow> gotime \<Rightarrow> uuid \<Rightarrow> TaskRun \<Rightarrow> bool" where
  "lease_row ts now user r \<longleftrightarrow> (\<exists>t \<in> set ts. t_ID t = r_TaskID r \<and> t_UserID t = user \<and>
     open_graph_task t \<and> now < r_LeaseUntil r)"

lemma length_owner_leases:
  assumes "distinct (map t_ID (agent_tasks d))"
  shows "length (filter (\<lambda>(r, t). Q (t_ID t)) (owner_leases d now user)) =
         length (filter (\<lambda>r. Q (r_TaskID r) \<and> lease_row (agent_tasks d) now user r) (agent_task_runs d))"
proof -
  let ?ts = "agent_tasks d"
  let ?P = "\<lambda>r t. t_ID t = r_TaskID r \<and> t_UserID t = user \<and> open_graph_task t \<and> now < r_LeaseUntil r"
  have row: "length (filter (\<lambda>t. Q (t_ID t) \<and> ?P r t) ?ts) =
      (if Q (r_TaskID r) \<and> lease_row ?ts now user r then 1 else 0)" for r
    using filter_unique [OF assms, of "\<lambda>t. Q (t_ID t) \<and> ?P r t" "r_TaskID r"]
    by (auto simp: lease_row_def)
  have "length (filter (\<lambda>(r, t). Q (t_ID t)) (concat (map (\<lambda>r. map (Pair r) (filter (?P r) ?ts)) rs))) =
      length (filter (\<lambda>r. Q (r_TaskID r) \<and> lease_row ?ts now user r) rs)" for rs
  proof (induction rs)
    case (Cons r rs)
    have "length (filter (\<lambda>(r, t). Q (t_ID t)) (map (Pair r) (filter (?P r) ?ts))) =
        length (filter (\<lambda>t. Q (t_ID t) \<and> ?P r t) ?ts)"
      by (simp add: filter_map comp_def conj_ac)
    then show ?case using Cons row [of r] by simp
  qed simp
  moreover have "owner_leases d now user = concat (map (\<lambda>r. map (Pair r) (filter (?P r) ?ts)) (agent_task_runs d))"
  proof -
    have "concat (map (\<lambda>t. if P t then [(r, t)] else []) ts) = map (Pair r) (filter P ts)"
      for P and r :: TaskRun and ts :: "AgentTask list"
      by (induction ts) auto
    then show ?thesis unfolding owner_leases_def by simp
  qed
  ultimately show ?thesis by simp
qed

lemma card_leased:
  assumes "keys_ok d"
  shows "length (filter (\<lambda>(r, t). Q (t_ID t)) (owner_leases d now user)) = card {i \<in> leased d now user. Q i}"
proof -
  let ?rs = "filter (\<lambda>r. Q (r_TaskID r) \<and> lease_row (agent_tasks d) now user r) (agent_task_runs d)"
  have "distinct (map r_TaskID ?rs)"
    using assms by (auto simp: keys_ok_def distinct_map intro: inj_on_subset)
  then have "length ?rs = card (set (map r_TaskID ?rs))" by (metis distinct_card length_map)
  moreover have "set (map r_TaskID ?rs) = {i \<in> leased d now user. Q i}"
    by (auto simp: leased_def lease_row_def)
  ultimately show ?thesis
    using assms by (simp add: length_owner_leases keys_ok_def)
qed

section \<open>Effects on tasks and runs\<close>

text \<open>
  The moves that cannot create a live lease: runs are only shortened or kept, tasks keep their
  identity and owner and do not become open.
\<close>

definition runs_kept :: "db \<Rightarrow> gotime \<Rightarrow> db \<Rightarrow> bool" where
  "runs_kept d now d' \<longleftrightarrow> (\<forall>r' \<in> set (agent_task_runs d'). now < r_LeaseUntil r' \<longrightarrow>
     (\<exists>r \<in> set (agent_task_runs d). r_TaskID r = r_TaskID r' \<and> now < r_LeaseUntil r))"

definition tasks_kept :: "db \<Rightarrow> db \<Rightarrow> bool" where
  "tasks_kept d d' \<longleftrightarrow> (\<forall>t' \<in> set (agent_tasks d'). open_graph_task t' \<longrightarrow>
     (\<exists>t \<in> set (agent_tasks d). t_ID t = t_ID t' \<and> t_UserID t = t_UserID t' \<and> open_graph_task t))"

lemma leased_kept: "runs_kept d now d' \<Longrightarrow> tasks_kept d d' \<Longrightarrow> leased d' now user \<subseteq> leased d now user"
  by (fastforce simp: leased_def runs_kept_def tasks_kept_def)

lemma runs_kept_refl [simp]: "agent_task_runs d' = agent_task_runs d \<Longrightarrow> runs_kept d now d'"
  by (auto simp: runs_kept_def)

lemma tasks_kept_refl [simp]: "agent_tasks d' = agent_tasks d \<Longrightarrow> tasks_kept d d'"
  by (auto simp: tasks_kept_def)

lemma tasks_kept_update:
  assumes "agent_tasks d' = update_where p f (agent_tasks d)"
    and "\<And>t. t \<in> set (agent_tasks d) \<Longrightarrow> p t \<Longrightarrow> t_ID (f t) = t_ID t \<and> t_UserID (f t) = t_UserID t \<and>
           (open_graph_task (f t) \<longrightarrow> open_graph_task t)"
  shows "tasks_kept d d'"
  using assms by (fastforce simp: tasks_kept_def set_update_where)

lemma keys_ok_update:
  assumes "keys_ok d"
    and "map t_ID (agent_tasks d') = map t_ID (agent_tasks d)"
    and "map step_key (agent_task_steps d') = map step_key (agent_task_steps d)"
    and "map r_TaskID (agent_task_runs d') = map r_TaskID (agent_task_runs d)"
  shows "keys_ok d'"
  using assms by (simp add: keys_ok_def)

section \<open>Admission\<close>

lemma upsert_run_Some:
  assumes "upsert_run clk new i lease rows = Some (run, rows')"
  shows "r_TaskID run = i \<and> r_RunID run = new \<and> r_LeaseUntil run = lease_end (clk 3) lease \<and> run \<in> set rows' \<and>
    (\<forall>r' \<in> set rows'. r_TaskID r' \<noteq> i \<longrightarrow> r' \<in> set rows) \<and>
    (distinct (map r_TaskID rows) \<longrightarrow> distinct (map r_TaskID rows'))"
proof (cases "List.find (\<lambda>r. r_TaskID r = i) rows")
  case None
  then have "i \<notin> r_TaskID ` set rows" by (auto simp: find_None_iff)
  moreover have "rows' = rows @ [run]" "r_TaskID run = i" "r_RunID run = new"
      "r_LeaseUntil run = lease_end (clk 3) lease"
    using assms None by (auto simp: upsert_run_def Let_def)
  ultimately show ?thesis by auto
next
  case (Some r)
  let ?f = "\<lambda>r. r\<lparr>r_RunID := new, r_LeaseUntil := lease_end (clk 3) lease, r_HeartbeatAt := clk 3, r_StartedAt := clk 3\<rparr>"
  have r: "r \<in> set rows" "r_TaskID r = i" using Some by (auto simp: find_Some_iff)
  have run: "run = ?f r" "rows' = update_where (\<lambda>r. r_TaskID r = i) ?f rows"
    using assms Some by (auto simp: upsert_run_def Let_def split: if_splits)
  show ?thesis
    using r by (auto simp: run set_update_where map_update_where)
qed

lemma ClaimGraphTask_SomeD:
  assumes "ClaimGraphTask render pg clk new i lease d = Inr (Some run, d')"
  obtains task runs where "task \<in> set (agent_tasks d)" and "t_ID task = i"
    and "startable (graph_start_at render pg) (clk 1) task" and "lease_ok lease"
    and "length (filter (\<lambda>(r, t). t_ID t \<noteq> i) (owner_leases d (clk 2) (t_UserID task))) < 2"
    and "upsert_run clk new i lease (agent_task_runs d) = Some (run, runs)"
    and "d' = d\<lparr>agent_task_runs := runs,
        agent_tasks := update_where (\<lambda>t. t_ID t = i) (admitted_task (clk 4)) (agent_tasks d),
        agent_task_steps := update_where (\<lambda>s. s_TaskID s = i \<and> s_Status s = ''running'')
          (fenced_row render) (agent_task_steps d)\<rparr>"
proof -
  let ?found = "List.find (\<lambda>t. t_ID t = i \<and> startable (graph_start_at render pg) (clk 1) t) (agent_tasks d)"
  from assms have ok: "lease_ok lease" by (auto simp: ClaimGraphTask_def split: if_splits)
  from assms ok obtain task where task: "?found = Some task"
    by (cases ?found) (simp_all add: ClaimGraphTask_def)
  from assms ok task have below: "length (filter (\<lambda>(r, t). t_ID t \<noteq> i) (owner_leases d (clk 2) (t_UserID task))) < 2"
    by (simp add: ClaimGraphTask_def MaxConcurrentGraphTasksPerUser_def split: if_splits)
  with assms ok task obtain runs where "upsert_run clk new i lease (agent_task_runs d) = Some (run, runs)"
    and "d' = d\<lparr>agent_task_runs := runs,
        agent_tasks := update_where (\<lambda>t. t_ID t = i) (admitted_task (clk 4)) (agent_tasks d),
        agent_task_steps := update_where (\<lambda>s. s_TaskID s = i \<and> s_Status s = ''running'')
          (fenced_row render) (agent_task_steps d)\<rparr>"
    by (auto simp: ClaimGraphTask_def MaxConcurrentGraphTasksPerUser_def split: option.splits prod.splits)
  with find_SomeD [OF task] ok below show thesis using that by blast
qed

lemma ClaimGraphTask_NoneD:
  "ClaimGraphTask render pg clk new i lease d = Inr (None, d') \<Longrightarrow> d' = d"
  by (auto simp: ClaimGraphTask_def split: if_splits option.splits prod.splits)

lemma step_move_fenced: "s_Status s = ''running'' \<Longrightarrow> step_move s (fenced_row render s)"
  by (simp add: step_move_def fenced_row_def recovered_def busy_def)

lemma step_wf_LastError [simp]: "step_wf render (s\<lparr>s_LastError := e\<rparr>) = step_wf render s"
  by (simp add: step_wf_def step_checks_def)

lemma step_wf_fenced: "step_wf render s \<Longrightarrow> s_Status s = ''running'' \<Longrightarrow> step_wf render (fenced_row render s)"
  by (simp add: fenced_row_def step_wf_recovered)

lemma ClaimGraphTask_inv [inv_intros]:
  assumes "ClaimGraphTask render pg clk new i lease d = Inr (v, d')"
    and "steps_inv render (agent_task_steps d)"
  shows "steps_inv render (agent_task_steps d')"
proof (cases v)
  case None
  then show ?thesis using assms ClaimGraphTask_NoneD by blast
next
  case (Some run)
  show ?thesis
    by (rule ClaimGraphTask_SomeD [OF assms(1) [unfolded Some]])
      (auto intro!: steps_inv_update [OF assms(2)] step_move_fenced step_wf_fenced)
qed

lemma ClaimGraphTask_keys:
  assumes "ClaimGraphTask render pg clk new i lease d = Inr (v, d')" and "keys_ok d"
  shows "keys_ok d'"
proof (cases v)
  case None
  then show ?thesis using assms ClaimGraphTask_NoneD by blast
next
  case (Some run)
  have "step_key (fenced_row render s) = step_key s" for s
    by (simp add: fenced_row_def recovered_def)
  moreover have "t_ID (admitted_task now t) = t_ID t" for now t by (simp add: admitted_task_def)
  ultimately show ?thesis
    using assms(2) by (rule_tac ClaimGraphTask_SomeD [OF assms(1) [unfolded Some]])
      (auto simp: keys_ok_def map_update_where dest: upsert_run_Some)
qed

text \<open>Admission adds at most the claimed task to its owner's live leases, and only below the limit.\<close>

lemma ClaimGraphTask_leased:
  assumes claim: "ClaimGraphTask render pg clk new i lease d = Inr (v, d')" and "keys_ok d"
    and clk: "t0 \<le> clk 2" "clk 2 \<le> t1" and cap: "card (leased d t0 user) \<le> 2"
  shows "card (leased d' t1 user) \<le> 2"
proof (cases v)
  case None
  then have "d' = d" using claim ClaimGraphTask_NoneD by blast
  then have "leased d' t1 user \<subseteq> leased d t0 user"
    using clk leased_antimono [of t0 t1] by simp
  then show ?thesis using cap card_mono [of "leased d t0 user"] by (meson finite_leased le_trans)
next
  case (Some run)
  then obtain task runs where task: "task \<in> set (agent_tasks d)" "t_ID task = i" "open_graph_task task"
    and below: "length (filter (\<lambda>(r, t). t_ID t \<noteq> i) (owner_leases d (clk 2) (t_UserID task))) < 2"
    and runs: "upsert_run clk new i lease (agent_task_runs d) = Some (run, runs)"
    and d': "d' = d\<lparr>agent_task_runs := runs,
        agent_tasks := update_where (\<lambda>t. t_ID t = i) (admitted_task (clk 4)) (agent_tasks d),
        agent_task_steps := update_where (\<lambda>s. s_TaskID s = i \<and> s_Status s = ''running'')
          (fenced_row render) (agent_task_steps d)\<rparr>"
    by (rule_tac ClaimGraphTask_SomeD [OF claim [unfolded Some]]) (simp add: startable_def)
  have ids: "t = task" if "t \<in> set (agent_tasks d)" "t_ID t = i" for t
    using task_rows.same_key_same_row [of "agent_tasks d" t task] assms(2) task that
    by (simp add: keys_ok_def)
  have others: "leased d' t1 u \<subseteq> (if u = t_UserID task then insert i (leased d (clk 2) u - {i}) else leased d (clk 2) u - {i})" for u
  proof
    fix j assume "j \<in> leased d' t1 u"
    then obtain r t' where r: "r \<in> set runs" "r_TaskID r = j" "t1 < r_LeaseUntil r"
      and t': "t' \<in> set (update_where (\<lambda>t. t_ID t = i) (admitted_task (clk 4)) (agent_tasks d))"
        "t_ID t' = j" "t_UserID t' = u" "open_graph_task t'"
      by (auto simp: leased_def d')
    show "j \<in> (if u = t_UserID task then insert i (leased d (clk 2) u - {i}) else leased d (clk 2) u - {i})"
    proof (cases "j = i")
      case True
      with t' obtain t where "t \<in> set (agent_tasks d)" "t_ID t = i" "t' = admitted_task (clk 4) t"
        by (auto simp: set_update_where)
      with t' ids have "u = t_UserID task" by (simp add: admitted_task_def)
      with True show ?thesis by simp
    next
      case False
      with t' have "t' \<in> set (agent_tasks d)" by (auto simp: set_update_where admitted_task_def)
      moreover have "r \<in> set (agent_task_runs d)" using upsert_run_Some [OF runs] r False by auto
      ultimately have "j \<in> leased d (clk 2) u"
        using r t' clk by (force simp: leased_def)
      with False show ?thesis by auto
    qed
  qed
  show ?thesis
  proof (cases "user = t_UserID task")
    case True
    have "card {j \<in> leased d (clk 2) user. j \<noteq> i} < 2"
      using below card_leased [OF assms(2), of "\<lambda>j. j \<noteq> i" "clk 2" user] True by simp
    moreover have "{j \<in> leased d (clk 2) user. j \<noteq> i} = leased d (clk 2) user - {i}" by auto
    ultimately have "card (insert i (leased d (clk 2) user - {i})) \<le> 2"
      using card_insert_le_m1 [of 2 "leased d (clk 2) user - {i}" i] by simp
    moreover have "leased d' t1 user \<subseteq> insert i (leased d (clk 2) user - {i})" using others [of user] True by simp
    ultimately show ?thesis by (meson card_mono finite_Diff finite_insert finite_leased le_trans)
  next
    case False
    have "leased d' t1 user \<subseteq> leased d t0 user"
      using others [of user] False leased_antimono [of t0 "clk 2" d user] clk by auto
    then show ?thesis using cap card_mono [of "leased d t0 user"] by (meson finite_leased le_trans)
  qed
qed

section \<open>Renewal, release and progress\<close>

lemma requireTaskRun_Inr:
  "requireTaskRun run now i d = Inr u \<longleftrightarrow> run \<noteq> uuid_Nil \<and>
     (\<exists>r \<in> set (agent_task_runs d). r_TaskID r = i \<and> r_RunID r = run \<and> now < r_LeaseUntil r)"
  by (simp add: requireTaskRun_def)

lemma lockTaskExecution_Inr:
  "lockTaskExecution run clk i claim deadline d = Inr u \<longleftrightarrow>
     (\<exists>task. find_task d i = Some task \<and> t_Status task = ''running'' \<and>
        (claim = None \<or> t_LastRunAt task = claim) \<and>
        (deadline \<longrightarrow> (case t_Deadline task of None \<Rightarrow> True | Some dl \<Rightarrow> clk 1 < dl)) \<and>
        (t_ExecutorVersion task = 2 \<longrightarrow> requireTaskRun run (clk 2) i d = Inr ()))"
  by (auto simp: lockTaskExecution_def split: option.splits if_splits)

lemma lockTaskExecution_Inl: "lockTaskExecution run clk i claim deadline d = Inl e \<Longrightarrow> e = ErrTaskClaimLost"
  by (auto simp: lockTaskExecution_def requireTaskRun_def split: option.splits if_splits)

lemma RenewGraphTask_Inr:
  assumes "RenewGraphTask run clk i lease d = Inr (u, d')"
  shows "lease_ok lease \<and> lockTaskExecution run clk i None True d = Inr () \<and>
    requireTaskRun run (clk 3) i d = Inr () \<and>
    d' = d\<lparr>agent_task_runs := update_where (\<lambda>r. r_TaskID r = i)
      (\<lambda>r. r\<lparr>r_LeaseUntil := lease_end (clk 4) lease, r_HeartbeatAt := clk 4\<rparr>) (agent_task_runs d)\<rparr>"
  using assms by (auto simp: RenewGraphTask_def split: if_splits sum.splits)

lemma YieldGraphTask_Inr:
  assumes "YieldGraphTask iso_time run clk i nxt d = Inr (u, d')"
  shows "lockTaskExecution run clk i None False d = Inr () \<and> requireTaskRun run (clk 3) i d = Inr () \<and>
    (\<forall>s \<in> set (agent_task_steps d). s_TaskID s = i \<longrightarrow> s_Status s \<noteq> ''running'') \<and>
    d' = d\<lparr>agent_task_runs := update_where (\<lambda>r. r_TaskID r = i)
        (\<lambda>r. r\<lparr>r_LeaseUntil := clk 4, r_NextAttemptAt := nxt\<rparr>) (agent_task_runs d),
      agent_tasks := update_where (\<lambda>t. t_ID t = i)
        (\<lambda>t. t\<lparr>t_Status := ''pending'', t_Progress := jconcat (t_Progress t)
           (JObj [(''phase'', JStr ''retry_wait''), (''next_attempt_at'', JStr (iso_time nxt))])\<rparr>)
        (agent_tasks d)\<rparr>"
  using assms by (auto simp: YieldGraphTask_def split: if_splits sum.splits)

lemma SaveGraphProgress_Inr:
  assumes "SaveGraphProgress run clk i progress d = Inr (u, d')"
  shows "lockTaskExecution run clk i None True d = Inr () \<and>
    d' = d\<lparr>agent_tasks := update_where (\<lambda>t. t_ID t = i)
      (\<lambda>t. t\<lparr>t_Progress := jconcat (t_Progress t) progress\<rparr>) (agent_tasks d)\<rparr>"
  using assms by (auto simp: SaveGraphProgress_def split: sum.splits)

lemma open_graph_task_Progress [simp]: "open_graph_task (t\<lparr>t_Progress := j\<rparr>) = open_graph_task t"
  by (simp add: open_graph_task_def)

text \<open>A renewal only extends a lease that is live; a release ends one.\<close>

lemma RenewGraphTask_kept:
  assumes "RenewGraphTask run clk i lease d = Inr (u, d')" and "now \<le> clk 3"
  shows "\<forall>r' \<in> set (agent_task_runs d'). \<exists>r \<in> set (agent_task_runs d).
    r_TaskID r = r_TaskID r' \<and> (now < r_LeaseUntil r \<or> r = r')"
proof -
  obtain r0 where "r0 \<in> set (agent_task_runs d)" "r_TaskID r0 = i" "clk 3 < r_LeaseUntil r0"
    using RenewGraphTask_Inr [OF assms(1)] by (auto simp: requireTaskRun_Inr)
  then show ?thesis
    using RenewGraphTask_Inr [OF assms(1)] assms(2) by (fastforce simp: set_update_where)
qed

lemma RenewGraphTask_leased:
  assumes "RenewGraphTask run clk i lease d = Inr (u, d')" and "t0 \<le> clk 3" and "t0 \<le> t1"
  shows "leased d' t1 user \<subseteq> leased d t0 user"
proof -
  have "runs_kept d t0 d'"
    using RenewGraphTask_kept [OF assms(1,2)] by (fastforce simp: runs_kept_def)
  moreover have "tasks_kept d d'" using RenewGraphTask_Inr [OF assms(1)] by simp
  ultimately show ?thesis using leased_kept leased_antimono [OF assms(3)] by blast
qed

lemma YieldGraphTask_leased:
  assumes "YieldGraphTask iso_time run clk i nxt d = Inr (u, d')" and "clk 4 \<le> t1"
    and "t0 \<le> t1" and "keys_ok d"
  shows "leased d' t1 user \<subseteq> leased d t0 user"
proof -
  have d': "agent_task_runs d' = update_where (\<lambda>r. r_TaskID r = i)
      (\<lambda>r. r\<lparr>r_LeaseUntil := clk 4, r_NextAttemptAt := nxt\<rparr>) (agent_task_runs d)"
    and tasks: "agent_tasks d' = update_where (\<lambda>t. t_ID t = i)
        (\<lambda>t. t\<lparr>t_Status := ''pending'', t_Progress := jconcat (t_Progress t)
           (JObj [(''phase'', JStr ''retry_wait''), (''next_attempt_at'', JStr (iso_time nxt))])\<rparr>) (agent_tasks d)"
    and lock: "lockTaskExecution run clk i None False d = Inr ()"
    using YieldGraphTask_Inr [OF assms(1)] by simp_all
  obtain task where task: "task \<in> set (agent_tasks d)" "t_ID task = i" "t_Status task = ''running''"
    using lock by (auto simp: lockTaskExecution_Inr dest: find_task_SomeD)
  have same: "t = task" if "t \<in> set (agent_tasks d)" "t_ID t = i" for t
    using task_rows.same_key_same_row [of "agent_tasks d" t task] assms(4) task that by (simp add: keys_ok_def)
  have "runs_kept d t1 d'" using assms(2) by (fastforce simp: runs_kept_def d' set_update_where)
  moreover have "tasks_kept d d'"
    using task same by (intro tasks_kept_update [OF tasks]) (auto simp: open_graph_task_def)
  ultimately show ?thesis using leased_kept leased_antimono [OF assms(3)] by blast
qed

end
