(* ===== verification/Base64.thy ===== *)
theory Base64
  imports Prelude
begin

text \<open>
  The unpadded encodings of Go's \<open>encoding/base64\<close> the program uses, \<open>RawStdEncoding\<close> and
  \<open>RawURLEncoding\<close>: six bits per character of an alphabet of 64, no padding. Decoding skips line
  breaks and ignores unused trailing bits.
\<close>

definition alnum64 :: string where
  "alnum64 = ''ABCDEFGHIJKLMNOPQRSTUVWXYZabcdefghijklmnopqrstuvwxyz0123456789''"

definition std_alphabet :: string where "std_alphabet = alnum64 @ ''+/''"
definition url_alphabet :: string where "url_alphabet = alnum64 @ ''-_''"

abbreviation byte :: "char \<Rightarrow> nat" where "byte \<equiv> of_char"
abbreviation chr :: "nat \<Rightarrow> char" where "chr \<equiv> char_of"

fun encode64 :: "string \<Rightarrow> string \<Rightarrow> string" where
  "encode64 al (a # b # c # r) =
     [al ! (byte a div 4), al ! (byte a mod 4 * 16 + byte b div 16),
      al ! (byte b mod 16 * 4 + byte c div 64), al ! (byte c mod 64)] @ encode64 al r"
| "encode64 al [a, b] =
     [al ! (byte a div 4), al ! (byte a mod 4 * 16 + byte b div 16), al ! (byte b mod 16 * 4)]"
| "encode64 al [a] = [al ! (byte a div 4), al ! (byte a mod 4 * 16)]"
| "encode64 al [] = []"

fun position :: "'a \<Rightarrow> 'a list \<Rightarrow> nat option" where
  "position x [] = None"
| "position x (y # ys) = (if x = y then Some 0 else map_option Suc (position x ys))"

fun decode_quads :: "nat list \<Rightarrow> string option" where
  "decode_quads (w # x # y # z # r) =
     map_option (\<lambda>t. [chr (w * 4 + x div 16), chr (x mod 16 * 16 + y div 4), chr (y mod 4 * 64 + z)] @ t)
       (decode_quads r)"
| "decode_quads [w, x, y] = Some [chr (w * 4 + x div 16), chr (x mod 16 * 16 + y div 4)]"
| "decode_quads [w, x] = Some [chr (w * 4 + x div 16)]"
| "decode_quads [w] = None"
| "decode_quads [] = Some []"

fun sextets :: "string \<Rightarrow> string \<Rightarrow> nat list option" where
  "sextets al [] = Some []"
| "sextets al (c # s) = (case position c al of
     None \<Rightarrow> None
   | Some n \<Rightarrow> map_option (Cons n) (sextets al s))"

definition line_break :: "char \<Rightarrow> bool" where
  "line_break c \<longleftrightarrow> c = CHR 0x0A \<or> c = CHR 0x0D"

definition decode64 :: "string \<Rightarrow> string \<Rightarrow> string option" where
  "decode64 al s = (case sextets al (filter (\<lambda>c. \<not> line_break c) s) of None \<Rightarrow> None | Some ns \<Rightarrow> decode_quads ns)"

definition alphabet :: "string \<Rightarrow> bool" where
  "alphabet al \<longleftrightarrow> length al = 64 \<and> distinct al \<and> list_all (\<lambda>c. \<not> line_break c) al"

lemma alphabet_std: "alphabet std_alphabet" by code_simp
lemma alphabet_url: "alphabet url_alphabet" by code_simp

lemma position_nth: "distinct al \<Longrightarrow> n < length al \<Longrightarrow> position (al ! n) al = Some n"
proof (induction al arbitrary: n)
  case (Cons a al)
  then show ?case by (cases n) auto
qed simp

lemma byte_less: "byte c < 256"
  by (rule nat_of_char_less_256)

lemma join_split: "y < k \<Longrightarrow> (x * k + y) div k = x" "y < k \<Longrightarrow> (x * k + y) mod k = y" for x y k :: nat
  by simp_all

lemma byte_div: "byte c div 4 < 64" "byte c div 16 < 16" "byte c div 64 < 4"
  using byte_less [of c] by (simp_all add: less_mult_imp_div_less)

lemma sextet_bounds:
  "byte a div 4 < 64" "byte a mod 4 * 16 + byte b div 16 < 64"
  "byte b mod 16 * 4 + byte c div 64 < 64" "byte b mod 16 * 4 < 64" "byte a mod 4 * 16 < 64" "byte c mod 64 < 64"
proof -
  have "byte a mod 4 < 4" "byte b mod 16 < 16" "byte c mod 64 < 64" by simp_all
  then show "byte a div 4 < 64" "byte a mod 4 * 16 + byte b div 16 < 64"
    "byte b mod 16 * 4 + byte c div 64 < 64" "byte b mod 16 * 4 < 64" "byte a mod 4 * 16 < 64" "byte c mod 64 < 64"
    using byte_div [of a] byte_div [of b] byte_div [of c] by linarith+
qed

text \<open>The sextets of an encoding are read back from it.\<close>

fun sextets_of :: "string \<Rightarrow> nat list" where
  "sextets_of (a # b # c # r) = [byte a div 4, byte a mod 4 * 16 + byte b div 16,
      byte b mod 16 * 4 + byte c div 64, byte c mod 64] @ sextets_of r"
| "sextets_of [a, b] = [byte a div 4, byte a mod 4 * 16 + byte b div 16, byte b mod 16 * 4]"
| "sextets_of [a] = [byte a div 4, byte a mod 4 * 16]"
| "sextets_of [] = []"

lemma encode64_sextets: "encode64 al s = map ((!) al) (sextets_of s)"
  by (induction al s rule: encode64.induct) simp_all

lemma sextets_of_bound: "n \<in> set (sextets_of s) \<Longrightarrow> n < 64"
  by (induction s rule: sextets_of.induct) (use sextet_bounds in auto)

lemma sextets_map:
  "distinct al \<Longrightarrow> list_all (\<lambda>n. n < length al) ns \<Longrightarrow> sextets al (map ((!) al) ns) = Some ns"
  by (induction ns) (auto simp: position_nth)

lemma chr_bytes [simp]: "chr (byte c) = (c :: char)"
  by simp

lemma joined_bytes:
  "byte a div 4 * 4 + (byte a mod 4 * 16 + byte b div 16) div 16 = byte a"
  "(byte a mod 4 * 16 + byte b div 16) mod 16 * 16 + (byte b mod 16 * 4 + byte c div 64) div 4 = byte b"
  "(byte b mod 16 * 4 + byte c div 64) mod 4 * 64 + byte c mod 64 = byte c"
  "(byte a mod 4 * 16 + byte b div 16) mod 16 * 16 + byte b mod 16 * 4 div 4 = byte b"
  "byte a div 4 * 4 + byte a mod 4 * 16 div 16 = byte a"
  by (simp_all add: join_split byte_div)

lemma decode_sextets_of: "decode_quads (sextets_of s) = Some s"
  by (induction s rule: sextets_of.induct)
    (simp_all only: sextets_of.simps append.simps decode_quads.simps joined_bytes option.map chr_bytes)

lemma encode64_set: "alphabet al \<Longrightarrow> set (encode64 al s) \<subseteq> set al"
  using sextets_of_bound [of _ s] by (fastforce simp: encode64_sextets alphabet_def)

theorem decode64_encode64: "alphabet al \<Longrightarrow> decode64 al (encode64 al s) = Some s"
proof -
  assume al: "alphabet al"
  have "filter (\<lambda>c. \<not> line_break c) (encode64 al s) = encode64 al s"
    using encode64_set [OF al, of s] al by (auto simp: filter_id_conv alphabet_def list_all_iff)
  moreover have "sextets al (encode64 al s) = Some (sextets_of s)"
    using al sextets_of_bound [of _ s] by (simp add: encode64_sextets sextets_map alphabet_def list_all_iff)
  ultimately show ?thesis by (simp add: decode64_def decode_sextets_of)
qed

lemma encode64_Nil_iff [simp]: "encode64 al s = [] \<longleftrightarrow> s = []"
  by (cases "(al, s)" rule: encode64.cases) auto

end
