(* ===== verification/Autonomous_Turn.thy ===== *)
theory Autonomous_Turn
  imports Base64
begin

text \<open>
  The notification envelope of \<open>internal/core/autonomous_turn.go\<close>: a generated turn is journaled as a
  versioned marker line followed by the base64 of its JSON. The JSON text codec of
  \<open>encoding/json\<close> is a pair of parameters \<open>marshal\<close> and \<open>unmarshal\<close> (\<open>None\<close> for a decoding error).
\<close>

record AutonomousTurnRequest =
  q_UserID :: uuid
  q_SoulID :: uuid
  q_AnchorMessageID :: string
  q_Prompt :: string
  q_Tools :: "string list"

record AutonomousTurnDraft =
  f_Text :: string
  f_SessionID :: string
  f_DialogMessageID :: string
  f_ActivityToken :: string
  f_NoOp :: bool
  f_NoOpReason :: string

record AutonomousTurnCommit =
  c_UserID :: uuid
  c_SoulID :: uuid
  c_AnchorMessageID :: string
  c_SessionID :: string
  c_DialogMessageID :: string
  c_ActivityToken :: string
  c_Text :: string

definition autonomousTurnNotificationPrefix :: string where
  "autonomousTurnNotificationPrefix = ''[blueship:autonomous-turn:v1]''"

datatype format_error = MissingUserOrSoul | MissingAnchor | NotDeliverable | MissingSession
  | MissingDialog | MissingActivityToken

definition turn_commit :: "AutonomousTurnRequest \<Rightarrow> AutonomousTurnDraft \<Rightarrow> AutonomousTurnCommit" where
  "turn_commit req draft = \<lparr>c_UserID = q_UserID req, c_SoulID = q_SoulID req,
     c_AnchorMessageID = q_AnchorMessageID req, c_SessionID = f_SessionID draft,
     c_DialogMessageID = f_DialogMessageID draft, c_ActivityToken = f_ActivityToken draft,
     c_Text = trim_space (f_Text draft)\<rparr>"

definition FormatAutonomousTurnNotification ::
    "(AutonomousTurnCommit \<Rightarrow> string) \<Rightarrow> AutonomousTurnRequest \<Rightarrow> AutonomousTurnDraft \<Rightarrow> format_error + string" where
  "FormatAutonomousTurnNotification marshal req draft =
     (let text = trim_space (f_Text draft) in
      if q_UserID req = uuid_Nil \<or> q_SoulID req = uuid_Nil then Inl MissingUserOrSoul
      else if trim_space (q_AnchorMessageID req) = [] then Inl MissingAnchor
      else if f_NoOp draft \<or> text = [] then Inl NotDeliverable
      else if trim_space (f_SessionID draft) = [] then Inl MissingSession
      else if trim_space (f_DialogMessageID draft) = [] then Inl MissingDialog
      else if trim_space (f_ActivityToken draft) = [] then Inl MissingActivityToken
      else Inr (autonomousTurnNotificationPrefix @ [CHR 0x0A] @
             encode64 std_alphabet (marshal (turn_commit req draft))))"

text \<open>Not a marker, a marker that does not decode to a complete turn, or a turn.\<close>

datatype parsed_turn = Ordinary | Malformed | Turn AutonomousTurnCommit

definition complete_commit :: "AutonomousTurnCommit \<Rightarrow> bool" where
  "complete_commit c \<longleftrightarrow> \<not> (c_UserID c = uuid_Nil \<or> c_SoulID c = uuid_Nil \<or>
     trim_space (c_AnchorMessageID c) = [] \<or> trim_space (c_SessionID c) = [] \<or>
     trim_space (c_DialogMessageID c) = [] \<or> trim_space (c_ActivityToken c) = [] \<or> c_Text c = [])"

definition ParseAutonomousTurnNotification ::
    "(string \<Rightarrow> AutonomousTurnCommit option) \<Rightarrow> string \<Rightarrow> parsed_turn" where
  "ParseAutonomousTurnNotification unmarshal text =
     (let raw = trim_space text; marker = autonomousTurnNotificationPrefix @ [CHR 0x0A] in
      if \<not> has_prefix raw autonomousTurnNotificationPrefix then Ordinary
      else
        let ok = has_prefix raw marker; encoded = trim_prefix raw marker in
        if \<not> ok \<or> trim_space encoded = [] then Malformed
        else case decode64 std_alphabet (trim_space encoded) of
            None \<Rightarrow> Malformed
          | Some payload \<Rightarrow>
              (case unmarshal payload of
                 None \<Rightarrow> Malformed
               | Some commit \<Rightarrow>
                   let commit = commit\<lparr>c_Text := trim_space (c_Text commit)\<rparr> in
                   if complete_commit commit then Turn commit else Malformed))"

section \<open>Round trip\<close>

lemma white_space_edges:
  "list_all (\<lambda>p. p \<noteq> [] \<and> hd p \<noteq> CHR ''['') white_space"
  "list_all (\<lambda>c. list_all (\<lambda>p. p \<noteq> [] \<and> hd p \<noteq> c) white_space) std_alphabet"
  "list_all (\<lambda>c. list_all (\<lambda>p. p \<noteq> [] \<and> hd p \<noteq> c) (map rev white_space)) std_alphabet"
  by code_simp+

lemma trim_space_encoded:
  assumes "encode64 std_alphabet s \<noteq> []"
  shows "trim_space (encode64 std_alphabet s) = encode64 std_alphabet s"
    and "trim_space (CHR ''['' # xs @ encode64 std_alphabet s) = CHR ''['' # xs @ encode64 std_alphabet s"
proof -
  let ?e = "encode64 std_alphabet s"
  have "hd ?e \<in> set std_alphabet" "last ?e \<in> set std_alphabet"
    using encode64_set [OF alphabet_std, of s] assms by (meson hd_in_set last_in_set subsetD)+
  then have edges: "list_all (\<lambda>p. p \<noteq> [] \<and> hd p \<noteq> hd ?e) white_space"
    "list_all (\<lambda>p. p \<noteq> [] \<and> hd p \<noteq> last ?e) (map rev white_space)"
    using white_space_edges by (auto simp: list_all_iff)
  then show "trim_space ?e = ?e" using assms by (rule trim_space_fixed)
  have "trim_space (CHR ''['' # xs @ ?e) = CHR ''['' # xs @ ?e"
    by (rule trim_space_fixed) (use white_space_edges(1) edges(2) assms in \<open>simp_all\<close>)
  then show "trim_space (CHR ''['' # xs @ ?e) = CHR ''['' # xs @ ?e" .
qed

lemma has_prefix_append [simp]: "has_prefix (p @ s) p"
  by (simp add: has_prefix_def)

lemma trim_prefix_append [simp]: "trim_prefix (p @ s) p = s"
  by (simp add: trim_prefix_def)

lemma FormatAutonomousTurnNotification_Inr:
  assumes "FormatAutonomousTurnNotification marshal req draft = Inr text"
  shows "complete_commit (turn_commit req draft) \<and>
    text = autonomousTurnNotificationPrefix @ [CHR 0x0A] @ encode64 std_alphabet (marshal (turn_commit req draft))"
  using assms
  by (auto simp: FormatAutonomousTurnNotification_def Let_def complete_commit_def turn_commit_def split: if_splits)

text \<open>
  A formatted turn is recognised and decoded to exactly the turn that was formatted, provided
  the JSON codec reads back what it wrote for this turn.
\<close>

theorem autonomous_turn_roundtrip:
  assumes "FormatAutonomousTurnNotification marshal req draft = Inr text"
    and "unmarshal (marshal (turn_commit req draft)) = Some (turn_commit req draft)"
    and "marshal (turn_commit req draft) \<noteq> []"
  shows "ParseAutonomousTurnNotification unmarshal text = Turn (turn_commit req draft)"
proof -
  let ?c = "turn_commit req draft" and ?p = autonomousTurnNotificationPrefix
  let ?e = "encode64 std_alphabet (marshal ?c)"
  have form: "text = ?p @ [CHR 0x0A] @ ?e" and complete: "complete_commit ?c"
    using FormatAutonomousTurnNotification_Inr [OF assms(1)] by simp_all
  have e: "?e \<noteq> []" using assms(3) by simp
  have "trim_space text = text"
    using trim_space_encoded(2) [OF e, of "tl ?p @ [CHR 0x0A]"]
    by (simp add: form autonomousTurnNotificationPrefix_def)
  moreover have "has_prefix text (?p @ [CHR 0x0A])" "trim_prefix text (?p @ [CHR 0x0A]) = ?e"
    using has_prefix_append [of "?p @ [CHR 0x0A]" ?e] trim_prefix_append [of "?p @ [CHR 0x0A]" ?e]
    by (simp_all add: form)
  moreover have "has_prefix text ?p" unfolding form by (rule has_prefix_append)
  moreover have "?c\<lparr>c_Text := trim_space (c_Text ?c)\<rparr> = ?c" by (simp add: turn_commit_def)
  ultimately show ?thesis
    using e trim_space_encoded(1) [OF e] complete assms(2)
    by (simp add: ParseAutonomousTurnNotification_def Let_def decode64_encode64 alphabet_std)
qed

definition sample_request :: AutonomousTurnRequest where
  "sample_request = \<lparr>q_UserID = 1, q_SoulID = 2, q_AnchorMessageID = ''m1'', q_Prompt = [], q_Tools = []\<rparr>"

definition sample_draft :: AutonomousTurnDraft where
  "sample_draft = \<lparr>f_Text = '' hi '', f_SessionID = ''s1'', f_DialogMessageID = ''d1'',
     f_ActivityToken = ''t1'', f_NoOp = False, f_NoOpReason = []\<rparr>"

theorem autonomous_turn_roundtrip_witness:
  "ParseAutonomousTurnNotification (\<lambda>s. if s = ''{}'' then Some (turn_commit sample_request sample_draft) else None)
     (''[blueship:autonomous-turn:v1]'' @ [CHR 0x0A] @ ''e30'') = Turn (turn_commit sample_request sample_draft)"
proof (rule autonomous_turn_roundtrip)
  show "FormatAutonomousTurnNotification (\<lambda>_. ''{}'') sample_request sample_draft =
      Inr (''[blueship:autonomous-turn:v1]'' @ [CHR 0x0A] @ ''e30'')"
    by code_simp
qed simp_all

end
