(* ===== verification/Notify_Journal.thy ===== *)
theory Notify_Journal
  imports Task_Model Autonomous_Turn "HOL-Library.List_Lexorder" "HOL-Library.Char_ord"
    "HOL-Library.Product_Lexorder"
begin

text \<open>
  The at-most-once notification journal of \<open>internal/core/agent_store.go\<close>: delivery references are
  reserved before any transport is called, an attempt moves between the five states of migration 018,
  and a reservation is never released. \<open>sha256\<close> is Go's \<open>crypto/sha256\<close> digest.
\<close>

section \<open>Delivery references\<close>

definition taskDeliveryInputIDMaxBytes :: nat where "taskDeliveryInputIDMaxBytes = 64"
definition TaskDeliveryItemKeyMaxBytes :: nat where "TaskDeliveryItemKeyMaxBytes = 512"

definition normalize_ref :: "TaskDeliveryRef \<Rightarrow> TaskDeliveryRef list \<Rightarrow> store_error + TaskDeliveryRef list" where
  "normalize_ref r out =
     (let ref = \<lparr>d_InputID = trim_space (d_InputID r), d_ItemKey = trim_space (d_ItemKey r)\<rparr> in
      if d_InputID ref = [] \<or> d_ItemKey ref = [] then Inr out
      else if length (d_InputID ref) > taskDeliveryInputIDMaxBytes then Inl RefTooLong
      else if length (d_ItemKey ref) > TaskDeliveryItemKeyMaxBytes then Inl RefTooLong
      else if ref \<in> set out then Inr out
      else Inr (out @ [ref]))"

definition normalizeTaskDeliveryRefs :: "TaskDeliveryRef list \<Rightarrow> store_error + TaskDeliveryRef list" where
  "normalizeTaskDeliveryRefs refs = foldM normalize_ref refs []"

definition sortTaskDeliveryRefs :: "TaskDeliveryRef list \<Rightarrow> TaskDeliveryRef list" where
  "sortTaskDeliveryRefs refs = sort_key (\<lambda>r. (d_InputID r, d_ItemKey r)) refs"

definition be32 :: "nat \<Rightarrow> string" where
  "be32 n = [chr (n div 2 ^ 24 mod 256), chr (n div 2 ^ 16 mod 256), chr (n div 2 ^ 8 mod 256), chr (n mod 256)]"

definition ref_bytes :: "TaskDeliveryRef \<Rightarrow> string" where
  "ref_bytes r = be32 (length (d_InputID r)) @ d_InputID r @ be32 (length (d_ItemKey r)) @ d_ItemKey r"

definition occurrence_preimage :: "TaskDeliveryRef list \<Rightarrow> string" where
  "occurrence_preimage refs = ''task-notification-occurrence/v1'' @ [CHR 0x00] @
     concat (map ref_bytes (sortTaskDeliveryRefs refs))"

definition taskNotificationOccurrenceKey :: "(string \<Rightarrow> string) \<Rightarrow> TaskDeliveryRef list \<Rightarrow> string" where
  "taskNotificationOccurrenceKey sha256 refs =
     ''refs:v1:'' @ encode64 url_alphabet (sha256 (occurrence_preimage refs))"

section \<open>The delivery ledger\<close>

definition insert_deliveries :: "uuid \<Rightarrow> TaskDeliveryRef list \<Rightarrow> db \<Rightarrow> db" where
  "insert_deliveries taskID refs d = d\<lparr>agent_task_deliveries :=
     fold (\<lambda>r ds. if (taskID, r) \<in> set ds then ds else ds @ [(taskID, r)]) refs (agent_task_deliveries d)\<rparr>"

definition reserved :: "uuid \<Rightarrow> TaskDeliveryRef \<Rightarrow> db \<Rightarrow> bool" where
  "reserved taskID r d \<longleftrightarrow> (\<exists>n \<in> set (notification_items d). ni_TaskID n = taskID \<and> ni_Ref n = r)"

text \<open>The keys of the returned map.\<close>

definition LookupDelivered :: "uuid \<Rightarrow> TaskDeliveryRef list \<Rightarrow> db \<Rightarrow> store_error + TaskDeliveryRef list" where
  "LookupDelivered taskID refs d =
     (case normalizeTaskDeliveryRefs refs of
        Inl e \<Rightarrow> Inl e
      | Inr refs \<Rightarrow> Inr (filter (\<lambda>r. (taskID, r) \<in> set (agent_task_deliveries d) \<or> reserved taskID r d) refs))"

text \<open>The foreign key on \<open>agent_tasks\<close> rejects a row for a task that does not exist.\<close>

definition MarkDelivered :: "uuid \<Rightarrow> TaskDeliveryRef list \<Rightarrow> db \<Rightarrow> unit tx" where
  "MarkDelivered taskID refs d =
     (case normalizeTaskDeliveryRefs refs of
        Inl e \<Rightarrow> Inl e
      | Inr refs \<Rightarrow>
          if refs = [] then Inr ((), d)
          else if find_task d taskID = None then Inl ConstraintViolation
          else Inr ((), insert_deliveries taskID refs d))"

lemma MarkDelivered_Inr:
  assumes "MarkDelivered i refs d = Inr (u, d')"
  obtains rs where "d' = insert_deliveries i rs d"
proof -
  have "d = insert_deliveries i [] d" by (simp add: insert_deliveries_def)
  then show thesis using assms that by (auto simp: MarkDelivered_def split: sum.splits if_splits)
qed

section \<open>Attempts\<close>

definition find_attempt :: "uuid \<Rightarrow> db \<Rightarrow> NotificationAttempt option" where
  "find_attempt i d = List.find (\<lambda>a. na_ID a = i) (notification_attempts d)"

text \<open>The CHECK constraints of migrations 018 and 025 on an attempt.\<close>

definition attempt_checks :: "NotificationAttempt \<Rightarrow> bool" where
  "attempt_checks a \<longleftrightarrow> 1 \<le> length (na_OccurrenceKey a) \<and> length (na_OccurrenceKey a) \<le> 512 \<and>
     btrim (na_MessageText a) \<noteq> [] \<and> 0 \<le> na_AttemptCount a \<and>
     (na_State a = ''dispatching'' \<and> na_Receipt a = None \<and> na_ErrorMessage a = None \<and>
        na_NextAttemptAt a = None \<and> na_ResolvedAt a = None \<or>
      na_State a = ''retryable'' \<and> na_Receipt a = None \<and> na_ErrorMessage a \<noteq> None \<and>
        na_NextAttemptAt a \<noteq> None \<and> na_ResolvedAt a = None \<or>
      na_State a = ''sent'' \<and> na_Receipt a \<noteq> None \<and> na_ErrorMessage a = None \<and>
        na_NextAttemptAt a = None \<and> na_ResolvedAt a \<noteq> None \<or>
      na_State a \<in> {''uncertain'', ''rejected''} \<and> na_Receipt a = None \<and> na_ErrorMessage a \<noteq> None \<and>
        na_NextAttemptAt a = None \<and> na_ResolvedAt a \<noteq> None)"

definition BeginNotificationAttempt ::
    "(string \<Rightarrow> string) \<Rightarrow> gotime \<Rightarrow> uuid \<Rightarrow> uuid \<Rightarrow> uuid \<Rightarrow> string \<Rightarrow> TaskDeliveryRef list \<Rightarrow> db \<Rightarrow> (uuid \<times> bool) tx" where
  "BeginNotificationAttempt sha256 now new taskID userID msg refs d =
     (if taskID = uuid_Nil \<or> userID = uuid_Nil then Inl (MissingArgument ''task_id and user_id'')
      else if trim_space msg = [] then Inl (MissingArgument ''text'')
      else case normalizeTaskDeliveryRefs refs of
          Inl e \<Rightarrow> Inl e
        | Inr refs \<Rightarrow>
            if refs = [] then Inl (MissingArgument ''delivery ref'')
            else
              let refs = sortTaskDeliveryRefs refs;
                  key = taskNotificationOccurrenceKey sha256 refs;
                  task = List.find (\<lambda>t. t_ID t = taskID \<and> t_UserID t = userID) (agent_tasks d);
                  same = List.find (\<lambda>a. na_TaskID a = taskID \<and> na_OccurrenceKey a = key) (notification_attempts d)
              in
              if task = None \<or> same \<noteq> None then
                (case List.find (\<lambda>a. na_TaskID a = taskID \<and> na_UserID a = userID \<and> na_OccurrenceKey a = key)
                        (notification_attempts d) of
                   None \<Rightarrow> Inl TaskUserPairNotFound
                 | Some a \<Rightarrow> Inr ((na_ID a, False), d))
              else
                let row = \<lparr>na_ID = new, na_TaskID = taskID, na_UserID = userID, na_OccurrenceKey = key,
                      na_MessageText = msg, na_State = ''dispatching'', na_Receipt = None,
                      na_ErrorMessage = None, na_AttemptCount = 1, na_NextAttemptAt = None,
                      na_LastAttemptAt = now, na_CreatedAt = now, na_ResolvedAt = None\<rparr>;
                    free = filter (\<lambda>r. \<not> reserved taskID r d) refs
                in
                if \<not> attempt_checks row \<or> find_attempt new d \<noteq> None then Inl ConstraintViolation
                else if length free \<noteq> length refs then Inl (PartialOverlap (length free) (length refs))
                else Inr ((new, True), d\<lparr>notification_attempts := notification_attempts d @ [row],
                       notification_items := notification_items d @
                         map (\<lambda>r. \<lparr>ni_AttemptID = new, ni_TaskID = taskID, ni_Ref = r\<rparr>) free\<rparr>))"

text \<open>The \<open>UPDATE ... WHERE id = $1 AND state = 'dispatching'\<close> the resolving operations share.\<close>

definition resolve_dispatching ::
    "uuid \<Rightarrow> (NotificationAttempt \<Rightarrow> NotificationAttempt) \<Rightarrow> db \<Rightarrow> db" where
  "resolve_dispatching i f d = d\<lparr>notification_attempts :=
     update_where (\<lambda>a. na_ID a = i \<and> na_State a = ''dispatching'') f (notification_attempts d)\<rparr>"

record TaskNotificationReceipt =
  rc_Transport :: string
  rc_BotID :: string
  rc_ChatID :: string
  rc_MessageID :: string
  rc_DeliveredAt :: gotime

definition omit_empty :: "string \<Rightarrow> string \<Rightarrow> (string \<times> json) list" where
  "omit_empty k v = (if v = [] then [] else [(k, JStr v)])"

definition receipt_json :: "(gotime \<Rightarrow> string) \<Rightarrow> TaskNotificationReceipt \<Rightarrow> json" where
  "receipt_json iso_time r = JObj ([(''transport'', JStr (rc_Transport r))] @ omit_empty ''bot_id'' (rc_BotID r) @
     omit_empty ''chat_id'' (rc_ChatID r) @ omit_empty ''message_id'' (rc_MessageID r) @
     [(''delivered_at'', JStr (iso_time (rc_DeliveredAt r)))])"

definition ConfirmNotificationAttempt ::
    "(string \<Rightarrow> AutonomousTurnCommit option) \<Rightarrow> (gotime \<Rightarrow> string) \<Rightarrow> gotime \<Rightarrow> uuid \<Rightarrow> TaskNotificationReceipt \<Rightarrow> db \<Rightarrow> unit tx" where
  "ConfirmNotificationAttempt unmarshal iso_time now i receipt d =
     (if i = uuid_Nil then Inl (MissingArgument ''id'')
      else if trim_space (rc_Transport receipt) = [] then Inl (MissingArgument ''receipt transport'')
      else case find_attempt i d of
          None \<Rightarrow> Inl ErrNoRows
        | Some a \<Rightarrow>
            let turn = ParseAutonomousTurnNotification unmarshal (na_MessageText a) in
            if turn = Malformed then Inl MalformedAutonomousTurn
            else if (case turn of Turn c \<Rightarrow> c_UserID c \<noteq> na_UserID a | _ \<Rightarrow> False) then Inl ForeignAutonomousTurn
            else if na_State a = ''sent'' then Inr ((), d)
            else if na_State a = ''uncertain'' then Inl (AttemptInState ''uncertain'')
            else if na_State a \<noteq> ''dispatching'' then Inl (InvalidAttemptState (na_State a))
            else
              Inr ((), resolve_dispatching i
                (\<lambda>a. a\<lparr>na_State := ''sent'', na_Receipt := Some (receipt_json iso_time receipt),
                       na_ErrorMessage := None, na_NextAttemptAt := None, na_ResolvedAt := Some now\<rparr>)
                (d\<lparr>agent_task_deliveries := fold (\<lambda>n ds. if (ni_TaskID n, ni_Ref n) \<in> set ds then ds
                      else ds @ [(ni_TaskID n, ni_Ref n)])
                    (filter (\<lambda>n. ni_AttemptID n = i) (notification_items d)) (agent_task_deliveries d)\<rparr>)))"

definition MarkNotificationUncertain :: "gotime \<Rightarrow> uuid \<Rightarrow> string \<Rightarrow> db \<Rightarrow> unit tx" where
  "MarkNotificationUncertain now i reason d =
     (if i = uuid_Nil then Inl (MissingArgument ''id'')
      else
        let reason = (if trim_space reason = [] then ''notification delivery outcome is uncertain'' else trim_space reason) in
        case find_attempt i d of
          None \<Rightarrow> Inl ErrNoRows
        | Some a \<Rightarrow>
            if na_State a = ''uncertain'' then Inr ((), d)
            else if na_State a = ''sent'' then Inl (AttemptInState ''sent'')
            else if na_State a \<noteq> ''dispatching'' then Inl (InvalidAttemptState (na_State a))
            else Inr ((), resolve_dispatching i (\<lambda>a. a\<lparr>na_State := ''uncertain'', na_ErrorMessage := Some reason,
                na_NextAttemptAt := None, na_ResolvedAt := Some now\<rparr>) d))"

definition DeferNotificationAttempt :: "uuid \<Rightarrow> string \<Rightarrow> gotime \<Rightarrow> db \<Rightarrow> unit tx" where
  "DeferNotificationAttempt i reason retryAt d =
     (if i = uuid_Nil then Inl (MissingArgument ''id'')
      else if trim_space reason = [] then Inl (MissingArgument ''reason'')
      else if retryAt = time_zero then Inl (MissingArgument ''retry_at'')
      else case find_attempt i d of
          None \<Rightarrow> Inl ErrNoRows
        | Some a \<Rightarrow>
            if na_State a = ''retryable'' then Inr ((), d)
            else if na_State a = ''dispatching'' then
              Inr ((), resolve_dispatching i (\<lambda>a. a\<lparr>na_State := ''retryable'', na_ErrorMessage := Some (trim_space reason),
                na_NextAttemptAt := Some retryAt, na_ResolvedAt := None\<rparr>) d)
            else if na_State a \<in> {''sent'', ''uncertain'', ''rejected''} then Inl (AttemptInState (na_State a))
            else Inl (InvalidAttemptState (na_State a)))"

definition RejectNotificationAttempt :: "gotime \<Rightarrow> uuid \<Rightarrow> string \<Rightarrow> db \<Rightarrow> unit tx" where
  "RejectNotificationAttempt now i reason d =
     (if i = uuid_Nil then Inl (MissingArgument ''id'')
      else if trim_space reason = [] then Inl (MissingArgument ''reason'')
      else case find_attempt i d of
          None \<Rightarrow> Inl ErrNoRows
        | Some a \<Rightarrow>
            if na_State a = ''rejected'' then Inr ((), d)
            else if na_State a = ''dispatching'' then
              Inr ((), resolve_dispatching i (\<lambda>a. a\<lparr>na_State := ''rejected'', na_ErrorMessage := Some (trim_space reason),
                na_NextAttemptAt := None, na_ResolvedAt := Some now\<rparr>) d)
            else if na_State a \<in> {''retryable'', ''sent'', ''uncertain''} then Inl (AttemptInState (na_State a))
            else Inl (InvalidAttemptState (na_State a)))"

definition NextNotificationRetry :: "gotime \<Rightarrow> db \<Rightarrow> gotime" where
  "NextNotificationRetry now d =
     (let at = filter (\<lambda>t. now < t) (concat (map (\<lambda>a. if na_State a = ''retryable''
            then (case na_NextAttemptAt a of None \<Rightarrow> [] | Some t \<Rightarrow> [t]) else []) (notification_attempts d)))
      in if at = [] then time_zero else Min (set at))"

record TaskNotificationIntent =
  in_ID :: uuid
  in_TaskID :: uuid
  in_UserID :: uuid
  in_Text :: string
  in_Refs :: "TaskDeliveryRef list"

definition retry_due :: "gotime \<Rightarrow> NotificationAttempt \<Rightarrow> bool" where
  "retry_due now a \<longleftrightarrow> na_State a = ''retryable'' \<and>
     (case na_NextAttemptAt a of None \<Rightarrow> False | Some t \<Rightarrow> t \<le> now)"

definition dispatched_row :: "gotime \<Rightarrow> NotificationAttempt \<Rightarrow> NotificationAttempt" where
  "dispatched_row now a = a\<lparr>na_State := ''dispatching'', na_AttemptCount := na_AttemptCount a + 1,
     na_LastAttemptAt := now, na_NextAttemptAt := None, na_ErrorMessage := None, na_ResolvedAt := None\<rparr>"

text \<open>
  \<open>SKIP LOCKED\<close>: \<open>locked\<close> tells the rows another transaction holds. The references are ordered by the
  database's collation, whose sort key is \<open>coll\<close>.
\<close>

definition ClaimRetryableNotification ::
    "(string \<Rightarrow> 'k::linorder) \<Rightarrow> (uuid \<Rightarrow> bool) \<Rightarrow> gotime \<Rightarrow> db \<Rightarrow> TaskNotificationIntent option tx" where
  "ClaimRetryableNotification coll locked now d =
     (if now = time_zero then Inl (MissingArgument ''now'')
      else case sort_key (\<lambda>a. (the (na_NextAttemptAt a), na_CreatedAt a, na_ID a))
                  (filter (\<lambda>a. retry_due now a \<and> \<not> locked (na_ID a)) (notification_attempts d)) of
          [] \<Rightarrow> Inr (None, d)
        | a # _ \<Rightarrow>
            let refs = sort_key (\<lambda>r. (coll (d_InputID r), coll (d_ItemKey r)))
                  (map ni_Ref (filter (\<lambda>n. ni_AttemptID n = na_ID a) (notification_items d)))
            in
            if refs = [] then Inl NoReservedRefs
            else Inr (Some \<lparr>in_ID = na_ID a, in_TaskID = na_TaskID a, in_UserID = na_UserID a,
                in_Text = na_MessageText a, in_Refs = refs\<rparr>,
              d\<lparr>notification_attempts := update_where (\<lambda>b. na_ID b = na_ID a) (dispatched_row now)
                 (notification_attempts d)\<rparr>))"

end
