(* ===== verification/Task_Finalize.thy ===== *)
theory Task_Finalize
  imports Run_Invariant Notify_Journal
begin

text \<open>
  Terminal results of \<open>internal/core/agent_finalize.go\<close>: the body of the report is chosen from the
  saved drafts, and the artifact, the terminal state and the delivery intent commit together.
\<close>

section \<open>Cleaning a draft\<close>

text \<open>
  The regular expression \<open>taskDraftInternals\<close>, case-insensitive (\<open>s\<close> and \<open>k\<close> also match U+017F and
  U+212A) and with a dot that matches line breaks. A block ends with the first closing mark, or with
  the text.
\<close>

fun match_fold :: "string \<Rightarrow> string \<Rightarrow> string option" where
  "match_fold [] s = Some s"
| "match_fold (p # ps) [] = None"
| "match_fold (p # ps) (c # s) =
     (if fold_name [c] = [p] then match_fold ps s
      else if p = CHR ''s'' \<and> c = CHR 0xC5 \<and> take 1 s = [CHR 0xBF] then match_fold ps (drop 1 s)
      else if p = CHR ''k'' \<and> c = CHR 0xE2 \<and> take 2 s = [CHR 0x84, CHR 0xAA] then match_fold ps (drop 2 s)
      else None)"

fun skip_past :: "string \<Rightarrow> string \<Rightarrow> string" where
  "skip_past p s = (case match_fold p s of Some r \<Rightarrow> r | None \<Rightarrow> (case s of [] \<Rightarrow> [] | c # t \<Rightarrow> skip_past p t))"

definition regex_space :: "char \<Rightarrow> bool" where
  "regex_space c \<longleftrightarrow> c \<in> {CHR 0x09, CHR 0x0A, CHR 0x0C, CHR 0x0D, CHR 0x20}"

definition json_block_start :: "string \<Rightarrow> string option" where
  "json_block_start s =
     (case match_fold ''<<<'' s of
        None \<Rightarrow> None
      | Some t \<Rightarrow>
          (case coalesce (match_fold ''plan_json'' t)
                 (coalesce (match_fold ''plan_patch_json'' t) (match_fold ''evidence_json'' t)) of
             Some (c # u) \<Rightarrow> if regex_space c then Some u else None
           | _ \<Rightarrow> None))"

definition internal_block :: "string \<Rightarrow> string option" where
  "internal_block s =
     (case match_fold ''<scratchpad>'' s of
        Some t \<Rightarrow> Some (skip_past ''</scratchpad>'' t)
      | None \<Rightarrow> map_option (skip_past ''>>>'') (json_block_start s))"

lemma match_fold_length: "match_fold p s = Some t \<Longrightarrow> length t + length p \<le> length s"
proof (induction p s rule: match_fold.induct)
  case (3 p ps c s)
  from "3.prems" consider "match_fold ps s = Some t" "fold_name [c] = [p]"
    | "\<not> fold_name [c] = [p]" "p = CHR ''s'' \<and> c = CHR 0xC5 \<and> take 1 s = [CHR 0xBF]" "match_fold ps (drop 1 s) = Some t"
    | "\<not> fold_name [c] = [p]" "\<not> (p = CHR ''s'' \<and> c = CHR 0xC5 \<and> take 1 s = [CHR 0xBF])"
      "p = CHR ''k'' \<and> c = CHR 0xE2 \<and> take 2 s = [CHR 0x84, CHR 0xAA]" "match_fold ps (drop 2 s) = Some t"
    by (auto split: if_splits)
  then show ?case
  proof cases
    case 1 then show ?thesis using "3.IH"(1) by simp
  next
    case 2 then show ?thesis using "3.IH"(2) by fastforce
  next
    case 3 then show ?thesis using "3.IH"(3) by fastforce
  qed
qed auto

lemma skip_past_length: "length (skip_past p s) \<le> length s"
proof (induction p s rule: skip_past.induct)
  case (1 p s)
  show ?case
  proof (cases "match_fold p s")
    case None
    then show ?thesis using 1 by (cases s) (auto intro: le_SucI)
  next
    case (Some r)
    then show ?thesis using match_fold_length [OF Some] by simp
  qed
qed

declare skip_past.simps [simp del]

lemma internal_block_shorter:
  assumes "internal_block s = Some t"
  shows "length t < length s"
proof (cases "match_fold ''<scratchpad>'' s")
  case (Some u)
  then show ?thesis
    using assms match_fold_length [OF Some] skip_past_length [of "''</scratchpad>''" u]
    by (simp add: internal_block_def)
next
  case None
  with assms obtain u where "json_block_start s = Some u" and t: "t = skip_past ''>>>'' u"
    by (auto simp: internal_block_def)
  then have "length u < length s"
    by (auto simp: json_block_start_def coalesce_def dest!: match_fold_length split: option.splits list.splits if_splits)
  then show ?thesis using skip_past_length [of "''>>>''" u] by (simp add: t)
qed

function strip_internals :: "string \<Rightarrow> string" where
  "strip_internals s = (case internal_block s of
     Some t \<Rightarrow> strip_internals t
   | None \<Rightarrow> (case s of [] \<Rightarrow> [] | c # r \<Rightarrow> c # strip_internals r))"
  by pat_completeness auto
termination
  by (relation "measure length") (auto dest: internal_block_shorter)

declare strip_internals.simps [simp del]

definition cleanTaskDraft :: "string \<Rightarrow> string" where
  "cleanTaskDraft body = trim_space (fold remove_all
     [''[DONE]'', ''[CONTINUE]'', ''[PAUSE]'', ''[MILESTONE]'', ''[NOTIFY]'', ''[no-op]''] (strip_internals body))"

section \<open>Choosing the body\<close>

record TaskFinalization =
  fin_Outcome :: string
  fin_Body :: string
  fin_Reason :: string
  fin_UnverifiedDraftFmt :: string
  fin_EmptyBody :: string
  fin_Notify :: string
  fin_EmptyNotify :: string
  fin_Progress :: "json option"
  fin_PendingDeliveries :: "TaskDeliveryRef list"
  fin_ClaimStartedAt :: "gotime option"
  fin_ExpiredAt :: "gotime option"

definition blank_finalization :: "string \<Rightarrow> TaskFinalization" where
  "blank_finalization outcome = \<lparr>fin_Outcome = outcome, fin_Body = [], fin_Reason = [], fin_UnverifiedDraftFmt = [],
     fin_EmptyBody = [], fin_Notify = [], fin_EmptyNotify = [], fin_Progress = None, fin_PendingDeliveries = [],
     fin_ClaimStartedAt = None, fin_ExpiredAt = None\<rparr>"

definition jsonbObject :: "json option \<Rightarrow> json" where
  "jsonbObject raw = (case raw of None \<Rightarrow> JObj [] | Some j \<Rightarrow> j)"

definition TaskTerminalStatus :: "AgentTask \<Rightarrow> string \<Rightarrow> string" where
  "TaskTerminalStatus task outcome =
     (if outcome = ''completed'' \<or> outcome = ''partial'' \<and> TaskRunsToCompletion task then ''done''
      else if outcome = ''cancelled'' then ''canceled'' else ''failed'')"

text \<open>The last checked text of the final validation in \<open>progress\<close>.\<close>

definition checked_body :: "AgentTask \<Rightarrow> string" where
  "checked_body task =
     (case Option.bind (struct_members (t_Progress task)) (nested_members ''final_validation'') of
        None \<Rightarrow> []
      | Some kvs \<Rightarrow>
          (case (bool_field ''response_checked'' kvs, str_field ''safe_body'' kvs, str_field ''last_checked_body'' kvs) of
             (Some checked, Some safe, Some lst) \<Rightarrow>
               let body = (if checked then cleanTaskDraft safe else []) in
               if body = [] then cleanTaskDraft lst else body
           | _ \<Rightarrow> []))"

definition finalize_candidate :: "(json \<Rightarrow> string) \<Rightarrow> (string \<Rightarrow> 'k::linorder) \<Rightarrow> uuid \<Rightarrow> db \<Rightarrow> string" where
  "finalize_candidate render coll i d =
     (case filter (\<lambda>s. s_Kind s = ''finalize'' \<and>
               jget_text render (s_Checkpoint s) ''candidate_ready'' = Some ''true'' \<and>
               (case jget_text render (s_Checkpoint s) ''output'' of None \<Rightarrow> False | Some out \<Rightarrow> btrim out \<noteq> []))
             (TaskSteps coll i d) of
        [] \<Rightarrow> []
      | s # _ \<Rightarrow> (case jget_text render (s_Checkpoint s) ''output'' of None \<Rightarrow> [] | Some out \<Rightarrow> cleanTaskDraft out))"

definition done_results :: "(string \<Rightarrow> 'k::linorder) \<Rightarrow> uuid \<Rightarrow> db \<Rightarrow> string" where
  "done_results coll i d = cleanTaskDraft (join [CHR 0x0A, CHR 0x0A]
     (map (\<lambda>s. s_Goal s @ [CHR 0x0A] @ s_Result s)
       (filter (\<lambda>s. s_Status s = ''done'' \<and> btrim (s_Result s) \<noteq> []) (TaskSteps coll i d))))"

definition read_output :: "(json \<Rightarrow> string) \<Rightarrow> TaskStep \<Rightarrow> string option" where
  "read_output render s =
     (if jget_text render (s_Checkpoint s) ''candidate_ready'' = Some ''true''
      then jget_text render (s_Checkpoint s) ''output'' else jget_text render (s_Checkpoint s) ''last_candidate'')"

definition read_review :: "(json \<Rightarrow> string) \<Rightarrow> TaskStep \<Rightarrow> string" where
  "read_review render s =
     (case jget_text render (s_Checkpoint s)
             (if jget_text render (s_Checkpoint s) ''candidate_ready'' = Some ''true''
              then ''review_reason'' else ''last_candidate_review'') of
        None \<Rightarrow> s_LastError s | Some r \<Rightarrow> r)"

text \<open>
  Read drafts that are not done, each through the host's format \<open>UnverifiedDraftFmt\<close>; \<open>sprintf3\<close> is
  \<open>fmt.Sprintf\<close> on three strings, with the default of \<open>UIStrings.applyDefaults\<close> for an empty format.
\<close>

definition unverified_format :: "string \<Rightarrow> string" where
  "unverified_format f = (if f = [] then ''Unverified research draft '' @ [CHR 0xE2, CHR 0x80, CHR 0x94] @ '' %s'' @
     [CHR 0x0A] @ ''%s'' @ [CHR 0x0A] @ ''Unresolved review: %s'' else f)"

definition read_drafts ::
    "(string \<Rightarrow> string \<Rightarrow> string \<Rightarrow> string \<Rightarrow> string) \<Rightarrow> (json \<Rightarrow> string) \<Rightarrow> (string \<Rightarrow> 'k::linorder) \<Rightarrow> string \<Rightarrow> uuid \<Rightarrow> db \<Rightarrow> string list" where
  "read_drafts sprintf3 render coll fmt i d =
     [sprintf3 (unverified_format fmt) (s_Goal s) (cleanTaskDraft out) (read_review render s).
        s \<leftarrow> TaskSteps coll i d, s_Kind s = ''read'' \<and> s_Status s \<noteq> ''done'',
        out \<leftarrow> (case read_output render s of None \<Rightarrow> [] | Some out \<Rightarrow> [out]),
        btrim out \<noteq> [] \<and> cleanTaskDraft out \<noteq> []]"

definition graph_body ::
    "(string \<Rightarrow> string \<Rightarrow> string \<Rightarrow> string \<Rightarrow> string) \<Rightarrow> (json \<Rightarrow> string) \<Rightarrow> (string \<Rightarrow> 'k::linorder) \<Rightarrow> TaskFinalization \<Rightarrow> AgentTask \<Rightarrow> db \<Rightarrow> string" where
  "graph_body sprintf3 render coll fin task d =
     (let body = checked_body task in
      if body \<noteq> [] then body
      else
        let body = finalize_candidate render coll (t_ID task) d in
        if body \<noteq> [] then body
        else
          let body = done_results coll (t_ID task) d in
          join [CHR 0x0A, CHR 0x0A] ((if body = [] then [] else [body]) @
            read_drafts sprintf3 render coll (fin_UnverifiedDraftFmt fin) (t_ID task) d))"

definition saved_submission :: "uuid \<Rightarrow> db \<Rightarrow> string" where
  "saved_submission i d = (case List.find (\<lambda>s. sub_TaskID s = i) (agent_task_submissions d) of
     None \<Rightarrow> [] | Some s \<Rightarrow> cleanTaskDraft (sub_Output s))"

definition saved_checkpoint :: "uuid \<Rightarrow> db \<Rightarrow> string" where
  "saved_checkpoint i d = (case List.find (\<lambda>c. cp_TaskID c = i \<and> btrim (cp_Output c) \<noteq> []) (agent_task_checkpoints d) of
     None \<Rightarrow> [] | Some c \<Rightarrow> cleanTaskDraft (cp_Output c))"

definition last_iteration_output :: "uuid \<Rightarrow> db \<Rightarrow> string" where
  "last_iteration_output i d =
     (case sort_key (\<lambda>r. - it_Iteration r) (filter (\<lambda>r. it_TaskID r = i \<and>
             (case it_Output r of None \<Rightarrow> False | Some out \<Rightarrow> btrim out \<noteq> [])) (agent_task_iterations d)) of
        [] \<Rightarrow> [] | r # _ \<Rightarrow> (case it_Output r of None \<Rightarrow> [] | Some out \<Rightarrow> cleanTaskDraft out))"

text \<open>The first source, in the order of the code, that yields a text.\<close>

fun first_nonempty :: "string list \<Rightarrow> string" where
  "first_nonempty [] = []"
| "first_nonempty (s # r) = (if s = [] then first_nonempty r else s)"

definition final_body ::
    "(string \<Rightarrow> string \<Rightarrow> string \<Rightarrow> string \<Rightarrow> string) \<Rightarrow> (json \<Rightarrow> string) \<Rightarrow> (string \<Rightarrow> 'k::linorder) \<Rightarrow> TaskFinalization \<Rightarrow> AgentTask \<Rightarrow> db \<Rightarrow> string" where
  "final_body sprintf3 render coll fin task d = first_nonempty
     [cleanTaskDraft (fin_Body fin),
      if t_ExecutorVersion task = 2 then graph_body sprintf3 render coll fin task d else [],
      saved_submission (t_ID task) d, saved_checkpoint (t_ID task) d, last_iteration_output (t_ID task) d]"

section \<open>The transaction\<close>

definition next_version :: "uuid \<Rightarrow> db \<Rightarrow> int" where
  "next_version i d = (let vs = map a_Version (filter (\<lambda>a. a_TaskID a = i) (agent_task_artifacts d))
     in if vs = [] then 1 else Max (set vs) + 1)"

definition artifact_checks :: "TaskArtifact \<Rightarrow> bool" where
  "artifact_checks a \<longleftrightarrow> 0 < a_Version a \<and> a_Outcome a \<in> {''completed'', ''partial'', ''blocked'', ''cancelled''} \<and>
     btrim (a_Body a) \<noteq> []"

text \<open>The queued notification: one retryable attempt that owns the result reference and the pending ones.\<close>

definition queue_result ::
    "(string \<Rightarrow> string) \<Rightarrow> gotime \<Rightarrow> uuid \<Rightarrow> AgentTask \<Rightarrow> string \<Rightarrow> TaskDeliveryRef list \<Rightarrow> int \<Rightarrow> db \<Rightarrow> store_error + db" where
  "queue_result sha256 now new task notify pending version d =
     (case normalizeTaskDeliveryRefs (pending @ [\<lparr>d_InputID = ''task_result'',
              d_ItemKey = ''version:'' @ decimal (nat version)\<rparr>]) of
        Inl e \<Rightarrow> Inl e
      | Inr refs \<Rightarrow>
          let refs = sortTaskDeliveryRefs refs;
              row = \<lparr>na_ID = new, na_TaskID = t_ID task, na_UserID = t_UserID task,
                na_OccurrenceKey = taskNotificationOccurrenceKey sha256 refs, na_MessageText = notify,
                na_State = ''retryable'', na_Receipt = None, na_ErrorMessage = Some ''delivery_pending'',
                na_AttemptCount = 0, na_NextAttemptAt = Some now, na_LastAttemptAt = now,
                na_CreatedAt = now, na_ResolvedAt = None\<rparr>
          in
          if \<not> attempt_checks row \<or> find_attempt new d \<noteq> None \<or>
             (\<exists>a \<in> set (notification_attempts d). na_TaskID a = t_ID task \<and> na_OccurrenceKey a = na_OccurrenceKey row) \<or>
             (\<exists>r \<in> set refs. reserved (t_ID task) r d)
            then Inl ConstraintViolation
          else Inr (d\<lparr>notification_attempts := notification_attempts d @ [row],
            notification_items := notification_items d @
              map (\<lambda>r. \<lparr>ni_AttemptID = new, ni_TaskID = t_ID task, ni_Ref = r\<rparr>) refs\<rparr>))"

definition finalized_task :: "gotime \<Rightarrow> string \<Rightarrow> TaskFinalization \<Rightarrow> TaskArtifact \<Rightarrow> AgentTask \<Rightarrow> AgentTask" where
  "finalized_task now status fin art t = t\<lparr>t_Status := status, t_Result := Some (a_Body art),
     t_ErrorMessage := (if status = ''done'' \<or> fin_Reason fin = [] then None else Some (fin_Reason fin)),
     t_CompletedAt := Some now,
     t_Progress := jconcat (jconcat (t_Progress t) (jsonbObject (fin_Progress fin)))
       (JObj [(''phase'', JStr ''terminal''), (''result_outcome'', JStr (a_Outcome art)),
              (''result_version'', JNum (a_Version art)), (''termination_reason'', JStr (fin_Reason fin))])\<rparr>"

text \<open>
  The result is the artifact, or \<open>None\<close> where the code returns \<open>changed = false\<close>. \<open>clk 0\<close> is \<open>now()\<close>,
  \<open>clk 1\<close> the clock of \<open>requireTaskRun\<close> and \<open>clk 2\<close> the host's \<open>time.Now()\<close>.
\<close>

definition result_outcome :: "TaskFinalization \<Rightarrow> string \<Rightarrow> string" where
  "result_outcome fin body = (if body = [] \<and> fin_Outcome fin = ''partial'' then ''blocked'' else fin_Outcome fin)"

definition result_body :: "TaskFinalization \<Rightarrow> string \<Rightarrow> string" where
  "result_body fin body = (if body = [] then trim_space (fin_EmptyBody fin) else body)"

definition result_notify :: "TaskFinalization \<Rightarrow> string \<Rightarrow> string" where
  "result_notify fin body =
     (let notify = (if body = [] then fin_EmptyNotify fin else fin_Notify fin) in
      if result_outcome fin body = ''completed'' \<and> trim_space notify = [] then result_body fin body else notify)"

definition result_artifact :: "gotime \<Rightarrow> AgentTask \<Rightarrow> TaskFinalization \<Rightarrow> string \<Rightarrow> db \<Rightarrow> TaskArtifact" where
  "result_artifact now task fin body d = \<lparr>a_TaskID = t_ID task, a_Version = next_version (t_ID task) d,
     a_Outcome = result_outcome fin body, a_Body = result_body fin body, a_Reason = fin_Reason fin, a_CreatedAt = now\<rparr>"

definition write_result ::
    "(string \<Rightarrow> string) \<Rightarrow> clock \<Rightarrow> uuid \<Rightarrow> AgentTask \<Rightarrow> TaskFinalization \<Rightarrow> string \<Rightarrow> db \<Rightarrow> TaskArtifact option tx" where
  "write_result sha256 clk new task fin body d =
     (if result_body fin body = [] then Inl NoResultOrExplanation
      else
        let art = result_artifact (clk 0) task fin body d;
            status = TaskTerminalStatus task (a_Outcome art);
            d' = d\<lparr>agent_task_artifacts := agent_task_artifacts d @ [art],
              agent_tasks := update_where (\<lambda>t. t_ID t = t_ID task) (finalized_task (clk 0) status fin art) (agent_tasks d)\<rparr>;
            notify = result_notify fin body
        in
        if \<not> artifact_checks art then Inl ConstraintViolation
        else if trim_space notify = [] then Inr (Some art, d')
        else case queue_result sha256 (clk 0) new task notify (fin_PendingDeliveries fin) (a_Version art) d' of
            Inl e \<Rightarrow> Inl e
          | Inr d'' \<Rightarrow> Inr (Some art, d''))"

definition finalizeTaskTx ::
    "(string \<Rightarrow> string) \<Rightarrow> (string \<Rightarrow> string \<Rightarrow> string \<Rightarrow> string \<Rightarrow> string) \<Rightarrow> (json \<Rightarrow> string) \<Rightarrow> (string \<Rightarrow> 'k::linorder) \<Rightarrow>
     uuid \<Rightarrow> clock \<Rightarrow> uuid \<Rightarrow> uuid \<Rightarrow> TaskFinalization \<Rightarrow> db \<Rightarrow> TaskArtifact option tx" where
  "finalizeTaskTx sha256 sprintf3 render coll run clk new i fin d =
     (if fin_Outcome fin \<notin> {''completed'', ''partial'', ''blocked'', ''cancelled''} then Inl (InvalidOutcome (fin_Outcome fin))
      else case find_task d i of
          None \<Rightarrow> Inl ErrNoRows
        | Some task \<Rightarrow>
            if \<not> unfinished task then Inr (None, d)
            else if t_ExecutorVersion task = 2 \<and> fin_ExpiredAt fin = None \<and> fin_Outcome fin \<noteq> ''cancelled'' \<and>
                    requireTaskRun run (clk 1) i d \<noteq> Inr () then Inl ErrTaskClaimLost
            else if fin_ClaimStartedAt fin \<noteq> None \<and>
                    (t_Status task \<noteq> ''running'' \<or> t_LastRunAt task \<noteq> fin_ClaimStartedAt fin) then Inl ErrTaskClaimLost
            else if (case fin_ExpiredAt fin of None \<Rightarrow> False
                     | Some at \<Rightarrow> (case t_Deadline task of None \<Rightarrow> True | Some dl \<Rightarrow> dl > at)) then Inr (None, d)
            else if fin_Outcome fin = ''completed'' \<and>
                    (case t_Deadline task of None \<Rightarrow> False | Some dl \<Rightarrow> \<not> dl > clk 2) then Inl ErrTaskClaimLost
            else if cleanTaskDraft (fin_Body fin) = [] \<and> fin_Outcome fin = ''completed'' then Inl CompletedWithoutResult
            else write_result sha256 clk new task fin (final_body sprintf3 render coll fin task d) d)"

definition FinalizeTask ::
    "(string \<Rightarrow> string) \<Rightarrow> (string \<Rightarrow> string \<Rightarrow> string \<Rightarrow> string \<Rightarrow> string) \<Rightarrow> (json \<Rightarrow> string) \<Rightarrow> (string \<Rightarrow> 'k::linorder) \<Rightarrow>
     uuid \<Rightarrow> clock \<Rightarrow> uuid \<Rightarrow> uuid \<Rightarrow> TaskFinalization \<Rightarrow> db \<Rightarrow> TaskArtifact option tx" where
  "FinalizeTask sha256 sprintf3 render coll run clk new i fin d =
     finalizeTaskTx sha256 sprintf3 render coll run clk new i fin d"

end
