(* ===== verification/Task_Control.thy ===== *)
theory Task_Control
  imports Task_Finalize
begin

text \<open>
  Owner-scoped lifecycle commands: \<open>internal/core/task_control.go\<close> and
  \<open>internal/core/task_restart.go\<close>.
\<close>

definition find_owned :: "uuid \<Rightarrow> uuid \<Rightarrow> uuid \<Rightarrow> db \<Rightarrow> AgentTask option" where
  "find_owned user soul i d = List.find (\<lambda>t. t_ID t = i \<and> t_UserID t = user \<and> t_SoulID t = soul) (agent_tasks d)"

definition terminal :: "AgentTask \<Rightarrow> bool" where
  "terminal t \<longleftrightarrow> t_Status t = ''done'' \<or> t_Status t = ''failed'' \<or> t_Status t = ''canceled''"

definition cancellation :: "string \<Rightarrow> TaskFinalization" where
  "cancellation emptyBody = \<lparr>fin_Outcome = ''cancelled'', fin_Body = [], fin_Reason = ''cancelled_by_user'',
     fin_UnverifiedDraftFmt = [], fin_EmptyBody = emptyBody, fin_Notify = [], fin_EmptyNotify = [],
     fin_Progress = None, fin_PendingDeliveries = [], fin_ClaimStartedAt = None, fin_ExpiredAt = None\<rparr>"

definition Cancel ::
    "(string \<Rightarrow> string) \<Rightarrow> (string \<Rightarrow> string \<Rightarrow> string \<Rightarrow> string \<Rightarrow> string) \<Rightarrow> (json \<Rightarrow> string) \<Rightarrow> (string \<Rightarrow> 'k::linorder) \<Rightarrow>
     clock \<Rightarrow> uuid \<Rightarrow> uuid \<Rightarrow> uuid \<Rightarrow> uuid \<Rightarrow> string \<Rightarrow> db \<Rightarrow> bool tx" where
  "Cancel sha256 sprintf3 render coll clk new user soul i emptyBody d =
     (if user = uuid_Nil \<or> soul = uuid_Nil \<or> i = uuid_Nil then Inl ErrNoRows
      else case find_owned user soul i d of
          None \<Rightarrow> Inl ErrNoRows
        | Some task \<Rightarrow>
            if periodic task then
              if t_Status task \<noteq> ''canceled'' then
                Inr (True, d\<lparr>agent_tasks := update_where (\<lambda>t. t_ID t = i) (\<lambda>t. t\<lparr>t_Status := ''canceled''\<rparr>) (agent_tasks d)\<rparr>)
              else Inr (False, d)
            else case finalizeTaskTx sha256 sprintf3 render coll uuid_Nil clk new i (cancellation emptyBody) d of
                Inl e \<Rightarrow> Inl e
              | Inr (art, d') \<Rightarrow> Inr (art \<noteq> None, d'))"

definition dismissable :: "AgentTask \<Rightarrow> bool" where
  "dismissable t \<longleftrightarrow> t_Schedule t = None \<and> t_Cadence t = None \<and> t_Strategy t \<noteq> ''recurring''"

definition Dismiss :: "uuid \<Rightarrow> uuid \<Rightarrow> uuid \<Rightarrow> db \<Rightarrow> bool tx" where
  "Dismiss user soul i d =
     (if user = uuid_Nil \<or> soul = uuid_Nil \<or> i = uuid_Nil then Inl ErrNoRows
      else case List.find (\<lambda>t. t_ID t = i \<and> t_UserID t = user \<and> t_SoulID t = soul \<and> dismissable t) (agent_tasks d) of
          None \<Rightarrow> Inl ErrNoRows
        | Some task \<Rightarrow>
            if \<not> terminal task then Inl ErrTaskActive
            else if i \<in> set (agent_task_dismissals d) then Inr (False, d)
            else Inr (True, d\<lparr>agent_task_dismissals := agent_task_dismissals d @ [i]\<rparr>))"

definition DismissFinished :: "uuid \<Rightarrow> uuid \<Rightarrow> db \<Rightarrow> nat tx" where
  "DismissFinished user soul d =
     (if user = uuid_Nil \<or> soul = uuid_Nil then Inl ErrNoRows
      else
        let ids = filter (\<lambda>i. i \<notin> set (agent_task_dismissals d))
              (map t_ID (filter (\<lambda>t. t_UserID t = user \<and> t_SoulID t = soul \<and> terminal t \<and> dismissable t) (agent_tasks d)))
        in Inr (length ids, d\<lparr>agent_task_dismissals := agent_task_dismissals d @ ids\<rparr>))"

text \<open>
  The child of a restart. \<open>uuid_text\<close> is the textual form of an id. The columns the statement leaves
  out take the defaults of the table.
\<close>

definition restart_child :: "(uuid \<Rightarrow> string) \<Rightarrow> clock \<Rightarrow> uuid \<Rightarrow> duration \<Rightarrow> AgentTask \<Rightarrow> AgentTask" where
  "restart_child uuid_text clk child budget t = \<lparr>t_ExecutorVersion = t_ExecutorVersion t, t_ID = child,
     t_SoulID = t_SoulID t, t_UserID = t_UserID t, t_Title = t_Title t, t_Description = t_Description t,
     t_AcceptanceCriteria = t_AcceptanceCriteria t, t_Strategy = t_Strategy t, t_Handler = t_Handler t,
     t_DelegateTo = t_DelegateTo t,
     t_Config = jconcat (jminus (t_Config t) ''start_at'') (JObj [(''restart_of'', JStr (uuid_text (t_ID t)))]),
     t_Plan = t_Plan t, t_Tools = t_Tools t, t_UseAgents = t_UseAgents t, t_Schedule = None,
     t_Deadline = (if t_ExecutorVersion t = 2 \<and> dismissable t then None
                   else Some (clk 1 + milliseconds budget * millisecond)),
     t_Cadence = None, t_Status = ''pending'', t_Progress = JObj [], t_Result = None,
     t_ErrorMessage = None, t_Iteration = 0, t_MaxIterations = t_MaxIterations t, t_LastRunAt = None,
     t_CompletedAt = None, t_CreatedAt = clk 0, t_SessionID = None, t_RequiredRecheckURLs = []\<rparr>"

definition uncertain_effect :: "uuid \<Rightarrow> TaskStep \<Rightarrow> bool" where
  "uncertain_effect i s \<longleftrightarrow> s_TaskID s = i \<and> s_Kind s \<noteq> ''read'' \<and>
     \<not> (s_Kind s = ''finalize'' \<and> s_Tools s = []) \<and> s_Attempts s > 0 \<and> s_Status s \<noteq> ''done''"

definition Restart ::
    "(uuid \<Rightarrow> string) \<Rightarrow> clock \<Rightarrow> uuid \<Rightarrow> uuid \<Rightarrow> uuid \<Rightarrow> uuid \<Rightarrow> duration \<Rightarrow> db \<Rightarrow> uuid tx" where
  "Restart uuid_text clk new user soul i budget d =
     (if user = uuid_Nil \<or> soul = uuid_Nil \<or> i = uuid_Nil then Inl ErrNoRows
      else
        let budget = (if budget \<le> 0 then DefaultTaskWallTimeout else budget) in
        case find_owned user soul i d of
          None \<Rightarrow> Inl ErrNoRows
        | Some task \<Rightarrow>
            if periodic task then Inl ErrTaskNotTerminal
            else if \<not> terminal task then Inl ErrTaskNotTerminal
            else case map_of (agent_task_restarts d) i of
                Some previous \<Rightarrow> Inr (previous, d)
              | None \<Rightarrow>
                  if t_ExecutorVersion task = 2 \<and> (\<exists>s \<in> set (agent_task_steps d). uncertain_effect i s)
                    then Inl ErrTaskRestartUncertain
                  else if new \<in> t_ID ` set (agent_tasks d) then Inl ConstraintViolation
                  else Inr (new, d\<lparr>agent_tasks := agent_tasks d @ [restart_child uuid_text clk new budget task],
                    agent_task_restarts := agent_task_restarts d @ [(i, new)]\<rparr>))"

definition Resume :: "uuid \<Rightarrow> uuid \<Rightarrow> uuid \<Rightarrow> db \<Rightarrow> unit tx" where
  "Resume user soul i d =
     (if user = uuid_Nil \<or> soul = uuid_Nil \<or> i = uuid_Nil then Inl ErrNoRows
      else case find_owned user soul i d of
          None \<Rightarrow> Inl ErrNoRows
        | Some task \<Rightarrow>
            if \<not> periodic task then Inl ErrTaskNotRecurring
            else if t_Status task = ''canceled'' \<or> t_Status task = ''paused'' then
              Inr ((), d\<lparr>agent_tasks := update_where (\<lambda>t. t_ID t = i) (\<lambda>t. t\<lparr>t_Status := ''pending''\<rparr>) (agent_tasks d)\<rparr>)
            else Inr ((), d))"

end
