(* ===== verification/Task_Origin.thy ===== *)
theory Task_Origin
  imports Json
begin

text \<open>
  Delivery routing of \<open>internal/core/task_origin.go\<close>: the origin of a task comes from the trusted
  transport, never from what a model wrote into the config. \<open>uuid_text\<close> and \<open>parse_uuid\<close> are the text
  form of ids of the \<open>uuid\<close> package.
\<close>

record TaskOrigin =
  o_Transport :: string
  o_BotID :: uuid
  o_ChatID :: string

definition origin_json :: "(uuid \<Rightarrow> string) \<Rightarrow> TaskOrigin \<Rightarrow> json" where
  "origin_json uuid_text org = JObj [(''transport'', JStr (o_Transport org)),
     (''bot_id'', JStr (uuid_text (o_BotID org))), (''chat_id'', JStr (o_ChatID org))]"

text \<open>\<open>json.Unmarshal\<close> into a map: null leaves it empty, anything but an object is an error.\<close>

fun object_fields :: "json \<Rightarrow> (string \<times> json) list option" where
  "object_fields (JObj kvs) = Some kvs"
| "object_fields JNull = Some []"
| "object_fields _ = None"

definition captureTaskOrigin :: "(uuid \<Rightarrow> string) \<Rightarrow> TaskOrigin option \<Rightarrow> json \<Rightarrow> json option" where
  "captureTaskOrigin uuid_text origin config =
     (case object_fields config of
        None \<Rightarrow> None
      | Some members \<Rightarrow>
          let members = filter (\<lambda>(k, _). k \<noteq> ''delivery_origin'') members in
          (case origin of
            None \<Rightarrow> Some (JObj members)
          | Some org \<Rightarrow>
              if o_Transport org = [] \<or> o_ChatID org = [] then None
              else Some (JObj (set_member ''delivery_origin'' (origin_json uuid_text org) members))))"

definition dec_uuid :: "(string \<Rightarrow> uuid option) \<Rightarrow> json \<Rightarrow> uuid option" where
  "dec_uuid parse_uuid j = (case j of JStr s \<Rightarrow> parse_uuid s | _ \<Rightarrow> None)"

definition dec_origin :: "(string \<Rightarrow> uuid option) \<Rightarrow> json \<Rightarrow> TaskOrigin option" where
  "dec_origin parse_uuid raw =
     (case struct_members raw of
        None \<Rightarrow> None
      | Some kvs \<Rightarrow>
          (case (str_field ''transport'' kvs, scalar_field (dec_uuid parse_uuid) uuid_Nil ''bot_id'' kvs,
                 str_field ''chat_id'' kvs) of
             (Some tr, Some bid, Some chat) \<Rightarrow> Some \<lparr>o_Transport = tr, o_BotID = bid, o_ChatID = chat\<rparr>
           | _ \<Rightarrow> None))"

text \<open>No origin, an origin that is present but invalid, or the origin.\<close>

datatype origin_lookup = NoOrigin | BadConfig | BadOrigin | Origin TaskOrigin

definition TaskOriginFromConfig :: "(string \<Rightarrow> uuid option) \<Rightarrow> json \<Rightarrow> origin_lookup" where
  "TaskOriginFromConfig parse_uuid config =
     (case object_fields config of
        None \<Rightarrow> BadConfig
      | Some members \<Rightarrow>
          (case map_of members ''delivery_origin'' of
             None \<Rightarrow> NoOrigin
           | Some raw \<Rightarrow>
               (case dec_origin parse_uuid raw of
                  None \<Rightarrow> BadOrigin
                | Some org \<Rightarrow> if o_Transport org = [] \<or> o_ChatID org = [] then BadOrigin else Origin org)))"

lemma dec_origin_json:
  assumes "parse_uuid (uuid_text (o_BotID org)) = Some (o_BotID org)"
  shows "dec_origin parse_uuid (origin_json uuid_text org) = Some org"
  using assms by (simp add: dec_origin_def origin_json_def scalar_field_def field_values_def dec_uuid_def)

text \<open>
  What a task is created with decides its routing: a config that passed \<open>captureTaskOrigin\<close> yields
  exactly the origin the transport supplied, and no origin at all when the transport supplied none,
  whatever \<open>delivery_origin\<close> the config carried before.
\<close>

theorem origin_is_trusted:
  assumes "captureTaskOrigin uuid_text origin config = Some config'"
    and "\<And>u. parse_uuid (uuid_text u) = Some u"
  shows "TaskOriginFromConfig parse_uuid config' = (case origin of None \<Rightarrow> NoOrigin | Some org \<Rightarrow> Origin org)"
proof -
  obtain members where members: "object_fields config = Some members"
    using assms(1) by (auto simp: captureTaskOrigin_def split: option.splits)
  have none: "map_of (filter (\<lambda>(k, _). k \<noteq> ''delivery_origin'') members) ''delivery_origin'' = None"
    by (simp only: map_of_filter_key) simp
  show ?thesis
  proof (cases origin)
    case None
    then have "config' = JObj (filter (\<lambda>(k, _). k \<noteq> ''delivery_origin'') members)"
      using assms(1) members by (simp add: captureTaskOrigin_def Let_def)
    then show ?thesis using None none by (simp add: TaskOriginFromConfig_def)
  next
    case (Some org)
    then have "o_Transport org \<noteq> []" "o_ChatID org \<noteq> []"
      and "config' = JObj (set_member ''delivery_origin'' (origin_json uuid_text org)
             (filter (\<lambda>(k, _). k \<noteq> ''delivery_origin'') members))"
      using assms(1) members by (auto simp: captureTaskOrigin_def Let_def split: if_splits)
    then show ?thesis
      using Some dec_origin_json [of parse_uuid uuid_text org] assms(2)
      by (simp add: TaskOriginFromConfig_def map_of_set_member)
  qed
qed

theorem origin_is_trusted_witness:
  "TaskOriginFromConfig (\<lambda>s. Some (length s)) (JObj [(''k'', JNull)]) = NoOrigin"
  using origin_is_trusted [of "\<lambda>u. replicate u CHR ''x''" None
      "JObj [(''delivery_origin'', JStr ''model''), (''k'', JNull)]" "JObj [(''k'', JNull)]" "\<lambda>s. Some (length s)"]
  by (simp add: captureTaskOrigin_def)

end
