(* ===== verification/Task_Lifecycle.thy ===== *)
theory Task_Lifecycle
  imports Task_Control Task_Origin
begin

text \<open>
  The queue of the classic executor: the task operations of \<open>internal/core/agent_store.go\<close>, the
  in-flight checkpoint of \<open>agent_checkpoint.go\<close>, the saved candidate of \<open>agent_submission.go\<close> and the
  creation rules of \<open>task_rollout.go\<close>.
\<close>

abbreviation StrategyDirect :: string where "StrategyDirect \<equiv> ''direct''"

section \<open>Creation\<close>

definition graphTaskEligible :: "AgentTask \<Rightarrow> bool" where
  "graphTaskEligible t \<longleftrightarrow> t_Strategy t = StrategyDirect \<and> (t_Handler t = [] \<or> t_Handler t = ''background'') \<and>
     t_Schedule t = None \<and> t_Cadence t = None \<and> t_DelegateTo t = None \<and> t_UseAgents t = []"

record BackgroundTaskConfig =
  bg_ExecutorV2 :: bool
  bg_CanaryUserIDs :: "string list"

definition ExecutorVersion :: "(uuid \<Rightarrow> string) \<Rightarrow> BackgroundTaskConfig \<Rightarrow> AgentTask \<Rightarrow> int" where
  "ExecutorVersion uuid_text c t =
     (if \<not> bg_ExecutorV2 c \<or> \<not> graphTaskEligible t \<or> t_UserID t = uuid_Nil then 1
      else if bg_CanaryUserIDs c = [] then 2
      else if uuid_text (t_UserID t) \<in> set (bg_CanaryUserIDs c) then 2
      else 1)"

text \<open>
  \<open>origin\<close> is the transport's origin in the context, \<open>new\<close> is \<open>uuid.New()\<close>, \<open>soul\<close> the soul of the
  context; the unique index of \<open>init.sql\<close> allows one live scheduled task per user and handler.
\<close>

definition scheduled_conflict :: "AgentTask \<Rightarrow> AgentTask \<Rightarrow> bool" where
  "scheduled_conflict row t \<longleftrightarrow> t_Schedule row \<noteq> None \<and> t_Status row \<noteq> ''failed'' \<and> t_Schedule t \<noteq> None \<and>
     t_Status t \<noteq> ''failed'' \<and> t_UserID t = t_UserID row \<and> t_Handler t = t_Handler row"

definition created_row :: "gotime \<Rightarrow> uuid \<Rightarrow> json \<Rightarrow> AgentTask \<Rightarrow> AgentTask" where
  "created_row now soul config task =
     (let task = task\<lparr>t_Config := config,
            t_Status := (if t_Status task = [] then ''pending'' else t_Status task),
            t_MaxIterations := (if t_MaxIterations task = 0 then 10 else t_MaxIterations task),
            t_Strategy := (if t_Strategy task = [] then StrategyRecurring else t_Strategy task)\<rparr>
      in task\<lparr>t_Deadline := (case t_Deadline task of
              None \<Rightarrow> TaskWallDeadline task now DefaultTaskWallTimeout | Some dl \<Rightarrow> Some dl),
            t_SoulID := soul, t_Result := None, t_ErrorMessage := None, t_Iteration := 0,
            t_LastRunAt := None, t_CompletedAt := None, t_CreatedAt := now, t_RequiredRecheckURLs := []\<rparr>)"

definition Create ::
    "(uuid \<Rightarrow> string) \<Rightarrow> TaskOrigin option \<Rightarrow> gotime \<Rightarrow> uuid \<Rightarrow> uuid \<Rightarrow> AgentTask \<Rightarrow> db \<Rightarrow> AgentTask tx" where
  "Create uuid_text origin now new soul task d =
     (let task = (if t_ExecutorVersion task = 0 then task\<lparr>t_ExecutorVersion := 1\<rparr> else task) in
      if t_ExecutorVersion task \<noteq> 1 \<and> t_ExecutorVersion task \<noteq> 2 then Inl UnsupportedExecutor
      else if t_ExecutorVersion task = 2 \<and> \<not> graphTaskEligible task then Inl NotGraphEligible
      else
        let task = (if t_ID task = uuid_Nil then task\<lparr>t_ID := new\<rparr> else task) in
        case captureTaskOrigin uuid_text origin (t_Config task) of
          None \<Rightarrow> Inl MalformedJSON
        | Some config \<Rightarrow>
            let row = created_row now soul config task in
            if t_ID row \<in> t_ID ` set (agent_tasks d) \<or> (\<exists>t \<in> set (agent_tasks d). scheduled_conflict row t)
              then Inl ConstraintViolation
            else Inr (row, d\<lparr>agent_tasks := agent_tasks d @ [row]\<rparr>))"

lemma Create_Inr:
  assumes "Create uuid_text origin now new soul task d = Inr (v, d')"
  obtains task' config where "v = created_row now soul config task'"
    "captureTaskOrigin uuid_text origin (t_Config task) = Some config"
    "t_ExecutorVersion task' \<in> {1, 2}" "t_ExecutorVersion task' = 2 \<Longrightarrow> graphTaskEligible task'"
    "t_Status task' = t_Status task" "t_ID v \<notin> t_ID ` set (agent_tasks d)"
    "d' = d\<lparr>agent_tasks := agent_tasks d @ [v]\<rparr>"
proof -
  define t1 where "t1 = (if t_ExecutorVersion task = 0 then task\<lparr>t_ExecutorVersion := 1\<rparr> else task)"
  define t2 where "t2 = (if t_ID t1 = uuid_Nil then t1\<lparr>t_ID := new\<rparr> else t1)"
  have eq: "t_ExecutorVersion t2 = t_ExecutorVersion t1" "graphTaskEligible t2 = graphTaskEligible t1"
    "t_Status t2 = t_Status task" "t_Config t2 = t_Config task"
    by (simp_all add: t2_def t1_def graphTaskEligible_def)
  have v: "t_ExecutorVersion t1 \<in> {1, 2}" "t_ExecutorVersion t1 = 2 \<Longrightarrow> graphTaskEligible t1"
    using assms by (auto simp: Create_def Let_def t1_def [symmetric] split: if_splits)
  with assms obtain config where "captureTaskOrigin uuid_text origin (t_Config task) = Some config"
    and "v = created_row now soul config t2" "t_ID v \<notin> t_ID ` set (agent_tasks d)"
    "d' = d\<lparr>agent_tasks := agent_tasks d @ [v]\<rparr>"
    by (auto simp: Create_def Let_def t1_def [symmetric] t2_def [symmetric] eq split: if_splits option.splits)
  with eq v show thesis using that by metis
qed

section \<open>Status updates\<close>

abbreviation update_tasks :: "(AgentTask \<Rightarrow> bool) \<Rightarrow> (AgentTask \<Rightarrow> AgentTask) \<Rightarrow> db \<Rightarrow> db" where
  "update_tasks p f d \<equiv> d\<lparr>agent_tasks := update_where p f (agent_tasks d)\<rparr>"

definition PendingTasks :: "gotime \<Rightarrow> db \<Rightarrow> AgentTask list" where
  "PendingTasks now d = sort_key (\<lambda>t. ((case t_LastRunAt t of None \<Rightarrow> (0::nat, 0) | Some r \<Rightarrow> (1, r)), t_CreatedAt t))
     (filter (\<lambda>t. t_ExecutorVersion t = 1 \<and> t_Status t = ''pending'' \<and>
        (t_MaxIterations t = 0 \<or> t_Iteration t < t_MaxIterations t) \<and>
        (case t_Deadline t of None \<Rightarrow> True | Some dl \<Rightarrow> dl > now)) (agent_tasks d))"

definition SetRunning :: "gotime \<Rightarrow> uuid \<Rightarrow> db \<Rightarrow> db" where
  "SetRunning now i = update_tasks (\<lambda>t. t_ExecutorVersion t = 1 \<and> t_ID t = i)
     (\<lambda>t. t\<lparr>t_Status := ''running'', t_LastRunAt := Some now\<rparr>)"

definition queue_claimable :: "gotime \<Rightarrow> uuid \<Rightarrow> AgentTask \<Rightarrow> bool" where
  "queue_claimable now i t \<longleftrightarrow> t_ExecutorVersion t = 1 \<and> t_ID t = i \<and> t_Status t = ''pending'' \<and>
     (case t_Deadline t of None \<Rightarrow> True | Some dl \<Rightarrow> dl > now)"

definition TrySetRunning :: "gotime \<Rightarrow> uuid \<Rightarrow> db \<Rightarrow> bool \<times> db" where
  "TrySetRunning now i d = (rows_affected (queue_claimable now i) (agent_tasks d) > 0,
     update_tasks (queue_claimable now i) (\<lambda>t. t\<lparr>t_Status := ''running'', t_LastRunAt := Some now\<rparr>) d)"

definition requeued :: "json option \<Rightarrow> string list \<Rightarrow> AgentTask \<Rightarrow> AgentTask" where
  "requeued progress urls t = t\<lparr>t_Progress := jsonbObject progress, t_Status := ''pending'',
     t_Iteration := t_Iteration t + 1, t_RequiredRecheckURLs := urls\<rparr>"

definition UpdateProgress :: "uuid \<Rightarrow> json option \<Rightarrow> db \<Rightarrow> db" where
  "UpdateProgress i progress = update_tasks (\<lambda>t. t_ID t = i \<and> t_Status t = ''running'') (requeued progress [])"

definition UpdateProgressWithRecheck :: "uuid \<Rightarrow> json option \<Rightarrow> string list \<Rightarrow> db \<Rightarrow> db" where
  "UpdateProgressWithRecheck i progress urls d =
     (if urls = [] then UpdateProgress i progress d
      else update_tasks (\<lambda>t. t_ID t = i \<and> t_Status t = ''running'') (requeued progress urls) d)"

definition completable :: "gotime \<Rightarrow> uuid \<Rightarrow> AgentTask \<Rightarrow> bool" where
  "completable now i t \<longleftrightarrow> t_ID t = i \<and> t_Status t = ''running'' \<and>
     (case t_Deadline t of None \<Rightarrow> True | Some dl \<Rightarrow> dl > now)"

definition Complete :: "gotime \<Rightarrow> uuid \<Rightarrow> string \<Rightarrow> db \<Rightarrow> unit tx" where
  "Complete now i result d =
     (if rows_affected (completable now i) (agent_tasks d) = 0 then Inl NoLongerRunning
      else Inr ((), update_tasks (completable now i) (\<lambda>t. t\<lparr>t_Status := ''done'', t_Result := Some result,
        t_CompletedAt := Some now, t_Iteration := t_Iteration t + 1, t_RequiredRecheckURLs := []\<rparr>) d))"

definition exhausted :: "AgentTask \<Rightarrow> bool" where
  "exhausted t \<longleftrightarrow> t_ExecutorVersion t = 1 \<and> t_Status t = ''pending'' \<and> t_Schedule t = None \<and>
     t_MaxIterations t > 0 \<and> t_Iteration t \<ge> t_MaxIterations t"

definition salvaged_output :: "AgentTask \<Rightarrow> db \<Rightarrow> string" where
  "salvaged_output t d =
     (if (case t_Result t of None \<Rightarrow> False | Some r \<Rightarrow> btrim r \<noteq> [] \<and> r \<noteq> ''Cancelled by user'') then the (t_Result t)
      else case sort_key (\<lambda>r. - it_Iteration r) (filter (\<lambda>r. it_TaskID r = t_ID t \<and>
                  (case it_Output r of None \<Rightarrow> False | Some out \<Rightarrow> out \<noteq> [])) (agent_task_iterations d)) of
          r # _ \<Rightarrow> the (it_Output r)
        | [] \<Rightarrow> ''max_iterations reached without satisfying acceptance criteria'')"

text \<open>The updated rows; the source returns a projection of them.\<close>

definition CompleteExhausted :: "gotime \<Rightarrow> db \<Rightarrow> AgentTask list \<times> db" where
  "CompleteExhausted now d =
     (let fail = (\<lambda>t. t\<lparr>t_Status := ''failed'', t_CompletedAt := Some now,
            t_ErrorMessage := (case t_ErrorMessage t of
               None \<Rightarrow> Some ''max_iterations reached without satisfying acceptance criteria'' | Some e \<Rightarrow> Some e),
            t_Result := Some (salvaged_output t d)\<rparr>)
      in (map fail (filter exhausted (agent_tasks d)), update_tasks exhausted fail d))"

definition UpdateShaping :: "uuid \<Rightarrow> json \<Rightarrow> int \<Rightarrow> string option \<Rightarrow> db \<Rightarrow> db" where
  "UpdateShaping i config maxIterations acceptance = update_tasks (\<lambda>t. t_ID t = i)
     (\<lambda>t. t\<lparr>t_Config := config, t_MaxIterations := maxIterations,
            t_AcceptanceCriteria := coalesce acceptance (t_AcceptanceCriteria t)\<rparr>)"

definition SetPending :: "uuid \<Rightarrow> db \<Rightarrow> db" where
  "SetPending i = update_tasks (\<lambda>t. t_ID t = i \<and> t_Status t = ''running'') (\<lambda>t. t\<lparr>t_Status := ''pending''\<rparr>)"

definition SetPendingForNotificationRetry :: "uuid \<Rightarrow> db \<Rightarrow> db" where
  "SetPendingForNotificationRetry i = update_tasks (\<lambda>t. t_ID t = i \<and> t_Status t = ''running'')
     (\<lambda>t. t\<lparr>t_Status := ''pending'', t_LastRunAt := None\<rparr>)"

definition Fail :: "uuid \<Rightarrow> string \<Rightarrow> db \<Rightarrow> db" where
  "Fail i errMsg = update_tasks (\<lambda>t. t_ID t = i) (\<lambda>t. t\<lparr>t_Status := ''failed'', t_ErrorMessage := Some errMsg\<rparr>)"

text \<open>The store's own \<open>Cancel\<close>, kept for legacy callers.\<close>

definition StoreCancel :: "gotime \<Rightarrow> uuid \<Rightarrow> db \<Rightarrow> db" where
  "StoreCancel now i = update_tasks (\<lambda>t. t_ID t = i \<and> (t_Status t = ''pending'' \<or> t_Status t = ''running''))
     (\<lambda>t. t\<lparr>t_Status := ''done'', t_Result := Some ''Cancelled by user'', t_CompletedAt := Some now\<rparr>)"

definition stale :: "string \<Rightarrow> gotime \<Rightarrow> AgentTask \<Rightarrow> bool" where
  "stale status before t \<longleftrightarrow> t_ExecutorVersion t = 1 \<and> t_Status t = status \<and>
     (case t_LastRunAt t of None \<Rightarrow> False | Some r \<Rightarrow> r < before)"

definition ResetStale :: "gotime \<Rightarrow> duration \<Rightarrow> db \<Rightarrow> nat \<times> db" where
  "ResetStale now staleAfter d = (rows_affected (stale ''running'' (now - staleAfter)) (agent_tasks d),
     update_tasks (stale ''running'' (now - staleAfter)) (\<lambda>t. t\<lparr>t_Status := ''pending''\<rparr>) d)"

definition ResetForNextRun :: "uuid \<Rightarrow> db \<Rightarrow> db" where
  "ResetForNextRun i = update_tasks (\<lambda>t. t_ID t = i) (\<lambda>t. t\<lparr>t_Status := ''pending'', t_Iteration := 0,
     t_Progress := JObj [], t_Result := None, t_ErrorMessage := None, t_CompletedAt := None\<rparr>)"

definition Approve :: "uuid \<Rightarrow> db \<Rightarrow> db" where
  "Approve i = update_tasks (\<lambda>t. t_ID t = i \<and> t_Status t = ''paused'') (\<lambda>t. t\<lparr>t_Status := ''pending''\<rparr>)"

definition PauseTask :: "uuid \<Rightarrow> json option \<Rightarrow> db \<Rightarrow> db" where
  "PauseTask i progress = update_tasks (\<lambda>t. t_ID t = i \<and> t_Status t = ''running'')
     (\<lambda>t. t\<lparr>t_Progress := jsonbObject progress, t_Status := ''paused'', t_Iteration := t_Iteration t + 1\<rparr>)"

definition waits_for_peer :: "(json \<Rightarrow> string) \<Rightarrow> string \<Rightarrow> AgentTask \<Rightarrow> bool" where
  "waits_for_peer render peer t \<longleftrightarrow> t_ExecutorVersion t = 1 \<and> t_Status t = ''paused'' \<and>
     jget_text render (t_Progress t) ''peer_task_id'' = Some peer"

definition WakePausedByPeerTask :: "(json \<Rightarrow> string) \<Rightarrow> string \<Rightarrow> db \<Rightarrow> uuid tx" where
  "WakePausedByPeerTask render peer d =
     (case List.find (waits_for_peer render peer) (agent_tasks d) of
        None \<Rightarrow> Inl ErrNoRows
      | Some t \<Rightarrow> Inr (t_ID t, update_tasks (waits_for_peer render peer) (\<lambda>t. t\<lparr>t_Status := ''pending''\<rparr>) d))"

definition WakeStalePaused :: "gotime \<Rightarrow> duration \<Rightarrow> db \<Rightarrow> nat \<times> db" where
  "WakeStalePaused now staleAfter d = (rows_affected (stale ''paused'' (now - staleAfter)) (agent_tasks d),
     update_tasks (stale ''paused'' (now - staleAfter)) (\<lambda>t. t\<lparr>t_Status := ''pending''\<rparr>) d)"

definition ListForUser :: "uuid \<Rightarrow> string \<Rightarrow> db \<Rightarrow> AgentTask list" where
  "ListForUser user status d = sort_key (\<lambda>t. - t_CreatedAt t)
     (filter (\<lambda>t. t_UserID t = user \<and> (status \<noteq> [] \<longrightarrow> t_Status t = status)) (agent_tasks d))"

text \<open>
  The insert or update of one recurring task per soul, user and handler; the arbiter index on these columns is the
  host's, which adds \<open>soul_id\<close>. An insert still meets the index of \<open>init.sql\<close> on user and handler, which does not know souls.
\<close>

definition recurring_slot :: "uuid \<Rightarrow> uuid \<Rightarrow> string \<Rightarrow> AgentTask \<Rightarrow> bool" where
  "recurring_slot soul user handler t \<longleftrightarrow> t_SoulID t = soul \<and> t_UserID t = user \<and> t_Handler t = handler \<and>
     t_Schedule t \<noteq> None \<and> t_Status t \<noteq> ''failed''"

definition recurring_row :: "gotime \<Rightarrow> uuid \<Rightarrow> uuid \<Rightarrow> uuid \<Rightarrow> string \<Rightarrow> string \<Rightarrow> string \<Rightarrow> AgentTask" where
  "recurring_row now new soul user handler schedule title = \<lparr>t_ExecutorVersion = 1, t_ID = new, t_SoulID = soul, t_UserID = user,
        t_Title = title, t_Description = None, t_AcceptanceCriteria = None, t_Strategy = StrategyRecurring,
        t_Handler = handler, t_DelegateTo = None, t_Config = JObj [], t_Plan = JObj [], t_Tools = [],
        t_UseAgents = [], t_Schedule = Some schedule, t_Deadline = None, t_Cadence = None, t_Status = ''pending'',
        t_Progress = JObj [], t_Result = None, t_ErrorMessage = None, t_Iteration = 0, t_MaxIterations = 1,
        t_LastRunAt = None, t_CompletedAt = None, t_CreatedAt = now, t_SessionID = None,
        t_RequiredRecheckURLs = []\<rparr>"

definition EnsureRecurring :: "gotime \<Rightarrow> uuid \<Rightarrow> uuid \<Rightarrow> uuid \<Rightarrow> string \<Rightarrow> string \<Rightarrow> string \<Rightarrow> db \<Rightarrow> unit tx" where
  "EnsureRecurring now new soul user handler schedule title d =
     (if \<exists>t \<in> set (agent_tasks d). recurring_slot soul user handler t then
        Inr ((), update_tasks (recurring_slot soul user handler) (\<lambda>t. t\<lparr>t_Schedule := Some schedule, t_Title := title\<rparr>) d)
      else
        let row = recurring_row now new soul user handler schedule title in
        if new \<in> t_ID ` set (agent_tasks d) \<or> (\<exists>t \<in> set (agent_tasks d). scheduled_conflict row t) then Inl ConstraintViolation
        else Inr ((), d\<lparr>agent_tasks := agent_tasks d @ [row]\<rparr>))"

section \<open>Checkpoints\<close>

text \<open>The row lock that requires the exact claim of a running task.\<close>

definition holds_claim :: "uuid \<Rightarrow> gotime \<Rightarrow> AgentTask \<Rightarrow> bool" where
  "holds_claim i claim t \<longleftrightarrow> t_ID t = i \<and> t_Status t = ''running'' \<and> t_LastRunAt t = Some claim"

text \<open>
  The three payloads of a checkpoint arrive as raw messages, absent or a JSON value; the code stores an
  empty object or array for an absent one.
\<close>

definition json_array :: "json option \<Rightarrow> json" where
  "json_array raw = (case raw of None \<Rightarrow> JArr [] | Some j \<Rightarrow> j)"

definition CheckpointTask ::
    "gotime \<Rightarrow> uuid \<Rightarrow> gotime \<Rightarrow> TaskCheckpoint \<Rightarrow> json option \<Rightarrow> json option \<Rightarrow> json option \<Rightarrow> db \<Rightarrow> unit tx" where
  "CheckpointTask now i claim cp progress toolCalls receipts d =
     (if cp_SessionID cp = [] \<or> cp_Phase cp = [] \<or> cp_Iteration cp \<le> 0 \<or> claim = time_zero
        then Inl (MissingArgument ''checkpoint identity'')
      else if \<not> (\<exists>t \<in> set (agent_tasks d). holds_claim i claim t) then Inl ErrTaskClaimLost
      else
        let row = cp\<lparr>cp_TaskID := i, cp_ClaimStartedAt := claim, cp_Progress := jsonbObject progress,
              cp_ToolCalls := json_array toolCalls, cp_Receipts := json_array receipts, cp_UpdatedAt := now\<rparr>;
            cps = agent_task_checkpoints d
        in Inr ((), update_tasks (\<lambda>t. t_ID t = i) (\<lambda>t. t\<lparr>t_Progress := jconcat (t_Progress t) (jsonbObject progress)\<rparr>)
             (d\<lparr>agent_task_checkpoints :=
                (if i \<in> cp_TaskID ` set cps then
                   update_where (\<lambda>c. cp_TaskID c = i)
                     (\<lambda>c. row\<lparr>cp_Output := (if cp_Output cp \<noteq> [] then cp_Output cp else cp_Output c)\<rparr>) cps
                 else cps @ [row])\<rparr>)))"

definition ReadTaskCheckpoint :: "uuid \<Rightarrow> db \<Rightarrow> TaskCheckpoint option" where
  "ReadTaskCheckpoint i d = List.find (\<lambda>c. cp_TaskID c = i) (agent_task_checkpoints d)"

section \<open>Saved candidates\<close>

definition ReadTaskSubmission :: "uuid \<Rightarrow> db \<Rightarrow> TaskSubmission option" where
  "ReadTaskSubmission i d = List.find (\<lambda>s. sub_TaskID s = i) (agent_task_submissions d)"

text \<open>The outcome of one iteration. A nil slice of references marshals to the JSON null.\<close>

record IterationResult =
  ir_Done :: bool
  ir_Pause :: bool
  ir_Progress :: "json option"
  ir_Output :: string
  ir_Notify :: string
  ir_Notified :: bool
  ir_IsFinal :: bool
  ir_Partial :: bool
  ir_ToolCallsJSON :: "json option"
  ir_PendingDeliveries :: "TaskDeliveryRef list option"

definition refs_json :: "TaskDeliveryRef list option \<Rightarrow> json" where
  "refs_json refs = (case refs of None \<Rightarrow> JNull
     | Some rs \<Rightarrow> JArr (map (\<lambda>r. JObj [(''InputID'', JStr (d_InputID r)), (''ItemKey'', JStr (d_ItemKey r))]) rs))"

definition SaveTaskSubmission :: "gotime \<Rightarrow> uuid \<Rightarrow> gotime \<Rightarrow> IterationResult \<Rightarrow> db \<Rightarrow> unit tx" where
  "SaveTaskSubmission now i claim result d =
     (if \<not> (\<exists>t \<in> set (agent_tasks d). holds_claim i claim t) then Inl ErrTaskClaimLost
      else if btrim (ir_Output result) = [] then Inl ConstraintViolation
      else
        let row = \<lparr>sub_TaskID = i, sub_Output = ir_Output result, sub_Notify = ir_Notify result,
              sub_Progress = jsonbObject (ir_Progress result), sub_ToolCalls = json_array (ir_ToolCallsJSON result),
              sub_PendingDeliveries = refs_json (ir_PendingDeliveries result),
              sub_ReviewAttempts = 0, sub_NextReviewAt = now, sub_LastError = []\<rparr>;
            subs = agent_task_submissions d
        in Inr ((), d\<lparr>agent_task_submissions :=
             (if i \<in> sub_TaskID ` set subs then update_where (\<lambda>s. sub_TaskID s = i) (\<lambda>s. row) subs else subs @ [row])\<rparr>))"

definition DeferTaskVerification :: "uuid \<Rightarrow> gotime \<Rightarrow> string \<Rightarrow> gotime \<Rightarrow> db \<Rightarrow> unit tx" where
  "DeferTaskVerification i claim reason nxt d =
     (if rows_affected (holds_claim i claim) (agent_tasks d) = 0 then Inl ErrTaskClaimLost
      else if rows_affected (\<lambda>s. sub_TaskID s = i) (agent_task_submissions d) = 0 then Inl ErrNoRows
      else Inr ((), update_tasks (holds_claim i claim) (\<lambda>t. t\<lparr>t_Status := ''pending'',
          t_Progress := jconcat (t_Progress t) (JObj [(''phase'', JStr ''verification_wait'')])\<rparr>)
        (d\<lparr>agent_task_submissions := update_where (\<lambda>s. sub_TaskID s = i)
          (\<lambda>s. s\<lparr>sub_ReviewAttempts := sub_ReviewAttempts s + 1, sub_NextReviewAt := nxt, sub_LastError := reason\<rparr>)
          (agent_task_submissions d)\<rparr>)))"

definition RejectTaskSubmission :: "uuid \<Rightarrow> gotime \<Rightarrow> json option \<Rightarrow> string list \<Rightarrow> db \<Rightarrow> unit tx" where
  "RejectTaskSubmission i claim progress urls d =
     (if rows_affected (holds_claim i claim) (agent_tasks d) = 0 then Inl ErrTaskClaimLost
      else Inr ((), update_tasks (holds_claim i claim) (requeued progress urls)
        (d\<lparr>agent_task_submissions := filter (\<lambda>s. sub_TaskID s \<noteq> i) (agent_task_submissions d)\<rparr>)))"

end
