(* ===== verification/Task_System.thy ===== *)
theory Task_System
  imports Task_Lifecycle
begin

text \<open>
  All operations of the task store as one transition system over time and database, and the
  invariants of its reachable states. A transition is one committed transaction; its clock readings
  lie between the time before and the time after it.
\<close>

section \<open>The transition system\<close>

text \<open>
  The functions of PostgreSQL, of Go's libraries and of the host the operations use: rendering of
  JSON, timestamp conversion and rendering, the digest, formatting, the collation's sort key, the text
  of ids and the JSON codec of turns.
\<close>

record external =
  ext_render :: "json \<Rightarrow> string"
  ext_timestamptz :: "string \<Rightarrow> gotime option"
  ext_iso :: "gotime \<Rightarrow> string"
  ext_sha256 :: "string \<Rightarrow> string"
  ext_sprintf3 :: "string \<Rightarrow> string \<Rightarrow> string \<Rightarrow> string \<Rightarrow> string"
  ext_coll :: "string \<Rightarrow> string"
  ext_uuid_text :: "uuid \<Rightarrow> string"
  ext_unmarshal :: "string \<Rightarrow> AutonomousTurnCommit option"

text \<open>The operations on the step graph and the coordinator leases.\<close>

inductive graph_op :: "external \<Rightarrow> clock \<Rightarrow> db \<Rightarrow> db \<Rightarrow> bool" for ext :: external and clk :: clock where
  op_save_steps: "SaveTaskSteps run clk order i claim steps d = Inr (u, d') \<Longrightarrow> graph_op ext clk d d'"
| op_claim_step: "ClaimTaskStep run clk new i sid lease d = Inr (s, d') \<Longrightarrow> graph_op ext clk d d'"
| op_checkpoint_step: "CheckpointTaskStep run clk i sid srun lease cp d = Inr (u, d') \<Longrightarrow> graph_op ext clk d d'"
| op_complete_step: "CompleteTaskStep run clk i sid srun result d = Inr (u, d') \<Longrightarrow> graph_op ext clk d d'"
| op_fail_step: "FailTaskStepAfter (ext_render ext) run clk i sid srun reason retry delay d = Inr (u, d') \<Longrightarrow>
     graph_op ext clk d d'"
| op_recover_steps: "RecoverTaskSteps (ext_render ext) run clk i d = Inr (u, d') \<Longrightarrow> graph_op ext clk d d'"
| op_resolve_stuck: "ResolveStuckTaskSteps (ext_render ext) run clk i d = Inr (n, d') \<Longrightarrow> graph_op ext clk d d'"
| op_claim_graph: "ClaimGraphTask (ext_render ext) (ext_timestamptz ext) clk new i lease d = Inr (r, d') \<Longrightarrow>
     graph_op ext clk d d'"
| op_renew_graph: "RenewGraphTask run clk i lease d = Inr (u, d') \<Longrightarrow> graph_op ext clk d d'"
| op_yield_graph: "YieldGraphTask (ext_iso ext) run clk i nxt d = Inr (u, d') \<Longrightarrow> graph_op ext clk d d'"

text \<open>
  Two operations of the store carry no guard of their own and are restricted to what their callers
  do: the scheduler pauses only tasks it claimed with \<open>TrySetRunning\<close>, which are not graph tasks, and
  resets only scheduled ones.
\<close>

inductive task_op :: "external \<Rightarrow> clock \<Rightarrow> db \<Rightarrow> db \<Rightarrow> bool" for ext :: external and clk :: clock where
  op_graph: "graph_op ext clk d d' \<Longrightarrow> task_op ext clk d d'"
| op_create: "Create (ext_uuid_text ext) origin (clk 0) new soul task d = Inr (v, d') \<Longrightarrow>
     t_Status task \<noteq> ''paused'' \<Longrightarrow> task_op ext clk d d'"
| op_ensure_recurring: "EnsureRecurring (clk 0) new soul user handler schedule title d = Inr (u, d') \<Longrightarrow> task_op ext clk d d'"
| op_progress_graph: "SaveGraphProgress run clk i progress d = Inr (u, d') \<Longrightarrow> task_op ext clk d d'"
| op_set_deadline: "task_op ext clk d (SetTaskDeadline i deadline d)"
| op_expire: "task_op ext clk d (snd (ExpireTask i (clk 0) d))"
| op_finalize: "FinalizeTask (ext_sha256 ext) (ext_sprintf3 ext) (ext_render ext) (ext_coll ext) run clk new i fin d =
     Inr (art, d') \<Longrightarrow> task_op ext clk d d'"
| op_cancel: "Cancel (ext_sha256 ext) (ext_sprintf3 ext) (ext_render ext) (ext_coll ext) clk new user soul i msg d =
     Inr (b, d') \<Longrightarrow> task_op ext clk d d'"
| op_dismiss: "Dismiss user soul i d = Inr (b, d') \<Longrightarrow> task_op ext clk d d'"
| op_dismiss_finished: "DismissFinished user soul d = Inr (n, d') \<Longrightarrow> task_op ext clk d d'"
| op_restart: "Restart (ext_uuid_text ext) clk new user soul i budget d = Inr (v, d') \<Longrightarrow> task_op ext clk d d'"
| op_resume: "Resume user soul i d = Inr (u, d') \<Longrightarrow> task_op ext clk d d'"
| op_set_running: "task_op ext clk d (SetRunning (clk 0) i d)"
| op_try_running: "task_op ext clk d (snd (TrySetRunning (clk 0) i d))"
| op_update_progress: "task_op ext clk d (UpdateProgressWithRecheck i progress urls d)"
| op_complete: "Complete (clk 0) i result d = Inr (u, d') \<Longrightarrow> task_op ext clk d d'"
| op_exhausted: "task_op ext clk d (snd (CompleteExhausted (clk 0) d))"
| op_shaping: "task_op ext clk d (UpdateShaping i config n acceptance d)"
| op_set_pending: "task_op ext clk d (SetPending i d)"
| op_pending_retry: "task_op ext clk d (SetPendingForNotificationRetry i d)"
| op_fail: "task_op ext clk d (Fail i msg d)"
| op_store_cancel: "task_op ext clk d (StoreCancel (clk 0) i d)"
| op_reset_stale: "task_op ext clk d (snd (ResetStale (clk 0) after d))"
| op_reset_next: "find_task d i = Some t \<Longrightarrow> t_Schedule t \<noteq> None \<Longrightarrow> task_op ext clk d (ResetForNextRun i d)"
| op_approve: "task_op ext clk d (Approve i d)"
| op_pause: "find_task d i = Some t \<Longrightarrow> t_ExecutorVersion t = 1 \<Longrightarrow> task_op ext clk d (PauseTask i progress d)"
| op_wake_peer: "WakePausedByPeerTask (ext_render ext) peer d = Inr (v, d') \<Longrightarrow> task_op ext clk d d'"
| op_wake_stale: "task_op ext clk d (snd (WakeStalePaused (clk 0) after d))"
| op_checkpoint: "CheckpointTask (clk 0) i claim cp progress tools receipts d = Inr (u, d') \<Longrightarrow> task_op ext clk d d'"
| op_save_submission: "SaveTaskSubmission (clk 0) i claim sub d = Inr (u, d') \<Longrightarrow> task_op ext clk d d'"
| op_defer_verification: "DeferTaskVerification i claim reason nxt d = Inr (u, d') \<Longrightarrow> task_op ext clk d d'"
| op_reject_submission: "RejectTaskSubmission i claim progress urls d = Inr (u, d') \<Longrightarrow> task_op ext clk d d'"
| op_mark_delivered: "MarkDelivered i refs d = Inr (u, d') \<Longrightarrow> task_op ext clk d d'"
| op_begin: "BeginNotificationAttempt (ext_sha256 ext) (clk 0) new i user msg refs d = Inr (v, d') \<Longrightarrow> task_op ext clk d d'"
| op_confirm: "ConfirmNotificationAttempt (ext_unmarshal ext) (ext_iso ext) (clk 0) i receipt d = Inr (u, d') \<Longrightarrow>
     task_op ext clk d d'"
| op_uncertain: "MarkNotificationUncertain (clk 0) i reason d = Inr (u, d') \<Longrightarrow> task_op ext clk d d'"
| op_defer: "DeferNotificationAttempt i reason at d = Inr (u, d') \<Longrightarrow> task_op ext clk d d'"
| op_reject: "RejectNotificationAttempt (clk 0) i reason d = Inr (u, d') \<Longrightarrow> task_op ext clk d d'"
| op_claim_retry: "ClaimRetryableNotification (ext_coll ext) locked (clk 0) d = Inr (v, d') \<Longrightarrow> task_op ext clk d d'"

type_synonym system = "gotime \<times> db"

inductive system_step :: "external \<Rightarrow> system \<Rightarrow> system \<Rightarrow> bool" for ext :: external where
  transaction: "t \<le> clk 0 \<Longrightarrow> mono clk \<Longrightarrow> (\<And>k. clk k \<le> t') \<Longrightarrow> task_op ext clk d d' \<Longrightarrow>
     system_step ext (t, d) (t', d')"

definition initial_system :: "system \<Rightarrow> bool" where
  "initial_system s \<longleftrightarrow> snd s = empty_db"

section \<open>Frames\<close>

text \<open>Graph tasks are one-shot and never paused; every lease belongs to a task.\<close>

definition graph_shape :: "db \<Rightarrow> bool" where
  "graph_shape d \<longleftrightarrow> (\<forall>t \<in> set (agent_tasks d). t_ExecutorVersion t = 2 \<longrightarrow> \<not> periodic t \<and> t_Status t \<noteq> ''paused'')"

definition runs_known :: "db \<Rightarrow> bool" where
  "runs_known d \<longleftrightarrow> r_TaskID ` set (agent_task_runs d) \<subseteq> t_ID ` set (agent_tasks d)"

definition task_frame :: "AgentTask \<Rightarrow> AgentTask \<Rightarrow> bool" where
  "task_frame t t' \<longleftrightarrow> t_ID t' = t_ID t \<and> t_UserID t' = t_UserID t \<and> t_ExecutorVersion t' = t_ExecutorVersion t \<and>
     (t_ExecutorVersion t = 2 \<longrightarrow> (periodic t' \<longrightarrow> periodic t) \<and> (open_graph_task t' \<longrightarrow> open_graph_task t) \<and>
        (t_Status t' = ''paused'' \<longrightarrow> t_Status t = ''paused''))"

text \<open>What the operations outside the step graph and the leases leave alone.\<close>

definition framed :: "db \<Rightarrow> db \<Rightarrow> bool" where
  "framed d d' \<longleftrightarrow> agent_task_steps d' = agent_task_steps d \<and> agent_task_runs d' = agent_task_runs d \<and>
     map t_ID (agent_tasks d') = map t_ID (agent_tasks d) \<and>
     (\<forall>t' \<in> set (agent_tasks d'). \<exists>t \<in> set (agent_tasks d). task_frame t t')"

lemma task_frame_refl [simp]: "task_frame t t"
  by (simp add: task_frame_def)

lemma framed_same:
  "agent_tasks d' = agent_tasks d \<Longrightarrow> agent_task_steps d' = agent_task_steps d \<Longrightarrow>
   agent_task_runs d' = agent_task_runs d \<Longrightarrow> framed d d'"
  by (auto simp: framed_def intro: task_frame_refl)

lemma framed_update:
  assumes "agent_task_steps d' = agent_task_steps d" "agent_task_runs d' = agent_task_runs d"
    and upd: "agent_tasks d' = update_where p f (agent_tasks d)"
    and frame: "\<And>t. t \<in> set (agent_tasks d) \<Longrightarrow> p t \<Longrightarrow> task_frame t (f t)"
  shows "framed d d'"
proof -
  have "map t_ID (update_where p f (agent_tasks d)) = map t_ID (agent_tasks d)"
    using frame by (auto simp: update_where_def task_frame_def)
  moreover have "\<exists>t \<in> set (agent_tasks d). task_frame t t'" if "t' \<in> set (update_where p f (agent_tasks d))" for t'
    using that frame task_frame_refl unfolding set_update_where by blast
  ultimately show ?thesis using assms(1,2) by (simp add: framed_def upd)
qed

lemma periodic_update [simp]:
  "periodic (t\<lparr>t_Status := x\<rparr>) = periodic t" "periodic (t\<lparr>t_Progress := j\<rparr>) = periodic t"
  "periodic (t\<lparr>t_Result := r\<rparr>) = periodic t" "periodic (t\<lparr>t_ErrorMessage := e\<rparr>) = periodic t"
  "periodic (t\<lparr>t_CompletedAt := c\<rparr>) = periodic t" "periodic (t\<lparr>t_LastRunAt := l\<rparr>) = periodic t"
  "periodic (t\<lparr>t_Iteration := n\<rparr>) = periodic t" "periodic (t\<lparr>t_RequiredRecheckURLs := u\<rparr>) = periodic t"
  "periodic (t\<lparr>t_Deadline := dl\<rparr>) = periodic t" "periodic (t\<lparr>t_Config := cf\<rparr>) = periodic t"
  "periodic (t\<lparr>t_MaxIterations := m\<rparr>) = periodic t" "periodic (t\<lparr>t_AcceptanceCriteria := a\<rparr>) = periodic t"
  by (simp_all add: periodic_def)

lemmas frame_simps = task_frame_def open_graph_task_def unfinished_def

lemma framed_update_tasks:
  assumes "\<And>t. t \<in> set (agent_tasks d) \<Longrightarrow> p t \<Longrightarrow> task_frame t (f t)"
  shows "framed d (update_tasks p f d)"
  by (rule framed_update [of _ _ p f]) (simp_all add: assms)

lemma framed_deadlines:
  "framed d (SetTaskDeadline i deadline d)" "framed d (snd (ExpireTask i now d))"
  by (auto simp: SetTaskDeadline_def ExpireTask_def expirable_def frame_simps intro!: framed_update_tasks)

lemma framed_queue:
  "framed d (SetRunning now i d)" "framed d (snd (TrySetRunning now i d))"
  "framed d (UpdateProgressWithRecheck i progress urls d)" "framed d (snd (CompleteExhausted now d))"
  "framed d (UpdateShaping i config n acceptance d)" "framed d (SetPending i d)"
  "framed d (SetPendingForNotificationRetry i d)" "framed d (Fail i msg d)" "framed d (StoreCancel now i d)"
  "framed d (snd (ResetStale now after d))" "framed d (snd (WakeStalePaused now after d))"
  by (auto simp: SetRunning_def TrySetRunning_def queue_claimable_def UpdateProgressWithRecheck_def
      UpdateProgress_def requeued_def CompleteExhausted_def exhausted_def UpdateShaping_def SetPending_def
      SetPendingForNotificationRetry_def Fail_def StoreCancel_def ResetStale_def stale_def WakeStalePaused_def
      Let_def frame_simps intro!: framed_update_tasks split: if_splits)

lemma framed_complete: "Complete now i result d = Inr (u, d') \<Longrightarrow> framed d d'"
  by (auto simp: Complete_def frame_simps intro!: framed_update_tasks split: if_splits)

lemma framed_wake_peer: "WakePausedByPeerTask render peer d = Inr (v, d') \<Longrightarrow> framed d d'"
  by (auto simp: WakePausedByPeerTask_def waits_for_peer_def frame_simps intro!: framed_update_tasks split: option.splits)

text \<open>Operations whose effect on graph tasks depends on their shape.\<close>

lemma same_task:
  "keys_ok d \<Longrightarrow> t \<in> set (agent_tasks d) \<Longrightarrow> t' \<in> set (agent_tasks d) \<Longrightarrow> t_ID t = t_ID t' \<Longrightarrow> t = t'"
  by (rule task_rows.same_key_same_row [of "agent_tasks d"]) (simp_all add: keys_ok_def)

lemma framed_approve: "graph_shape d \<Longrightarrow> framed d (Approve i d)"
  by (auto simp: Approve_def graph_shape_def frame_simps intro!: framed_update_tasks)

lemma framed_pause:
  assumes "keys_ok d" "find_task d i = Some t" "t_ExecutorVersion t = 1"
  shows "framed d (PauseTask i progress d)"
  unfolding PauseTask_def
proof (rule framed_update_tasks)
  fix t' assume "t' \<in> set (agent_tasks d)" "t_ID t' = i \<and> t_Status t' = ''running''"
  then have "t' = t" using same_task [OF assms(1)] find_task_SomeD [OF assms(2)] by blast
  with assms(3) show "task_frame t' (t'\<lparr>t_Progress := jsonbObject progress, t_Status := ''paused'', t_Iteration := t_Iteration t' + 1\<rparr>)"
    by (simp add: frame_simps)
qed

lemma framed_reset_next:
  assumes "keys_ok d" "graph_shape d" "find_task d i = Some t" "t_Schedule t \<noteq> None"
  shows "framed d (ResetForNextRun i d)"
  unfolding ResetForNextRun_def
proof (rule framed_update_tasks)
  fix t' assume "t' \<in> set (agent_tasks d)" "t_ID t' = i"
  then have "t' = t" using same_task [OF assms(1)] find_task_SomeD [OF assms(3)] by blast
  moreover have "t_ExecutorVersion t \<noteq> 2"
    using assms(2,4) find_task_SomeD [OF assms(3)] by (auto simp: graph_shape_def periodic_def)
  ultimately show "task_frame t' (t'\<lparr>t_Status := ''pending'', t_Iteration := 0, t_Progress := JObj [],
      t_Result := None, t_ErrorMessage := None, t_CompletedAt := None\<rparr>)"
    by (simp add: frame_simps)
qed

lemma framed_resume:
  assumes "keys_ok d" "graph_shape d" "Resume user soul i d = Inr (u, d')"
  shows "framed d d'"
proof (cases "d' = d")
  case True
  then show ?thesis by (simp add: framed_same)
next
  case False
  then obtain t where t: "find_owned user soul i d = Some t" "periodic t"
    and d': "d' = update_tasks (\<lambda>t. t_ID t = i) (\<lambda>t. t\<lparr>t_Status := ''pending''\<rparr>) d"
    using assms(3) by (auto simp: Resume_def split: if_splits option.splits)
  have mem: "t \<in> set (agent_tasks d)" "t_ID t = i" using find_SomeD [OF t(1) [unfolded find_owned_def]] by auto
  show ?thesis
    unfolding d'
  proof (rule framed_update_tasks)
    fix t' assume "t' \<in> set (agent_tasks d)" "t_ID t' = i"
    then have "t' = t" using same_task [OF assms(1)] mem by blast
    moreover have "t_ExecutorVersion t \<noteq> 2" using assms(2) t(2) mem by (auto simp: graph_shape_def)
    ultimately show "task_frame t' (t'\<lparr>t_Status := ''pending''\<rparr>)" by (simp add: frame_simps)
  qed
qed

lemma framed_drafts:
  "CheckpointTask now i claim cp progress tools receipts d = Inr (u, d') \<Longrightarrow> framed d d'"
  "SaveTaskSubmission now i claim sub d = Inr (u, d') \<Longrightarrow> framed d d'"
  "DeferTaskVerification i claim reason nxt d = Inr (u, d') \<Longrightarrow> framed d d'"
  "RejectTaskSubmission i claim progress urls d = Inr (u, d') \<Longrightarrow> framed d d'"
proof -
  assume "CheckpointTask now i claim cp progress tools receipts d = Inr (u, d')"
  then show "framed d d'"
    by (intro framed_update [of d' d "\<lambda>t. t_ID t = i" "\<lambda>t. t\<lparr>t_Progress := jconcat (t_Progress t) (jsonbObject progress)\<rparr>"])
      (auto simp: CheckpointTask_def Let_def frame_simps split: if_splits)
next
  assume "SaveTaskSubmission now i claim sub d = Inr (u, d')"
  then show "framed d d'" by (auto simp: SaveTaskSubmission_def Let_def intro!: framed_same split: if_splits)
next
  assume "DeferTaskVerification i claim reason nxt d = Inr (u, d')"
  then show "framed d d'"
    by (intro framed_update [of d' d "holds_claim i claim" "\<lambda>t. t\<lparr>t_Status := ''pending'',
          t_Progress := jconcat (t_Progress t) (JObj [(''phase'', JStr ''verification_wait'')])\<rparr>"])
      (auto simp: DeferTaskVerification_def holds_claim_def frame_simps split: if_splits)
next
  assume "RejectTaskSubmission i claim progress urls d = Inr (u, d')"
  then show "framed d d'"
    by (intro framed_update [of d' d "holds_claim i claim" "requeued progress urls"])
      (auto simp: RejectTaskSubmission_def holds_claim_def requeued_def frame_simps split: if_splits)
qed

lemma framed_journal:
  "MarkDelivered i refs d = Inr (u, d') \<Longrightarrow> framed d d'"
  "BeginNotificationAttempt sha now new i user msg refs d = Inr (v, d') \<Longrightarrow> framed d d'"
  "ConfirmNotificationAttempt unm isot now i receipt d = Inr (u, d') \<Longrightarrow> framed d d'"
  "MarkNotificationUncertain now i reason d = Inr (u, d') \<Longrightarrow> framed d d'"
  "DeferNotificationAttempt i reason at d = Inr (u, d') \<Longrightarrow> framed d d'"
  "RejectNotificationAttempt now i reason d = Inr (u, d') \<Longrightarrow> framed d d'"
  by (auto simp: insert_deliveries_def BeginNotificationAttempt_def ConfirmNotificationAttempt_def
      MarkNotificationUncertain_def DeferNotificationAttempt_def RejectNotificationAttempt_def
      resolve_dispatching_def Let_def intro!: framed_same elim!: MarkDelivered_Inr split: if_splits sum.splits option.splits)

lemma framed_claim_retry:
  "ClaimRetryableNotification coll locked now d = Inr (v, d') \<Longrightarrow> framed d d'"
  by (auto simp: ClaimRetryableNotification_def Let_def intro!: framed_same split: if_splits list.splits)

lemma framed_dismiss:
  "Dismiss user soul i d = Inr (b, d') \<Longrightarrow> framed d d'"
  "DismissFinished user soul d = Inr (n, d') \<Longrightarrow> framed d d'"
  by (auto simp: Dismiss_def DismissFinished_def Let_def intro!: framed_same split: if_splits option.splits)

lemma queue_result_same:
  "queue_result sha now new task notify pending version d = Inr d' \<Longrightarrow>
   agent_tasks d' = agent_tasks d \<and> agent_task_steps d' = agent_task_steps d \<and>
   agent_task_runs d' = agent_task_runs d \<and> agent_task_artifacts d' = agent_task_artifacts d"
  by (auto simp: queue_result_def Let_def split: sum.splits if_splits)

lemma TaskTerminalStatus_terminal: "TaskTerminalStatus t outcome \<in> {''done'', ''failed'', ''canceled''}"
  by (simp add: TaskTerminalStatus_def)

lemma write_result_Inr:
  assumes "write_result sha clk new task fin body d = Inr (art, d')"
  shows "art = Some (result_artifact (clk 0) task fin body d) \<and> artifact_checks (result_artifact (clk 0) task fin body d) \<and>
    agent_task_artifacts d' = agent_task_artifacts d @ [result_artifact (clk 0) task fin body d] \<and>
    agent_tasks d' = update_where (\<lambda>t. t_ID t = t_ID task)
       (finalized_task (clk 0) (TaskTerminalStatus task (result_outcome fin body)) fin
          (result_artifact (clk 0) task fin body d)) (agent_tasks d) \<and>
    agent_task_steps d' = agent_task_steps d \<and> agent_task_runs d' = agent_task_runs d"
proof -
  let ?a = "result_artifact (clk 0) task fin body d"
  have [simp]: "a_Outcome ?a = result_outcome fin body" by (simp add: result_artifact_def)
  show ?thesis
    using assms by (auto simp: write_result_def Let_def dest!: queue_result_same split: if_splits sum.splits)
qed

lemma framed_write_result:
  assumes "write_result sha clk new task fin body d = Inr (art, d')"
  shows "framed d d'"
proof -
  let ?f = "finalized_task (clk 0) (TaskTerminalStatus task (result_outcome fin body)) fin
          (result_artifact (clk 0) task fin body d)"
  have "task_frame t (?f t)" for t
    using TaskTerminalStatus_terminal [of task "result_outcome fin body"]
    by (auto simp: frame_simps finalized_task_def)
  then show ?thesis
    using write_result_Inr [OF assms] by (intro framed_update [of d' d "\<lambda>t. t_ID t = t_ID task" ?f]) simp_all
qed

lemma finalizeTaskTx_Inr:
  assumes "finalizeTaskTx sha sp render coll run clk new i fin d = Inr (art, d')"
  shows "d' = d \<and> art = None \<or> (\<exists>task body. find_task d i = Some task \<and> unfinished task \<and>
    write_result sha clk new task fin body d = Inr (art, d'))"
  using assms by (auto simp: finalizeTaskTx_def split: if_splits option.splits)

lemma framed_finalize:
  "finalizeTaskTx sha sp render coll run clk new i fin d = Inr (art, d') \<Longrightarrow> framed d d'"
  using finalizeTaskTx_Inr framed_write_result framed_same by metis

lemma framed_cancel:
  assumes "Cancel sha sp render coll clk new user soul i msg d = Inr (b, d')"
  shows "framed d d'"
proof -
  consider "d' = d" | "d' = update_tasks (\<lambda>t. t_ID t = i) (\<lambda>t. t\<lparr>t_Status := ''canceled''\<rparr>) d"
    | art where "finalizeTaskTx sha sp render coll uuid_Nil clk new i (cancellation msg) d = Inr (art, d')"
    using assms by (auto simp: Cancel_def split: if_splits option.splits sum.splits)
  then show ?thesis
  proof cases
    case 1 then show ?thesis by (simp add: framed_same)
  next
    case 2 then show ?thesis by (auto simp: frame_simps intro!: framed_update_tasks)
  next
    case 3 then show ?thesis by (rule framed_finalize)
  qed
qed

text \<open>New rows.\<close>

definition grown :: "db \<Rightarrow> db \<Rightarrow> bool" where
  "grown d d' \<longleftrightarrow> agent_task_steps d' = agent_task_steps d \<and> agent_task_runs d' = agent_task_runs d \<and>
     (\<exists>row. agent_tasks d' = agent_tasks d @ [row] \<and> t_ID row \<notin> t_ID ` set (agent_tasks d) \<and>
        (t_ExecutorVersion row = 2 \<longrightarrow> \<not> periodic row \<and> t_Status row \<noteq> ''paused''))"

lemma grown_create:
  assumes "Create uuid_text origin now new soul task d = Inr (v, d')" and "t_Status task \<noteq> ''paused''"
  shows "grown d d'"
proof (rule Create_Inr [OF assms(1)])
  fix task' config
  assume v: "v = created_row now soul config task'" and d': "d' = d\<lparr>agent_tasks := agent_tasks d @ [v]\<rparr>"
    and new: "t_ID v \<notin> t_ID ` set (agent_tasks d)" and st: "t_Status task' = t_Status task"
    and el: "t_ExecutorVersion task' = 2 \<Longrightarrow> graphTaskEligible task'"
  have "t_ExecutorVersion v = t_ExecutorVersion task'" "t_Status v \<noteq> ''paused''"
    "t_Schedule v = t_Schedule task'" "t_Cadence v = t_Cadence task'"
    "t_Strategy v = (if t_Strategy task' = [] then ''recurring'' else t_Strategy task')"
    using assms(2) st by (simp_all add: v created_row_def Let_def)
  with d' new el show ?thesis by (auto simp: grown_def periodic_def graphTaskEligible_def)
qed

lemma grown_restart:
  assumes "Restart uuid_text clk new user soul i budget d = Inr (v, d')"
  shows "grown d d' \<or> d' = d"
proof -
  have "grown d d'" if "d' \<noteq> d"
    using assms that
    by (auto simp: Restart_def Let_def grown_def restart_child_def periodic_def split: if_splits option.splits)
  then show ?thesis by blast
qed

lemma ensure_recurring_frame:
  assumes "graph_shape d" "EnsureRecurring now new soul user handler schedule title d = Inr (u, d')"
  shows "framed d d' \<or> grown d d'"
proof (cases "\<exists>t \<in> set (agent_tasks d). recurring_slot soul user handler t")
  case True
  have "framed d (update_tasks (recurring_slot soul user handler) (\<lambda>t. t\<lparr>t_Schedule := Some schedule, t_Title := title\<rparr>) d)"
    using assms(1) by (intro framed_update_tasks) (auto simp: graph_shape_def recurring_slot_def periodic_def frame_simps)
  with True show ?thesis using assms(2) by (simp add: EnsureRecurring_def)
next
  case False
  then show ?thesis using assms(2) by (auto simp: EnsureRecurring_def recurring_row_def grown_def Let_def split: if_splits)
qed

section \<open>The invariant\<close>

definition store_inv :: "external \<Rightarrow> system \<Rightarrow> bool" where
  "store_inv ext s \<longleftrightarrow> keys_ok (snd s) \<and> steps_inv (ext_render ext) (agent_task_steps (snd s)) \<and>
     graph_shape (snd s) \<and> runs_known (snd s) \<and> (\<forall>user. card (leased (snd s) (fst s) user) \<le> 2)"

lemma card_leased_mono:
  "leased d' t' u \<subseteq> leased d t u \<Longrightarrow> card (leased d t u) \<le> 2 \<Longrightarrow> card (leased d' t' u) \<le> 2"
  by (meson card_mono finite_leased le_trans)

lemma framed_leased:
  assumes "framed d d'" "t \<le> t'"
  shows "leased d' t' u \<subseteq> leased d t u"
proof -
  have "tasks_kept d d'"
    using assms(1) by (fastforce simp: framed_def tasks_kept_def task_frame_def open_graph_task_def)
  then have "leased d' t u \<subseteq> leased d t u"
    using assms(1) by (intro leased_kept) (simp_all add: framed_def)
  then show ?thesis using leased_antimono [OF assms(2)] by blast
qed

lemma store_inv_framed:
  assumes "store_inv ext (t, d)" "framed d d'" "t \<le> t'"
  shows "store_inv ext (t', d')"
proof -
  have ids: "t_ID ` set (agent_tasks d') = t_ID ` set (agent_tasks d)"
    using assms(2) by (metis framed_def set_map)
  have "graph_shape d'"
    using assms(1,2) by (fastforce simp: store_inv_def graph_shape_def framed_def task_frame_def)
  moreover have "keys_ok d'" "runs_known d'" "steps_inv (ext_render ext) (agent_task_steps d')"
    using assms(1,2) ids by (auto simp: store_inv_def keys_ok_def framed_def runs_known_def)
  ultimately show ?thesis
    using assms(1) card_leased_mono [OF framed_leased [OF assms(2,3)]] by (auto simp: store_inv_def)
qed

lemma store_inv_grown:
  assumes "store_inv ext (t, d)" "grown d d'" "t \<le> t'"
  shows "store_inv ext (t', d')"
proof -
  obtain row where row: "agent_tasks d' = agent_tasks d @ [row]" "t_ID row \<notin> t_ID ` set (agent_tasks d)"
    "t_ExecutorVersion row = 2 \<longrightarrow> \<not> periodic row \<and> t_Status row \<noteq> ''paused''"
    and same: "agent_task_steps d' = agent_task_steps d" "agent_task_runs d' = agent_task_runs d"
    using assms(2) by (auto simp: grown_def)
  have "leased d' t u \<subseteq> leased d t u" for u
    using assms(1) row same by (auto simp: leased_def store_inv_def runs_known_def)
  then have "leased d' t' u \<subseteq> leased d t u" for u using leased_antimono [OF assms(3)] by blast
  then have "card (leased d' t' u) \<le> 2" for u
    using assms(1) card_leased_mono by (metis (no_types, lifting) fst_conv snd_conv store_inv_def)
  moreover have "keys_ok d'" "runs_known d'" "graph_shape d'"
    using assms(1) row same by (auto simp: store_inv_def keys_ok_def runs_known_def graph_shape_def)
  ultimately show ?thesis using assms(1) same by (simp add: store_inv_def)
qed

lemma store_inv_steps:
  assumes "store_inv ext (t, d)" "t \<le> t'" "agent_tasks d' = agent_tasks d" "agent_task_runs d' = agent_task_runs d"
    and "steps_inv (ext_render ext) (agent_task_steps d')"
  shows "store_inv ext (t', d')"
proof -
  have "leased d' t' u \<subseteq> leased d t u" for u
    using assms(3,4) leased_antimono [OF assms(2), of d u] by (simp add: leased_def)
  then have "card (leased d' t' u) \<le> 2" for u
    using assms(1) card_leased_mono by (metis (no_types, lifting) fst_conv snd_conv store_inv_def)
  then show ?thesis
    using assms by (simp add: store_inv_def keys_ok_def graph_shape_def runs_known_def steps_inv_def)
qed

text \<open>The step operations leave tasks and leases alone.\<close>

lemma step_ops_same:
  "SaveTaskSteps run clk order i claim steps d = Inr (u, d') \<Longrightarrow> agent_tasks d' = agent_tasks d \<and> agent_task_runs d' = agent_task_runs d"
  "ClaimTaskStep run clk new i sid lease d = Inr (v, d') \<Longrightarrow> agent_tasks d' = agent_tasks d \<and> agent_task_runs d' = agent_task_runs d"
  "CheckpointTaskStep run clk i sid srun lease cp d = Inr (u, d') \<Longrightarrow> agent_tasks d' = agent_tasks d \<and> agent_task_runs d' = agent_task_runs d"
  "CompleteTaskStep run clk i sid srun result d = Inr (u, d') \<Longrightarrow> agent_tasks d' = agent_tasks d \<and> agent_task_runs d' = agent_task_runs d"
  "FailTaskStepAfter render run clk i sid srun reason retry delay d = Inr (u, d') \<Longrightarrow> agent_tasks d' = agent_tasks d \<and> agent_task_runs d' = agent_task_runs d"
  "RecoverTaskSteps render run clk i d = Inr (u, d') \<Longrightarrow> agent_tasks d' = agent_tasks d \<and> agent_task_runs d' = agent_task_runs d"
  "ResolveStuckTaskSteps render run clk i d = Inr (n, d') \<Longrightarrow> agent_tasks d' = agent_tasks d \<and> agent_task_runs d' = agent_task_runs d"
  by (auto simp: SaveTaskSteps_def ClaimTaskStep_def CheckpointTaskStep_def CompleteTaskStep_def updateTaskStep_def
      update_claimed_def FailTaskStepAfter_def RecoverTaskSteps_def ResolveStuckTaskSteps_def Let_def
      split: if_splits sum.splits option.splits)

text \<open>The coordinator operations.\<close>

lemma store_inv_claim_graph:
  assumes inv: "store_inv ext (t, d)" and clk: "t \<le> clk 2" "clk 2 \<le> t'"
    and claim: "ClaimGraphTask (ext_render ext) pg clk new i lease d = Inr (r, d')"
  shows "store_inv ext (t', d')"
proof (cases r)
  case None
  then have "d' = d" using claim ClaimGraphTask_NoneD by blast
  then show ?thesis using store_inv_framed [OF inv framed_same] clk by auto
next
  case (Some run)
  have keys: "keys_ok d" and cap: "\<And>u. card (leased d t u) \<le> 2" and shape: "graph_shape d" "runs_known d"
    using inv by (simp_all add: store_inv_def)
  have steps: "steps_inv (ext_render ext) (agent_task_steps d')"
    using ClaimGraphTask_inv [OF claim] inv by (simp add: store_inv_def)
  from claim [unfolded Some] show ?thesis
  proof (rule ClaimGraphTask_SomeD)
    fix task runs
    assume task: "task \<in> set (agent_tasks d)" "t_ID task = i"
      and runs: "upsert_run clk new i lease (agent_task_runs d) = Some (run, runs)"
      and d': "d' = d\<lparr>agent_task_runs := runs,
        agent_tasks := update_where (\<lambda>t. t_ID t = i) (admitted_task (clk 4)) (agent_tasks d),
        agent_task_steps := update_where (\<lambda>s. s_TaskID s = i \<and> s_Status s = ''running'')
          (fenced_row (ext_render ext)) (agent_task_steps d)\<rparr>"
    have adm: "t_ID (admitted_task now x) = t_ID x" "t_ExecutorVersion (admitted_task now x) = t_ExecutorVersion x"
      "periodic (admitted_task now x) = periodic x" "t_Status (admitted_task now x) = ''running''" for now x
      by (simp_all add: admitted_task_def)
    have "graph_shape d'"
      using shape(1) by (auto simp: d' graph_shape_def set_update_where adm)
    moreover have "runs_known d'"
    proof -
      have ids: "t_ID ` set (agent_tasks d') = t_ID ` set (agent_tasks d)"
      proof -
        have "map t_ID (agent_tasks d') = map t_ID (agent_tasks d)" by (simp add: d' map_update_where adm)
        then show ?thesis by (metis set_map)
      qed
      have "r_TaskID x \<in> t_ID ` set (agent_tasks d)" if "x \<in> set runs" for x
        using upsert_run_Some [OF runs] that shape(2) task by (cases "r_TaskID x = i") (auto simp: runs_known_def)
      then show ?thesis unfolding runs_known_def ids by (auto simp: d')
    qed
    ultimately show ?thesis
      using steps ClaimGraphTask_keys [OF claim keys] ClaimGraphTask_leased [OF claim keys clk cap]
      by (simp add: store_inv_def)
  qed
qed

lemma store_inv_renew:
  assumes inv: "store_inv ext (t, d)" and clk: "t \<le> clk 3" "t \<le> t'"
    and renew: "RenewGraphTask run clk i lease d = Inr (u, d')"
  shows "store_inv ext (t', d')"
proof -
  note d' = RenewGraphTask_Inr [OF renew]
  have ids: "map r_TaskID (agent_task_runs d') = map r_TaskID (agent_task_runs d)"
    using d' by (simp add: map_update_where)
  have "keys_ok d'" "graph_shape d'" "steps_inv (ext_render ext) (agent_task_steps d')"
    using inv d' ids by (auto simp: store_inv_def keys_ok_def graph_shape_def)
  moreover have "runs_known d'"
  proof -
    have "r_TaskID ` set (agent_task_runs d') = r_TaskID ` set (agent_task_runs d)" using ids by (metis set_map)
    moreover have "agent_tasks d' = agent_tasks d" using d' by simp
    ultimately show ?thesis using inv by (simp add: store_inv_def runs_known_def)
  qed
  ultimately show ?thesis
    using inv card_leased_mono [OF RenewGraphTask_leased [OF renew clk]] by (auto simp: store_inv_def)
qed

lemma store_inv_yield:
  assumes inv: "store_inv ext (t, d)" and clk: "clk 4 \<le> t'" "t \<le> t'"
    and yields: "YieldGraphTask isot run clk i nxt d = Inr (u, d')"
  shows "store_inv ext (t', d')"
proof -
  note d' = YieldGraphTask_Inr [OF yields]
  have keys: "keys_ok d" using inv by (simp add: store_inv_def)
  have ids: "map r_TaskID (agent_task_runs d') = map r_TaskID (agent_task_runs d)"
      "map t_ID (agent_tasks d') = map t_ID (agent_tasks d)"
    using d' by (simp_all add: map_update_where)
  have "keys_ok d'" "steps_inv (ext_render ext) (agent_task_steps d')"
    using inv d' ids by (auto simp: store_inv_def keys_ok_def)
  moreover have "graph_shape d'"
    using inv d' by (auto simp: store_inv_def graph_shape_def set_update_where)
  moreover have "runs_known d'"
    using inv ids unfolding store_inv_def runs_known_def by (metis set_map snd_conv)
  ultimately show ?thesis
    using inv card_leased_mono [OF YieldGraphTask_leased [OF yields clk keys]] by (auto simp: store_inv_def)
qed

lemma framed_graph_progress: "SaveGraphProgress run clk i progress d = Inr (u, d') \<Longrightarrow> framed d d'"
  by (auto simp: frame_simps dest!: SaveGraphProgress_Inr intro!: framed_update_tasks)

text \<open>Every operation outside the step graph and the leases leaves them alone.\<close>

lemma task_op_frame:
  assumes "task_op ext clk d d'" and "keys_ok d" and "graph_shape d"
  shows "framed d d' \<or> grown d d' \<or> graph_op ext clk d d'"
  using assms(1)
proof cases
  case op_create then show ?thesis using grown_create by metis
next
  case op_ensure_recurring then show ?thesis using ensure_recurring_frame [OF assms(3)] by metis
next
  case op_restart then show ?thesis using grown_restart framed_same by metis
next
  case op_finalize then show ?thesis unfolding FinalizeTask_def using framed_finalize by metis
next
  case op_reset_next then show ?thesis using framed_reset_next [OF assms(2,3)] by metis
next
  case op_pause then show ?thesis using framed_pause [OF assms(2)] by metis
qed (auto intro: framed_resume [OF assms(2,3)] framed_approve [OF assms(3)] framed_cancel framed_graph_progress
    framed_deadlines framed_queue framed_complete framed_wake_peer framed_drafts framed_journal
    framed_claim_retry framed_dismiss)

lemma store_inv_graph_op:
  assumes inv: "store_inv ext (t, d)" and step: "graph_op ext clk d d'"
    and clk: "\<And>k. t \<le> clk k" "\<And>k. clk k \<le> t'" and t: "t \<le> t'"
  shows "store_inv ext (t', d')"
proof -
  have rows: "steps_inv (ext_render ext) (agent_task_steps d)" using inv by (simp add: store_inv_def)
  note steps = store_inv_steps [OF inv t]
  from step show ?thesis
  proof cases
    case op_save_steps then show ?thesis using step_ops_same(1) SaveTaskSteps_inv rows steps by metis
  next
    case op_claim_step then show ?thesis using step_ops_same(2) ClaimTaskStep_inv rows steps by metis
  next
    case op_checkpoint_step then show ?thesis using step_ops_same(3) CheckpointTaskStep_inv rows steps by metis
  next
    case op_complete_step then show ?thesis using step_ops_same(4) CompleteTaskStep_inv rows steps by metis
  next
    case op_fail_step then show ?thesis using step_ops_same(5) FailTaskStepAfter_inv rows steps by metis
  next
    case op_recover_steps then show ?thesis using step_ops_same(6) RecoverTaskSteps_inv rows steps by metis
  next
    case op_resolve_stuck then show ?thesis using step_ops_same(7) ResolveStuckTaskSteps_inv rows steps by metis
  next
    case op_claim_graph then show ?thesis by (intro store_inv_claim_graph [OF inv clk])
  next
    case op_renew_graph then show ?thesis by (intro store_inv_renew [OF inv clk(1) t])
  next
    case op_yield_graph then show ?thesis by (intro store_inv_yield [OF inv clk(2) t])
  qed
qed

lemma store_inv_op:
  assumes inv: "store_inv ext (t, d)" and step: "task_op ext clk d d'"
    and clk: "t \<le> clk 0" "mono clk" "\<And>k. clk k \<le> t'"
  shows "store_inv ext (t', d')"
proof -
  have t1: "t \<le> clk k" for k using clk(1) monoD [OF clk(2), of 0 k] by simp
  have t2: "t \<le> t'" using clk(1) clk(3) [of 0] by linarith
  have "keys_ok d" "graph_shape d" using inv by (simp_all add: store_inv_def)
  then consider "framed d d'" | "grown d d'" | "graph_op ext clk d d'" using task_op_frame [OF step] by blast
  then show ?thesis
  proof cases
    case 1 then show ?thesis using store_inv_framed [OF inv _ t2] by blast
  next
    case 2 then show ?thesis using store_inv_grown [OF inv _ t2] by blast
  next
    case 3 then show ?thesis using t1 clk(3) t2 by (intro store_inv_graph_op [OF inv])
  qed
qed

section \<open>Reachable states\<close>

lemma store_inv_initial: "initial_system s \<Longrightarrow> store_inv ext s"
  by (auto simp: initial_system_def store_inv_def empty_db_def keys_ok_def steps_inv_def exclusive_def deps_done_def
      graph_shape_def runs_known_def leased_def)

inductive_cases system_stepE: "system_step ext s s'"

interpretation task_system: invariant_system initial_system "system_step ext" "store_inv ext"
  for ext
proof
  fix s assume "initial_system s" then show "store_inv ext s" by (rule store_inv_initial)
next
  fix s s' assume "store_inv ext s" and "system_step ext s s'"
  then show "store_inv ext s'" by (auto elim!: system_stepE intro: store_inv_op)
qed

abbreviation reachable_store :: "external \<Rightarrow> gotime \<Rightarrow> db \<Rightarrow> bool" where
  "reachable_store ext t d \<equiv> reachable_from initial_system (system_step ext) (t, d)"

lemma reachable_store_inv:
  assumes "reachable_store ext t d"
  shows "keys_ok d" "steps_inv (ext_render ext) (agent_task_steps d)" "graph_shape d" "runs_known d"
    "card (leased d t user) \<le> 2"
  using task_system.reachable_inv [OF assms] by (simp_all add: store_inv_def)

end
