(* ===== verification/Task_Sample.thy ===== *)
theory Task_Sample
  imports Task_System
begin

text \<open>
  A short run of the store, evaluated by the kernel: a graph task is created and claimed, a plan of
  two reads and one action that depends on them is saved, both reads are claimed at once and complete, the action
  starts, saves a candidate and fails with a retryable error.
\<close>

definition sample_ext :: external where
  "sample_ext = \<lparr>ext_render = (\<lambda>_. []), ext_timestamptz = (\<lambda>_. None), ext_iso = (\<lambda>_. []),
     ext_sha256 = (\<lambda>_. []), ext_sprintf3 = (\<lambda>_ _ b _. b), ext_coll = (\<lambda>s. s), ext_uuid_text = (\<lambda>_. ''id''),
     ext_unmarshal = (\<lambda>_. None)\<rparr>"

definition at :: "int \<Rightarrow> clock" where
  "at n = (\<lambda>_. n * second)"

text \<open>The database a transaction leaves behind.\<close>

definition committed :: "'a tx \<Rightarrow> db" where
  "committed x = (case x of Inl _ \<Rightarrow> empty_db | Inr (_, d) \<Rightarrow> d)"

definition commits :: "'a tx \<Rightarrow> bool" where
  "commits x = (case x of Inl _ \<Rightarrow> False | Inr _ \<Rightarrow> True)"

lemma commits_Inr: "commits x \<Longrightarrow> \<exists>v. x = Inr (v, committed x)"
  by (auto simp: commits_def committed_def split: sum.splits)

definition sample_action :: TaskStep where
  "sample_action = (blank_step 1 ''c'' ''action'')\<lparr>s_Dependencies := [''a'', ''b'']\<rparr>"

definition tx1 :: "AgentTask tx" where
  "tx1 = Create (ext_uuid_text sample_ext) None (at 1 0) 1 1 ((blank_task 1 7 2)\<lparr>t_Status := []\<rparr>) empty_db"
definition tx2 :: "TaskRun option tx" where
  "tx2 = ClaimGraphTask (ext_render sample_ext) (ext_timestamptz sample_ext) (at 2) 100 1 minute (committed tx1)"
definition tx3 :: "unit tx" where
  "tx3 = SaveTaskSteps 100 (at 3) [''a'', ''b'', ''c''] 1 (2 * second)
     [blank_step 1 ''a'' ''read'', blank_step 1 ''b'' ''read'', sample_action] (committed tx2)"
definition tx4 :: "TaskStep option tx" where
  "tx4 = ClaimTaskStep 100 (at 4) 201 1 ''a'' minute (committed tx3)"
definition tx5 :: "TaskStep option tx" where
  "tx5 = ClaimTaskStep 100 (at 5) 202 1 ''b'' minute (committed tx4)"
definition tx6 :: "unit tx" where
  "tx6 = CompleteTaskStep 100 (at 6) 1 ''a'' 201 ''found'' (committed tx5)"

definition tx7 :: "unit tx" where
  "tx7 = CompleteTaskStep 100 (at 7) 1 ''b'' 202 ''found too'' (committed tx6)"
definition tx8 :: "TaskStep option tx" where
  "tx8 = ClaimTaskStep 100 (at 8) 203 1 ''c'' minute (committed tx7)"

definition sample_candidate :: json where
  "sample_candidate = JObj [(''candidate_ready'', JBool True), (''phase'', JStr ''verification''), (''output'', JStr ''draft'')]"
definition tx9 :: "unit tx" where
  "tx9 = CheckpointTaskStep 100 (at 9) 1 ''c'' 203 minute (Some sample_candidate) (committed tx8)"
definition tx10 :: "unit tx" where
  "tx10 = FailTaskStepAfter (ext_render sample_ext) 100 (at 10) 1 ''c'' 203 ''reviewer unavailable'' True 0 (committed tx9)"

lemma tx_commits: "commits tx1" "commits tx2" "commits tx3" "commits tx4" "commits tx5" "commits tx6"
  "commits tx7" "commits tx8" "commits tx9" "commits tx10"
  by code_simp+

abbreviation sample_db :: db where "sample_db \<equiv> committed tx8"

lemma step_tx:
  assumes "t \<le> n * second" and "task_op ext (at n) d d'"
  shows "system_step ext (t, d) (n * second, d')"
  by (rule transaction [of t "at n"]) (use assms in \<open>simp_all add: at_def mono_def\<close>)

lemma reach_tx:
  assumes "reachable_store ext t d" and "t \<le> n * second" and "task_op ext (at n) d d'"
  shows "reachable_store ext (n * second) d'"
  using assms(1)
  by (rule reach_step) (rule step_tx [OF assms(2,3)])

lemma sample_continues: "(system_step sample_ext)\<^sup>*\<^sup>* (8 * second, sample_db) (10 * second, committed tx10)"
proof -
  have "task_op sample_ext (at 9) sample_db (committed tx9)"
    using commits_Inr [OF tx_commits(9)] by (auto simp: tx9_def intro!: op_graph intro: op_checkpoint_step)
  then have 9: "system_step sample_ext (8 * second, sample_db) (9 * second, committed tx9)" by (intro step_tx) simp_all
  have "task_op sample_ext (at 10) (committed tx9) (committed tx10)"
    using commits_Inr [OF tx_commits(10)] by (auto simp: tx10_def intro!: op_graph intro: op_fail_step)
  then have "system_step sample_ext (9 * second, committed tx9) (10 * second, committed tx10)" by (intro step_tx) simp_all
  with 9 show ?thesis by (meson converse_rtranclp_into_rtranclp r_into_rtranclp)
qed

lemma sample_reachable:
  "reachable_store sample_ext (5 * second) (committed tx5)" "reachable_store sample_ext (8 * second) sample_db"
  "reachable_store sample_ext (10 * second) (committed tx10)"
proof -
  have 0: "reachable_store sample_ext 0 empty_db" by (rule reach_start) (simp add: initial_system_def)
  have "task_op sample_ext (at 1) empty_db (committed tx1)"
    using commits_Inr [OF tx_commits(1)] by (auto simp: tx1_def at_def intro: op_create)
  then have 1: "reachable_store sample_ext (1 * second) (committed tx1)" using reach_tx [OF 0, of 1] by simp
  have "task_op sample_ext (at 2) (committed tx1) (committed tx2)"
    using commits_Inr [OF tx_commits(2)] by (auto simp: tx2_def intro!: op_graph intro: op_claim_graph)
  then have 2: "reachable_store sample_ext (2 * second) (committed tx2)" using reach_tx [OF 1, of 2] by simp
  have "task_op sample_ext (at 3) (committed tx2) (committed tx3)"
    using commits_Inr [OF tx_commits(3)] by (auto simp: tx3_def intro!: op_graph intro: op_save_steps)
  then have 3: "reachable_store sample_ext (3 * second) (committed tx3)" using reach_tx [OF 2, of 3] by simp
  have "task_op sample_ext (at 4) (committed tx3) (committed tx4)"
    using commits_Inr [OF tx_commits(4)] by (auto simp: tx4_def intro!: op_graph intro: op_claim_step)
  then have 4: "reachable_store sample_ext (4 * second) (committed tx4)" using reach_tx [OF 3, of 4] by simp
  have "task_op sample_ext (at 5) (committed tx4) (committed tx5)"
    using commits_Inr [OF tx_commits(5)] by (auto simp: tx5_def intro!: op_graph intro: op_claim_step)
  then show 5: "reachable_store sample_ext (5 * second) (committed tx5)" using reach_tx [OF 4, of 5] by simp
  have "task_op sample_ext (at 6) (committed tx5) (committed tx6)"
    using commits_Inr [OF tx_commits(6)] by (auto simp: tx6_def intro!: op_graph intro: op_complete_step)
  then have 6: "reachable_store sample_ext (6 * second) (committed tx6)" using reach_tx [OF 5, of 6] by simp
  have "task_op sample_ext (at 7) (committed tx6) (committed tx7)"
    using commits_Inr [OF tx_commits(7)] by (auto simp: tx7_def intro!: op_graph intro: op_complete_step)
  then have 7: "reachable_store sample_ext (7 * second) (committed tx7)" using reach_tx [OF 6, of 7] by simp
  have "task_op sample_ext (at 8) (committed tx7) sample_db"
    using commits_Inr [OF tx_commits(8)] by (auto simp: tx8_def intro!: op_graph intro: op_claim_step)
  then show 8: "reachable_store sample_ext (8 * second) sample_db" using reach_tx [OF 7, of 8] by simp
  have "task_op sample_ext (at 9) sample_db (committed tx9)"
    using commits_Inr [OF tx_commits(9)] by (auto simp: tx9_def intro!: op_graph intro: op_checkpoint_step)
  then have 9: "reachable_store sample_ext (9 * second) (committed tx9)" using reach_tx [OF 8, of 9] by simp
  have "task_op sample_ext (at 10) (committed tx9) (committed tx10)"
    using commits_Inr [OF tx_commits(10)] by (auto simp: tx10_def intro!: op_graph intro: op_fail_step)
  then show "reachable_store sample_ext (10 * second) (committed tx10)" using reach_tx [OF 9, of 10] by simp
qed

end
