(* ===== verification/Execution_Theorems.thy ===== *)
theory Execution_Theorems
  imports Task_Sample
begin

text \<open>
  The properties of the durable execution graph: what holds in every reachable state of the store,
  and what each claim, write and takeover does.
\<close>

section \<open>Reachable states\<close>

text \<open>
  C1. Mutual exclusion. In every reachable state, while a step of a task is running, any other step of
  that task that is running or awaits reconciliation is, like it, a pure read: actions and
  finalization never overlap with anything.
\<close>

theorem exclusive_execution:
  assumes "reachable_store ext t d"
    and "s \<in> set (agent_task_steps d)" and "u \<in> set (agent_task_steps d)"
    and "s_TaskID u = s_TaskID s" and "s_ID u \<noteq> s_ID s"
    and "s_Status s = ''running''" and "s_Status u \<in> {''running'', ''reconciliation''}"
  shows "s_Kind s = ''read'' \<and> s_Kind u = ''read''"
  using reachable_store_inv(2) [OF assms(1)] assms(2-)
  by (auto simp: steps_inv_def exclusive_def busy_def)

theorem exclusive_execution_witness:
  "s_Kind (agent_task_steps (committed tx5) ! 0) = ''read'' \<and> s_Kind (agent_task_steps (committed tx5) ! 1) = ''read''"
proof (rule exclusive_execution [OF sample_reachable(1)])
  let ?rows = "agent_task_steps (committed tx5)"
  have "length ?rows = 3" by code_simp
  then show "?rows ! 0 \<in> set ?rows" "?rows ! 1 \<in> set ?rows" by simp_all
  show "s_TaskID (?rows ! 1) = s_TaskID (?rows ! 0)" "s_ID (?rows ! 1) \<noteq> s_ID (?rows ! 0)"
    "s_Status (?rows ! 0) = ''running''" "s_Status (?rows ! 1) \<in> {''running'', ''reconciliation''}"
    by code_simp+
qed

text \<open>
  C2. Dependencies gate execution. In every reachable state, a step that has ever been attempted,
  also one that waits for another attempt, has all its dependencies done, each with a result that is not blank.
\<close>

theorem attempted_after_dependencies:
  assumes "reachable_store ext t d" and "s \<in> set (agent_task_steps d)"
    and "0 < s_Attempts s \<or> s_Status s \<noteq> ''pending''" and "dep \<in> set (s_Dependencies s)"
  shows "\<exists>p \<in> set (agent_task_steps d). s_TaskID p = s_TaskID s \<and> s_ID p = dep \<and> s_Status p = ''done'' \<and>
    btrim (s_Result p) \<noteq> []"
proof -
  have inv: "steps_inv (ext_render ext) (agent_task_steps d)" by (rule reachable_store_inv(2) [OF assms(1)])
  then have wf: "step_wf (ext_render ext) p" if "p \<in> set (agent_task_steps d)" for p
    using that by (simp add: steps_inv_def)
  have "0 < s_Attempts s" using wf [OF assms(2)] assms(3) by (auto simp: step_wf_def)
  then obtain p where "p \<in> set (agent_task_steps d)" "s_TaskID p = s_TaskID s" "s_ID p = dep" "s_Status p = ''done''"
    using inv assms(2,4) unfolding steps_inv_def deps_done_def step_done_def by blast
  then show ?thesis using wf by (auto simp: step_wf_def)
qed

theorem attempted_after_dependencies_witness:
  "\<exists>p \<in> set (agent_task_steps (committed tx10)). s_TaskID p = s_TaskID (agent_task_steps (committed tx10) ! 2) \<and>
     s_ID p = ''a'' \<and> s_Status p = ''done'' \<and> btrim (s_Result p) \<noteq> []"
proof (rule attempted_after_dependencies [OF sample_reachable(3)])
  let ?rows = "agent_task_steps (committed tx10)"
  have "length ?rows = 3" by code_simp
  then show "?rows ! 2 \<in> set ?rows" by simp
  show "0 < s_Attempts (?rows ! 2) \<or> s_Status (?rows ! 2) \<noteq> ''pending''" "''a'' \<in> set (s_Dependencies (?rows ! 2))" by code_simp+
qed

text \<open>
  C3. No blind replay. In every reachable state, a step with possible external effects (anything but a
  read and a finalize step without tools) that waits for another attempt has a saved candidate, so the
  next attempt resumes verification and does not run the tools again.
\<close>

theorem no_blind_replay:
  assumes "reachable_store ext t d" and "s \<in> set (agent_task_steps d)"
    and "s_Status s = ''pending''" and "0 < s_Attempts s"
    and "s_Kind s \<noteq> ''read''" and "\<not> (s_Kind s = ''finalize'' \<and> s_Tools s = [])"
  shows "candidate_saved (ext_render ext) (s_Checkpoint s)"
  using reachable_store_inv(2) [OF assms(1)] assms(2-)
  by (auto simp: steps_inv_def step_wf_def stepNeedsReconciliation_def)

theorem no_blind_replay_witness:
  "candidate_saved (ext_render sample_ext) (s_Checkpoint (agent_task_steps (committed tx10) ! 2))"
proof (rule no_blind_replay [OF sample_reachable(3)])
  let ?rows = "agent_task_steps (committed tx10)"
  have "length ?rows = 3" by code_simp
  then show "?rows ! 2 \<in> set ?rows" by simp
  show "s_Status (?rows ! 2) = ''pending''" "0 < s_Attempts (?rows ! 2)" "s_Kind (?rows ! 2) \<noteq> ''read''"
    "\<not> (s_Kind (?rows ! 2) = ''finalize'' \<and> s_Tools (?rows ! 2) = [])"
    by code_simp+
qed

text \<open>
  C6. Attempt budgets and row shape. In every reachable state a step has used between 0 and
  \<open>max_attempts\<close> attempts, of at most 10; it holds a lease exactly while it runs; and a done step has a
  result that is not blank.
\<close>

theorem step_row_shape:
  assumes "reachable_store ext t d" and "s \<in> set (agent_task_steps d)"
  shows "0 \<le> s_Attempts s \<and> s_Attempts s \<le> s_MaxAttempts s \<and> s_MaxAttempts s \<le> 10 \<and>
    (s_Status s = ''running'' \<longleftrightarrow> s_LeaseUntil s \<noteq> None) \<and>
    (s_Status s = ''running'' \<longrightarrow> s_RunID s \<noteq> None) \<and>
    (s_Status s = ''done'' \<longrightarrow> btrim (s_Result s) \<noteq> [])"
  using reachable_store_inv(2) [OF assms(1)] assms(2)
  by (simp add: steps_inv_def step_wf_def step_checks_def)

theorem step_row_shape_witness:
  "0 \<le> s_Attempts (agent_task_steps sample_db ! 2) \<and>
   s_Attempts (agent_task_steps sample_db ! 2) \<le> s_MaxAttempts (agent_task_steps sample_db ! 2) \<and>
   s_MaxAttempts (agent_task_steps sample_db ! 2) \<le> 10"
proof -
  have "length (agent_task_steps sample_db) = 3" by code_simp
  then have "agent_task_steps sample_db ! 2 \<in> set (agent_task_steps sample_db)" by simp
  from step_row_shape [OF sample_reachable(2) this] show ?thesis by simp
qed

text \<open>
  C4. Admission. In every reachable state no owner holds more than two live coordinator leases, even
  though leases expire, are renewed and are taken over by other processes in between.
\<close>

theorem owner_lease_limit:
  assumes "reachable_store ext t d"
  shows "length (owner_leases d t user) \<le> MaxConcurrentGraphTasksPerUser"
  using card_leased [OF reachable_store_inv(1) [OF assms], of "\<lambda>_. True" t user]
    reachable_store_inv(5) [OF assms, of user]
  by (simp add: MaxConcurrentGraphTasksPerUser_def case_prod_beta)

theorem owner_lease_limit_witness:
  "length (owner_leases sample_db (8 * second) 7) \<le> MaxConcurrentGraphTasksPerUser \<and>
   length (owner_leases sample_db (8 * second) 7) = 1"
proof
  show "length (owner_leases sample_db (8 * second) 7) \<le> MaxConcurrentGraphTasksPerUser"
    by (rule owner_lease_limit [OF sample_reachable(2)])
  show "length (owner_leases sample_db (8 * second) 7) = 1" by code_simp
qed

section \<open>Done is final\<close>

lemma done_kept_update:
  assumes "s \<in> set rows" "s_Status s = ''done''"
    and "\<And>r. r \<in> set rows \<Longrightarrow> p r \<Longrightarrow> step_move r (f r)"
  shows "s \<in> set (update_where p f rows)"
  using assms(1,2) assms(3) [of s] by (cases "p s") (auto simp: set_update_where step_move_def image_iff)

lemma done_kept_claimed:
  assumes "update_claimed (live_claim now i sid srun) f d = Inr (u, d')" and "s \<in> set (agent_task_steps d)"
    and "s_Status s = ''done''"
  shows "s \<in> set (agent_task_steps d')"
  using assms by (auto simp: update_claimed_def set_update_where live_claim_def split: if_splits)

lemma done_kept_inserts:
  "foldM (insert_step now i) steps rows = Inr rows' \<Longrightarrow> s \<in> set rows \<Longrightarrow> s \<in> set rows'"
  by (rule foldM_Inr_invariant [of "insert_step now i" steps rows rows' "\<lambda>rs. s \<in> set rs"])
    (auto simp: insert_step_Inr)

lemma ClaimGraphTask_done:
  assumes "ClaimGraphTask render pg clk new i lease d = Inr (r, d')" and "s \<in> set (agent_task_steps d)"
    and "s_Status s = ''done''"
  shows "s \<in> set (agent_task_steps d')"
proof (cases r)
  case None
  then show ?thesis using ClaimGraphTask_NoneD assms by blast
next
  case (Some run)
  show ?thesis
    by (rule ClaimGraphTask_SomeD [OF assms(1) [unfolded Some]]) (use assms(2,3) in \<open>auto simp: set_update_where\<close>)
qed

lemma graph_op_done:
  assumes "graph_op ext clk d d'" and "s \<in> set (agent_task_steps d)" and "s_Status s = ''done''"
  shows "s \<in> set (agent_task_steps d')"
  using assms(1)
proof cases
  case op_save_steps
  then show ?thesis using assms(2) done_kept_inserts by (fastforce simp: SaveTaskSteps_def split: sum.splits)
next
  case op_claim_step
  then show ?thesis using assms(2,3)
    by (auto simp: ClaimTaskStep_def Let_def set_update_where claimable_def split: if_splits sum.splits option.splits)
next
  case (op_checkpoint_step run i sid srun lease cp u)
  then have "update_claimed (live_claim (clk 3) i sid srun) (checkpointed_row (clk 3) cp lease) d = Inr (u, d')"
    by (simp add: CheckpointTaskStep_def updateTaskStep_def split: sum.splits if_splits)
  then show ?thesis using assms(2,3) by (rule done_kept_claimed)
next
  case (op_complete_step run i sid srun result u)
  then have "update_claimed (live_claim (clk 3) i sid srun) (completed_row (clk 3) result) d = Inr (u, d')"
    by (simp add: CompleteTaskStep_def updateTaskStep_def split: sum.splits if_splits)
  then show ?thesis using assms(2,3) by (rule done_kept_claimed)
next
  case (op_fail_step run i sid srun reason retry delay u)
  then have "update_claimed (live_claim (clk 3) i sid srun)
      (failed_row (ext_render ext) (clk 3) reason retry (max 0 (milliseconds delay))) d = Inr (u, d')"
    by (simp add: FailTaskStepAfter_def split: sum.splits)
  then show ?thesis using assms(2,3) by (rule done_kept_claimed)
next
  case op_recover_steps
  then show ?thesis using assms(2,3) by (auto simp: RecoverTaskSteps_def set_update_where split: sum.splits)
next
  case op_resolve_stuck
  then show ?thesis using assms(2,3) by (auto simp: ResolveStuckTaskSteps_def set_update_where stuck_def split: sum.splits)
next
  case (op_claim_graph new i lease r)
  then show ?thesis using assms(2,3) by (rule ClaimGraphTask_done)
next
  case op_renew_graph then show ?thesis using assms(2) by (auto dest!: RenewGraphTask_Inr)
next
  case op_yield_graph then show ?thesis using assms(2) by (auto dest!: YieldGraphTask_Inr)
qed

lemma task_op_done:
  assumes "task_op ext clk d d'" and "keys_ok d" and "graph_shape d"
    and "s \<in> set (agent_task_steps d)" and "s_Status s = ''done''"
  shows "s \<in> set (agent_task_steps d')"
  using task_op_frame [OF assms(1-3)] graph_op_done assms(4,5) by (auto simp: framed_def grown_def)

lemma done_kept_run:
  assumes "(system_step ext)\<^sup>*\<^sup>* x y" and "store_inv ext x"
    and "s \<in> set (agent_task_steps (snd x))" and "s_Status s = ''done''"
  shows "s \<in> set (agent_task_steps (snd y))"
  using assms
proof (induction rule: rtranclp_induct)
  case (step y z)
  have "store_inv ext y" using task_system.run_inv [OF step.hyps(1)] step.prems(1) .
  then show ?case
    using step.hyps(2) step.IH step.prems by (auto elim!: system_stepE dest: task_op_done simp: store_inv_def)
qed

text \<open>
  C5. Done is final. Once a step is done, its row (result included) is still there unchanged after any
  further sequence of operations of the store, whoever performs them.
\<close>

theorem done_is_final:
  assumes "reachable_store ext t d" and "(system_step ext)\<^sup>*\<^sup>* (t, d) (t', d')"
    and "s \<in> set (agent_task_steps d)" and "s_Status s = ''done''"
  shows "s \<in> set (agent_task_steps d')"
  using done_kept_run [OF assms(2) task_system.reachable_inv [OF assms(1)]] assms(3,4) by simp

theorem done_is_final_witness:
  "agent_task_steps sample_db ! 0 \<in> set (agent_task_steps (committed tx10))"
proof (rule done_is_final [OF sample_reachable(2) sample_continues])
  have "length (agent_task_steps sample_db) = 3" by code_simp
  then show "agent_task_steps sample_db ! 0 \<in> set (agent_task_steps sample_db)" by simp
  show "s_Status (agent_task_steps sample_db ! 0) = ''done''" by code_simp
qed

section \<open>Claims and writes\<close>

lemma ClaimTaskStep_SomeD:
  assumes "ClaimTaskStep run clk new i sid lease d = Inr (Some s, d')"
  obtains s0 where "lease_ok lease" "lockTaskExecution run clk i None True d = Inr ()" "s0 \<in> set (agent_task_steps d)"
    "claimable (clk 3) i sid (agent_task_steps d) s0" "s = claimed new (clk 3) lease s0"
    "d' = d\<lparr>agent_task_steps := update_where (claimable (clk 3) i sid (agent_task_steps d))
       (claimed new (clk 3) lease) (agent_task_steps d)\<rparr>"
proof -
  let ?p = "claimable (clk 3) i sid (agent_task_steps d)"
  have ok: "lease_ok lease" using assms by (auto simp: ClaimTaskStep_def split: if_splits)
  moreover have lock: "lockTaskExecution run clk i None True d = Inr ()"
    using assms ok by (auto simp: ClaimTaskStep_def split: sum.splits)
  ultimately obtain s0 where s0: "List.find ?p (agent_task_steps d) = Some s0"
    using assms by (cases "List.find ?p (agent_task_steps d)") (auto simp: ClaimTaskStep_def Let_def)
  then show thesis using that ok lock assms find_SomeD [OF s0] by (auto simp: ClaimTaskStep_def Let_def)
qed

text \<open>
  What a successful claim does: the worker gets the one pending row with that id, now running
  under the fresh run id, one more attempt used and a lease of the requested whole milliseconds; it is
  the row stored in the database, all its dependencies are done, and no other row changes.
\<close>

theorem ClaimTaskStep_spec:
  assumes "ClaimTaskStep run clk new i sid lease d = Inr (Some s, d')"
    and "distinct (map step_key (agent_task_steps d))"
  shows "\<exists>s0 \<in> set (agent_task_steps d). find_step d i sid = Some s0 \<and> s_Status s0 = ''pending'' \<and>
    find_step d' i sid = Some s \<and> s_Status s = ''running'' \<and> s_RunID s = Some new \<and>
    s_Attempts s = s_Attempts s0 + 1 \<and> s_Attempts s \<le> s_MaxAttempts s \<and>
    s_LeaseUntil s = Some (clk 3 + milliseconds lease * millisecond) \<and>
    (\<forall>dep \<in> set (s_Dependencies s). step_done (agent_task_steps d) i dep) \<and>
    (\<forall>j x. (j, x) \<noteq> (i, sid) \<longrightarrow> find_step d' j x = find_step d j x)"
proof (rule ClaimTaskStep_SomeD [OF assms(1)])
  let ?rows = "agent_task_steps d"
  let ?p = "claimable (clk 3) i sid ?rows" and ?f = "claimed new (clk 3) lease"
  fix s0 assume s0: "s0 \<in> set ?rows" "?p s0" "s = ?f s0"
    and d': "d' = d\<lparr>agent_task_steps := update_where ?p ?f ?rows\<rparr>"
  have key: "step_key s0 = (i, sid)" using s0(2) by (simp add: claimable_def)
  have look: "step_rows.lookup (i, sid) ?rows = Some s0"
    using step_rows.lookup_unique [OF assms(2) s0(1)] key by simp
  have upd: "find_step d' j x = map_option (\<lambda>r. if ?p r then ?f r else r) (find_step d j x)" for j x
    by (simp add: find_step_lookup d' step_rows.lookup_update)
  have "find_step d' j x = find_step d j x" if "(j, x) \<noteq> (i, sid)" for j x
  proof (cases "find_step d j x")
    case (Some r)
    with find_step_SomeD [OF Some] that have "\<not> ?p r" by (auto simp: claimable_def)
    with Some show ?thesis by (simp add: upd)
  qed (simp add: upd)
  moreover have "find_step d i sid = Some s0" "find_step d' i sid = Some s"
  proof -
    show "find_step d i sid = Some s0" using look by (simp add: find_step_lookup)
    then show "find_step d' i sid = Some s" using s0 by (simp add: upd)
  qed
  moreover have "s_Status s0 = ''pending''" "s_Attempts s0 < s_MaxAttempts s0"
    "\<forall>dep \<in> set (s_Dependencies s0). step_done ?rows i dep"
    using s0(2) by (auto simp: claimable_def step_done_def)
  ultimately show ?thesis using s0(1) by (auto simp: s0(3) claimed_def lease_end_def)
qed

theorem ClaimTaskStep_spec_witness:
  "\<exists>s0 \<in> set (agent_task_steps (committed tx7)). find_step (committed tx7) 1 ''c'' = Some s0 \<and> s_Status s0 = ''pending''"
proof -
  obtain v where tx8: "tx8 = Inr (v, committed tx8)" using commits_Inr [OF tx_commits(8)] by blast
  have "(case tx8 of Inl _ \<Rightarrow> False | Inr (v, _) \<Rightarrow> v \<noteq> None)" by code_simp
  then have "v \<noteq> None" by (subst (asm) tx8) simp
  then obtain s where "tx8 = Inr (Some s, committed tx8)" using tx8 by auto
  then have "ClaimTaskStep 100 (at 8) 203 1 ''c'' minute (committed tx7) = Inr (Some s, committed tx8)"
    by (simp only: tx8_def)
  moreover have "distinct (map step_key (agent_task_steps (committed tx7)))" by code_simp
  ultimately show ?thesis using ClaimTaskStep_spec [of 100 "at 8" 203 1 "''c''" minute "committed tx7" s "committed tx8"] by blast
qed

text \<open>
  C7. The step fence. A worker whose run id is not the one of the row, whose row is not running any
  more, or whose lease has passed writes nothing: checkpointing with a permitted lease (an expired claim cannot revive
  itself), completing with a result that is not blank and failing all report a lost claim.
\<close>

theorem lost_claim_writes_nothing:
  assumes "\<And>s. s \<in> set (agent_task_steps d) \<Longrightarrow> s_TaskID s = i \<Longrightarrow> s_ID s = sid \<Longrightarrow>
      s_RunID s \<noteq> Some srun \<or> s_Status s \<noteq> ''running'' \<or> (\<forall>l. s_LeaseUntil s = Some l \<longrightarrow> l \<le> clk 3)"
    and "lease_ok lease" and "trim_space result \<noteq> []"
  shows "CheckpointTaskStep run clk i sid srun lease cp d = Inl ErrTaskClaimLost \<and>
    CompleteTaskStep run clk i sid srun result d = Inl ErrTaskClaimLost \<and>
    FailTaskStepAfter render run clk i sid srun reason retry delay d = Inl ErrTaskClaimLost"
proof -
  have "\<not> (\<exists>s \<in> set (agent_task_steps d). live_claim (clk 3) i sid srun s)"
    using assms(1) by (fastforce simp: live_claim_def split: option.splits)
  then have none: "rows_affected (live_claim (clk 3) i sid srun) (agent_task_steps d) = 0"
    using rows_affected_pos [of "live_claim (clk 3) i sid srun" "agent_task_steps d"] by simp
  have "updateTaskStep run clk i sid srun complete res cp lease' d = Inl ErrTaskClaimLost" for complete res cp lease'
    using none by (auto simp: updateTaskStep_def update_claimed_def dest: lockTaskExecution_Inl split: sum.splits)
  moreover have "FailTaskStepAfter render run clk i sid srun reason retry delay d = Inl ErrTaskClaimLost"
    using none by (auto simp: FailTaskStepAfter_def update_claimed_def dest: lockTaskExecution_Inl split: sum.splits)
  ultimately show ?thesis using assms(2,3) by (simp add: CheckpointTaskStep_def CompleteTaskStep_def)
qed

theorem lost_claim_writes_nothing_witness:
  "CompleteTaskStep 100 (at 70) 1 ''c'' 203 ''late'' sample_db = Inl ErrTaskClaimLost"
proof -
  have late: "list_all (\<lambda>s. case s_LeaseUntil s of None \<Rightarrow> True | Some l \<Rightarrow> l \<le> at 70 3) (agent_task_steps sample_db)" by code_simp
  have "\<forall>l. s_LeaseUntil s = Some l \<longrightarrow> l \<le> at 70 3" if "s \<in> set (agent_task_steps sample_db)" for s
    using late that by (auto simp: list_all_iff split: option.splits)
  moreover have "lease_ok minute" "trim_space ''late'' \<noteq> []" by code_simp+
  ultimately show ?thesis using lost_claim_writes_nothing [of sample_db 1 "''c''" 203 "at 70" minute "''late''"] by blast
qed

lemma lock_needs_run:
  assumes "find_task d i = Some task" "t_ExecutorVersion task = 2"
    and "\<And>r. r \<in> set (agent_task_runs d) \<Longrightarrow> r_TaskID r = i \<Longrightarrow> r_RunID r = run \<Longrightarrow> r_LeaseUntil r \<le> clk 2"
  shows "lockTaskExecution run clk i claim deadline d = Inl ErrTaskClaimLost"
  using assms by (fastforce simp: lockTaskExecution_def requireTaskRun_def)

text \<open>
  C8. The coordinator fence. Once another coordinator holds a graph task, or the lease has passed,
  every mutation the old run id attempts on it (planning, claiming, checkpointing, completing, failing,
  recovering or resolving steps, renewing, yielding, saving progress, finalizing) with arguments that pass their own
  checks reports a lost claim. Cancelling and
  expiring a task need no lease, and of a finished task no finalization changes anything.
\<close>

theorem stale_coordinator_fenced:
  assumes "find_task d i = Some task" and "t_ExecutorVersion task = 2"
    and "\<And>r. r \<in> set (agent_task_runs d) \<Longrightarrow> r_TaskID r = i \<Longrightarrow> r_RunID r = run \<Longrightarrow> r_LeaseUntil r \<le> now"
    and "now \<le> clk 1" and "now \<le> clk 2"
    and "lease_ok lease" and "trim_space result \<noteq> []" and "ValidateTaskSteps order steps = Inr ()"
    and "fin_Outcome fin \<in> {''completed'', ''partial'', ''blocked''}" and "fin_ExpiredAt fin = None"
  shows "SaveTaskSteps run clk order i claim steps d = Inl ErrTaskClaimLost \<and>
    ClaimTaskStep run clk new i sid lease d = Inl ErrTaskClaimLost \<and>
    CheckpointTaskStep run clk i sid srun lease cp d = Inl ErrTaskClaimLost \<and>
    CompleteTaskStep run clk i sid srun result d = Inl ErrTaskClaimLost \<and>
    FailTaskStepAfter render run clk i sid srun reason retry delay d = Inl ErrTaskClaimLost \<and>
    RecoverTaskSteps render run clk i d = Inl ErrTaskClaimLost \<and>
    ResolveStuckTaskSteps render run clk i d = Inl ErrTaskClaimLost \<and>
    RenewGraphTask run clk i lease d = Inl ErrTaskClaimLost \<and>
    YieldGraphTask isot run clk i nxt d = Inl ErrTaskClaimLost \<and>
    SaveGraphProgress run clk i progress d = Inl ErrTaskClaimLost \<and>
    FinalizeTask digest sprintf render coll run clk new i fin d = (if unfinished task then Inl ErrTaskClaimLost else Inr (None, d))"
proof -
  have lease: "r_LeaseUntil r \<le> clk 1 \<and> r_LeaseUntil r \<le> clk 2"
    if "r \<in> set (agent_task_runs d)" "r_TaskID r = i" "r_RunID r = run" for r
    using assms(3) [OF that] assms(4,5) by simp
  have "lockTaskExecution run clk i claim' deadline d = Inl ErrTaskClaimLost" for claim' deadline
    by (rule lock_needs_run [OF assms(1,2)]) (use lease in simp)
  moreover have "requireTaskRun run (clk 1) i d = Inl ErrTaskClaimLost" using lease by (fastforce simp: requireTaskRun_def)
  ultimately show ?thesis using assms(1,2,6-10)
    by (auto simp: FinalizeTask_def finalizeTaskTx_def SaveTaskSteps_def ClaimTaskStep_def CheckpointTaskStep_def CompleteTaskStep_def updateTaskStep_def
      FailTaskStepAfter_def RecoverTaskSteps_def ResolveStuckTaskSteps_def RenewGraphTask_def YieldGraphTask_def
      SaveGraphProgress_def)
qed

theorem stale_coordinator_fenced_witness:
  "RenewGraphTask 100 (at 70) 1 minute sample_db = Inl ErrTaskClaimLost \<and>
   FinalizeTask (\<lambda>s. s) (\<lambda>_ _ b _. b) (\<lambda>_. []) (\<lambda>s. s) 100 (at 70) 300 1 (blank_finalization ''partial'') sample_db = Inl ErrTaskClaimLost"
proof -
  have "(case find_task sample_db 1 of None \<Rightarrow> False | Some t \<Rightarrow> t_ExecutorVersion t = 2 \<and> unfinished t)" by code_simp
  then obtain task where task: "find_task sample_db 1 = Some task" "t_ExecutorVersion task = 2" "unfinished task"
    by (cases "find_task sample_db 1") auto
  have "list_all (\<lambda>r. r_LeaseUntil r \<le> 70 * second) (agent_task_runs sample_db)" by code_simp
  then have late: "r_LeaseUntil r \<le> 70 * second" if "r \<in> set (agent_task_runs sample_db)" for r
    using that by (simp add: list_all_iff)
  have ok: "lease_ok minute" "trim_space ''x'' \<noteq> []" "ValidateTaskSteps [''a''] [blank_step 1 ''a'' ''read''] = Inr ()"
    "fin_Outcome (blank_finalization ''partial'') \<in> {''completed'', ''partial'', ''blocked''}"
    "fin_ExpiredAt (blank_finalization ''partial'') = None" "70 * second \<le> at 70 1" "70 * second \<le> at 70 2"
    by (simp_all add: blank_finalization_def at_def) code_simp+
  show ?thesis
    using stale_coordinator_fenced [OF task(1,2) late ok(6,7,1-5), where run = 100 and render = "\<lambda>_. []" and new = 300 and
        digest = "\<lambda>s. s" and sprintf = "\<lambda>_ _ b _. b" and coll = "\<lambda>s. s"] task(3)
    by simp
qed

text \<open>
  Takeover. A successful \<open>ClaimGraphTask\<close> leaves no step of the task running: each step that ran
  under the lost coordinator is fenced for reconciliation if its effect may be unknown, blocked if its
  attempts are used up, and pending otherwise. The new run holds a live lease and any other run id is
  refused from then on.
\<close>

theorem takeover_fences_steps:
  assumes "ClaimGraphTask render pg clk new i lease d = Inr (Some r, d')" and "keys_ok d"
  shows "(\<forall>s \<in> set (agent_task_steps d). s_TaskID s = i \<and> s_Status s = ''running'' \<longrightarrow>
      (\<exists>s' \<in> set (agent_task_steps d'). step_key s' = step_key s \<and> s_LeaseUntil s' = None \<and>
        s_Status s' = (if stepNeedsReconciliation render s then ''reconciliation''
          else if s_Attempts s \<ge> s_MaxAttempts s then ''blocked'' else ''pending''))) \<and>
    (\<forall>s' \<in> set (agent_task_steps d'). s_TaskID s' = i \<longrightarrow> s_Status s' \<noteq> ''running'') \<and>
    r_RunID r = new \<and> clk 3 < r_LeaseUntil r \<and>
    (\<forall>run now. run \<noteq> new \<longrightarrow> requireTaskRun run now i d' = Inl ErrTaskClaimLost)"
proof (rule ClaimGraphTask_SomeD [OF assms(1)])
  fix task runs
  let ?p = "\<lambda>s. s_TaskID s = i \<and> s_Status s = ''running''"
  assume ok: "lease_ok lease" and up: "upsert_run clk new i lease (agent_task_runs d) = Some (r, runs)"
    and d': "d' = d\<lparr>agent_task_runs := runs,
        agent_tasks := update_where (\<lambda>t. t_ID t = i) (admitted_task (clk 4)) (agent_tasks d),
        agent_task_steps := update_where ?p (fenced_row render) (agent_task_steps d)\<rparr>"
  note runs = upsert_run_Some [OF up]
  have lease: "clk 3 < r_LeaseUntil r"
    using ok runs by (simp add: lease_ok_def lease_end_def milliseconds_def pos_imp_zdiv_pos_iff)
  have "x = r" if "x \<in> set runs" "r_TaskID x = i" for x
    using run_rows.same_key_same_row [of runs x r] runs that assms(2) by (simp add: keys_ok_def)
  then have others: "requireTaskRun run now i d' = Inl ErrTaskClaimLost" if "run \<noteq> new" for run now
    using that runs by (auto simp: requireTaskRun_def d')
  have keep: "s_TaskID (fenced_row render s) = s_TaskID s" "s_Status (fenced_row render s) \<noteq> ''running''" for s
    by (simp_all add: fenced_row_def recovered_def)
  have stopped: "s_Status s' \<noteq> ''running''" if "s' \<in> set (agent_task_steps d')" "s_TaskID s' = i" for s'
  proof -
    have "s' \<in> (\<lambda>s. if ?p s then fenced_row render s else s) ` set (agent_task_steps d)"
      using that(1) by (simp add: d' update_where_def)
    then obtain s where "s' = (if ?p s then fenced_row render s else s)" by blast
    then show ?thesis using that(2) keep by metis
  qed
  have fenced: "\<exists>s' \<in> set (agent_task_steps d'). step_key s' = step_key s \<and> s_LeaseUntil s' = None \<and>
        s_Status s' = (if stepNeedsReconciliation render s then ''reconciliation''
          else if s_Attempts s \<ge> s_MaxAttempts s then ''blocked'' else ''pending'')"
    if "s \<in> set (agent_task_steps d)" "?p s" for s
  proof (rule bexI [of _ "fenced_row render s"])
    show "fenced_row render s \<in> set (agent_task_steps d')" using that by (auto simp: d' set_update_where)
  qed (simp add: fenced_row_def recovered_def)
  show ?thesis
  proof (intro conjI ballI allI impI)
    show "r_RunID r = new" using runs by simp
  qed (use fenced stopped others lease in simp_all)
qed

theorem takeover_fences_steps_witness:
  "(case ClaimGraphTask (ext_render sample_ext) (\<lambda>_. None) (at 90) 101 1 minute sample_db of
      Inr (Some r, d') \<Rightarrow> r_RunID r = 101 \<and> filter (\<lambda>s'. s_TaskID s' = 1 \<and> s_Status s' = ''running'') (agent_task_steps d') = []
    | _ \<Rightarrow> False)"
proof -
  let ?tx = "ClaimGraphTask (ext_render sample_ext) (\<lambda>_. None) (at 90) 101 1 minute sample_db"
  have "(case ?tx of Inr (Some r, d') \<Rightarrow> True | _ \<Rightarrow> False)" by code_simp
  then obtain r d' where tx: "?tx = Inr (Some r, d')"
    by (cases ?tx) (auto split: option.splits prod.splits)
  have "keys_ok sample_db" by code_simp
  from takeover_fences_steps [OF tx this]
  have "r_RunID r = 101" "\<forall>s' \<in> set (agent_task_steps d'). s_TaskID s' = 1 \<longrightarrow> s_Status s' \<noteq> ''running''" by blast+
  then show ?thesis unfolding tx sum.case prod.case option.case by (simp add: filter_empty_conv)
qed

end
