(* ===== verification/Dispatch_Theorems.thy ===== *)
theory Dispatch_Theorems
  imports Task_Sample
begin

text \<open>
  Planning, dispatch and deadlines: a validated plan is stored, the dispatcher respects the limit of
  each owner, and what the wall-clock limits guarantee.
\<close>

section \<open>Plans are stored\<close>

lemma step_checks_new_step: "step_fields_ok s \<Longrightarrow> step_checks (new_step now i s)"
  by (auto simp: step_fields_ok_def step_checks_def new_step_def trim_space_btrim)

lemma insert_steps:
  assumes "\<forall>s \<in> set steps. step_fields_ok s \<and> (i, s_ID s) \<notin> step_key ` set rows" and "distinct (map s_ID steps)"
  shows "foldM (insert_step now i) steps rows = Inr (rows @ map (new_step now i) steps)"
  using assms
proof (induction steps arbitrary: rows)
  case (Cons s steps)
  have "insert_step now i s rows = Inr (rows @ [new_step now i s])"
    using Cons.prems by (simp add: insert_step_Inr step_checks_new_step)
  moreover have "(i, s_ID t) \<notin> step_key ` set (rows @ [new_step now i s])" if "t \<in> set steps" for t
    using Cons.prems that by (auto simp: new_step_def image_iff)
  ultimately show ?case using Cons.IH [of "rows @ [new_step now i s]"] Cons.prems by simp
qed simp

text \<open>
  An accepted plan is always stored: once \<open>ValidateTaskSteps\<close> passes under the current claim and
  no step id is taken, every insert satisfies the CHECK constraints of the table, and the rows are the
  planned steps, pending, unattempted and with an attempt budget of 1 to 10.
\<close>

theorem SaveTaskSteps_stores_plan:
  assumes "ValidateTaskSteps order steps = Inr ()"
    and "lockTaskExecution run clk i (Some claim) False d = Inr ()"
    and "\<forall>s \<in> set steps. (i, s_ID s) \<notin> step_key ` set (agent_task_steps d)"
  shows "SaveTaskSteps run clk order i claim steps d =
    Inr ((), d\<lparr>agent_task_steps := agent_task_steps d @ map (new_step (clk 0) i) steps\<rparr>) \<and>
    (\<forall>s \<in> set steps. step_checks (new_step (clk 0) i s) \<and> s_Status (new_step (clk 0) i s) = ''pending'' \<and>
      s_Attempts (new_step (clk 0) i s) = 0 \<and> s_ID (new_step (clk 0) i s) = s_ID s \<and>
      s_Dependencies (new_step (clk 0) i s) = s_Dependencies s)"
proof -
  have fields: "\<forall>s \<in> set steps. step_fields_ok s" and ids: "distinct (map s_ID steps)"
    using assms(1) by (auto simp: ValidateTaskSteps_Inr index_steps_Inr)
  then have "foldM (insert_step (clk 0) i) steps (agent_task_steps d) =
      Inr (agent_task_steps d @ map (new_step (clk 0) i) steps)"
    using assms(3) by (intro insert_steps) auto
  then show ?thesis
    using assms(1,2) fields by (simp add: SaveTaskSteps_def step_checks_new_step) (simp add: new_step_def)
qed

theorem SaveTaskSteps_stores_plan_witness:
  "SaveTaskSteps 100 (at 3) [''a''] 1 (2 * second) [blank_step 1 ''a'' ''read''] (committed tx2) =
   Inr ((), (committed tx2)\<lparr>agent_task_steps := agent_task_steps (committed tx2) @
     map (new_step (at 3 0) 1) [blank_step 1 ''a'' ''read'']\<rparr>)"
proof -
  have "ValidateTaskSteps [''a''] [blank_step 1 ''a'' ''read''] = Inr ()"
    "lockTaskExecution 100 (at 3) 1 (Some (2 * second)) False (committed tx2) = Inr ()"
    "\<forall>s \<in> set [blank_step 1 ''a'' ''read'']. (1, s_ID s) \<notin> step_key ` set (agent_task_steps (committed tx2))"
    by code_simp+
  from SaveTaskSteps_stores_plan [OF this] show ?thesis by blast
qed

section \<open>Dispatch\<close>

lemma dispatch_before_irrefl: "\<not> dispatch_before t t"
  by (simp add: dispatch_before_def split: option.splits)

lemma dispatch_before_trans: "dispatch_before a b \<Longrightarrow> dispatch_before b c \<Longrightarrow> dispatch_before a c"
  by (auto simp: dispatch_before_def Let_def split: option.splits)

lemma dispatch_before_total: "t_ID a \<noteq> t_ID b \<Longrightarrow> dispatch_before a b \<or> dispatch_before b a"
  by (auto simp: dispatch_before_def Let_def split: option.splits)

text \<open>The rank of a task in its owner's queue, apart from the live leases.\<close>

definition owner_rank :: "(AgentTask \<Rightarrow> gotime option) \<Rightarrow> gotime \<Rightarrow> db \<Rightarrow> AgentTask \<Rightarrow> nat" where
  "owner_rank start_at now d t = card {u \<in> set (agent_tasks d). dispatchable start_at now d u \<and>
     t_UserID u = t_UserID t \<and> dispatch_before u t}"

lemma owner_load_rank:
  assumes "keys_ok d"
  shows "owner_load start_at now d t = 1 + owner_rank start_at now d t + length (owner_leases d now (t_UserID t))"
proof -
  have "distinct (agent_tasks d)" using assms by (auto simp: keys_ok_def distinct_map)
  then have "length (filter P (agent_tasks d)) = card {u \<in> set (agent_tasks d). P u}" for P
    by (metis distinct_card distinct_filter set_filter)
  then show ?thesis by (simp add: owner_load_def owner_rank_def)
qed

lemma owner_rank_less:
  assumes "dispatch_before u t" "t_UserID u = t_UserID t" "u \<in> set (agent_tasks d)" "dispatchable start_at now d u"
  shows "owner_rank start_at now d u < owner_rank start_at now d t"
  unfolding owner_rank_def
proof (rule psubset_card_mono)
  let ?B = "\<lambda>t. {u \<in> set (agent_tasks d). dispatchable start_at now d u \<and> t_UserID u = t_UserID t \<and> dispatch_before u t}"
  have "?B u \<subseteq> ?B t" using assms dispatch_before_trans by auto
  moreover have "u \<in> ?B t - ?B u" using assms dispatch_before_irrefl by auto
  ultimately show "?B u \<subset> ?B t" by blast
qed simp

lemma owner_rank_inj:
  assumes "keys_ok d"
  shows "inj_on (owner_rank start_at now d)
    {t \<in> set (agent_tasks d). dispatchable start_at now d t \<and> t_UserID t = user}"
proof (rule inj_onI)
  fix t u assume t: "t \<in> {t \<in> set (agent_tasks d). dispatchable start_at now d t \<and> t_UserID t = user}"
    and u: "u \<in> {t \<in> set (agent_tasks d). dispatchable start_at now d t \<and> t_UserID t = user}"
    and eq: "owner_rank start_at now d t = owner_rank start_at now d u"
  show "t = u"
  proof (rule ccontr)
    assume "t \<noteq> u"
    then have "t_ID t \<noteq> t_ID u" using same_task [OF assms, of t u] t u by blast
    then consider "dispatch_before t u" | "dispatch_before u t" using dispatch_before_total by blast
    then show False using owner_rank_less [of t u d] owner_rank_less [of u t d] t u eq by cases force+
  qed
qed

lemma owner_selection:
  assumes "keys_ok d"
  shows "card {t \<in> set (agent_tasks d). dispatchable start_at now d t \<and> t_UserID t = user \<and>
      owner_load start_at now d t \<le> n} \<le> n - length (owner_leases d now user)"
proof -
  let ?S = "{t \<in> set (agent_tasks d). dispatchable start_at now d t \<and> t_UserID t = user \<and> owner_load start_at now d t \<le> n}"
  have "inj_on (owner_rank start_at now d) ?S"
    by (rule inj_on_subset [OF owner_rank_inj [OF assms, of _ _ user]]) auto
  then have "card ?S = card (owner_rank start_at now d ` ?S)" by (simp add: card_image)
  also have "\<dots> \<le> card {..< n - length (owner_leases d now user)}"
    by (rule card_mono) (auto simp: owner_load_rank [OF assms])
  finally show ?thesis by simp
qed

text \<open>
  C24. Dispatch is fair between owners: every task returned may start now, at most \<open>limit\<close> tasks are
  returned, and the tasks selected for one owner together with the leases this owner already holds
  never exceed the admission limit, so a burst from one person cannot fill the pool.
\<close>

theorem RunnableGraphTasks_fair:
  assumes "RunnableGraphTasks render pg now limit d = Inr ts" and "keys_ok d"
  shows "length ts \<le> nat limit \<and> distinct ts \<and>
    (\<forall>t \<in> set ts. t \<in> set (agent_tasks d) \<and> dispatchable (graph_start_at render pg) now d t) \<and>
    length (filter (\<lambda>t. t_UserID t = user) ts) \<le>
      MaxConcurrentGraphTasksPerUser - length (owner_leases d now user)"
proof -
  let ?st = "graph_start_at render pg"
  let ?load = "owner_load ?st now d"
  let ?S = "filter (\<lambda>t. dispatchable ?st now d t \<and> ?load t \<le> MaxConcurrentGraphTasksPerUser) (agent_tasks d)"
  obtain lt where ts: "ts = take (nat limit) (order_by lt ?S)"
    using assms(1) by (auto simp: RunnableGraphTasks_def Let_def split: if_splits)
  have "distinct (agent_tasks d)" using assms(2) by (auto simp: keys_ok_def distinct_map)
  then have dist: "distinct ts" by (simp add: ts distinct_take)
  have sub: "set ts \<subseteq> set ?S" using set_take_subset [of "nat limit" "order_by lt ?S"] by (simp add: ts)
  have "length (filter (\<lambda>t. t_UserID t = user) ts) = card {t \<in> set ts. t_UserID t = user}"
    using dist by (metis distinct_card distinct_filter set_filter)
  also have "\<dots> \<le> card {t \<in> set (agent_tasks d). dispatchable ?st now d t \<and> t_UserID t = user \<and>
      ?load t \<le> MaxConcurrentGraphTasksPerUser}"
    by (rule card_mono) (use sub in auto)
  also have "\<dots> \<le> MaxConcurrentGraphTasksPerUser - length (owner_leases d now user)"
    by (rule owner_selection [OF assms(2)])
  finally show ?thesis using sub dist by (auto simp: ts)
qed

theorem RunnableGraphTasks_fair_witness:
  "(case RunnableGraphTasks (\<lambda>_. []) (\<lambda>_. None) (2 * second) 5 (committed tx1) of
      Inl _ \<Rightarrow> False
    | Inr ts \<Rightarrow> ts \<noteq> [] \<and> length (filter (\<lambda>t. t_UserID t = 7) ts) \<le>
        MaxConcurrentGraphTasksPerUser - length (owner_leases (committed tx1) (2 * second) 7))"
proof -
  let ?q = "RunnableGraphTasks (\<lambda>_. []) (\<lambda>_. None) (2 * second) 5 (committed tx1)"
  have ne: "(case ?q of Inl _ \<Rightarrow> False | Inr ts \<Rightarrow> ts \<noteq> [])" by code_simp
  then obtain ts where q: "?q = Inr ts" by (cases ?q) simp_all
  have "keys_ok (committed tx1)" by code_simp
  from RunnableGraphTasks_fair [OF q this] have
    "length (filter (\<lambda>t. t_UserID t = 7) ts) \<le> MaxConcurrentGraphTasksPerUser - length (owner_leases (committed tx1) (2 * second) 7)"
    by blast
  with ne show ?thesis by (simp only: q sum.case) simp
qed

section \<open>Deadlines\<close>

text \<open>
  C25. A stored deadline starves a task that is meant to run to completion. For a one-shot graph task
  whose row carries a deadline that has passed, no coordinator can ever claim it, the dispatcher never
  returns it, and the expiry scan (which skips such tasks) never ends it: it stays unfinished.
\<close>

theorem stored_deadline_starves:
  assumes "TaskRunsToCompletion t" and "t \<in> set (agent_tasks d)" and "keys_ok d"
    and "t_Deadline t = Some dl" and "dl \<le> now" and "now \<le> clk 1"
    and "lease_ok lease"
  shows "ClaimGraphTask render pg clk new (t_ID t) lease d = Inr (None, d) \<and>
    (\<forall>ts. RunnableGraphTasks render pg now limit d = Inr ts \<longrightarrow> t \<notin> set ts) \<and>
    (\<forall>ts. ExpiredGraphTasks now limit d = Inr ts \<longrightarrow> t \<notin> set ts)"
proof -
  have "List.find (\<lambda>x. t_ID x = t_ID t \<and> startable (graph_start_at render pg) (clk 1) x) (agent_tasks d) = None"
  proof -
    have "\<not> startable (graph_start_at render pg) (clk 1) t" using assms(4-6) by (simp add: startable_def)
    then show ?thesis using same_task [OF assms(3) _ assms(2)] by (auto simp: find_None_iff)
  qed
  then have "ClaimGraphTask render pg clk new (t_ID t) lease d = Inr (None, d)"
    using assms(7) by (simp add: ClaimGraphTask_def)
  moreover have "t \<notin> set ts" if "RunnableGraphTasks render pg now limit d = Inr ts" for ts
    using that assms by (auto simp: RunnableGraphTasks_def Let_def dispatchable_def startable_def
        dest!: in_set_takeD split: if_splits)
  moreover have "t \<notin> set ts" if "ExpiredGraphTasks now limit d = Inr ts" for ts
    using that assms by (auto simp: ExpiredGraphTasks_def Let_def TaskStopDeadline_def split: if_splits)
  ultimately show ?thesis by blast
qed

definition legacy_task :: AgentTask where
  "legacy_task = (blank_task 1 7 2)\<lparr>t_Deadline := Some 5\<rparr>"

theorem stored_deadline_starves_witness:
  "ClaimGraphTask (\<lambda>_. []) (\<lambda>_. None) (at 1) 100 1 minute (empty_db\<lparr>agent_tasks := [legacy_task]\<rparr>) =
     Inr (None, empty_db\<lparr>agent_tasks := [legacy_task]\<rparr>)"
proof -
  let ?d = "empty_db\<lparr>agent_tasks := [legacy_task]\<rparr>"
  have "TaskRunsToCompletion legacy_task" "legacy_task \<in> set (agent_tasks ?d)" "keys_ok ?d"
    "t_Deadline legacy_task = Some 5" "t_ID legacy_task = 1" "lease_ok minute" "(5::int) \<le> 5" "5 \<le> at 1 1"
    by code_simp+
  with stored_deadline_starves [of legacy_task ?d 5 5 "at 1" minute "\<lambda>_. []" "\<lambda>_. None" 100]
  show ?thesis by metis
qed

text \<open>
  The wall-clock budget of a task with a creation time is absolute: it never passes the start of
  the budget plus the limit nor an explicit earlier deadline, and once it is stored, computing it again
  at any later time with the same limit yields the same instant.
\<close>

theorem wall_deadline_stable:
  assumes "TaskWallDeadline t now limit = Some dl" and "\<not> periodic t" and "t_CreatedAt t \<noteq> time_zero"
  shows "dl \<le> TaskWallStart t now + (if limit \<le> 0 then DefaultTaskWallTimeout else limit) \<and>
    (\<forall>e. t_Deadline t = Some e \<longrightarrow> dl \<le> e) \<and>
    TaskWallDeadline (t\<lparr>t_Deadline := Some dl\<rparr>) later limit = Some dl"
proof -
  have start: "TaskWallStart (t\<lparr>t_Deadline := e\<rparr>) x = TaskWallStart t now" for e x
    using assms(3) by (simp add: TaskWallStart_def Let_def)
  have run: "TaskRunsToCompletion (t\<lparr>t_Deadline := e\<rparr>) = TaskRunsToCompletion t" for e
    by (simp add: TaskRunsToCompletion_def)
  have "\<not> TaskRunsToCompletion t" using assms(1) by (auto simp: TaskWallDeadline_def)
  then show ?thesis
    using assms(1,2) by (auto simp: TaskWallDeadline_def Let_def start run split: option.splits if_splits)
qed

theorem wall_deadline_stable_witness:
  "TaskWallDeadline ((blank_task 1 7 1)\<lparr>t_Deadline := Some (1 + 30 * minute)\<rparr>) (40 * minute) 0 = Some (1 + 30 * minute)"
proof -
  have "TaskWallDeadline (blank_task 1 7 1) 2 0 = Some (1 + 30 * minute)" "\<not> periodic (blank_task 1 7 1)"
    "t_CreatedAt (blank_task 1 7 1) \<noteq> time_zero"
    by code_simp+
  from wall_deadline_stable [OF this] show ?thesis by blast
qed

text \<open>
  The research deadline reserves time for finalization: it lies strictly before the deadline, and
  for a task created before its deadline it leaves at least two thirds of the whole budget for research.
\<close>

theorem research_deadline_bounds:
  assumes "TaskResearchDeadline t reserve = Some rd" and "t_Deadline t = Some dl"
    and "t_CreatedAt t \<noteq> time_zero" and "t_CreatedAt t + 3 \<le> dl" and "dl - t_CreatedAt t \<le> max_duration"
  shows "rd < dl \<and> 3 * (rd - t_CreatedAt t) \<ge> 2 * (dl - t_CreatedAt t)"
proof -
  let ?total = "dl - t_CreatedAt t"
  have total: "time_sub dl (t_CreatedAt t) = ?total" using assms(4,5) by (simp add: time_sub_def)
  let ?r = "if reserve \<le> 0 then 3 * minute else reserve"
  let ?r' = "if ?r > ?total div 3 then ?total div 3 else ?r"
  obtain r where r: "r = ?r'" by blast
  have "rd = dl - r"
    unfolding r using assms(1,2,3,4) by (auto simp: TaskResearchDeadline_def TaskStopDeadline_def Let_def total split: if_splits)
  moreover have "0 < r" "r \<le> ?total div 3" unfolding r using assms(4) by (auto simp: pos_imp_zdiv_pos_iff)
  moreover obtain q where "q = ?total div 3" "3 * q \<le> ?total" by simp
  ultimately have "rd = dl - r" "0 < r" "3 * r \<le> ?total" by simp_all
  then show ?thesis by (simp add: algebra_simps)
qed

theorem research_deadline_bounds_witness:
  "57 * minute < 60 * minute \<and> 3 * (57 * minute - 1) \<ge> 2 * (60 * minute - (1 :: int))"
proof -
  let ?t = "(blank_task 1 7 1)\<lparr>t_Deadline := Some (60 * minute)\<rparr>"
  have "TaskResearchDeadline ?t 0 = Some (57 * minute)" "t_Deadline ?t = Some (60 * minute)"
    "t_CreatedAt ?t \<noteq> time_zero" "t_CreatedAt ?t + 3 \<le> 60 * minute" "60 * minute - t_CreatedAt ?t \<le> max_duration"
    "t_CreatedAt ?t = 1"
    by code_simp+
  with research_deadline_bounds [of ?t 0 "57 * minute" "60 * minute"] show ?thesis by metis
qed

section \<open>Cancelling a schedule\<close>

text \<open>
  The owner's cancellation of a scheduled task disables it, but the reset that follows a completed run has
  no guard on the status: when it comes second the task is pending again.
\<close>

lemma canceled_schedule_restarts:
  assumes "Cancel sha sp render coll clk new user soul i msg d = Inr (True, d')" and "find_task d i = Some t" and "t_Schedule t \<noteq> None" and "keys_ok d"
  shows "map_option t_Status (find_task d' i) = Some ''canceled'' \<and>
    map_option t_Status (find_task (ResetForNextRun i d') i) = Some ''pending''"
proof -
  have i: "t_ID t = i" using assms(2) by (auto simp: find_task_def dest: find_SomeD)
  obtain x where x: "find_owned user soul i d = Some x"
    using assms(1) by (auto simp: Cancel_def split: if_splits option.splits)
  then have "x \<in> set (agent_tasks d)" "t_ID x = i" by (auto simp: find_owned_def dest: find_SomeD)
  then have "x = t" using same_task [OF assms(4)] find_task_SomeD [OF assms(2)] by blast
  then have "d' = d\<lparr>agent_tasks := update_where (\<lambda>t. t_ID t = i) (\<lambda>t. t\<lparr>t_Status := ''canceled''\<rparr>) (agent_tasks d)\<rparr>"
    using assms(1,3) x by (auto simp: Cancel_def periodic_def split: if_splits)
  then have "find_task d' i = Some (t\<lparr>t_Status := ''canceled''\<rparr>)" using assms(2) i by (simp add: find_task_update)
  then show ?thesis using i by (simp add: ResetForNextRun_def find_task_update)
qed

end
