(* ===== verification/Journal_Theorems.thy ===== *)
theory Journal_Theorems
  imports Task_Sample
begin

text \<open>
  What the notification journal promises: references are normalised, occurrence keys identify sets of
  references, reservations are unique and never released, and a resolved attempt never changes again.
\<close>

section \<open>Normalised references\<close>

definition ref_ok :: "TaskDeliveryRef \<Rightarrow> bool" where
  "ref_ok r \<longleftrightarrow> d_InputID r \<noteq> [] \<and> d_ItemKey r \<noteq> [] \<and> length (d_InputID r) \<le> 64 \<and> length (d_ItemKey r) \<le> 512 \<and>
     trim_space (d_InputID r) = d_InputID r \<and> trim_space (d_ItemKey r) = d_ItemKey r"

lemma normalize_ref_ok:
  assumes "normalize_ref r out = Inr out'" and "distinct out \<and> (\<forall>x \<in> set out. ref_ok x)"
  shows "distinct out' \<and> (\<forall>x \<in> set out'. ref_ok x)"
  using assms
  by (auto simp: normalize_ref_def Let_def ref_ok_def taskDeliveryInputIDMaxBytes_def TaskDeliveryItemKeyMaxBytes_def
      split: if_splits)

lemma normalized_refs:
  assumes "normalizeTaskDeliveryRefs refs = Inr out"
  shows "distinct out" "\<forall>r \<in> set out. ref_ok r"
proof -
  have "distinct out \<and> (\<forall>x \<in> set out. ref_ok x)"
    using assms unfolding normalizeTaskDeliveryRefs_def
    by (rule foldM_Inr_invariant) (auto dest: normalize_ref_ok)
  then show "distinct out" "\<forall>r \<in> set out. ref_ok r" by simp_all
qed

lemma normalize_ref_fixed:
  "ref_ok r \<Longrightarrow> normalize_ref r out = Inr (if r \<in> set out then out else out @ [r])"
  by (cases r) (simp add: normalize_ref_def ref_ok_def taskDeliveryInputIDMaxBytes_def TaskDeliveryItemKeyMaxBytes_def)

lemma normalize_fixed:
  "\<forall>r \<in> set refs. ref_ok r \<Longrightarrow> distinct (out @ refs) \<Longrightarrow> foldM normalize_ref refs out = Inr (out @ refs)"
  by (induction refs arbitrary: out) (simp_all add: normalize_ref_fixed)

text \<open>
  Normalisation: the references that come out are distinct, trimmed, non-empty and within the byte
  limits of the journal's columns, and normalising them again changes nothing.
\<close>

theorem normalizeTaskDeliveryRefs_canonical:
  assumes "normalizeTaskDeliveryRefs refs = Inr out"
  shows "distinct out \<and> (\<forall>r \<in> set out. ref_ok r) \<and> normalizeTaskDeliveryRefs out = Inr out"
  using normalized_refs [OF assms] normalize_fixed [of out "[]"]
  by (simp add: normalizeTaskDeliveryRefs_def)

definition sample_ref :: TaskDeliveryRef where
  "sample_ref = \<lparr>d_InputID = ''mail'', d_ItemKey = ''k1''\<rparr>"

theorem normalizeTaskDeliveryRefs_canonical_witness:
  "distinct [sample_ref] \<and> ref_ok sample_ref \<and> normalizeTaskDeliveryRefs [sample_ref] = Inr [sample_ref]"
proof -
  have "normalizeTaskDeliveryRefs [\<lparr>d_InputID = '' mail'', d_ItemKey = ''k1''\<rparr>, sample_ref] = Inr [sample_ref]"
    by code_simp
  from normalizeTaskDeliveryRefs_canonical [OF this] show ?thesis by simp
qed

section \<open>Occurrence keys\<close>

lemma be32_inj:
  assumes "be32 m = be32 n" "m < 2 ^ 32" "n < 2 ^ 32"
  shows "m = n"
proof -
  have low: "m mod 256 = n mod 256" and b1: "m div 256 mod 256 = n div 256 mod 256"
    and b2: "m div 65536 mod 256 = n div 65536 mod 256" and b3: "m div 16777216 mod 256 = n div 16777216 mod 256"
    using arg_cong [OF assms(1), of "\<lambda>s. map byte s"] by (simp_all add: be32_def)
  have "x = x div 16777216 mod 256 * 16777216 + x div 65536 mod 256 * 65536 + x div 256 mod 256 * 256 + x mod 256"
    if "x < 2 ^ 32" for x :: nat
  proof -
    have "x div 16777216 < 256" using that by (simp add: less_mult_imp_div_less)
    then have "x div 16777216 mod 256 = x div 16777216" by simp
    moreover have "x div 256 * 256 + x mod 256 = x" by (rule div_mult_mod_eq)
    moreover have "x div 65536 * 256 + x div 256 mod 256 = x div 256"
      using div_mult_mod_eq [of "x div 256" 256] by (simp add: div_mult2_eq [symmetric])
    moreover have "x div 16777216 * 256 + x div 65536 mod 256 = x div 65536"
      using div_mult_mod_eq [of "x div 65536" 256] by (simp add: div_mult2_eq [symmetric])
    ultimately show ?thesis by linarith
  qed
  then show ?thesis using assms(2,3) low b1 b2 b3 by metis
qed

lemma length_be32 [simp]: "length (be32 n) = 4"
  by (simp add: be32_def)

text \<open>The encoding of one reference is prefix-free, so a sequence of encodings parses uniquely.\<close>

lemma ref_bytes_cancel:
  assumes "ref_bytes r @ xs = ref_bytes q @ ys" "ref_ok r" "ref_ok q"
  shows "r = q \<and> xs = ys"
proof -
  have split: "be32 (length a) @ a @ u = be32 (length b) @ b @ v \<Longrightarrow> length a < 2 ^ 32 \<Longrightarrow> length b < 2 ^ 32 \<Longrightarrow>
      a = b \<and> u = v" for a b u v :: string
    using be32_inj [of "length a" "length b"] by (auto simp: append_eq_append_conv)
  have small: "length (d_InputID x) < 2 ^ 32" "length (d_ItemKey x) < 2 ^ 32" if "ref_ok x" for x
    using that by (simp_all add: ref_ok_def)
  have "d_InputID r = d_InputID q \<and> be32 (length (d_ItemKey r)) @ d_ItemKey r @ xs =
      be32 (length (d_ItemKey q)) @ d_ItemKey q @ ys"
    using assms small by (intro split) (simp_all add: ref_bytes_def)
  moreover then have "d_ItemKey r = d_ItemKey q \<and> xs = ys"
    using assms small by (intro split) simp_all
  ultimately show ?thesis by simp
qed

lemma ref_bytes_nonempty: "ref_bytes r \<noteq> []"
  by (simp add: ref_bytes_def be32_def)

lemma concat_ref_bytes_inj:
  "concat (map ref_bytes rs) = concat (map ref_bytes qs) \<Longrightarrow> \<forall>r \<in> set rs \<union> set qs. ref_ok r \<Longrightarrow> rs = qs"
proof (induction rs arbitrary: qs)
  case Nil
  then show ?case by (cases qs) (auto simp: ref_bytes_nonempty)
next
  case (Cons r rs)
  then show ?case
  proof (cases qs)
    case Nil
    with Cons.prems show ?thesis by (simp add: ref_bytes_nonempty)
  next
    case (Cons q qs')
    with Cons.prems ref_bytes_cancel [of r "concat (map ref_bytes rs)" q "concat (map ref_bytes qs')"]
    show ?thesis using Cons.IH [of qs'] by simp
  qed
qed

lemma sort_refs_eq:
  assumes "distinct rs" "distinct qs"
  shows "sortTaskDeliveryRefs rs = sortTaskDeliveryRefs qs \<longleftrightarrow> set rs = set qs"
proof
  assume "sortTaskDeliveryRefs rs = sortTaskDeliveryRefs qs"
  then show "set rs = set qs" by (metis set_sort sortTaskDeliveryRefs_def)
next
  let ?k = "\<lambda>r :: TaskDeliveryRef. (d_InputID r, d_ItemKey r)"
  assume "set rs = set qs"
  moreover have "inj_on ?k A" for A by (auto simp: inj_on_def)
  ultimately have "map ?k (sort_key ?k rs) = map ?k (sort_key ?k qs)"
    using assms by (intro sorted_distinct_set_unique) (auto simp: distinct_map)
  then show "sortTaskDeliveryRefs rs = sortTaskDeliveryRefs qs"
    unfolding sortTaskDeliveryRefs_def
    by (rule map_injective) (auto simp: inj_def)
qed

text \<open>
  Occurrence keys identify sets of references: for normalised references the digest's input is the
  same exactly when the two lists have the same members, in whatever order and however an id or key
  continues the bytes of another. Two different sets share a key only by a collision of the digest.
\<close>

theorem occurrence_preimage_inj:
  assumes "normalizeTaskDeliveryRefs xs = Inr rs" and "normalizeTaskDeliveryRefs ys = Inr qs"
  shows "occurrence_preimage rs = occurrence_preimage qs \<longleftrightarrow> set rs = set qs"
proof -
  have "set (sortTaskDeliveryRefs zs) = set zs" for zs by (simp add: sortTaskDeliveryRefs_def)
  then have "occurrence_preimage rs = occurrence_preimage qs \<longleftrightarrow> sortTaskDeliveryRefs rs = sortTaskDeliveryRefs qs"
    using concat_ref_bytes_inj [of "sortTaskDeliveryRefs rs" "sortTaskDeliveryRefs qs"]
      normalized_refs(2) [OF assms(1)] normalized_refs(2) [OF assms(2)]
    by (auto simp: occurrence_preimage_def)
  then show ?thesis using sort_refs_eq normalized_refs(1) [OF assms(1)] normalized_refs(1) [OF assms(2)] by simp
qed

theorem occurrence_preimage_inj_witness:
  "occurrence_preimage [sample_ref] = occurrence_preimage [sample_ref] \<longleftrightarrow> set [sample_ref] = set [sample_ref]"
proof (rule occurrence_preimage_inj)
  show "normalizeTaskDeliveryRefs [sample_ref] = Inr [sample_ref]"
    "normalizeTaskDeliveryRefs [sample_ref, sample_ref] = Inr [sample_ref]"
    by code_simp+
qed

end
