(* ===== verification/Journal_System.thy ===== *)
theory Journal_System
  imports Task_System
begin

text \<open>
  The notification journal inside the task system: which operations write it, what they may do to its
  rows, and the invariant of its reachable states.
\<close>

section \<open>Which operations write the journal\<close>

definition journal_same :: "db \<Rightarrow> db \<Rightarrow> bool" where
  "journal_same d d' \<longleftrightarrow> notification_attempts d' = notification_attempts d \<and>
     notification_items d' = notification_items d \<and> agent_task_deliveries d' = agent_task_deliveries d"

inductive journal_op :: "external \<Rightarrow> clock \<Rightarrow> db \<Rightarrow> db \<Rightarrow> bool" for ext :: external and clk :: clock where
  j_queue: "queue_result (ext_sha256 ext) (clk 0) new task notify pending version d0 = Inr d' \<Longrightarrow> journal_same d d0 \<Longrightarrow>
     journal_op ext clk d d'"
| j_mark: "MarkDelivered i refs d = Inr (u, d') \<Longrightarrow> journal_op ext clk d d'"
| j_begin: "BeginNotificationAttempt (ext_sha256 ext) (clk 0) new i user msg refs d = Inr (v, d') \<Longrightarrow> journal_op ext clk d d'"
| j_confirm: "ConfirmNotificationAttempt (ext_unmarshal ext) (ext_iso ext) (clk 0) i receipt d = Inr (u, d') \<Longrightarrow>
     journal_op ext clk d d'"
| j_uncertain: "MarkNotificationUncertain (clk 0) i reason d = Inr (u, d') \<Longrightarrow> journal_op ext clk d d'"
| j_defer: "DeferNotificationAttempt i reason retry_at d = Inr (u, d') \<Longrightarrow> journal_op ext clk d d'"
| j_reject: "RejectNotificationAttempt (clk 0) i reason d = Inr (u, d') \<Longrightarrow> journal_op ext clk d d'"
| j_claim: "ClaimRetryableNotification (ext_coll ext) locked (clk 0) d = Inr (v, d') \<Longrightarrow> journal_op ext clk d d'"

lemma graph_op_journal:
  assumes "graph_op ext clk d d'"
  shows "journal_same d d'"
  using assms
proof cases
  case (op_claim_graph new i lease r)
  then show ?thesis
    by (cases r) (auto simp: journal_same_def dest: ClaimGraphTask_NoneD elim!: ClaimGraphTask_SomeD)
next
  case op_renew_graph then show ?thesis by (auto simp: journal_same_def dest!: RenewGraphTask_Inr)
next
  case op_yield_graph then show ?thesis by (auto simp: journal_same_def dest!: YieldGraphTask_Inr)
qed (auto simp: journal_same_def SaveTaskSteps_def ClaimTaskStep_def CheckpointTaskStep_def CompleteTaskStep_def
    updateTaskStep_def update_claimed_def FailTaskStepAfter_def RecoverTaskSteps_def ResolveStuckTaskSteps_def Let_def
    split: if_splits sum.splits option.splits)

lemma finalize_journal:
  assumes "finalizeTaskTx (ext_sha256 ext) sp render coll run clk new i fin d = Inr (art, d')"
  shows "journal_same d d' \<or> journal_op ext clk d d'"
proof -
  consider "d' = d" | task body where "write_result (ext_sha256 ext) clk new task fin body d = Inr (art, d')"
    using finalizeTaskTx_Inr [OF assms] by blast
  then show ?thesis
  proof cases
    case (2 task body)
    then show ?thesis
      by (auto simp: write_result_def Let_def journal_same_def intro: j_queue split: if_splits sum.splits)
  qed (simp add: journal_same_def)
qed

lemma cancel_journal:
  assumes "Cancel (ext_sha256 ext) sp render coll clk new user soul i msg d = Inr (b, d')"
  shows "journal_same d d' \<or> journal_op ext clk d d'"
proof -
  consider "journal_same d d'" | art where
      "finalizeTaskTx (ext_sha256 ext) sp render coll uuid_Nil clk new i (cancellation msg) d = Inr (art, d')"
    using assms by (auto simp: Cancel_def journal_same_def split: if_splits option.splits sum.splits)
  then show ?thesis using finalize_journal by cases blast+
qed

lemma task_op_journal:
  assumes "task_op ext clk d d'"
  shows "journal_same d d' \<or> journal_op ext clk d d'"
  using assms
proof cases
  case op_graph then show ?thesis using graph_op_journal by blast
next
  case op_create then show ?thesis by (auto simp: journal_same_def elim!: Create_Inr)
next
  case op_finalize then show ?thesis unfolding FinalizeTask_def by (rule finalize_journal)
next
  case op_cancel then show ?thesis by (rule cancel_journal)
next
  case op_restart
  then show ?thesis by (auto simp: Restart_def Let_def journal_same_def split: if_splits option.splits)
next
  case op_progress_graph then show ?thesis by (auto simp: journal_same_def dest!: SaveGraphProgress_Inr)
qed (auto intro: journal_op.intros simp: journal_same_def EnsureRecurring_def SetTaskDeadline_def ExpireTask_def
    Dismiss_def DismissFinished_def Resume_def SetRunning_def TrySetRunning_def UpdateProgressWithRecheck_def
    UpdateProgress_def Complete_def CompleteExhausted_def UpdateShaping_def SetPending_def
    SetPendingForNotificationRetry_def Fail_def StoreCancel_def ResetStale_def ResetForNextRun_def Approve_def
    PauseTask_def WakePausedByPeerTask_def WakeStalePaused_def CheckpointTask_def SaveTaskSubmission_def
    DeferTaskVerification_def RejectTaskSubmission_def Let_def split: if_splits option.splits)

section \<open>The effect of an operation on the journal\<close>

text \<open>
  The life of an attempt: only its state, counters and outcome columns ever change. A dispatching
  attempt is resolved or put back for a retry; only a claim dispatches it again.
\<close>

definition attempt_move :: "NotificationAttempt \<Rightarrow> NotificationAttempt \<Rightarrow> bool" where
  "attempt_move a a' \<longleftrightarrow> na_ID a' = na_ID a \<and> na_TaskID a' = na_TaskID a \<and> na_UserID a' = na_UserID a \<and>
     na_OccurrenceKey a' = na_OccurrenceKey a \<and> na_MessageText a' = na_MessageText a \<and> na_CreatedAt a' = na_CreatedAt a \<and>
     (attempt_checks a \<longrightarrow> attempt_checks a') \<and>
     (na_State a = ''dispatching'' \<and> na_State a' \<in> {''sent'', ''uncertain'', ''rejected'', ''retryable''} \<and>
        na_AttemptCount a' = na_AttemptCount a \<or>
      na_State a = ''retryable'' \<and> na_State a' = ''dispatching'' \<and> na_AttemptCount a' = na_AttemptCount a + 1)"

definition item_of :: "NotificationAttempt \<Rightarrow> TaskDeliveryRef \<Rightarrow> AttemptItem" where
  "item_of row r = \<lparr>ni_AttemptID = na_ID row, ni_TaskID = na_TaskID row, ni_Ref = r\<rparr>"

inductive journal_effect :: "db \<Rightarrow> db \<Rightarrow> bool" for d :: db and d' :: db where
  eff_move: "notification_attempts d' = update_where p f (notification_attempts d) \<Longrightarrow>
     (\<And>a. a \<in> set (notification_attempts d) \<Longrightarrow> p a \<Longrightarrow> attempt_move a (f a)) \<Longrightarrow>
     notification_items d' = notification_items d \<Longrightarrow>
     set (agent_task_deliveries d) \<subseteq> set (agent_task_deliveries d') \<Longrightarrow>
     (\<And>a n. a \<in> set (notification_attempts d) \<Longrightarrow> p a \<Longrightarrow> na_State (f a) = ''sent'' \<Longrightarrow>
        n \<in> set (notification_items d) \<Longrightarrow> ni_AttemptID n = na_ID a \<Longrightarrow>
        (ni_TaskID n, ni_Ref n) \<in> set (agent_task_deliveries d')) \<Longrightarrow> journal_effect d d'"
| eff_new: "notification_attempts d' = notification_attempts d @ [row] \<Longrightarrow>
     notification_items d' = notification_items d @ map (item_of row) refs \<Longrightarrow>
     agent_task_deliveries d' = agent_task_deliveries d \<Longrightarrow>
     refs \<noteq> [] \<Longrightarrow> distinct refs \<Longrightarrow> (\<And>r. r \<in> set refs \<Longrightarrow> \<not> reserved (na_TaskID row) r d) \<Longrightarrow>
     attempt_checks row \<Longrightarrow> na_State row \<in> {''dispatching'', ''retryable''} \<Longrightarrow>
     na_ID row \<notin> na_ID ` set (notification_attempts d) \<Longrightarrow>
     (na_TaskID row, na_OccurrenceKey row) \<notin> (\<lambda>a. (na_TaskID a, na_OccurrenceKey a)) ` set (notification_attempts d) \<Longrightarrow>
     journal_effect d d'"

lemma journal_effect_same: "journal_same d d' \<Longrightarrow> journal_effect d d'"
  by (rule eff_move [of d' "\<lambda>_. False" "\<lambda>a. a"]) (simp_all add: journal_same_def update_where_idle)

text \<open>The operations that resolve one dispatching attempt.\<close>

lemma journal_effect_resolve:
  assumes "d' = resolve_dispatching i f d0" "notification_attempts d0 = notification_attempts d"
    "notification_items d0 = notification_items d"
    "set (agent_task_deliveries d) \<subseteq> set (agent_task_deliveries d0)"
    and move: "\<And>a. na_State a = ''dispatching'' \<Longrightarrow> attempt_move a (f a)"
    and sent: "\<And>a n. na_State (f a) = ''sent'' \<Longrightarrow> n \<in> set (notification_items d) \<Longrightarrow> ni_AttemptID n = i \<Longrightarrow>
      (ni_TaskID n, ni_Ref n) \<in> set (agent_task_deliveries d0)"
  shows "journal_effect d d'"
  using assms(1-4) by (intro eff_move [of d' "\<lambda>a. na_ID a = i \<and> na_State a = ''dispatching''" f])
    (auto simp: resolve_dispatching_def intro: move sent)

lemma fold_deliveries:
  "set (fold (\<lambda>x ds. if g x \<in> set ds then ds else ds @ [g x]) xs ds) = set ds \<union> g ` set xs"
  by (induction xs arbitrary: ds) auto

lemmas attempt_simps = attempt_move_def attempt_checks_def

text \<open>The four outcomes an attempt can be resolved to.\<close>

definition sent_row :: "gotime \<Rightarrow> json \<Rightarrow> NotificationAttempt \<Rightarrow> NotificationAttempt" where
  "sent_row now receipt a = a\<lparr>na_State := ''sent'', na_Receipt := Some receipt, na_ErrorMessage := None,
     na_NextAttemptAt := None, na_ResolvedAt := Some now\<rparr>"

definition closed_row :: "string \<Rightarrow> gotime \<Rightarrow> string \<Rightarrow> NotificationAttempt \<Rightarrow> NotificationAttempt" where
  "closed_row state now reason a = a\<lparr>na_State := state, na_ErrorMessage := Some reason,
     na_NextAttemptAt := None, na_ResolvedAt := Some now\<rparr>"

definition deferred_row :: "gotime \<Rightarrow> string \<Rightarrow> NotificationAttempt \<Rightarrow> NotificationAttempt" where
  "deferred_row retryAt reason a = a\<lparr>na_State := ''retryable'', na_ErrorMessage := Some reason,
     na_NextAttemptAt := Some retryAt, na_ResolvedAt := None\<rparr>"

lemma resolved_moves:
  "na_State a = ''dispatching'' \<Longrightarrow> attempt_move a (sent_row now receipt a)"
  "na_State a = ''dispatching'' \<Longrightarrow> state \<in> {''uncertain'', ''rejected''} \<Longrightarrow> attempt_move a (closed_row state now reason a)"
  "na_State a = ''dispatching'' \<Longrightarrow> attempt_move a (deferred_row retryAt reason a)"
  by (auto simp: attempt_simps sent_row_def closed_row_def deferred_row_def)

lemma Confirm_Inr:
  assumes "ConfirmNotificationAttempt unm isot now i receipt d = Inr (u, d')"
  obtains "d' = d" | d0 where "d' = resolve_dispatching i (sent_row now (receipt_json isot receipt)) d0"
    "d0 = d\<lparr>agent_task_deliveries := fold (\<lambda>n ds. if (ni_TaskID n, ni_Ref n) \<in> set ds then ds
        else ds @ [(ni_TaskID n, ni_Ref n)]) (filter (\<lambda>n. ni_AttemptID n = i) (notification_items d)) (agent_task_deliveries d)\<rparr>"
  using assms unfolding ConfirmNotificationAttempt_def Let_def sent_row_def [abs_def]
  by (auto split: if_splits option.splits)

lemma Uncertain_Inr:
  assumes "MarkNotificationUncertain now i reason d = Inr (u, d')"
  obtains "d' = d" | r where "d' = resolve_dispatching i (closed_row ''uncertain'' now r) d"
  using assms unfolding MarkNotificationUncertain_def Let_def closed_row_def [abs_def]
  by (auto split: if_splits option.splits)

lemma Defer_Inr:
  assumes "DeferNotificationAttempt i reason retry_at d = Inr (u, d')"
  obtains "d' = d" | r where "d' = resolve_dispatching i (deferred_row retry_at r) d"
  using assms unfolding DeferNotificationAttempt_def deferred_row_def [abs_def]
  by (auto split: if_splits option.splits)

lemma Reject_Inr:
  assumes "RejectNotificationAttempt now i reason d = Inr (u, d')"
  obtains "d' = d" | r where "d' = resolve_dispatching i (closed_row ''rejected'' now r) d"
  using assms unfolding RejectNotificationAttempt_def closed_row_def [abs_def]
  by (auto split: if_splits option.splits)

lemma journal_effect_closed:
  assumes "d' = resolve_dispatching i f d" "\<And>a. na_State a = ''dispatching'' \<Longrightarrow> attempt_move a (f a)"
    "\<And>a. na_State (f a) \<noteq> ''sent''"
  shows "journal_effect d d'"
  using assms by (intro journal_effect_resolve [of d' i f d d]) auto

lemma journal_effect_resolving:
  "ConfirmNotificationAttempt unm isot now i receipt d = Inr (u, d') \<Longrightarrow> journal_effect d d'"
  "MarkNotificationUncertain now i reason d = Inr (u, d') \<Longrightarrow> journal_effect d d'"
  "DeferNotificationAttempt i reason retry_at d = Inr (u, d') \<Longrightarrow> journal_effect d d'"
  "RejectNotificationAttempt now i reason d = Inr (u, d') \<Longrightarrow> journal_effect d d'"
proof -
  have same: "journal_effect d d" by (simp add: journal_effect_same journal_same_def)
  assume "ConfirmNotificationAttempt unm isot now i receipt d = Inr (u, d')"
  then show "journal_effect d d'"
  proof (rule Confirm_Inr)
    fix d0 assume d': "d' = resolve_dispatching i (sent_row now (receipt_json isot receipt)) d0"
      and d0: "d0 = d\<lparr>agent_task_deliveries := fold (\<lambda>n ds. if (ni_TaskID n, ni_Ref n) \<in> set ds then ds
        else ds @ [(ni_TaskID n, ni_Ref n)]) (filter (\<lambda>n. ni_AttemptID n = i) (notification_items d)) (agent_task_deliveries d)\<rparr>"
    have "set (agent_task_deliveries d0) = set (agent_task_deliveries d) \<union>
        (\<lambda>n. (ni_TaskID n, ni_Ref n)) ` {n \<in> set (notification_items d). ni_AttemptID n = i}"
      by (simp add: d0 fold_deliveries [of "\<lambda>n. (ni_TaskID n, ni_Ref n)"])
    with d' show ?thesis
      by (intro journal_effect_resolve [OF d']) (auto simp: d0 intro: resolved_moves)
  qed (simp add: same)
next
  have same: "journal_effect d d" by (simp add: journal_effect_same journal_same_def)
  assume "MarkNotificationUncertain now i reason d = Inr (u, d')"
  then show "journal_effect d d'"
    by (rule Uncertain_Inr) (auto simp: same closed_row_def intro: journal_effect_closed resolved_moves)
next
  have same: "journal_effect d d" by (simp add: journal_effect_same journal_same_def)
  assume "DeferNotificationAttempt i reason retry_at d = Inr (u, d')"
  then show "journal_effect d d'"
    by (rule Defer_Inr) (auto simp: same deferred_row_def intro: journal_effect_closed resolved_moves)
next
  have same: "journal_effect d d" by (simp add: journal_effect_same journal_same_def)
  assume "RejectNotificationAttempt now i reason d = Inr (u, d')"
  then show "journal_effect d d'"
    by (rule Reject_Inr) (auto simp: same closed_row_def intro: journal_effect_closed resolved_moves)
qed

text \<open>New attempts, queued or begun.\<close>

lemma normalize_distinct: "normalizeTaskDeliveryRefs refs = Inr out \<Longrightarrow> distinct out"
proof -
  have "distinct out'" if "normalize_ref r out = Inr out'" "distinct out" for r out out'
    using that by (auto simp: normalize_ref_def Let_def split: if_splits)
  then have "distinct out" if "foldM normalize_ref refs acc = Inr out" "distinct acc" for acc
    using that by (induction refs arbitrary: acc) (auto split: sum.splits)
  then show "normalizeTaskDeliveryRefs refs = Inr out \<Longrightarrow> distinct out"
    by (simp add: normalizeTaskDeliveryRefs_def)
qed

lemma sort_refs [simp]:
  "set (sortTaskDeliveryRefs refs) = set refs" "distinct (sortTaskDeliveryRefs refs) = distinct refs"
  "sortTaskDeliveryRefs refs = [] \<longleftrightarrow> refs = []"
  by (simp_all add: sortTaskDeliveryRefs_def) (metis length_0_conv length_sort)

lemma filter_all_length: "length (filter P xs) = length xs \<Longrightarrow> filter P xs = xs"
  by (metis length_filter_less order_less_irrefl filter_True)

lemma BeginNotificationAttempt_Inr:
  assumes "BeginNotificationAttempt sha now new i user msg refs d = Inr ((a, created), d')"
  shows "(\<not> created \<and> d' = d \<and> (\<exists>x \<in> set (notification_attempts d). na_ID x = a \<and> na_TaskID x = i \<and> na_UserID x = user)) \<or>
    (\<exists>row rs. created \<and> a = new \<and> normalizeTaskDeliveryRefs refs = Inr rs \<and> rs \<noteq> [] \<and>
       d' = d\<lparr>notification_attempts := notification_attempts d @ [row],
         notification_items := notification_items d @ map (item_of row) (sortTaskDeliveryRefs rs)\<rparr> \<and>
       na_ID row = new \<and> na_TaskID row = i \<and> na_UserID row = user \<and> na_MessageText row = msg \<and>
       na_State row = ''dispatching'' \<and> na_AttemptCount row = 1 \<and> attempt_checks row \<and>
       find_attempt new d = None \<and> (\<forall>r \<in> set rs. \<not> reserved i r d) \<and>
       na_OccurrenceKey row = taskNotificationOccurrenceKey sha (sortTaskDeliveryRefs rs) \<and>
       List.find (\<lambda>x. na_TaskID x = i \<and> na_OccurrenceKey x = na_OccurrenceKey row) (notification_attempts d) = None)"
proof -
  obtain rs where rs: "normalizeTaskDeliveryRefs refs = Inr rs" "rs \<noteq> []"
    using assms by (auto simp: BeginNotificationAttempt_def split: if_splits sum.splits)
  let ?rs = "sortTaskDeliveryRefs rs" and ?key = "taskNotificationOccurrenceKey sha (sortTaskDeliveryRefs rs)"
  let ?row = "\<lparr>na_ID = new, na_TaskID = i, na_UserID = user, na_OccurrenceKey = ?key, na_MessageText = msg,
    na_State = ''dispatching'', na_Receipt = None, na_ErrorMessage = None, na_AttemptCount = 1,
    na_NextAttemptAt = None, na_LastAttemptAt = now, na_CreatedAt = now, na_ResolvedAt = None\<rparr>"
  let ?same = "List.find (\<lambda>x. na_TaskID x = i \<and> na_OccurrenceKey x = ?key) (notification_attempts d)"
  show ?thesis
  proof (cases "List.find (\<lambda>t. t_ID t = i \<and> t_UserID t = user) (agent_tasks d) = None \<or> ?same \<noteq> None")
    case True
    then show ?thesis
      using assms rs by (auto simp: BeginNotificationAttempt_def Let_def dest: find_SomeD split: if_splits option.splits)
  next
    case False
    then have ok: "attempt_checks ?row" "find_attempt new d = None"
      "length (filter (\<lambda>r. \<not> reserved i r d) ?rs) = length ?rs" "a = new" "created"
      and d': "d' = d\<lparr>notification_attempts := notification_attempts d @ [?row], notification_items := notification_items d @
          map (\<lambda>r. \<lparr>ni_AttemptID = new, ni_TaskID = i, ni_Ref = r\<rparr>) (filter (\<lambda>r. \<not> reserved i r d) ?rs)\<rparr>"
      using assms rs by (auto simp: BeginNotificationAttempt_def Let_def split: if_splits)
    note free = filter_all_length [OF ok(3)]
    have "\<forall>r \<in> set rs. \<not> reserved i r d" using free by (metis filter_id_conv sort_refs(1))
    then show ?thesis using False ok rs d' free by (intro disjI2 exI [of _ ?row] exI [of _ rs]) (simp add: item_of_def [abs_def])
  qed
qed

lemma find_attempt_None: "find_attempt new d = None \<longleftrightarrow> new \<notin> na_ID ` set (notification_attempts d)"
  by (auto simp: find_attempt_def find_None_iff)

lemma journal_effect_begin:
  assumes "BeginNotificationAttempt sha now new i user msg refs d = Inr (v, d')"
  shows "journal_effect d d'"
proof (cases v)
  case (Pair a created)
  show ?thesis
    using BeginNotificationAttempt_Inr [OF assms [unfolded Pair]]
  proof (elim disjE conjE exE)
    assume "d' = d" then show ?thesis by (simp add: journal_effect_same journal_same_def)
  next
    fix row rs
    assume "normalizeTaskDeliveryRefs refs = Inr rs" "rs \<noteq> []" "na_TaskID row = i" "na_ID row = new" "attempt_checks row"
      "na_State row = ''dispatching''" "find_attempt new d = None" "\<forall>r \<in> set rs. \<not> reserved i r d"
      "List.find (\<lambda>x. na_TaskID x = i \<and> na_OccurrenceKey x = na_OccurrenceKey row) (notification_attempts d) = None"
      "d' = d\<lparr>notification_attempts := notification_attempts d @ [row],
         notification_items := notification_items d @ map (item_of row) (sortTaskDeliveryRefs rs)\<rparr>"
    then show ?thesis
      by (intro eff_new [of d' d row "sortTaskDeliveryRefs rs"])
        (auto simp: normalize_distinct find_attempt_None find_None_iff)
  qed
qed

lemma version_key_trim: "trim_space (''version:'' @ decimal n) = ''version:'' @ decimal n"
proof (rule trim_space_fixed)
  obtain k :: nat where k: "k < 10" "last (decimal n) = char_of (48 + k)" "decimal n \<noteq> []"
  proof (cases "n < 10")
    case True
    then show ?thesis using that [of n] by (simp add: decimal.simps [of n])
  next
    case False
    then show ?thesis using that [of "n mod 10"] by (simp add: decimal.simps [of n])
  qed
  have "list_all (\<lambda>k. list_all (\<lambda>p. p \<noteq> [] \<and> hd p \<noteq> char_of (48 + k)) (map rev white_space)) [0..<10 :: nat]" by code_simp
  then have "list_all (\<lambda>p. p \<noteq> [] \<and> hd p \<noteq> char_of (48 + k)) (map rev white_space)"
    using k(1) by (simp only: list_all_iff [of _ "[0..<10]"]) auto
  then show "list_all (\<lambda>p. p \<noteq> [] \<and> hd p \<noteq> last (''version:'' @ decimal n)) (map rev white_space)"
    using k by simp
qed (simp_all add: white_space_def)

lemma result_ref_kept:
  assumes "normalizeTaskDeliveryRefs (pending @ [\<lparr>d_InputID = ''task_result'', d_ItemKey = ''version:'' @ decimal n\<rparr>]) = Inr refs"
  shows "\<lparr>d_InputID = ''task_result'', d_ItemKey = ''version:'' @ decimal n\<rparr> \<in> set refs"
proof -
  have "trim_space ''task_result'' = ''task_result''" by code_simp
  then show ?thesis
    using assms version_key_trim [of n] by (auto simp: normalizeTaskDeliveryRefs_def foldM_append normalize_ref_def Let_def
        split: sum.splits if_splits)
qed

lemma queue_result_Inr:
  assumes "queue_result sha now new task notify pending version d = Inr d'"
  shows "\<exists>row refs. normalizeTaskDeliveryRefs (pending @ [\<lparr>d_InputID = ''task_result'',
        d_ItemKey = ''version:'' @ decimal (nat version)\<rparr>]) = Inr refs \<and>
      d' = d\<lparr>notification_attempts := notification_attempts d @ [row],
        notification_items := notification_items d @ map (item_of row) (sortTaskDeliveryRefs refs)\<rparr> \<and>
      na_ID row = new \<and> na_TaskID row = t_ID task \<and> na_UserID row = t_UserID task \<and> na_MessageText row = notify \<and>
      na_State row = ''retryable'' \<and> na_NextAttemptAt row = Some now \<and> na_AttemptCount row = 0 \<and> attempt_checks row \<and>
      find_attempt new d = None \<and> (\<forall>r \<in> set refs. \<not> reserved (t_ID task) r d) \<and>
      (t_ID task, na_OccurrenceKey row) \<notin> (\<lambda>a. (na_TaskID a, na_OccurrenceKey a)) ` set (notification_attempts d)"
proof -
  obtain refs where refs: "normalizeTaskDeliveryRefs (pending @ [\<lparr>d_InputID = ''task_result'',
      d_ItemKey = ''version:'' @ decimal (nat version)\<rparr>]) = Inr refs"
    using assms by (auto simp: queue_result_def split: sum.splits)
  let ?row = "\<lparr>na_ID = new, na_TaskID = t_ID task, na_UserID = t_UserID task,
    na_OccurrenceKey = taskNotificationOccurrenceKey sha (sortTaskDeliveryRefs refs), na_MessageText = notify,
    na_State = ''retryable'', na_Receipt = None, na_ErrorMessage = Some ''delivery_pending'', na_AttemptCount = 0,
    na_NextAttemptAt = Some now, na_LastAttemptAt = now, na_CreatedAt = now, na_ResolvedAt = None\<rparr>"
  show ?thesis
    using assms refs
    by (intro exI [of _ ?row] exI [of _ refs]) (auto simp: queue_result_def Let_def item_of_def [abs_def] split: if_splits)
qed

lemma journal_effect_queue:
  assumes "queue_result sha now new task notify pending version d0 = Inr d'" and same: "journal_same d d0"
  shows "journal_effect d d'"
proof -
  obtain row refs where refs: "normalizeTaskDeliveryRefs (pending @ [\<lparr>d_InputID = ''task_result'',
        d_ItemKey = ''version:'' @ decimal (nat version)\<rparr>]) = Inr refs"
    and d': "d' = d0\<lparr>notification_attempts := notification_attempts d0 @ [row],
        notification_items := notification_items d0 @ map (item_of row) (sortTaskDeliveryRefs refs)\<rparr>"
    and row: "na_ID row = new" "na_TaskID row = t_ID task" "na_State row = ''retryable''" "attempt_checks row"
      "find_attempt new d0 = None" "\<forall>r \<in> set refs. \<not> reserved (t_ID task) r d0"
      "(t_ID task, na_OccurrenceKey row) \<notin> (\<lambda>a. (na_TaskID a, na_OccurrenceKey a)) ` set (notification_attempts d0)"
    using queue_result_Inr [OF assms(1)] by blast
  have "refs \<noteq> []" using result_ref_kept [OF refs] by auto
  moreover have "reserved i r d0 = reserved i r d" for i r using same by (simp add: reserved_def journal_same_def)
  ultimately show ?thesis
    using same row normalize_distinct [OF refs]
    by (intro eff_new [of d' d row "sortTaskDeliveryRefs refs"]) (auto simp: d' journal_same_def find_attempt_None)
qed

lemma ClaimRetryableNotification_Inr:
  assumes "ClaimRetryableNotification coll locked now d = Inr (Some it, d')"
  shows "\<exists>a \<in> set (notification_attempts d). retry_due now a \<and> \<not> locked (na_ID a) \<and>
    in_ID it = na_ID a \<and> in_TaskID it = na_TaskID a \<and> in_UserID it = na_UserID a \<and> in_Text it = na_MessageText a \<and>
    set (in_Refs it) = {ni_Ref n | n. n \<in> set (notification_items d) \<and> ni_AttemptID n = na_ID a} \<and> in_Refs it \<noteq> [] \<and>
    d' = d\<lparr>notification_attempts := update_where (\<lambda>b. na_ID b = na_ID a) (dispatched_row now) (notification_attempts d)\<rparr>"
proof -
  let ?due = "sort_key (\<lambda>a. (the (na_NextAttemptAt a), na_CreatedAt a, na_ID a))
      (filter (\<lambda>a. retry_due now a \<and> \<not> locked (na_ID a)) (notification_attempts d))"
  obtain a rest where a: "?due = a # rest"
  proof (cases ?due)
    case Nil
    show ?thesis using assms unfolding ClaimRetryableNotification_def Nil by (simp split: if_splits)
  next
    case (Cons a rest) then show ?thesis by (rule that)
  qed
  have mem: "a \<in> set (filter (\<lambda>a. retry_due now a \<and> \<not> locked (na_ID a)) (notification_attempts d))"
    using arg_cong [OF a, of set] by (simp only: set_sort) simp
  let ?refs = "sort_key (\<lambda>r. (coll (d_InputID r), coll (d_ItemKey r)))
    (map ni_Ref (filter (\<lambda>n. ni_AttemptID n = na_ID a) (notification_items d)))"
  have "?refs \<noteq> []" and it: "it = \<lparr>in_ID = na_ID a, in_TaskID = na_TaskID a, in_UserID = na_UserID a,
      in_Text = na_MessageText a, in_Refs = ?refs\<rparr>"
    and d': "d' = d\<lparr>notification_attempts := update_where (\<lambda>b. na_ID b = na_ID a) (dispatched_row now) (notification_attempts d)\<rparr>"
    using assms unfolding ClaimRetryableNotification_def a Let_def by (simp_all split: if_splits)
  moreover have "set ?refs = {ni_Ref n | n. n \<in> set (notification_items d) \<and> ni_AttemptID n = na_ID a}" by auto
  ultimately show ?thesis using mem by (intro bexI [of _ a]) (simp_all only: it d' set_filter mem_Collect_eq TaskNotificationIntent.simps simp_thms)
qed

lemma dispatched_move: "na_State a = ''retryable'' \<Longrightarrow> attempt_move a (dispatched_row now a)"
  by (auto simp: attempt_simps dispatched_row_def)

interpretation attempt_rows: keyed_rows na_ID .

lemma journal_effect_claim:
  assumes "ClaimRetryableNotification coll locked now d = Inr (v, d')" and keys: "distinct (map na_ID (notification_attempts d))"
  shows "journal_effect d d'"
proof (cases v)
  case None
  then have "d' = d"
    using assms(1) unfolding ClaimRetryableNotification_def Let_def by (simp split: if_splits list.splits)
  then show ?thesis by (simp add: journal_effect_same journal_same_def)
next
  case (Some it)
  obtain a where a: "a \<in> set (notification_attempts d)" "retry_due now a"
    and d': "d' = d\<lparr>notification_attempts := update_where (\<lambda>b. na_ID b = na_ID a) (dispatched_row now) (notification_attempts d)\<rparr>"
    using ClaimRetryableNotification_Inr [OF assms(1) [unfolded Some]] by blast
  show ?thesis
  proof (rule eff_move [of d' "\<lambda>b. na_ID b = na_ID a" "dispatched_row now"])
    fix b assume b: "b \<in> set (notification_attempts d)" "na_ID b = na_ID a"
    then have "b = a" using attempt_rows.same_key_same_row [OF keys] a(1) by blast
    then show "attempt_move b (dispatched_row now b)"
      using a(2) by (auto simp: retry_due_def intro: dispatched_move)
  qed (auto simp: d' dispatched_row_def)
qed

lemma journal_effect_mark: "MarkDelivered i refs d = Inr (u, d') \<Longrightarrow> journal_effect d d'"
  by (rule eff_move [of d' "\<lambda>_. False" "\<lambda>a. a"])
    (auto simp: insert_deliveries_def update_where_idle fold_deliveries elim!: MarkDelivered_Inr)

lemma task_op_effect:
  assumes "task_op ext clk d d'" and "distinct (map na_ID (notification_attempts d))"
  shows "journal_effect d d'"
  using task_op_journal [OF assms(1)]
proof
  assume "journal_op ext clk d d'"
  then show ?thesis
    by cases (auto intro: journal_effect_queue journal_effect_mark journal_effect_begin journal_effect_resolving
        journal_effect_claim [OF _ assms(2)])
qed (rule journal_effect_same)

section \<open>The invariant of the journal\<close>

text \<open>
  The keys of the two journal tables (an attempt, its occurrence and every reserved reference are
  unique), their CHECK constraints, the foreign keys of the items, and the ledger: the references of a
  sent attempt are delivered.
\<close>

definition journal_ok :: "db \<Rightarrow> bool" where
  "journal_ok d \<longleftrightarrow> distinct (map na_ID (notification_attempts d)) \<and>
     distinct (map (\<lambda>a. (na_TaskID a, na_OccurrenceKey a)) (notification_attempts d)) \<and>
     distinct (map (\<lambda>n. (ni_TaskID n, ni_Ref n)) (notification_items d)) \<and>
     (\<forall>a \<in> set (notification_attempts d). attempt_checks a) \<and>
     (\<forall>a \<in> set (notification_attempts d). \<exists>n \<in> set (notification_items d). ni_AttemptID n = na_ID a) \<and>
     (\<forall>n \<in> set (notification_items d). \<exists>a \<in> set (notification_attempts d). na_ID a = ni_AttemptID n \<and> na_TaskID a = ni_TaskID n) \<and>
     (\<forall>a \<in> set (notification_attempts d). na_State a = ''sent'' \<longrightarrow>
        (\<forall>n \<in> set (notification_items d). ni_AttemptID n = na_ID a \<longrightarrow>
           (ni_TaskID n, ni_Ref n) \<in> set (agent_task_deliveries d)))"

lemma journal_okI:
  assumes "distinct (map na_ID (notification_attempts d))"
    "distinct (map (\<lambda>a. (na_TaskID a, na_OccurrenceKey a)) (notification_attempts d))"
    "distinct (map (\<lambda>n. (ni_TaskID n, ni_Ref n)) (notification_items d))"
    "\<And>a. a \<in> set (notification_attempts d) \<Longrightarrow> attempt_checks a"
    "\<And>a. a \<in> set (notification_attempts d) \<Longrightarrow> \<exists>n \<in> set (notification_items d). ni_AttemptID n = na_ID a"
    "\<And>n. n \<in> set (notification_items d) \<Longrightarrow>
       \<exists>a \<in> set (notification_attempts d). na_ID a = ni_AttemptID n \<and> na_TaskID a = ni_TaskID n"
    "\<And>a n. a \<in> set (notification_attempts d) \<Longrightarrow> na_State a = ''sent'' \<Longrightarrow> n \<in> set (notification_items d) \<Longrightarrow>
       ni_AttemptID n = na_ID a \<Longrightarrow> (ni_TaskID n, ni_Ref n) \<in> set (agent_task_deliveries d)"
  shows "journal_ok d"
  using assms by (simp add: journal_ok_def)

lemma journal_okD:
  assumes "journal_ok d"
  shows "distinct (map na_ID (notification_attempts d))"
    "distinct (map (\<lambda>a. (na_TaskID a, na_OccurrenceKey a)) (notification_attempts d))"
    "distinct (map (\<lambda>n. (ni_TaskID n, ni_Ref n)) (notification_items d))"
    "a \<in> set (notification_attempts d) \<Longrightarrow> attempt_checks a"
    "a \<in> set (notification_attempts d) \<Longrightarrow> \<exists>n \<in> set (notification_items d). ni_AttemptID n = na_ID a"
    "n \<in> set (notification_items d) \<Longrightarrow>
       \<exists>a \<in> set (notification_attempts d). na_ID a = ni_AttemptID n \<and> na_TaskID a = ni_TaskID n"
    "a \<in> set (notification_attempts d) \<Longrightarrow> na_State a = ''sent'' \<Longrightarrow> n \<in> set (notification_items d) \<Longrightarrow>
       ni_AttemptID n = na_ID a \<Longrightarrow> (ni_TaskID n, ni_Ref n) \<in> set (agent_task_deliveries d)"
  using assms by (simp_all add: journal_ok_def)

lemma attempt_moveD:
  assumes "attempt_move a a'"
  shows "na_ID a' = na_ID a" "na_TaskID a' = na_TaskID a" "na_OccurrenceKey a' = na_OccurrenceKey a"
    "na_MessageText a' = na_MessageText a" "na_UserID a' = na_UserID a" "attempt_checks a \<Longrightarrow> attempt_checks a'"
    "na_State a \<in> {''dispatching'', ''retryable''}"
  using assms by (auto simp: attempt_move_def)

lemma map_update_moved:
  assumes "\<And>a. a \<in> set rows \<Longrightarrow> p a \<Longrightarrow> h (f a) = h a"
  shows "map h (update_where p f rows) = map h rows"
  using assms by (induction rows) auto

lemma journal_ok_effect:
  assumes ok: "journal_ok d" and eff: "journal_effect d d'"
  shows "journal_ok d'"
  using eff
proof cases
  case (eff_move p f)
  have keys: "map na_ID (notification_attempts d') = map na_ID (notification_attempts d)"
      "map (\<lambda>a. (na_TaskID a, na_OccurrenceKey a)) (notification_attempts d') =
       map (\<lambda>a. (na_TaskID a, na_OccurrenceKey a)) (notification_attempts d)"
    unfolding eff_move(1) by (rule map_update_moved; simp add: attempt_moveD [OF eff_move(2)])+
  have row: "\<exists>b \<in> set (notification_attempts d). na_ID a = na_ID b \<and> na_TaskID a = na_TaskID b \<and>
      attempt_checks a \<and> (a = b \<or> attempt_move b a \<and> p b \<and> a = f b)" if "a \<in> set (notification_attempts d')" for a
    using that ok eff_move(2) attempt_moveD unfolding eff_move(1) set_update_where journal_ok_def by blast
  have kept: "\<exists>a \<in> set (notification_attempts d'). na_ID a = na_ID b \<and> na_TaskID a = na_TaskID b"
    if "b \<in> set (notification_attempts d)" for b
    using that attempt_moveD(1,2) [OF eff_move(2)] unfolding eff_move(1) set_update_where by blast
  have sent: "(ni_TaskID n, ni_Ref n) \<in> set (agent_task_deliveries d')"
    if "a \<in> set (notification_attempts d')" "na_State a = ''sent''" "n \<in> set (notification_items d)" "ni_AttemptID n = na_ID a" for a n
  proof -
    from row [OF that(1)]
    obtain b where "b \<in> set (notification_attempts d)" "na_ID a = na_ID b" "a = b \<or> p b \<and> a = f b" by blast
    then show ?thesis using that journal_okD(7) [OF ok, of b n] eff_move(4,5) by auto
  qed
  show ?thesis
  proof (rule journal_okI)
    show "distinct (map na_ID (notification_attempts d'))"
      "distinct (map (\<lambda>a. (na_TaskID a, na_OccurrenceKey a)) (notification_attempts d'))"
      "distinct (map (\<lambda>n. (ni_TaskID n, ni_Ref n)) (notification_items d'))"
      unfolding keys eff_move(3) by (rule journal_okD [OF ok])+
  next
    fix a assume a: "a \<in> set (notification_attempts d')"
    show "attempt_checks a" using row [OF a] by blast
    from row [OF a] obtain b where "b \<in> set (notification_attempts d)" "na_ID a = na_ID b" by blast
    then show "\<exists>n \<in> set (notification_items d'). ni_AttemptID n = na_ID a"
      using journal_okD(5) [OF ok] eff_move(3) by simp
  next
    fix n assume "n \<in> set (notification_items d')"
    then obtain b where b: "b \<in> set (notification_attempts d)" "na_ID b = ni_AttemptID n" "na_TaskID b = ni_TaskID n"
      using journal_okD(6) [OF ok] eff_move(3) by auto
    from kept [OF b(1)] show "\<exists>a \<in> set (notification_attempts d'). na_ID a = ni_AttemptID n \<and> na_TaskID a = ni_TaskID n"
      by (simp only: b(2,3))
  next
    fix a n assume "a \<in> set (notification_attempts d')" "na_State a = ''sent''" "n \<in> set (notification_items d')" "ni_AttemptID n = na_ID a"
    then show "(ni_TaskID n, ni_Ref n) \<in> set (agent_task_deliveries d')" using sent eff_move(3) by simp
  qed
next
  case (eff_new row refs)
  have fresh: "n \<in> set (notification_items d) \<Longrightarrow> ni_AttemptID n \<noteq> na_ID row" for n
    using ok eff_new(9) unfolding journal_ok_def by (metis imageI)
  have "distinct (map (\<lambda>n. (ni_TaskID n, ni_Ref n)) (notification_items d'))"
    using ok eff_new(5,6) by (auto simp: eff_new(2) journal_ok_def distinct_map inj_on_def item_of_def reserved_def)
  moreover have "\<exists>n \<in> set (notification_items d'). ni_AttemptID n = na_ID row \<and> ni_TaskID n = na_TaskID row"
    using eff_new(4) by (cases refs) (auto simp: eff_new(2) item_of_def)
  moreover have "n \<in> set (notification_items d) \<or> ni_AttemptID n = na_ID row \<and> ni_TaskID n = na_TaskID row"
    if "n \<in> set (notification_items d')" for n
    using that by (auto simp: eff_new(2) item_of_def)
  ultimately show ?thesis
    using ok eff_new(7-10) fresh unfolding journal_ok_def eff_new(1,3)
    by (intro conjI) (auto simp: eff_new(2) item_of_def)
qed

lemma journal_ok_initial: "journal_ok empty_db"
  by (simp add: journal_ok_def empty_db_def)

lemma journal_ok_op: "journal_ok d \<Longrightarrow> task_op ext clk d d' \<Longrightarrow> journal_ok d'"
  using task_op_effect journal_ok_effect unfolding journal_ok_def by blast

interpretation journal_system: invariant_system initial_system "system_step ext" "\<lambda>s. journal_ok (snd s)"
  for ext
  by unfold_locales (auto simp: initial_system_def journal_ok_initial elim!: system_stepE intro: journal_ok_op)

section \<open>Runs\<close>

text \<open>Over any run the attempts of a consistent journal only move along \<open>attempt_move\<close>, and items stay.\<close>

lemma journal_effect_row:
  assumes "journal_effect d d'" "a \<in> set (notification_attempts d)"
  shows "\<exists>a' \<in> set (notification_attempts d'). a' = a \<or> attempt_move a a'"
  using assms(1)
proof cases
  case (eff_move p f)
  show ?thesis
    using assms(2) eff_move(2) [OF assms(2)] unfolding eff_move(1) set_update_where by (cases "p a") auto
qed (use assms(2) in auto)

lemma journal_effect_items: "journal_effect d d' \<Longrightarrow> set (notification_items d) \<subseteq> set (notification_items d')"
  by (cases rule: journal_effect.cases) auto

lemma run_journal_rel:
  assumes run: "(system_step ext)\<^sup>*\<^sup>* (t, d) (t', d')" and ok: "journal_ok d"
    and base: "R d" and step: "\<And>x y. journal_ok x \<Longrightarrow> journal_effect x y \<Longrightarrow> R x \<Longrightarrow> R y"
  shows "R d'"
proof -
  have "journal_ok (snd s) \<and> R (snd s)" if "(system_step ext)\<^sup>*\<^sup>* (t, d) s" for s
    using that
  proof (induction rule: rtranclp_induct)
    case (step s u)
    obtain clk where "task_op ext clk (snd s) (snd u)" using step.hyps(2) by (auto elim!: system_stepE)
    moreover have "distinct (map na_ID (notification_attempts (snd s)))" using step.IH by (simp add: journal_ok_def)
    ultimately have "journal_effect (snd s) (snd u)" by (rule task_op_effect)
    then show ?case using step.IH journal_ok_effect assms(4) by blast
  qed (simp add: ok base)
  from this [OF run] show ?thesis by simp
qed

end
