(* ===== verification/Delivery_Log.thy ===== *)
theory Delivery_Log
  imports Journal_System
begin

text \<open>
  The task system with a ghost log of what the journal allowed its callers to send. A caller may call
  the transport once after \<open>BeginNotificationAttempt\<close> answered that it created the attempt, and once
  after \<open>ClaimRetryableNotification\<close> handed it out; \<open>DeferNotificationAttempt\<close> records that the
  transport reported the message as definitely not sent. The log is newest first.
\<close>

datatype delivery_event = Granted uuid string | Deferred uuid

inductive delivery_op :: "external \<Rightarrow> clock \<Rightarrow> db \<Rightarrow> delivery_event option \<Rightarrow> db \<Rightarrow> bool"
  for ext :: external and clk :: clock where
  e_begin: "BeginNotificationAttempt (ext_sha256 ext) (clk 0) new i user msg refs d = Inr ((a, created), d') \<Longrightarrow>
     delivery_op ext clk d (if created then Some (Granted a msg) else None) d'"
| e_claim: "ClaimRetryableNotification (ext_coll ext) locked (clk 0) d = Inr (v, d') \<Longrightarrow>
     delivery_op ext clk d (map_option (\<lambda>it. Granted (in_ID it) (in_Text it)) v) d'"
| e_defer: "DeferNotificationAttempt i reason retry_at d = Inr (u, d') \<Longrightarrow> delivery_op ext clk d (Some (Deferred i)) d'"
| e_confirm: "ConfirmNotificationAttempt (ext_unmarshal ext) (ext_iso ext) (clk 0) i receipt d = Inr (u, d') \<Longrightarrow>
     delivery_op ext clk d None d'"
| e_uncertain: "MarkNotificationUncertain (clk 0) i reason d = Inr (u, d') \<Longrightarrow> delivery_op ext clk d None d'"
| e_reject: "RejectNotificationAttempt (clk 0) i reason d = Inr (u, d') \<Longrightarrow> delivery_op ext clk d None d'"
| e_mark: "MarkDelivered i refs d = Inr (u, d') \<Longrightarrow> delivery_op ext clk d None d'"
| e_queue: "task_op ext clk d d' \<Longrightarrow> journal_same d d0 \<Longrightarrow>
     queue_result (ext_sha256 ext) (clk 0) new task notify pending version d0 = Inr d' \<Longrightarrow> delivery_op ext clk d None d'"
| e_other: "task_op ext clk d d' \<Longrightarrow> journal_same d d' \<Longrightarrow> delivery_op ext clk d None d'"

text \<open>The labels lose no transaction and add none.\<close>

lemma delivery_op_task_op: "delivery_op ext clk d ev d' \<Longrightarrow> task_op ext clk d d'"
  by (cases rule: delivery_op.cases) (auto intro: task_op.intros)

lemma task_op_delivery_op:
  assumes "task_op ext clk d d'"
  shows "\<exists>ev. delivery_op ext clk d ev d'"
  using task_op_journal [OF assms]
proof
  assume "journal_op ext clk d d'"
  then show ?thesis
  proof cases
    case (j_begin new i user msg refs v)
    then show ?thesis by (cases v) (auto intro: e_begin)
  qed (auto intro: delivery_op.intros assms)
qed (auto intro: e_other assms)

type_synonym logged_system = "gotime \<times> db \<times> delivery_event list"

inductive logged_step :: "external \<Rightarrow> logged_system \<Rightarrow> logged_system \<Rightarrow> bool" for ext :: external where
  logged_transaction: "t \<le> clk 0 \<Longrightarrow> mono clk \<Longrightarrow> (\<And>k. clk k \<le> t') \<Longrightarrow> delivery_op ext clk d ev d' \<Longrightarrow>
     logged_step ext (t, d, log) (t', d', (case ev of None \<Rightarrow> log | Some e \<Rightarrow> e # log))"

definition logged_start :: "logged_system \<Rightarrow> bool" where
  "logged_start s \<longleftrightarrow> (\<exists>t. s = (t, empty_db, []))"

abbreviation logged :: "external \<Rightarrow> gotime \<Rightarrow> db \<Rightarrow> delivery_event list \<Rightarrow> bool" where
  "logged ext t d log \<equiv> reachable_from logged_start (logged_step ext) (t, d, log)"

inductive_cases logged_stepE: "logged_step ext s s'"

lemma logged_reachable:
  assumes "reachable_from logged_start (logged_step ext) s"
  shows "reachable_from initial_system (system_step ext) (fst s, fst (snd s))"
  using assms
proof (induction rule: reachable_from.induct)
  case (reach_start s)
  then show ?case by (auto simp: logged_start_def initial_system_def intro: reachable_from.reach_start)
next
  case (reach_step s u)
  from reach_step.hyps(2) have "system_step ext (fst s, fst (snd s)) (fst u, fst (snd u))"
  proof cases
    case (logged_transaction t clk t' d ev d' log)
    then show ?thesis using transaction [of t clk t' ext d d'] delivery_op_task_op by simp
  qed
  with reach_step.IH show ?case by (rule reachable_from.reach_step)
qed

lemma reachable_logged: "reachable_store ext t d \<Longrightarrow> \<exists>log. logged ext t d log"
proof (induction "(t, d)" arbitrary: t d rule: reachable_from.induct)
  case reach_start
  then have "logged ext t d []" by (auto simp: initial_system_def logged_start_def intro: reachable_from.reach_start)
  then show ?case ..
next
  case (reach_step s)
  obtain t0 d0 where s: "s = (t0, d0)" by (cases s)
  from reach_step.hyps(3) obtain clk where clk: "t0 \<le> clk 0" "mono clk" "\<And>k. clk k \<le> t" "task_op ext clk d0 d"
    unfolding s by (auto elim!: system_stepE)
  obtain ev where "delivery_op ext clk d0 ev d" using task_op_delivery_op [OF clk(4)] by blast
  with reach_step.hyps(2) [OF s] clk(1-3) show ?case by (blast intro: reachable_from.reach_step logged_transaction)
qed

section \<open>The invariant of the log\<close>

primrec event_id :: "delivery_event \<Rightarrow> uuid" where
  "event_id (Granted i m) = i"
| "event_id (Deferred i) = i"

definition last_event :: "uuid \<Rightarrow> delivery_event list \<Rightarrow> delivery_event option" where
  "last_event i log = List.find (\<lambda>e. event_id e = i) log"

lemma last_event_Cons: "last_event i (e # log) = (if event_id e = i then Some e else last_event i log)"
  by (simp add: last_event_def)

text \<open>A grant is the first event of its attempt, or follows a deferral, with the same text.\<close>

primrec log_ok :: "delivery_event list \<Rightarrow> bool" where
  "log_ok [] \<longleftrightarrow> True"
| "log_ok (e # log) \<longleftrightarrow> log_ok log \<and>
     (case e of Granted i m \<Rightarrow> (last_event i log = None \<or> last_event i log = Some (Deferred i)) \<and>
          (\<forall>m'. Granted i m' \<in> set log \<longrightarrow> m' = m)
      | Deferred i \<Rightarrow> True)"

definition log_inv :: "logged_system \<Rightarrow> bool" where
  "log_inv s \<longleftrightarrow> (case s of (t, d, log) \<Rightarrow> journal_ok d \<and> log_ok log \<and>
     (\<forall>i m. last_event i log = Some (Granted i m) \<longrightarrow>
        (\<forall>a \<in> set (notification_attempts d). na_ID a = i \<longrightarrow> na_State a \<noteq> ''retryable'')) \<and>
     (\<forall>e \<in> set log. \<exists>a \<in> set (notification_attempts d). na_ID a = event_id e \<and>
        (\<forall>i m. e = Granted i m \<longrightarrow> na_MessageText a = m)))"

lemma log_invI:
  assumes "journal_ok d" "log_ok log"
    "\<And>i m a. last_event i log = Some (Granted i m) \<Longrightarrow> a \<in> set (notification_attempts d) \<Longrightarrow> na_ID a = i \<Longrightarrow>
       na_State a \<noteq> ''retryable''"
    "\<And>e. e \<in> set log \<Longrightarrow> \<exists>a \<in> set (notification_attempts d). na_ID a = event_id e \<and>
       (\<forall>i m. e = Granted i m \<longrightarrow> na_MessageText a = m)"
  shows "log_inv (t, d, log)"
  unfolding log_inv_def prod.case by (intro conjI allI ballI impI assms) assumption+

lemma log_invD:
  assumes "log_inv (t, d, log)"
  shows "journal_ok d" "log_ok log"
    "last_event i log = Some (Granted i m) \<Longrightarrow> a \<in> set (notification_attempts d) \<Longrightarrow> na_ID a = i \<Longrightarrow>
       na_State a \<noteq> ''retryable''"
    "e \<in> set log \<Longrightarrow> \<exists>a \<in> set (notification_attempts d). na_ID a = event_id e \<and>
       (\<forall>i m. e = Granted i m \<longrightarrow> na_MessageText a = m)"
  using assms unfolding log_inv_def prod.case by blast+

lemma log_inv_events:
  assumes "log_inv (t, d, log)" "journal_effect d d'" "e \<in> set log"
  shows "\<exists>a \<in> set (notification_attempts d'). na_ID a = event_id e \<and> (\<forall>i m. e = Granted i m \<longrightarrow> na_MessageText a = m)"
proof -
  obtain a where a: "a \<in> set (notification_attempts d)" "na_ID a = event_id e" "\<forall>i m. e = Granted i m \<longrightarrow> na_MessageText a = m"
    using log_invD(4) [OF assms(1,3)] by blast
  from journal_effect_row [OF assms(2) a(1)] obtain a' where "a' \<in> set (notification_attempts d')" "a' = a \<or> attempt_move a a'"
    by blast
  then show ?thesis using a(2,3) attempt_moveD(1,4) by metis
qed

text \<open>Transactions that put no attempt back for a retry.\<close>

definition no_deferral :: "db \<Rightarrow> db \<Rightarrow> bool" where
  "no_deferral d d' \<longleftrightarrow> (\<forall>a' \<in> set (notification_attempts d'). na_State a' = ''retryable'' \<longrightarrow>
     na_ID a' \<notin> na_ID ` set (notification_attempts d) \<or>
     (\<exists>a \<in> set (notification_attempts d). na_ID a = na_ID a' \<and> na_State a = ''retryable''))"

lemma no_deferral_resolve:
  assumes "\<And>a. na_State (f a) \<noteq> ''retryable''" and "notification_attempts d0 = notification_attempts d"
  shows "no_deferral d (resolve_dispatching i f d0)"
  using assms by (auto simp: no_deferral_def resolve_dispatching_def set_update_where)

lemma no_deferral_same: "notification_attempts d' = notification_attempts d \<Longrightarrow> no_deferral d d'"
  by (auto simp: no_deferral_def)

lemma silent_no_deferral:
  assumes "delivery_op ext clk d None d'"
  shows "no_deferral d d'"
  using assms
proof cases
  case (e_begin new i user msg refs a created)
  then show ?thesis using BeginNotificationAttempt_Inr by (fastforce intro: no_deferral_same split: if_splits)
next
  case (e_claim locked v)
  then have "ClaimRetryableNotification (ext_coll ext) locked (clk 0) d = Inr (None, d')" by simp
  then have "d' = d" unfolding ClaimRetryableNotification_def Let_def by (simp split: if_splits list.splits)
  then show ?thesis by (simp add: no_deferral_same)
next
  case e_confirm
  from e_confirm(1) show ?thesis
    by (rule Confirm_Inr) (auto intro: no_deferral_same no_deferral_resolve simp: sent_row_def)
next
  case e_uncertain
  from e_uncertain(1) show ?thesis
    by (rule Uncertain_Inr) (auto intro: no_deferral_same no_deferral_resolve simp: closed_row_def)
next
  case e_reject
  from e_reject(1) show ?thesis
    by (rule Reject_Inr) (auto intro: no_deferral_same no_deferral_resolve simp: closed_row_def)
next
  case e_mark
  then show ?thesis by (auto simp: insert_deliveries_def intro!: no_deferral_same elim!: MarkDelivered_Inr)
next
  case (e_queue d0 new task notify pending version)
  then obtain row where "notification_attempts d' = notification_attempts d @ [row]" "na_ID row \<notin> na_ID ` set (notification_attempts d)"
    using queue_result_Inr [OF e_queue(3)] by (auto simp: journal_same_def find_attempt_None)
  then show ?thesis by (auto simp: no_deferral_def)
next
  case e_other
  then show ?thesis by (simp add: journal_same_def no_deferral_same)
qed

lemma log_inv_silent:
  assumes inv: "log_inv (t, d, log)" and op: "delivery_op ext clk d None d'"
  shows "log_inv (t', d', log)"
proof -
  note ok = log_invD(1) [OF inv]
  have eff: "journal_effect d d'" using task_op_effect [OF delivery_op_task_op [OF op] journal_okD(1) [OF ok]] .
  have "na_State a' \<noteq> ''retryable''"
    if last: "last_event i log = Some (Granted i m)" and a': "a' \<in> set (notification_attempts d')" "na_ID a' = i" for i m a'
  proof
    assume "na_State a' = ''retryable''"
    then have "i \<notin> na_ID ` set (notification_attempts d) \<or>
        (\<exists>a \<in> set (notification_attempts d). na_ID a = i \<and> na_State a = ''retryable'')"
      using silent_no_deferral [OF op] a' unfolding no_deferral_def by auto
    then consider "i \<notin> na_ID ` set (notification_attempts d)"
      | a where "a \<in> set (notification_attempts d)" "na_ID a = i" "na_State a = ''retryable''" by blast
    then show False
    proof cases
      case 1
      have "Granted i m \<in> set log" using last by (auto simp: last_event_def find_Some_iff)
      from log_invD(4) [OF inv this] obtain a where "a \<in> set (notification_attempts d)" "na_ID a = i" by auto
      with 1 show ?thesis by blast
    next
      case 2 then show ?thesis using log_invD(3) [OF inv last] by blast
    qed
  qed
  then show ?thesis
    by (intro log_invI journal_ok_effect [OF ok eff] log_invD(2) [OF inv] log_inv_events [OF inv eff])
qed

lemma log_inv_grant:
  assumes inv: "log_inv (t, d, log)" and eff: "journal_effect d d'"
    and row: "row \<in> set (notification_attempts d')" "na_ID row = i" "na_MessageText row = m" "na_State row = ''dispatching''"
    and last: "last_event i log = None \<or> last_event i log = Some (Deferred i)"
    and msgs: "\<And>m'. Granted i m' \<in> set log \<Longrightarrow> m' = m"
    and rest: "\<And>a. a \<in> set (notification_attempts d') \<Longrightarrow> na_ID a \<noteq> i \<Longrightarrow> a \<in> set (notification_attempts d)"
  shows "log_inv (t', d', Granted i m # log)"
proof -
  note ok = journal_ok_effect [OF log_invD(1) [OF inv] eff]
  have only: "a = row" if "a \<in> set (notification_attempts d')" "na_ID a = i" for a
    using attempt_rows.same_key_same_row [OF journal_okD(1) [OF ok]] that row(1,2) by blast
  have "na_State a \<noteq> ''retryable''"
    if "last_event j (Granted i m # log) = Some (Granted j m')" "a \<in> set (notification_attempts d')" "na_ID a = j" for j m' a
  proof (cases "j = i")
    case True then show ?thesis using only that row(4) by auto
  next
    case False
    then have "last_event j log = Some (Granted j m')" "a \<in> set (notification_attempts d)"
      using that rest by (auto simp: last_event_Cons)
    then show ?thesis using log_invD(3) [OF inv] that(3) by blast
  qed
  moreover have "\<exists>a \<in> set (notification_attempts d'). na_ID a = event_id e \<and> (\<forall>i m. e = Granted i m \<longrightarrow> na_MessageText a = m)"
    if "e \<in> set (Granted i m # log)" for e
    using that log_inv_events [OF inv eff] row(1-3) by auto
  moreover have "log_ok (Granted i m # log)" using log_invD(2) [OF inv] last msgs by auto
  ultimately show ?thesis by (intro log_invI ok)
qed

lemma last_event_absent:
  assumes "log_inv (t, d, log)" "i \<notin> na_ID ` set (notification_attempts d)"
  shows "last_event i log = None" "Granted i m \<notin> set log"
proof -
  have "event_id e \<noteq> i" if "e \<in> set log" for e
    using log_invD(4) [OF assms(1) that] assms(2) by (metis imageI)
  then show "last_event i log = None" by (auto simp: last_event_def find_None_iff)
  from \<open>\<And>e. e \<in> set log \<Longrightarrow> event_id e \<noteq> i\<close> [of "Granted i m"] show "Granted i m \<notin> set log" by auto
qed

lemma last_event_retryable:
  assumes "log_inv (t, d, log)" "a \<in> set (notification_attempts d)" "na_State a = ''retryable''"
  shows "last_event (na_ID a) log = None \<or> last_event (na_ID a) log = Some (Deferred (na_ID a))"
proof (cases "last_event (na_ID a) log")
  case (Some e)
  then have "event_id e = na_ID a" by (auto simp: last_event_def find_Some_iff)
  then show ?thesis using log_invD(3) [OF assms(1) _ assms(2)] assms(3) Some by (cases e) auto
qed simp

lemma log_inv_text:
  assumes "log_inv (t, d, log)" "a \<in> set (notification_attempts d)" "Granted (na_ID a) m' \<in> set log"
  shows "m' = na_MessageText a"
proof -
  obtain b where "b \<in> set (notification_attempts d)" "na_ID b = na_ID a" "na_MessageText b = m'"
    using log_invD(4) [OF assms(1,3)] by auto
  then show ?thesis
    using attempt_rows.same_key_same_row [OF journal_okD(1) [OF log_invD(1) [OF assms(1)]]] assms(2) by metis
qed

lemma log_inv_begin:
  assumes inv: "log_inv (t, d, log)"
    and op: "BeginNotificationAttempt sha now new i user msg refs d = Inr ((a, True), d')"
  shows "log_inv (t', d', Granted a msg # log)"
proof -
  obtain row rs where d': "d' = d\<lparr>notification_attempts := notification_attempts d @ [row],
        notification_items := notification_items d @ map (item_of row) (sortTaskDeliveryRefs rs)\<rparr>"
    and row: "a = new" "na_ID row = new" "na_MessageText row = msg" "na_State row = ''dispatching''" "find_attempt new d = None"
    using BeginNotificationAttempt_Inr [OF op] by blast
  have absent: "a \<notin> na_ID ` set (notification_attempts d)" using row(1,5) by (simp add: find_attempt_None)
  show ?thesis
  proof (rule log_inv_grant [OF inv journal_effect_begin [OF op]])
    show "row \<in> set (notification_attempts d')" "na_ID row = a" "na_MessageText row = msg" "na_State row = ''dispatching''"
      by (simp_all add: d' row)
  next
    fix b assume "b \<in> set (notification_attempts d')" "na_ID b \<noteq> a"
    then show "b \<in> set (notification_attempts d)" by (auto simp: d' row)
  qed (use last_event_absent [OF inv absent] in auto)
qed

lemma log_inv_claim:
  assumes inv: "log_inv (t, d, log)"
    and op: "ClaimRetryableNotification coll locked now d = Inr (Some it, d')"
  shows "log_inv (t', d', Granted (in_ID it) (in_Text it) # log)"
proof -
  note keys = journal_okD(1) [OF log_invD(1) [OF inv]]
  obtain a where a: "a \<in> set (notification_attempts d)" "retry_due now a" "in_ID it = na_ID a" "in_Text it = na_MessageText a"
    and d': "d' = d\<lparr>notification_attempts := update_where (\<lambda>b. na_ID b = na_ID a) (dispatched_row now) (notification_attempts d)\<rparr>"
    using ClaimRetryableNotification_Inr [OF op] by blast
  have retry: "na_State a = ''retryable''" using a(2) by (simp add: retry_due_def)
  show ?thesis
  proof (rule log_inv_grant [OF inv journal_effect_claim [OF op keys]])
    show "dispatched_row now a \<in> set (notification_attempts d')" using a(1) by (auto simp: d' set_update_where)
    show "na_ID (dispatched_row now a) = in_ID it" "na_MessageText (dispatched_row now a) = in_Text it"
      "na_State (dispatched_row now a) = ''dispatching''"
      by (simp_all add: dispatched_row_def a(3,4))
  next
    show "last_event (in_ID it) log = None \<or> last_event (in_ID it) log = Some (Deferred (in_ID it))"
      using last_event_retryable [OF inv a(1) retry] by (simp add: a(3))
  next
    fix m' assume "Granted (in_ID it) m' \<in> set log"
    then show "m' = in_Text it" using log_inv_text [OF inv a(1)] by (simp add: a(3,4))
  next
    fix b assume "b \<in> set (notification_attempts d')" "na_ID b \<noteq> in_ID it"
    then show "b \<in> set (notification_attempts d)" by (auto simp: d' set_update_where a(3) dispatched_row_def)
  qed
qed

lemma log_inv_defer:
  assumes inv: "log_inv (t, d, log)" and op: "DeferNotificationAttempt i reason retry_at d = Inr (u, d')"
  shows "log_inv (t', d', Deferred i # log)"
proof -
  note ok = journal_ok_effect [OF log_invD(1) [OF inv] journal_effect_resolving(3) [OF op]]
  note events = log_inv_events [OF inv journal_effect_resolving(3) [OF op]]
  have "\<exists>a \<in> set (notification_attempts d). na_ID a = i"
    using op by (auto simp: DeferNotificationAttempt_def find_attempt_def dest: find_SomeD split: if_splits option.splits)
  then obtain a where "a \<in> set (notification_attempts d)" "na_ID a = i" by blast
  then have exists: "\<exists>a \<in> set (notification_attempts d'). na_ID a = i"
    using journal_effect_row [OF journal_effect_resolving(3) [OF op]] attempt_moveD(1) by metis
  have "na_State b \<noteq> ''retryable''"
    if "last_event j (Deferred i # log) = Some (Granted j m)" "b \<in> set (notification_attempts d')" "na_ID b = j" for j m b
  proof -
    have "j \<noteq> i" and last: "last_event j log = Some (Granted j m)" using that(1) by (auto simp: last_event_Cons split: if_splits)
    from op have "b \<in> set (notification_attempts d)"
      by (rule Defer_Inr) (use that(2,3) \<open>j \<noteq> i\<close> in \<open>auto simp: resolve_dispatching_def set_update_where deferred_row_def\<close>)
    then show ?thesis using log_invD(3) [OF inv last] that(3) by blast
  qed
  moreover have "\<exists>a \<in> set (notification_attempts d'). na_ID a = event_id e \<and> (\<forall>i m. e = Granted i m \<longrightarrow> na_MessageText a = m)"
    if "e \<in> set (Deferred i # log)" for e
    using that events exists by auto
  moreover have "log_ok (Deferred i # log)" using log_invD(2) [OF inv] by simp
  ultimately show ?thesis by (intro log_invI ok)
qed

lemma log_inv_step:
  assumes inv: "log_inv (t, d, log)" and op: "delivery_op ext clk d ev d'"
  shows "log_inv (t', d', (case ev of None \<Rightarrow> log | Some e \<Rightarrow> e # log))"
proof (cases ev)
  case None
  then show ?thesis using log_inv_silent [OF inv] op by simp
next
  case (Some e)
  from op [unfolded Some] show ?thesis
  proof cases
    case (e_begin new i user msg refs a created)
    then show ?thesis using log_inv_begin [OF inv] Some by (cases created) auto
  next
    case (e_claim locked v)
    then show ?thesis using log_inv_claim [OF inv] Some by (cases v) auto
  next
    case e_defer
    then show ?thesis using log_inv_defer [OF inv] Some by auto
  qed
qed

interpretation delivery_log: invariant_system logged_start "logged_step ext" log_inv
  for ext
proof
  fix s assume "logged_start s" then show "log_inv s"
    by (auto simp: logged_start_def log_inv_def journal_ok_initial last_event_def)
next
  fix s s' assume "log_inv s" and "logged_step ext s s'"
  then show "log_inv s'" by (auto elim!: logged_stepE intro: log_inv_step)
qed

text \<open>Reading the invariant off a log with two grants of one attempt.\<close>

lemma log_ok_append: "log_ok (xs @ ys) \<Longrightarrow> log_ok ys"
  by (induction xs) auto

lemma log_ok_two_grants:
  assumes "log_ok (zs @ Granted i m' # ys @ Granted i m # xs)"
  shows "m' = m \<and> Deferred i \<in> set ys"
proof -
  have ok: "log_ok (Granted i m' # ys @ Granted i m # xs)" using log_ok_append [OF assms] .
  then have "m = m'" by auto
  moreover have "last_event i (ys @ Granted i m # xs) = Some (Deferred i) \<Longrightarrow> Deferred i \<in> set ys"
    by (induction ys) (auto simp: last_event_Cons split: if_splits)
  moreover have "last_event i (ys @ Granted i m # xs) \<noteq> None"
    by (auto simp: last_event_def find_None_iff)
  ultimately show ?thesis using ok by auto
qed

end
