(* ===== verification/Go_Error.thy ===== *)
theory Go_Error
  imports Task_Model Go_Time
begin

text \<open>
  Go errors as the program builds and inspects them: values that wrap other values, searched by
  \<open>errors.Is\<close> and \<open>errors.As\<close>. The wrappers are those of \<open>internal/core/agent.go\<close> (how a failed
  notification may be retried), \<open>internal/core/task_retry.go\<close> (HTTP failures and the retry policy) and
  \<open>internal/agenttask/graph.go\<close> (retryable steps).
\<close>

section \<open>Error values\<close>

datatype sentinel =
    ContextCanceled
  | ContextDeadlineExceeded
  | UnexpectedEOF
  | ECONNRESET
  | ECONNREFUSED
  | EPIPE
  | ErrGraphWaiting
  | ErrGraphResearchBudget
  | ErrTaskVerificationUnavailable

text \<open>
  \<open>Wrapped p e\<close> is \<open>fmt.Errorf("p%w", e)\<close>, \<open>WrappedBy p e q e'\<close> is \<open>fmt.Errorf("p%wq%v", e, e')\<close>, \<open>Joined\<close> is
  \<open>errors.Join\<close> of non-nil errors. \<open>NetError\<close> is a \<open>net.Error\<close> with its two flags; its text, like that of
  a store error, comes from code outside the program.
\<close>

datatype goerror =
    Plain string
  | Sentinel sentinel
  | Store store_error
  | NetError string bool bool
  | HTTPFailure int duration goerror
  | DefinitelyNotSentError goerror
  | PermanentlyNotSentError goerror
  | RetryDelayError goerror duration
  | RetryableStepError goerror duration
  | Wrapped string goerror
  | WrappedBy string goerror string goerror
  | Joined "goerror list"

text \<open>The errors reached by \<open>Unwrap\<close>, in the order \<open>errors.Is\<close> and \<open>errors.As\<close> visit them.\<close>

fun chain :: "goerror \<Rightarrow> goerror list" where
  "chain (HTTPFailure c dl e) = HTTPFailure c dl e # chain e"
| "chain (DefinitelyNotSentError e) = DefinitelyNotSentError e # chain e"
| "chain (PermanentlyNotSentError e) = PermanentlyNotSentError e # chain e"
| "chain (RetryDelayError e dl) = RetryDelayError e dl # chain e"
| "chain (RetryableStepError e dl) = RetryableStepError e dl # chain e"
| "chain (Wrapped p e) = Wrapped p e # chain e"
| "chain (WrappedBy p e q e') = WrappedBy p e q e' # chain e"
| "chain (Joined es) = Joined es # concat (map chain es)"
| "chain e = [e]"

definition errors_Is :: "goerror \<Rightarrow> goerror \<Rightarrow> bool" where
  "errors_Is e target \<longleftrightarrow> target \<in> set (chain e)"

definition errors_As :: "(goerror \<Rightarrow> 'a option) \<Rightarrow> goerror \<Rightarrow> 'a option" where
  "errors_As target e = (case List.map_filter target (chain e) of [] \<Rightarrow> None | x # _ \<Rightarrow> Some x)"

text \<open>\<open>Error()\<close>; \<open>msg\<close> gives the texts of sentinels and store errors.\<close>

fun error_text :: "(goerror \<Rightarrow> string) \<Rightarrow> goerror \<Rightarrow> string" where
  "error_text msg (Plain s) = s"
| "error_text msg (NetError s _ _) = s"
| "error_text msg (HTTPFailure _ _ e) = error_text msg e"
| "error_text msg (DefinitelyNotSentError e) = error_text msg e"
| "error_text msg (PermanentlyNotSentError e) = error_text msg e"
| "error_text msg (RetryDelayError e _) = error_text msg e"
| "error_text msg (RetryableStepError e _) = error_text msg e"
| "error_text msg (Wrapped p e) = p @ error_text msg e"
| "error_text msg (WrappedBy p e q e') = p @ error_text msg e @ q @ error_text msg e'"
| "error_text msg (Joined es) = join [CHR 0x0A] (map (error_text msg) es)"
| "error_text msg e = msg e"

section \<open>Notification failures\<close>

text \<open>A nil error passes every marker unchanged; the model applies the markers to errors only.\<close>

definition IsDefinitelyNotSent :: "goerror \<Rightarrow> bool" where
  "IsDefinitelyNotSent e \<longleftrightarrow> errors_As (\<lambda>x. case x of DefinitelyNotSentError _ \<Rightarrow> Some () | _ \<Rightarrow> None) e \<noteq> None"

definition DefinitelyNotSent :: "goerror \<Rightarrow> goerror" where
  "DefinitelyNotSent e = (if IsDefinitelyNotSent e then e else DefinitelyNotSentError e)"

definition IsPermanentlyNotSent :: "goerror \<Rightarrow> bool" where
  "IsPermanentlyNotSent e \<longleftrightarrow> errors_As (\<lambda>x. case x of PermanentlyNotSentError _ \<Rightarrow> Some () | _ \<Rightarrow> None) e \<noteq> None"

definition PermanentlyNotSent :: "goerror \<Rightarrow> goerror" where
  "PermanentlyNotSent e = (if IsPermanentlyNotSent e then e else PermanentlyNotSentError (DefinitelyNotSent e))"

definition DefinitelyNotSentAfter :: "goerror \<Rightarrow> duration \<Rightarrow> goerror" where
  "DefinitelyNotSentAfter e delay = (if IsPermanentlyNotSent e then e else DefinitelyNotSent (RetryDelayError e delay))"

definition NotificationRetryDelay :: "goerror \<Rightarrow> duration option" where
  "NotificationRetryDelay e = (if IsPermanentlyNotSent e then None
     else errors_As (\<lambda>x. case x of RetryDelayError _ delay \<Rightarrow> Some delay | _ \<Rightarrow> None) e)"

lemma errors_As_simps:
  "errors_As t (Wrapped p e) = (case t (Wrapped p e) of None \<Rightarrow> errors_As t e | Some x \<Rightarrow> Some x)"
  "errors_As t (DefinitelyNotSentError e) = (case t (DefinitelyNotSentError e) of None \<Rightarrow> errors_As t e | Some x \<Rightarrow> Some x)"
  "errors_As t (PermanentlyNotSentError e) = (case t (PermanentlyNotSentError e) of None \<Rightarrow> errors_As t e | Some x \<Rightarrow> Some x)"
  "errors_As t (RetryDelayError e dl) = (case t (RetryDelayError e dl) of None \<Rightarrow> errors_As t e | Some x \<Rightarrow> Some x)"
  "errors_As t (HTTPFailure c dl e) = (case t (HTTPFailure c dl e) of None \<Rightarrow> errors_As t e | Some x \<Rightarrow> Some x)"
  "errors_As t (Plain s) = t (Plain s)"
  by (simp_all add: errors_As_def map_filter_simps split: option.splits)

text \<open>
  The markers classify as they promise: a permanent rejection is also a definite one and exposes no
  delay; a definite rejection with a delay exposes exactly that delay unless it is permanent; and marking
  never turns an error into one of another class.
\<close>

theorem not_sent_markers:
  "IsPermanentlyNotSent (PermanentlyNotSent e) \<and> IsDefinitelyNotSent (PermanentlyNotSentError (DefinitelyNotSent e)) \<and>
   NotificationRetryDelay (PermanentlyNotSent e) = None \<and>
   IsDefinitelyNotSent (DefinitelyNotSent e) \<and>
   IsPermanentlyNotSent (DefinitelyNotSent e) = IsPermanentlyNotSent e \<and>
   IsPermanentlyNotSent (DefinitelyNotSentAfter e delay) = IsPermanentlyNotSent e \<and>
   NotificationRetryDelay (DefinitelyNotSentAfter e delay) = (if IsPermanentlyNotSent e then None else Some delay) \<and>
   NotificationRetryDelay (DefinitelyNotSent e) = NotificationRetryDelay e"
  by (auto simp: IsPermanentlyNotSent_def PermanentlyNotSent_def IsDefinitelyNotSent_def DefinitelyNotSent_def
      DefinitelyNotSentAfter_def NotificationRetryDelay_def errors_As_simps)

section \<open>The retry policy\<close>

text \<open>
  \<open>strconv.ParseInt\<close> in base ten for 64 bits: an optional sign and at least one digit, in range.
  Underscores are allowed only for base zero.
\<close>

definition parse_int64 :: "string \<Rightarrow> int option" where
  "parse_int64 s =
     (let sign = (case s of c # _ \<Rightarrow> if c = CHR ''-'' then - 1 else 1 | [] \<Rightarrow> 1);
          ds = (case s of c # r \<Rightarrow> if c = CHR ''-'' \<or> c = CHR ''+'' then r else s | [] \<Rightarrow> []);
          n = sign * number ds
      in if ds = [] \<or> \<not> list_all digit ds \<or> n < min_duration \<or> n > max_duration then None
         else Some n)"

text \<open>\<open>parse_time\<close> is \<open>http.ParseTime\<close> and \<open>now\<close> the clock of \<open>time.Until\<close>.\<close>

definition NewHTTPFailure :: "(string \<Rightarrow> gotime option) \<Rightarrow> gotime \<Rightarrow> int \<Rightarrow> string \<Rightarrow> goerror \<Rightarrow> goerror" where
  "NewHTTPFailure parse_time now code retryAfter cause =
     HTTPFailure code
       (case parse_int64 (trim_space retryAfter) of
          Some seconds \<Rightarrow>
            if seconds > 0 then
              (if seconds > max_duration div second then max_duration else seconds * second)
            else (case parse_time retryAfter of None \<Rightarrow> 0 | Some at \<Rightarrow> max 0 (time_sub at now))
        | None \<Rightarrow> (case parse_time retryAfter of None \<Rightarrow> 0 | Some at \<Rightarrow> max 0 (time_sub at now)))
       cause"

text \<open>The delay of a \<open>Retry-After\<close> header never overflows a duration.\<close>

lemma NewHTTPFailure_delay:
  "\<exists>delay. NewHTTPFailure parse_time now code retryAfter cause = HTTPFailure code delay cause \<and> 0 \<le> delay \<and> delay \<le> max_duration"
  by (auto simp: NewHTTPFailure_def time_sub_def split: option.splits)

text \<open>Whether an error may be retried, and after which delay.\<close>

definition TaskRetryPolicy :: "goerror option \<Rightarrow> bool \<times> duration" where
  "TaskRetryPolicy err =
     (case err of
        None \<Rightarrow> (False, 0)
      | Some e \<Rightarrow>
          if errors_Is e (Sentinel ContextCanceled) \<or> errors_Is e (Store ErrTaskClaimLost) then (False, 0)
          else case errors_As (\<lambda>x. case x of HTTPFailure c dl _ \<Rightarrow> Some (c, dl) | _ \<Rightarrow> None) e of
              Some (code, delay) \<Rightarrow> (code = 408 \<or> code = 429 \<or> (500 \<le> code \<and> code \<le> 599), delay)
            | None \<Rightarrow>
                if errors_Is e (Sentinel ContextDeadlineExceeded) \<or> errors_Is e (Sentinel UnexpectedEOF) \<or>
                   errors_Is e (Sentinel ECONNRESET) \<or> errors_Is e (Sentinel ECONNREFUSED) \<or> errors_Is e (Sentinel EPIPE)
                  then (True, 0)
                else case errors_As (\<lambda>x. case x of NetError _ timeout temporary \<Rightarrow> Some (timeout, temporary) | _ \<Rightarrow> None) e of
                    Some (timeout, temporary) \<Rightarrow> (timeout \<or> temporary, 0)
                  | None \<Rightarrow> (False, 0))"

text \<open>
  The retry policy of an HTTP failure: the status alone decides (request timeout, too many requests
  or a server error), the delay is the header's in whole seconds, saturated at the longest duration and
  never negative; a cancelled run or a lost claim is never retried, whatever the error says.
\<close>

theorem TaskRetryPolicy_http:
  assumes "parse_int64 (trim_space retryAfter) = Some seconds" and "0 < seconds"
  shows "TaskRetryPolicy (Some (Wrapped p (NewHTTPFailure parse_time now code retryAfter cause))) =
    (if errors_Is cause (Sentinel ContextCanceled) \<or> errors_Is cause (Store ErrTaskClaimLost) then (False, 0)
     else (code \<in> {408, 429} \<union> {500..599}, min max_duration (seconds * second)))"
  using assms by (auto simp: TaskRetryPolicy_def NewHTTPFailure_def errors_Is_def errors_As_simps)

theorem TaskRetryPolicy_http_witness:
  "TaskRetryPolicy (Some (Wrapped ''call: '' (NewHTTPFailure (\<lambda>_. None) 0 429 '' 7 '' (Plain ''busy'')))) = (True, 7 * second)"
proof -
  have "parse_int64 (trim_space '' 7 '') = Some 7" by code_simp
  from TaskRetryPolicy_http [OF this, of "''call: ''" "\<lambda>_. None" 0 429 "Plain ''busy''"]
  show ?thesis by (simp add: errors_Is_def)
qed

end
