(* ===== verification/Notify_Delivery.thy ===== *)
theory Notify_Delivery
  imports Delivery_Log Go_Error
begin

text \<open>
  Sending a task notification: \<open>deliverTaskNotification\<close>, \<open>resolveTaskNotificationAttempt\<close>, the outbox
  worker (\<open>drainRetryableNotifications\<close>, \<open>retryTaskNotification\<close>) of \<open>internal/agenttask/scheduler.go\<close>
  and the check at the send boundary of \<open>internal/agenttask/delivery_validation.go\<close>. The transport is a
  parameter; every call of it is recorded with the attempt it belongs to, so theorems can count calls.
\<close>

section \<open>Senders\<close>

record provider_call =
  pc_Attempt :: "uuid option"
  pc_User :: uuid
  pc_Text :: string

type_synonym transport = "uuid option \<Rightarrow> uuid \<Rightarrow> string \<Rightarrow> goerror + TaskNotificationReceipt"

text \<open>A sender answers and tells which transport calls it made.\<close>

type_synonym sender = "uuid option \<Rightarrow> uuid \<Rightarrow> string \<Rightarrow> (goerror + TaskNotificationReceipt) \<times> provider_call list"

definition direct_sender :: "transport \<Rightarrow> sender" where
  "direct_sender notify att user msg = (notify att user msg, [\<lparr>pc_Attempt = att, pc_User = user, pc_Text = msg\<rparr>])"

text \<open>
  \<open>validator\<close> is the host's \<open>TaskDeliveryValidator\<close>, absent when the scheduler has no dependencies, no
  configuration or none set. The request context the code builds carries identities only.
\<close>

definition validatedTaskNotifier ::
    "(string \<Rightarrow> uuid option) \<Rightarrow> (AgentTask \<Rightarrow> TaskDeliveryRef list \<Rightarrow> goerror + bool) option \<Rightarrow> transport option \<Rightarrow>
     AgentTask \<Rightarrow> TaskDeliveryRef list \<Rightarrow> sender option" where
  "validatedTaskNotifier parse_uuid validator notify task refs =
     (case notify of
        None \<Rightarrow> None
      | Some nf \<Rightarrow> Some (\<lambda>att user msg.
          if user \<noteq> t_UserID task then
            (Inl (PermanentlyNotSent (Plain ''delivery user does not match task user'')), [])
          else case TaskOriginFromConfig parse_uuid (t_Config task) of
              BadConfig \<Rightarrow> (Inl (PermanentlyNotSent (Wrapped ''task delivery origin: '' (Plain ''config''))), [])
            | BadOrigin \<Rightarrow> (Inl (PermanentlyNotSent (Wrapped ''task delivery origin: '' (Plain ''origin''))), [])
            | _ \<Rightarrow>
                (case (refs, validator) of
                   ([], _) \<Rightarrow> direct_sender nf att user msg
                 | (_, None) \<Rightarrow> direct_sender nf att user msg
                 | (_, Some validate) \<Rightarrow>
                     (case validate task refs of
                        Inl e \<Rightarrow> (Inl (DefinitelyNotSent (Wrapped ''validate notification occurrences: '' e)), [])
                      | Inr current \<Rightarrow>
                          if \<not> current then
                            (Inl (PermanentlyNotSent (Plain ''notification occurrences are no longer current'')), [])
                          else direct_sender nf att user msg))))"

section \<open>Resolving an attempt\<close>

definition maxNotificationConfirmAttempts :: nat where "maxNotificationConfirmAttempts = 3"
definition defaultNotificationRetryDelay :: duration where "defaultNotificationRetryDelay = minute"
definition minNotificationRetryDelay :: duration where "minNotificationRetryDelay = second"

text \<open>
  The loop that confirms a delivered attempt; \<open>expired k\<close> tells whether the context has run out after
  the \<open>k\<close>-th remaining try.
\<close>

fun confirm_tries ::
    "external \<Rightarrow> gotime \<Rightarrow> (nat \<Rightarrow> bool) \<Rightarrow> nat \<Rightarrow> uuid \<Rightarrow> TaskNotificationReceipt \<Rightarrow> store_error option \<Rightarrow> db \<Rightarrow> store_error option \<times> db" where
  "confirm_tries ext now expired 0 i receipt err d = (err, d)"
| "confirm_tries ext now expired (Suc k) i receipt err d =
     (case ConfirmNotificationAttempt (ext_unmarshal ext) (ext_iso ext) now i receipt d of
        Inr (_, d') \<Rightarrow> (None, d')
      | Inl e \<Rightarrow> if expired k then (Some e, d) else confirm_tries ext now expired k i receipt (Some e) d)"

text \<open>The moment of the retry after a definite failure.\<close>

definition retry_delay :: "goerror \<Rightarrow> duration" where
  "retry_delay e = (case NotificationRetryDelay e of
     None \<Rightarrow> defaultNotificationRetryDelay
   | Some delay \<Rightarrow> if delay < minNotificationRetryDelay then minNotificationRetryDelay else delay)"

text \<open>
  The result is whether the transport delivered, the error and the database; a deferred attempt also
  reports its retry time (\<open>notificationDeferredError\<close>).
\<close>

record resolution =
  res_Delivered :: bool
  res_Error :: "goerror option"
  res_RetryAt :: "gotime option"
  res_DB :: db

definition resolveTaskNotificationAttempt ::
    "external \<Rightarrow> (goerror \<Rightarrow> string) \<Rightarrow> gotime \<Rightarrow> (nat \<Rightarrow> bool) \<Rightarrow> uuid \<Rightarrow> goerror + TaskNotificationReceipt \<Rightarrow> db \<Rightarrow> resolution" where
  "resolveTaskNotificationAttempt ext msg now expired i answer d =
     (case answer of
        Inr receipt \<Rightarrow>
          (case confirm_tries ext now expired maxNotificationConfirmAttempts i receipt None d of
             (None, d') \<Rightarrow> \<lparr>res_Delivered = True, res_Error = None, res_RetryAt = None, res_DB = d'\<rparr>
           | (Some e, d') \<Rightarrow> \<lparr>res_Delivered = True,
               res_Error = Some (Wrapped ''confirm notification attempt after 3 tries: '' (Store e)), res_RetryAt = None, res_DB = d'\<rparr>)
      | Inl notifyErr \<Rightarrow>
          if IsPermanentlyNotSent notifyErr then
            (case RejectNotificationAttempt now i (error_text msg notifyErr) d of
               Inl e \<Rightarrow> \<lparr>res_Delivered = False, res_Error = Some (WrappedBy ''notify permanently not sent: '' notifyErr
                    ''; reject notification attempt: '' (Store e)), res_RetryAt = None, res_DB = d\<rparr>
             | Inr (_, d') \<Rightarrow> \<lparr>res_Delivered = False, res_Error = Some (Wrapped ''notify permanently not sent: '' notifyErr),
                    res_RetryAt = None, res_DB = d'\<rparr>)
          else if IsDefinitelyNotSent notifyErr then
            (let retryAt = now + retry_delay notifyErr in
             case DeferNotificationAttempt i (error_text msg notifyErr) retryAt d of
               Inl e \<Rightarrow> \<lparr>res_Delivered = False, res_Error = Some (WrappedBy ''notify definitely not sent: '' notifyErr
                    ''; defer notification attempt: '' (Store e)), res_RetryAt = None, res_DB = d\<rparr>
             | Inr (_, d') \<Rightarrow> \<lparr>res_Delivered = False, res_Error = Some (Wrapped ''notify definitely not sent: '' notifyErr),
                    res_RetryAt = Some retryAt, res_DB = d'\<rparr>)
          else
            (case MarkNotificationUncertain now i (error_text msg notifyErr) d of
               Inl e \<Rightarrow> \<lparr>res_Delivered = False, res_Error = Some (WrappedBy ''notify uncertain: '' notifyErr
                    ''; mark notification uncertain: '' (Store e)), res_RetryAt = None, res_DB = d\<rparr>
             | Inr (_, d') \<Rightarrow> \<lparr>res_Delivered = False, res_Error = Some (Wrapped ''notify uncertain: '' notifyErr),
                    res_RetryAt = None, res_DB = d'\<rparr>))"

section \<open>Delivering\<close>

text \<open>\<open>Handled\<close> and \<open>Delivered\<close> are the two flags of \<open>taskNotificationOutcome\<close>.\<close>

record delivery =
  dl_Handled :: bool
  dl_Delivered :: bool
  dl_Error :: "goerror option"
  dl_Calls :: "provider_call list"
  dl_DB :: db

text \<open>
  \<open>journal\<close> tells whether a journal is installed. \<open>new\<close> is the id the database would give the attempt,
  \<open>clk 0\<close> the clock of the reservation and \<open>clk 1\<close> that of its resolution.
\<close>

definition deliverTaskNotification ::
    "external \<Rightarrow> (goerror \<Rightarrow> string) \<Rightarrow> clock \<Rightarrow> (nat \<Rightarrow> bool) \<Rightarrow> uuid \<Rightarrow> sender option \<Rightarrow> bool \<Rightarrow> uuid \<Rightarrow> uuid \<Rightarrow>
     string \<Rightarrow> TaskDeliveryRef list \<Rightarrow> db \<Rightarrow> delivery" where
  "deliverTaskNotification ext msg clk expired new notify journal taskID userID body refs d =
     (if trim_space body = [] \<or> trim_space body = ''[no-op]'' then
        \<lparr>dl_Handled = True, dl_Delivered = False,
         dl_Error = (if refs \<noteq> [] then Some (Plain ''keyed notification has no deliverable text'') else None),
         dl_Calls = [], dl_DB = d\<rparr>
      else if refs = [] then
        (case notify of
           None \<Rightarrow> \<lparr>dl_Handled = False, dl_Delivered = False, dl_Error = Some (Plain ''notify: sender unavailable''),
                   dl_Calls = [], dl_DB = d\<rparr>
         | Some nf \<Rightarrow>
             (case nf None userID body of
                (Inl e, calls) \<Rightarrow> \<lparr>dl_Handled = False, dl_Delivered = False, dl_Error = Some (Wrapped ''notify: '' e),
                                  dl_Calls = calls, dl_DB = d\<rparr>
              | (Inr _, calls) \<Rightarrow> \<lparr>dl_Handled = True, dl_Delivered = True, dl_Error = None, dl_Calls = calls, dl_DB = d\<rparr>))
      else if \<not> journal then
        \<lparr>dl_Handled = True, dl_Delivered = False, dl_Error = Some (Plain ''begin notification attempt: journal unavailable''),
         dl_Calls = [], dl_DB = d\<rparr>
      else case BeginNotificationAttempt (ext_sha256 ext) (clk 0) new taskID userID body refs d of
          Inl e \<Rightarrow> \<lparr>dl_Handled = True, dl_Delivered = False, dl_Error = Some (Wrapped ''begin notification attempt: '' (Store e)),
                   dl_Calls = [], dl_DB = d\<rparr>
        | Inr ((attemptID, created), d1) \<Rightarrow>
            if \<not> created then \<lparr>dl_Handled = True, dl_Delivered = False, dl_Error = None, dl_Calls = [], dl_DB = d1\<rparr>
            else
              (case notify of
                 None \<Rightarrow>
                   (let r = resolveTaskNotificationAttempt ext msg (clk 1) expired attemptID
                              (Inl (DefinitelyNotSent (Plain ''sender unavailable''))) d1
                    in \<lparr>dl_Handled = True, dl_Delivered = False, dl_Error = res_Error r, dl_Calls = [], dl_DB = res_DB r\<rparr>)
               | Some nf \<Rightarrow>
                   (case nf (Some attemptID) userID body of (answer, calls) \<Rightarrow>
                      let r = resolveTaskNotificationAttempt ext msg (clk 1) expired attemptID answer d1
                      in \<lparr>dl_Handled = True, dl_Delivered = res_Delivered r, dl_Error = res_Error r,
                          dl_Calls = calls, dl_DB = res_DB r\<rparr>)))"

text \<open>Whether a failed notification reruns the handler: only an unkeyed one of a scheduled task may.\<close>

datatype notificationFailureDisposition = notificationFailureProceed | notificationFailureRetry

definition classifyNotificationFailure ::
    "AgentTask \<Rightarrow> TaskDeliveryRef list \<Rightarrow> bool \<Rightarrow> goerror option \<Rightarrow> bool \<Rightarrow> notificationFailureDisposition" where
  "classifyNotificationFailure task pending delivered notifyErr retryUnkeyed =
     (if notifyErr = None then notificationFailureProceed
      else if pending \<noteq> [] then notificationFailureProceed
      else if retryUnkeyed \<and> t_Schedule task \<noteq> None \<and> \<not> delivered then notificationFailureRetry
      else notificationFailureProceed)"

section \<open>The outbox worker\<close>

text \<open>
  \<open>lookup\<close> is the task lookup, absent when neither the scheduler's own nor a store is installed. The
  completion hook after a delivery is the host's and changes no state of the program.
\<close>

definition stale_progress :: "AgentTask \<Rightarrow> TaskDeliveryRef list \<Rightarrow> bool" where
  "stale_progress task refs \<longleftrightarrow> (\<exists>r \<in> set refs. d_InputID r = ''task_lifecycle'' \<and> d_ItemKey r = ''progress'') \<and>
     t_Status task \<noteq> ''pending'' \<and> t_Status task \<noteq> ''running'' \<and> t_Status task \<noteq> ''paused''"

definition retryTaskNotification ::
    "external \<Rightarrow> (goerror \<Rightarrow> string) \<Rightarrow> (string \<Rightarrow> uuid option) \<Rightarrow> (AgentTask \<Rightarrow> TaskDeliveryRef list \<Rightarrow> goerror + bool) option \<Rightarrow>
     transport option \<Rightarrow> (uuid \<Rightarrow> goerror + AgentTask) option \<Rightarrow> gotime \<Rightarrow> (nat \<Rightarrow> bool) \<Rightarrow> TaskNotificationIntent \<Rightarrow> db \<Rightarrow>
     resolution \<times> provider_call list" where
  "retryTaskNotification ext msg parse_uuid validator notify lookup now expired intent d =
     (let resolve = (\<lambda>answer. resolveTaskNotificationAttempt ext msg now expired (in_ID intent) answer d) in
      case lookup of
        None \<Rightarrow> (resolve (Inl (DefinitelyNotSent (Plain ''task lookup unavailable''))), [])
      | Some get \<Rightarrow>
          (case get (in_TaskID intent) of
             Inl e \<Rightarrow> (resolve (Inl (DefinitelyNotSent
                        (Wrapped (''lookup task '' @ ext_uuid_text ext (in_TaskID intent) @ '': '') e))), [])
           | Inr task \<Rightarrow>
               if t_UserID task \<noteq> in_UserID intent then
                 (resolve (Inl (PermanentlyNotSent (Plain (''notification user '' @ ext_uuid_text ext (in_UserID intent) @
                    '' does not match task user '' @ ext_uuid_text ext (t_UserID task))))), [])
               else if stale_progress task (in_Refs intent) then
                 (resolve (Inl (PermanentlyNotSent (Plain ''task is already terminal''))), [])
               else case validatedTaskNotifier parse_uuid validator notify task (in_Refs intent) of
                   None \<Rightarrow> (resolve (Inl (DefinitelyNotSent (Plain ''sender unavailable''))), [])
                 | Some nf \<Rightarrow>
                     (case nf (Some (in_ID intent)) (in_UserID intent) (in_Text intent) of (answer, calls) \<Rightarrow>
                        (resolve answer, calls))))"

definition maxNotificationRetriesPerTick :: nat where "maxNotificationRetriesPerTick = 20"

text \<open>
  The bounded loop; \<open>now k\<close> is the clock while \<open>k\<close> more passes are allowed. It ends early when nothing is
  due or the claim fails.
\<close>

fun drain_loop ::
    "external \<Rightarrow> (goerror \<Rightarrow> string) \<Rightarrow> (string \<Rightarrow> uuid option) \<Rightarrow> (AgentTask \<Rightarrow> TaskDeliveryRef list \<Rightarrow> goerror + bool) option \<Rightarrow>
     transport option \<Rightarrow> (uuid \<Rightarrow> goerror + AgentTask) option \<Rightarrow> (uuid \<Rightarrow> bool) \<Rightarrow> gotime \<Rightarrow> (nat \<Rightarrow> gotime) \<Rightarrow> (nat \<Rightarrow> bool) \<Rightarrow>
     nat \<Rightarrow> db \<Rightarrow> provider_call list \<times> db" where
  "drain_loop ext msg parse_uuid validator notify lookup locked claimBefore now expired 0 d = ([], d)"
| "drain_loop ext msg parse_uuid validator notify lookup locked claimBefore now expired (Suc k) d =
     (case ClaimRetryableNotification (ext_coll ext) locked claimBefore d of
        Inl _ \<Rightarrow> ([], d)
      | Inr (None, d1) \<Rightarrow> ([], d1)
      | Inr (Some intent, d1) \<Rightarrow>
          (case retryTaskNotification ext msg parse_uuid validator notify lookup (now k) expired intent d1 of (r, calls) \<Rightarrow>
           case drain_loop ext msg parse_uuid validator notify lookup locked claimBefore now expired k (res_DB r) of (rest, d2) \<Rightarrow>
             (calls @ rest, d2)))"

definition drainRetryableNotifications where
  "drainRetryableNotifications ext msg parse_uuid validator notify lookup locked claimBefore now expired d =
     drain_loop ext msg parse_uuid validator notify lookup locked claimBefore now expired maxNotificationRetriesPerTick d"

end
