(* ===== verification/Delivery_Theorems.thy ===== *)
theory Delivery_Theorems
  imports Task_Sample Delivery_Log
begin

text \<open>
  What the notification journal guarantees over every run of the task system: reservations are unique,
  a resolved attempt never changes again, and a message is handed out for sending again only after the
  transport reported the previous try as not sent.
\<close>

section \<open>A sample delivery\<close>

definition mail_ref :: TaskDeliveryRef where
  "mail_ref = \<lparr>d_InputID = ''mail'', d_ItemKey = ''k1''\<rparr>"
definition mail_receipt :: TaskNotificationReceipt where
  "mail_receipt = \<lparr>rc_Transport = ''telegram'', rc_BotID = [], rc_ChatID = ''9'', rc_MessageID = ''17'', rc_DeliveredAt = 4 * second\<rparr>"

definition nt1 :: "(uuid \<times> bool) tx" where
  "nt1 = BeginNotificationAttempt (ext_sha256 sample_ext) (at 2 0) 50 1 7 ''hello'' [mail_ref] (committed tx1)"
definition nt2 :: "unit tx" where
  "nt2 = DeferNotificationAttempt 50 ''offline'' (3 * second) (committed nt1)"
definition nt3 :: "TaskNotificationIntent option tx" where
  "nt3 = ClaimRetryableNotification (ext_coll sample_ext) (\<lambda>_. False) (at 4 0) (committed nt2)"
definition nt4 :: "unit tx" where
  "nt4 = ConfirmNotificationAttempt (ext_unmarshal sample_ext) (ext_iso sample_ext) (at 5 0) 50 mail_receipt (committed nt3)"

lemma nt_commits: "commits nt1" "commits nt2" "commits nt3" "commits nt4"
  by code_simp+

lemma tx_value: "(case x of Inr (v, _) \<Rightarrow> v = w | _ \<Rightarrow> False) \<Longrightarrow> x = Inr (w, committed x)"
  by (auto simp: committed_def split: sum.splits prod.splits)

lemma nt_results: "nt1 = Inr ((50, True), committed nt1)"
  "nt3 = Inr (Some \<lparr>in_ID = 50, in_TaskID = 1, in_UserID = 7, in_Text = ''hello'', in_Refs = [mail_ref]\<rparr>, committed nt3)"
proof -
  have "(case nt1 of Inr (v, _) \<Rightarrow> v = (50, True) | _ \<Rightarrow> False)" by code_simp
  then show "nt1 = Inr ((50, True), committed nt1)" by (rule tx_value)
  have "(case nt3 of Inr (v, _) \<Rightarrow> v = Some \<lparr>in_ID = 50, in_TaskID = 1, in_UserID = 7, in_Text = ''hello'', in_Refs = [mail_ref]\<rparr>
     | _ \<Rightarrow> False)" by code_simp
  then show "nt3 = Inr (Some \<lparr>in_ID = 50, in_TaskID = 1, in_UserID = 7, in_Text = ''hello'', in_Refs = [mail_ref]\<rparr>, committed nt3)"
    by (rule tx_value)
qed

lemma log_tx:
  assumes "logged ext t d log" and "t \<le> n * second" and "delivery_op ext (at n) d ev d'"
  shows "logged ext (n * second) d' (case ev of None \<Rightarrow> log | Some e \<Rightarrow> e # log)"
  using assms(1)
proof (rule reach_step)
  show "logged_step ext (t, d, log) (n * second, d', (case ev of None \<Rightarrow> log | Some e \<Rightarrow> e # log))"
    by (rule logged_transaction [of t "at n"]) (use assms in \<open>simp_all add: at_def mono_def\<close>)
qed

lemma sample_logged:
  "logged sample_ext (4 * second) (committed nt3) [Granted 50 ''hello'', Deferred 50, Granted 50 ''hello'']"
  "logged sample_ext (5 * second) (committed nt4) [Granted 50 ''hello'', Deferred 50, Granted 50 ''hello'']"
proof -
  have 0: "logged sample_ext 0 empty_db []" by (rule reach_start) (simp add: logged_start_def)
  have "task_op sample_ext (at 1) empty_db (committed tx1)"
    using commits_Inr [OF tx_commits(1)] by (auto simp: tx1_def at_def intro: op_create)
  moreover have "journal_same empty_db (committed tx1)" unfolding journal_same_def by code_simp
  ultimately have "delivery_op sample_ext (at 1) empty_db None (committed tx1)" by (rule e_other)
  then have 1: "logged sample_ext (1 * second) (committed tx1) []" using log_tx [OF 0, of 1 None] by simp
  have "delivery_op sample_ext (at 2) (committed tx1) (Some (Granted 50 ''hello'')) (committed nt1)"
    using e_begin [of sample_ext "at 2" 50 1 7 "''hello''" "[mail_ref]" "committed tx1" 50 True "committed nt1"] nt_results(1)
    by (simp add: nt1_def)
  then have 2: "logged sample_ext (2 * second) (committed nt1) [Granted 50 ''hello'']"
    using log_tx [OF 1, of 2 "Some (Granted 50 ''hello'')"] by simp
  have "delivery_op sample_ext (at 3) (committed nt1) (Some (Deferred 50)) (committed nt2)"
    using commits_Inr [OF nt_commits(2)] by (auto simp: nt2_def intro: e_defer)
  then have 3: "logged sample_ext (3 * second) (committed nt2) [Deferred 50, Granted 50 ''hello'']"
    using log_tx [OF 2, of 3 "Some (Deferred 50)"] by simp
  have "delivery_op sample_ext (at 4) (committed nt2) (Some (Granted 50 ''hello'')) (committed nt3)"
    using e_claim [of sample_ext "\<lambda>_. False" "at 4" "committed nt2" _ "committed nt3"] nt_results(2)
    by (fastforce simp: nt3_def)
  then show 4: "logged sample_ext (4 * second) (committed nt3) [Granted 50 ''hello'', Deferred 50, Granted 50 ''hello'']"
    using log_tx [OF 3, of 4 "Some (Granted 50 ''hello'')"] by simp
  have "delivery_op sample_ext (at 5) (committed nt3) None (committed nt4)"
    using commits_Inr [OF nt_commits(4)] by (auto simp: nt4_def intro: e_confirm)
  then show "logged sample_ext (5 * second) (committed nt4) [Granted 50 ''hello'', Deferred 50, Granted 50 ''hello'']"
    using log_tx [OF 4, of 5 None] by simp
qed

lemma sample_sent: "reachable_store sample_ext (5 * second) (committed nt4)"
  using logged_reachable [OF sample_logged(2)] by simp

section \<open>Consistency\<close>

text \<open>
  C28. In every reachable state the journal is consistent: a delivery reference of a task is reserved
  by exactly one attempt, every attempt reserves at least one reference, a retry time is stored exactly
  for the retryable attempts and a receipt exactly for the sent ones, and everything a sent attempt
  reserved is in the delivery ledger.
\<close>

theorem journal_consistent:
  assumes "reachable_store ext t d" and "a \<in> set (notification_attempts d)"
  shows "(\<exists>n \<in> set (notification_items d). ni_AttemptID n = na_ID a) \<and>
    (\<forall>n \<in> set (notification_items d). ni_AttemptID n = na_ID a \<longrightarrow>
       (\<forall>m \<in> set (notification_items d). ni_TaskID m = ni_TaskID n \<and> ni_Ref m = ni_Ref n \<longrightarrow> m = n) \<and>
       (na_State a = ''sent'' \<longrightarrow> (ni_TaskID n, ni_Ref n) \<in> set (agent_task_deliveries d))) \<and>
    na_State a \<in> {''dispatching'', ''retryable'', ''sent'', ''uncertain'', ''rejected''} \<and>
    (na_State a = ''retryable'' \<longleftrightarrow> na_NextAttemptAt a \<noteq> None) \<and>
    (na_State a = ''sent'' \<longleftrightarrow> na_Receipt a \<noteq> None)"
proof -
  have ok: "journal_ok d" using journal_system.reachable_inv [OF assms(1)] by simp
  have "m = n" if "m \<in> set (notification_items d)" "n \<in> set (notification_items d)" "ni_TaskID m = ni_TaskID n" "ni_Ref m = ni_Ref n" for m n
    using journal_okD(3) [OF ok] that unfolding distinct_map inj_on_def by blast
  moreover have "attempt_checks a" by (rule journal_okD(4) [OF ok assms(2)])
  ultimately show ?thesis
    using journal_okD(5,7) [OF ok assms(2)] by (auto simp: attempt_checks_def)
qed

theorem journal_consistent_witness:
  "na_State (notification_attempts (committed nt4) ! 0) = ''sent'' \<and>
   na_Receipt (notification_attempts (committed nt4) ! 0) \<noteq> None"
proof -
  let ?a = "notification_attempts (committed nt4) ! 0"
  have "length (notification_attempts (committed nt4)) = 1" and sent: "na_State ?a = ''sent''" by code_simp+
  then have "?a \<in> set (notification_attempts (committed nt4))" by simp
  from journal_consistent [OF sample_sent this] sent show ?thesis by simp
qed

section \<open>Outcomes are final\<close>

text \<open>
  An attempt that is sent, uncertain or rejected is never written again: over any further
  transactions its row stays exactly as it is, and its reservations stay too.
\<close>

theorem resolved_is_final:
  assumes "reachable_store ext t d" and "(system_step ext)\<^sup>*\<^sup>* (t, d) (t', d')"
    and "a \<in> set (notification_attempts d)" and "na_State a \<in> {''sent'', ''uncertain'', ''rejected''}"
  shows "a \<in> set (notification_attempts d') \<and> set (notification_items d) \<subseteq> set (notification_items d')"
proof -
  have ok: "journal_ok d" using journal_system.reachable_inv [OF assms(1)] by simp
  have "a \<in> set (notification_attempts y)"
    if "journal_effect x y" "a \<in> set (notification_attempts x)" for x y
    using journal_effect_row [OF that] assms(4) by (auto dest: attempt_moveD(7))
  then have "a \<in> set (notification_attempts d')"
    using run_journal_rel [OF assms(2) ok, of "\<lambda>x. a \<in> set (notification_attempts x)"] assms(3) by blast
  moreover have "set (notification_items d) \<subseteq> set (notification_items d')"
    using run_journal_rel [OF assms(2) ok, of "\<lambda>x. set (notification_items d) \<subseteq> set (notification_items x)"] journal_effect_items by blast
  ultimately show ?thesis ..
qed

theorem resolved_is_final_witness:
  "notification_attempts (committed nt4) ! 0 \<in> set (notification_attempts (committed nt4))"
proof -
  let ?a = "notification_attempts (committed nt4) ! 0"
  have "length (notification_attempts (committed nt4)) = 1" and sent: "na_State ?a \<in> {''sent'', ''uncertain'', ''rejected''}"
    by code_simp+
  then have "?a \<in> set (notification_attempts (committed nt4))" by simp
  from resolved_is_final [OF sample_sent rtranclp.rtrancl_refl this sent] show ?thesis by blast
qed

section \<open>At most one open send\<close>

text \<open>
  C27. At most once: in any run, between two moments at which the journal lets a caller send the same
  attempt (a created attempt, or a claimed retry) there is a deferral of that attempt, so a message
  whose delivery is unclear is never sent again; and it is the same text each time.
\<close>

theorem resend_only_after_deferral:
  assumes "logged ext t d log" and "log = later @ Granted i m' # between @ Granted i m # earlier"
  shows "m' = m \<and> Deferred i \<in> set between"
proof -
  have "log_inv (t, d, log)" by (rule delivery_log.reachable_inv [OF assms(1)])
  then show ?thesis using log_invD(2) log_ok_two_grants assms(2) by blast
qed

theorem resend_only_after_deferral_witness:
  "''hello'' = ''hello'' \<and> Deferred 50 \<in> set [Deferred 50]"
  by (rule resend_only_after_deferral [OF sample_logged(2), of "[]" 50 "''hello''" "[Deferred 50]" "''hello''" "[]"]) simp

end
