(* ===== verification/Notify_Theorems.thy ===== *)
theory Notify_Theorems
  imports Notify_Delivery Delivery_Theorems
begin

text \<open>
  The sending code over the journal: how often the transport is called, for which attempts, and what
  becomes of them.
\<close>

section \<open>The effect of a resolution\<close>

lemma find_attempt_lookup: "find_attempt i d = attempt_rows.lookup i (notification_attempts d)"
  by (simp add: find_attempt_def attempt_rows.lookup_def)

text \<open>What the four journal operations write for an answer of the transport.\<close>

definition answered_row :: "gotime \<Rightarrow> goerror + TaskNotificationReceipt \<Rightarrow> NotificationAttempt \<Rightarrow> NotificationAttempt \<Rightarrow> bool" where
  "answered_row now answer a a' \<longleftrightarrow>
     (case answer of
        Inr receipt \<Rightarrow> (\<exists>j. a' = sent_row now j a)
      | Inl e \<Rightarrow> if IsPermanentlyNotSent e then \<exists>r. a' = closed_row ''rejected'' now r a
                 else if IsDefinitelyNotSent e then \<exists>r. a' = deferred_row (now + retry_delay e) r a
                 else \<exists>r. a' = closed_row ''uncertain'' now r a)"

lemma answered_row_key: "answered_row now answer a a' \<Longrightarrow> na_ID a' = na_ID a \<and> na_MessageText a' = na_MessageText a"
  by (auto simp: answered_row_def sent_row_def closed_row_def deferred_row_def split: sum.splits if_splits)

lemma confirm_tries_effect:
  assumes "confirm_tries ext now expired k i receipt err d = (res, d')"
  shows "journal_effect d d' \<and> (notification_attempts d' = notification_attempts d \<or>
    (\<exists>j. notification_attempts d' = update_where (\<lambda>a. na_ID a = i \<and> na_State a = ''dispatching'') (sent_row now j) (notification_attempts d)))"
  using assms
proof (induction k arbitrary: err)
  case 0
  then show ?case by (simp add: journal_effect_same journal_same_def)
next
  case (Suc k)
  show ?case
  proof (cases "ConfirmNotificationAttempt (ext_unmarshal ext) (ext_iso ext) now i receipt d")
    case (Inl e)
    then show ?thesis using Suc by (auto simp: journal_effect_same journal_same_def split: if_splits)
  next
    case (Inr b)
    then have op: "ConfirmNotificationAttempt (ext_unmarshal ext) (ext_iso ext) now i receipt d = Inr ((), d')"
      using Suc.prems by (cases b) auto
    from op have "notification_attempts d' = notification_attempts d \<or> (\<exists>j. notification_attempts d' =
        update_where (\<lambda>a. na_ID a = i \<and> na_State a = ''dispatching'') (sent_row now j) (notification_attempts d))"
      by (rule Confirm_Inr) (auto simp: resolve_dispatching_def)
    then show ?thesis using journal_effect_resolving(1) [OF op] by blast
  qed
qed

text \<open>The database after an operation whose error the caller only reports.\<close>

definition after :: "'a tx \<Rightarrow> db \<Rightarrow> db" where
  "after x d = (case x of Inl _ \<Rightarrow> d | Inr (_, d') \<Rightarrow> d')"

definition dispatching_to :: "uuid \<Rightarrow> (NotificationAttempt \<Rightarrow> NotificationAttempt \<Rightarrow> bool) \<Rightarrow> db \<Rightarrow> db \<Rightarrow> bool" where
  "dispatching_to i R d d' \<longleftrightarrow> journal_effect d d' \<and> (notification_attempts d' = notification_attempts d \<or>
     (\<exists>f. notification_attempts d' = update_where (\<lambda>a. na_ID a = i \<and> na_State a = ''dispatching'') f (notification_attempts d) \<and>
        (\<forall>a. R a (f a))))"

lemma dispatching_to_after:
  assumes "\<And>u d'. x = Inr (u, d') \<Longrightarrow> journal_effect d d' \<and> (d' = d \<or> (\<exists>f. d' = resolve_dispatching i f d \<and> (\<forall>a. R a (f a))))"
  shows "dispatching_to i R d (after x d)"
proof (cases x)
  case (Inl e)
  then show ?thesis by (simp add: after_def dispatching_to_def journal_effect_same journal_same_def)
next
  case (Inr b)
  then show ?thesis using assms [of "fst b" "snd b"]
    by (auto simp: after_def dispatching_to_def resolve_dispatching_def split: prod.splits)
qed

lemma resolving_rows:
  "dispatching_to i (\<lambda>a a'. \<exists>r. a' = closed_row ''rejected'' now r a) d (after (RejectNotificationAttempt now i reason d) d)"
  "dispatching_to i (\<lambda>a a'. \<exists>r. a' = deferred_row retry_at r a) d (after (DeferNotificationAttempt i reason retry_at d) d)"
  "dispatching_to i (\<lambda>a a'. \<exists>r. a' = closed_row ''uncertain'' now r a) d (after (MarkNotificationUncertain now i reason d) d)"
  by (rule dispatching_to_after, rule conjI, erule journal_effect_resolving,
      (erule Reject_Inr | erule Defer_Inr | erule Uncertain_Inr), blast, blast)+

lemma resolve_DB:
  "res_DB (resolveTaskNotificationAttempt ext msg now expired i answer d) =
    (case answer of
       Inr receipt \<Rightarrow> snd (confirm_tries ext now expired maxNotificationConfirmAttempts i receipt None d)
     | Inl e \<Rightarrow> if IsPermanentlyNotSent e then after (RejectNotificationAttempt now i (error_text msg e) d) d
         else if IsDefinitelyNotSent e then after (DeferNotificationAttempt i (error_text msg e) (now + retry_delay e) d) d
         else after (MarkNotificationUncertain now i (error_text msg e) d) d)"
  by (auto simp: resolveTaskNotificationAttempt_def after_def Let_def split: sum.splits option.splits prod.splits)

lemma resolve_effect:
  "dispatching_to i (answered_row now answer) d (res_DB (resolveTaskNotificationAttempt ext msg now expired i answer d))"
proof (cases answer)
  case (Inr receipt)
  obtain res d' where tries: "confirm_tries ext now expired maxNotificationConfirmAttempts i receipt None d = (res, d')"
    by (cases "confirm_tries ext now expired maxNotificationConfirmAttempts i receipt None d")
  then show ?thesis
    using confirm_tries_effect [OF tries] Inr unfolding resolve_DB by (auto simp: dispatching_to_def answered_row_def)
next
  case (Inl e)
  then show ?thesis unfolding resolve_DB answered_row_def [abs_def] by (simp add: resolving_rows)
qed

lemma find_append: "List.find P (xs @ ys) = (case List.find P xs of None \<Rightarrow> List.find P ys | Some x \<Rightarrow> Some x)"
  by (induction xs) auto

lemma dispatching_to_find:
  assumes "dispatching_to i R d d'" "find_attempt i d = Some a" "na_State a = ''dispatching''"
    and key: "\<And>x y. R x y \<Longrightarrow> na_ID y = na_ID x"
  shows "\<exists>a'. find_attempt i d' = Some a' \<and> (a' = a \<or> R a a')"
proof -
  have id: "na_ID a = i" using find_SomeD [OF assms(2) [unfolded find_attempt_def]] by simp
  consider "notification_attempts d' = notification_attempts d"
    | f where "notification_attempts d' = update_where (\<lambda>a. na_ID a = i \<and> na_State a = ''dispatching'') f (notification_attempts d)"
      "\<And>a. R a (f a)"
    using assms(1) unfolding dispatching_to_def by blast
  then show ?thesis
  proof cases
    case 1 then show ?thesis using assms(2) by (simp add: find_attempt_def)
  next
    case (2 f)
    then have "find_attempt i d' = map_option (\<lambda>a. if na_ID a = i \<and> na_State a = ''dispatching'' then f a else a) (find_attempt i d)"
      unfolding find_attempt_lookup 2(1) using key by (intro attempt_rows.lookup_update) blast
    then show ?thesis using assms(2,3) id 2(2) by simp
  qed
qed

lemma retry_delay_min: "second \<le> retry_delay e"
  by (auto simp: retry_delay_def defaultNotificationRetryDelay_def minNotificationRetryDelay_def split: option.splits)

section \<open>One notification\<close>

definition outcome_state :: "goerror + TaskNotificationReceipt \<Rightarrow> string" where
  "outcome_state answer = (case answer of Inr _ \<Rightarrow> ''sent''
     | Inl e \<Rightarrow> if IsPermanentlyNotSent e then ''rejected'' else if IsDefinitelyNotSent e then ''retryable'' else ''uncertain'')"

lemma outcome_not_dispatching: "outcome_state answer \<noteq> ''dispatching''"
  by (simp add: outcome_state_def split: sum.splits)

text \<open>
  An answer of the transport the journal can record: a receipt that names its transport, for a text that is no
  malformed turn or one of another user, or a definite failure with a text.
\<close>

definition recordable :: "external \<Rightarrow> (goerror \<Rightarrow> string) \<Rightarrow> gotime \<Rightarrow> uuid \<Rightarrow> string \<Rightarrow> goerror + TaskNotificationReceipt \<Rightarrow> bool" where
  "recordable ext msg now user body answer \<longleftrightarrow>
     (case answer of
        Inr receipt \<Rightarrow> trim_space (rc_Transport receipt) \<noteq> [] \<and>
          (case ParseAutonomousTurnNotification (ext_unmarshal ext) body of
             Malformed \<Rightarrow> False | Turn c \<Rightarrow> c_UserID c = user | _ \<Rightarrow> True)
      | Inl e \<Rightarrow>
          if IsPermanentlyNotSent e then trim_space (error_text msg e) \<noteq> []
          else if IsDefinitelyNotSent e then trim_space (error_text msg e) \<noteq> [] \<and> now + retry_delay e \<noteq> time_zero
          else True)"

lemma resolved_found:
  assumes "find_attempt i d = Some a" "na_State a = ''dispatching''" "notification_attempts d0 = notification_attempts d"
    and "\<And>b. na_ID (f b) = na_ID b"
  shows "find_attempt i (resolve_dispatching i f d0) = Some (f a)"
  using assms find_SomeD [OF assms(1) [unfolded find_attempt_def]]
  by (simp add: find_attempt_lookup resolve_dispatching_def attempt_rows.lookup_update)

lemma confirm_tries_refused:
  "ConfirmNotificationAttempt (ext_unmarshal ext) (ext_iso ext) now i receipt d = Inl e \<Longrightarrow>
   confirm_tries ext now expired (Suc k) i receipt err d = (Some e, d)"
proof (induction k arbitrary: err)
  case (Suc k)
  show ?case using Suc.IH [OF Suc.prems] Suc.prems by (subst confirm_tries.simps(2)) simp
qed simp

lemma confirm_recorded:
  assumes "find_attempt i d = Some a" "na_State a = ''dispatching''" "i \<noteq> uuid_Nil"
  shows "case ConfirmNotificationAttempt (ext_unmarshal ext) (ext_iso ext) now i receipt d of
      Inl e \<Rightarrow> \<not> recordable ext msg now (na_UserID a) (na_MessageText a) (Inr receipt)
    | Inr (_, d') \<Rightarrow> recordable ext msg now (na_UserID a) (na_MessageText a) (Inr receipt) \<and>
        find_attempt i d' = Some (sent_row now (receipt_json (ext_iso ext) receipt) a)"
  using assms resolved_found [OF assms(1,2)]
  by (simp add: ConfirmNotificationAttempt_def recordable_def sent_row_def [abs_def] Let_def split: parsed_turn.splits)

lemma resolve_recorded:
  assumes a: "find_attempt i d = Some a" "na_State a = ''dispatching''" "i \<noteq> uuid_Nil"
    and r: "r = resolveTaskNotificationAttempt ext msg now expired i answer d"
    and ok: "ok = recordable ext msg now (na_UserID a) (na_MessageText a) answer"
  shows "\<exists>a'. find_attempt i (res_DB r) = Some a' \<and> na_MessageText a' = na_MessageText a \<and>
      na_State a' = (if ok then outcome_state answer else ''dispatching'') \<and>
      (na_State a' = ''retryable'' \<longrightarrow> (\<exists>t. na_NextAttemptAt a' = Some t \<and> now + second \<le> t))"
    and "res_Delivered r \<longleftrightarrow> \<not> isl answer" and "res_Error r = None \<longleftrightarrow> ok \<and> \<not> isl answer"
proof -
  have "(\<exists>a'. find_attempt i (res_DB r) = Some a' \<and> na_MessageText a' = na_MessageText a \<and>
      na_State a' = (if ok then outcome_state answer else ''dispatching'') \<and>
      (na_State a' = ''retryable'' \<longrightarrow> (\<exists>t. na_NextAttemptAt a' = Some t \<and> now + second \<le> t))) \<and>
    (res_Delivered r \<longleftrightarrow> \<not> isl answer) \<and> (res_Error r = None \<longleftrightarrow> ok \<and> \<not> isl answer)"
  proof (cases answer)
    case (Inr receipt)
    have three: "maxNotificationConfirmAttempts = Suc 2" by (simp add: maxNotificationConfirmAttempts_def)
    let ?c = "ConfirmNotificationAttempt (ext_unmarshal ext) (ext_iso ext) now i receipt d"
    show ?thesis
    proof (cases ?c)
      case (Inl e)
      then have "\<not> ok" using confirm_recorded [OF a, where ext = ext and now = now and receipt = receipt and msg = msg] Inr by (simp add: ok)
      moreover have "confirm_tries ext now expired maxNotificationConfirmAttempts i receipt None d = (Some e, d)"
        unfolding three by (rule confirm_tries_refused [OF Inl])
      ultimately show ?thesis using Inr a by (simp add: r resolveTaskNotificationAttempt_def)
    next
      case (Inr b)
      then obtain d' where b: "?c = Inr ((), d')" by (cases b) auto
      then have "ok" "find_attempt i d' = Some (sent_row now (receipt_json (ext_iso ext) receipt) a)"
        using confirm_recorded [OF a, where ext = ext and now = now and receipt = receipt and msg = msg] \<open>answer = Inr receipt\<close> by (simp_all add: ok)
      moreover have "confirm_tries ext now expired maxNotificationConfirmAttempts i receipt None d = (None, d')"
        unfolding three using b by (subst confirm_tries.simps(2)) simp
      ultimately show ?thesis using \<open>answer = Inr receipt\<close>
        by (simp add: r resolveTaskNotificationAttempt_def sent_row_def outcome_state_def)
    qed
  next
    case (Inl e)
    show ?thesis
    proof (cases "IsPermanentlyNotSent e")
      case True
      then show ?thesis using a Inl resolved_found [OF a(1,2) refl]
        by (auto simp: r ok recordable_def resolveTaskNotificationAttempt_def RejectNotificationAttempt_def outcome_state_def)
    next
      case permanent: False
      show ?thesis
      proof (cases "IsDefinitelyNotSent e")
        case True
        then show ?thesis using a Inl permanent resolved_found [OF a(1,2) refl] retry_delay_min [of e]
          by (auto simp: r ok recordable_def resolveTaskNotificationAttempt_def DeferNotificationAttempt_def outcome_state_def Let_def)
      next
        case False
        then show ?thesis using a Inl permanent resolved_found [OF a(1,2) refl]
          by (auto simp: r ok recordable_def resolveTaskNotificationAttempt_def MarkNotificationUncertain_def outcome_state_def Let_def)
      qed
    qed
  qed
  then show "\<exists>a'. find_attempt i (res_DB r) = Some a' \<and> na_MessageText a' = na_MessageText a \<and>
      na_State a' = (if ok then outcome_state answer else ''dispatching'') \<and>
      (na_State a' = ''retryable'' \<longrightarrow> (\<exists>t. na_NextAttemptAt a' = Some t \<and> now + second \<le> t))"
    "res_Delivered r \<longleftrightarrow> \<not> isl answer" "res_Error r = None \<longleftrightarrow> ok \<and> \<not> isl answer" by blast+
qed

text \<open>The answer an attempt gets, also when there is no sender.\<close>

definition sender_answer :: "sender option \<Rightarrow> uuid \<Rightarrow> uuid \<Rightarrow> string \<Rightarrow> goerror + TaskNotificationReceipt" where
  "sender_answer notify att user body = (case notify of
     None \<Rightarrow> Inl (DefinitelyNotSent (Plain ''sender unavailable'')) | Some nf \<Rightarrow> fst (nf (Some att) user body))"

text \<open>
  C30. Delivering a keyed notification through the validated sender of its task calls the transport at most once, with
  the text and for an attempt that this very call reserved (under an id of the database, which is not the nil id), and only for the
  task's own user. The attempt it reserved holds the text
  and ends in the state the answer names: sent after a receipt, rejected after a permanent rejection, put back for a retry, never
  sooner than a second later, when the message was definitely not sent, and uncertain otherwise. Only an answer the
  journal cannot record leaves it dispatching, and then the call reports an error. The handler is never rerun for a keyed
  notification.
\<close>

theorem deliver_once:
  assumes nf: "notify = validatedTaskNotifier parse_uuid validator transport task refs"
    and r: "r = deliverTaskNotification ext msg clk expired new notify journal i user body refs d"
    and "refs \<noteq> []" and "new \<noteq> uuid_Nil"
  shows "dl_Handled r \<and>
    classifyNotificationFailure task refs (dl_Delivered r) (dl_Error r) retryUnkeyed = notificationFailureProceed \<and>
    (dl_Calls r = [] \<or> dl_Calls r = [\<lparr>pc_Attempt = Some new, pc_User = user, pc_Text = body\<rparr>] \<and> user = t_UserID task \<and>
      find_attempt new d = None \<and> find_attempt new (dl_DB r) \<noteq> None) \<and>
    (\<forall>a. find_attempt new d = None \<longrightarrow> find_attempt new (dl_DB r) = Some a \<longrightarrow>
      na_MessageText a = body \<and>
      na_State a = (if recordable ext msg (clk 1) user body (sender_answer notify new user body)
        then outcome_state (sender_answer notify new user body) else ''dispatching'') \<and>
      (na_State a = ''dispatching'' \<longrightarrow> dl_Error r \<noteq> None) \<and>
      (na_State a = ''retryable'' \<longrightarrow> (\<exists>t. na_NextAttemptAt a = Some t \<and> clk 1 + second \<le> t)))"
proof -
  have proceed: "classifyNotificationFailure task refs (dl_Delivered r) (dl_Error r) retryUnkeyed = notificationFailureProceed"
    using assms(3) by (simp add: classifyNotificationFailure_def)
  let ?answer = "sender_answer notify new user body"
  show ?thesis
  proof (cases "trim_space body = [] \<or> trim_space body = ''[no-op]'' \<or> \<not> journal \<or>
      (\<forall>a d1. BeginNotificationAttempt (ext_sha256 ext) (clk 0) new i user body refs d \<noteq> Inr ((a, True), d1))")
    case True
    then have "dl_Handled r" "dl_Calls r = []" "dl_DB r = d"
      unfolding r using assms(3)
      by (auto simp: deliverTaskNotification_def BeginNotificationAttempt_def Let_def split: sum.splits if_splits option.splits)
    then show ?thesis using proceed by simp
  next
    case False
    then obtain a d1 where body: "trim_space body \<noteq> []" "trim_space body \<noteq> ''[no-op]''" "journal"
      and begun: "BeginNotificationAttempt (ext_sha256 ext) (clk 0) new i user body refs d = Inr ((a, True), d1)" by blast
    obtain row where row: "a = new" "na_ID row = new" "na_MessageText row = body" "na_UserID row = user" "na_State row = ''dispatching''"
      "find_attempt new d = None" "notification_attempts d1 = notification_attempts d @ [row]"
      using BeginNotificationAttempt_Inr [OF begun] by auto
    have found: "find_attempt new d1 = Some row" using row(2,6,7) by (simp add: find_attempt_def find_append)
    let ?res = "resolveTaskNotificationAttempt ext msg (clk 1) expired new ?answer d1"
    have rr: "dl_Handled r" "dl_DB r = res_DB ?res" "dl_Error r = res_Error ?res"
      and calls: "dl_Calls r = (case notify of None \<Rightarrow> [] | Some sf \<Rightarrow> snd (sf (Some new) user body))"
      unfolding r using assms(3) body begun row(1)
      by (auto simp: deliverTaskNotification_def sender_answer_def Let_def split: option.splits prod.splits)
    have "dl_Calls r = [] \<or> dl_Calls r = [\<lparr>pc_Attempt = Some new, pc_User = user, pc_Text = body\<rparr>] \<and> user = t_UserID task"
      unfolding calls nf validatedTaskNotifier_def direct_sender_def
      by (auto split: option.splits origin_lookup.splits list.splits sum.splits)
    moreover note resolve_recorded [OF found row(5) assms(4) refl refl, of ext msg "clk 1" expired ?answer]
    ultimately show ?thesis using rr proceed row(3,4,6) outcome_not_dispatching [of ?answer] by auto
  qed
qed

theorem deliver_once_witness:
  "map_option na_State (find_attempt 50 (dl_DB (deliverTaskNotification sample_ext (\<lambda>_. []) (at 2) (\<lambda>_. False) 50
     (validatedTaskNotifier (\<lambda>_. None) None (Some (\<lambda>_ _ _. Inr mail_receipt)) (blank_task 1 7 2) [mail_ref]) True 1 7 ''hello'' [mail_ref]
     (committed tx1)))) = Some ''sent''"
proof -
  let ?n = "validatedTaskNotifier (\<lambda>_. None) None (Some (\<lambda>_ _ _. Inr mail_receipt)) (blank_task 1 7 2) [mail_ref]"
  let ?r = "deliverTaskNotification sample_ext (\<lambda>_. []) (at 2) (\<lambda>_. False) 50 ?n True 1 7 ''hello'' [mail_ref] (committed tx1)"
  have new: "find_attempt 50 (committed tx1) = None" by code_simp
  have "find_attempt 50 (dl_DB ?r) \<noteq> None" by code_simp
  then obtain a where a: "find_attempt 50 (dl_DB ?r) = Some a" by blast
  have answer: "recordable sample_ext (\<lambda>_. []) (at 2 1) 7 ''hello'' (sender_answer ?n 50 7 ''hello'')"
    "outcome_state (sender_answer ?n 50 7 ''hello'') = ''sent''" by code_simp+
  have "[mail_ref] \<noteq> []" "(50 :: uuid) \<noteq> uuid_Nil" by simp_all
  from deliver_once [OF refl refl this, where parse_uuid = "\<lambda>_. None" and validator = None and transport = "Some (\<lambda>_ _ _. Inr mail_receipt)" and
      task = "blank_task 1 7 2" and ext = sample_ext and msg = "\<lambda>_. []" and clk = "at 2" and expired = "\<lambda>_. False" and journal = True and
      i = 1 and user = 7 and body = "''hello''" and d = "committed tx1"] new a answer
  show ?thesis by simp
qed

section \<open>The outbox worker\<close>

text \<open>The attempts a worker that started at \<open>before\<close> may still claim.\<close>

definition due :: "gotime \<Rightarrow> db \<Rightarrow> NotificationAttempt set" where
  "due before d = {a \<in> set (notification_attempts d). retry_due before a}"

lemma retry_calls:
  assumes "retryTaskNotification ext msg parse_uuid validator notify lookup now expired intent d = (r, calls)"
  shows "(\<exists>answer. r = resolveTaskNotificationAttempt ext msg now expired (in_ID intent) answer d) \<and>
    (calls = [] \<or> calls = [\<lparr>pc_Attempt = Some (in_ID intent), pc_User = in_UserID intent, pc_Text = in_Text intent\<rparr>])"
proof -
  have sender: "snd (nf att user m) = [] \<or> snd (nf att user m) = [\<lparr>pc_Attempt = att, pc_User = user, pc_Text = m\<rparr>]"
    if "validatedTaskNotifier parse_uuid validator notify task refs = Some nf" for nf task refs att user m
    using that by (auto simp: validatedTaskNotifier_def direct_sender_def split: option.splits origin_lookup.splits list.splits sum.splits)
  let ?resolve = "\<lambda>answer. resolveTaskNotificationAttempt ext msg now expired (in_ID intent) answer d"
  consider answer where "r = ?resolve answer" "calls = []"
    | task nf where "validatedTaskNotifier parse_uuid validator notify task (in_Refs intent) = Some nf"
      "nf (Some (in_ID intent)) (in_UserID intent) (in_Text intent) = (fst (nf (Some (in_ID intent)) (in_UserID intent) (in_Text intent)), calls)"
      "r = ?resolve (fst (nf (Some (in_ID intent)) (in_UserID intent) (in_Text intent)))"
    using assms unfolding retryTaskNotification_def Let_def
    by (simp split: option.splits sum.splits if_splits prod.splits) (metis fst_conv)+
  then show ?thesis
  proof cases
    case (2 task nf)
    then show ?thesis using sender [OF 2(1), of "Some (in_ID intent)" "in_UserID intent" "in_Text intent"] by (metis snd_conv)
  qed blast
qed

lemma answered_row_not_due:
  assumes "answered_row now answer a a'" "before \<le> now"
  shows "\<not> retry_due before a'"
proof -
  have "\<not> now + retry_delay e \<le> before" for e using assms(2) retry_delay_min [of e] by linarith
  then show ?thesis
    using assms(1) by (auto simp: answered_row_def retry_due_def sent_row_def closed_row_def deferred_row_def split: sum.splits if_splits)
qed

lemma claimed_and_resolved:
  assumes ok: "journal_ok d" and claim: "ClaimRetryableNotification coll locked before d = Inr (Some intent, d1)"
    and to: "dispatching_to (in_ID intent) (answered_row now answer) d1 d2" and now: "before \<le> now"
  shows "journal_ok d2" and "\<exists>a \<in> due before d. in_ID intent = na_ID a \<and> in_UserID intent = na_UserID a \<and> in_Text intent = na_MessageText a"
    and "a' \<in> due before d2 \<Longrightarrow> a' \<in> due before d \<and> na_ID a' \<noteq> in_ID intent"
proof -
  let ?i = "in_ID intent"
  obtain a where a: "a \<in> set (notification_attempts d)" "retry_due before a" "?i = na_ID a" "in_UserID intent = na_UserID a"
      "in_Text intent = na_MessageText a"
    and d1: "notification_attempts d1 = update_where (\<lambda>b. na_ID b = ?i) (dispatched_row before) (notification_attempts d)"
    using ClaimRetryableNotification_Inr [OF claim] by auto
  show "\<exists>a \<in> due before d. ?i = na_ID a \<and> in_UserID intent = na_UserID a \<and> in_Text intent = na_MessageText a"
    using a by (auto simp: due_def)
  show "journal_ok d2"
    using journal_ok_effect [OF journal_ok_effect [OF ok journal_effect_claim [OF claim journal_okD(1) [OF ok]]]] to
    by (simp add: dispatching_to_def)
  assume "a' \<in> due before d2"
  then have a': "a' \<in> set (notification_attempts d2)" "retry_due before a'" by (auto simp: due_def)
  have old: "x \<in> due before d \<and> na_ID x \<noteq> ?i" if "x \<in> set (notification_attempts d1)" "retry_due before x" for x
    using that by (auto simp: d1 set_update_where due_def retry_due_def dispatched_row_def)
  have "a' \<in> set (notification_attempts d1)"
  proof (rule ccontr)
    assume "a' \<notin> set (notification_attempts d1)"
    then obtain f where "notification_attempts d2 =
          update_where (\<lambda>a. na_ID a = ?i \<and> na_State a = ''dispatching'') f (notification_attempts d1)"
        and f: "\<And>b. answered_row now answer b (f b)"
      using to a'(1) unfolding dispatching_to_def by auto
    then have "a' \<in> f ` set (notification_attempts d1)"
      using a'(1) \<open>a' \<notin> set (notification_attempts d1)\<close> by (auto simp: set_update_where)
    then obtain b where "answered_row now answer b a'" using f by auto
    then show False using answered_row_not_due [OF _ now] a'(2) by blast
  qed
  then show "a' \<in> due before d \<and> na_ID a' \<noteq> ?i" using old a'(2) by blast
qed

lemma drain_loop_calls:
  assumes "journal_ok d" and "\<And>j. before \<le> now j"
    and "drain_loop ext msg parse_uuid validator notify lookup locked before now expired k d = (calls, d')"
  shows "length calls \<le> k \<and> distinct (map pc_Attempt calls) \<and>
    (\<forall>c \<in> set calls. \<exists>a \<in> due before d. pc_Attempt c = Some (na_ID a) \<and> pc_User c = na_UserID a \<and> pc_Text c = na_MessageText a)"
  using assms(1,3)
proof (induction k arbitrary: d calls d')
  case (Suc k)
  show ?case
  proof (cases "\<exists>intent d1. ClaimRetryableNotification (ext_coll ext) locked before d = Inr (Some intent, d1)")
    case False
    then have "calls = []" using Suc.prems(2) by (auto split: sum.splits option.splits)
    then show ?thesis by simp
  next
    case True
    then obtain intent d1 where claim: "ClaimRetryableNotification (ext_coll ext) locked before d = Inr (Some intent, d1)" by blast
    obtain r c1 where retry: "retryTaskNotification ext msg parse_uuid validator notify lookup (now k) expired intent d1 = (r, c1)"
      by (cases "retryTaskNotification ext msg parse_uuid validator notify lookup (now k) expired intent d1")
    obtain c2 d2 where rest: "drain_loop ext msg parse_uuid validator notify lookup locked before now expired k (res_DB r) = (c2, d2)"
      by (cases "drain_loop ext msg parse_uuid validator notify lookup locked before now expired k (res_DB r)")
    have calls: "calls = c1 @ c2" using Suc.prems(2) claim retry rest by simp
    obtain answer where r: "r = resolveTaskNotificationAttempt ext msg (now k) expired (in_ID intent) answer d1"
      using retry_calls [OF retry] by blast
    note step = claimed_and_resolved [OF Suc.prems(1) claim, of "now k" answer "res_DB r"]
    have to: "dispatching_to (in_ID intent) (answered_row (now k) answer) d1 (res_DB r)" unfolding r by (rule resolve_effect)
    have ih: "length c2 \<le> k" "distinct (map pc_Attempt c2)"
      "\<And>c. c \<in> set c2 \<Longrightarrow> \<exists>a \<in> due before (res_DB r). pc_Attempt c = Some (na_ID a) \<and> pc_User c = na_UserID a \<and> pc_Text c = na_MessageText a"
      using Suc.IH [OF step(1) [OF to assms(2)] rest] by blast+
    have later: "\<exists>a \<in> due before d. pc_Attempt c = Some (na_ID a) \<and> pc_User c = na_UserID a \<and> pc_Text c = na_MessageText a \<and> na_ID a \<noteq> in_ID intent"
      if "c \<in> set c2" for c
      using ih(3) [OF that] step(3) [OF to assms(2)] by blast
    then have "Some (in_ID intent) \<notin> pc_Attempt ` set c2" by force
    then show ?thesis
      unfolding calls using retry_calls [OF retry] ih(1,2) later step(2) [OF to assms(2)] by auto
  qed
qed simp

text \<open>
  C31. One pass of the outbox worker calls the transport at most twenty times and at most once per
  attempt: an attempt that is put back during the pass waits for a later one. Every call carries the
  stored text to the stored user of an attempt that was due when the pass began.
\<close>

theorem drain_calls_once:
  assumes "journal_ok d" and "\<And>j. claimBefore \<le> now j"
    and "drainRetryableNotifications ext msg parse_uuid validator notify lookup locked claimBefore now expired d = (calls, d')"
  shows "length calls \<le> 20 \<and> distinct (map pc_Attempt calls) \<and>
    (\<forall>c \<in> set calls. \<exists>a \<in> set (notification_attempts d). retry_due claimBefore a \<and>
      pc_Attempt c = Some (na_ID a) \<and> pc_User c = na_UserID a \<and> pc_Text c = na_MessageText a)"
  using drain_loop_calls [OF assms(1,2) assms(3) [unfolded drainRetryableNotifications_def]]
  unfolding maxNotificationRetriesPerTick_def due_def by blast

theorem drain_calls_once_witness:
  "(case drainRetryableNotifications sample_ext (\<lambda>_. ''x'') (\<lambda>_. None) None (Some (\<lambda>_ _ _. Inr mail_receipt))
      (Some (\<lambda>_. Inr (blank_task 1 7 1))) (\<lambda>_. False) (4 * second) (\<lambda>_. 4 * second) (\<lambda>_. False) (committed nt2) of
      (calls, _) \<Rightarrow> distinct (map pc_Attempt calls) \<and> length calls \<le> 20 \<and> calls \<noteq> [])"
proof -
  let ?drain = "drainRetryableNotifications sample_ext (\<lambda>_. ''x'') (\<lambda>_. None) None (Some (\<lambda>_ _ _. Inr mail_receipt))
      (Some (\<lambda>_. Inr (blank_task 1 7 1))) (\<lambda>_. False) (4 * second) (\<lambda>_. 4 * second) (\<lambda>_. False) (committed nt2)"
  obtain calls d' where run: "?drain = (calls, d')" by (cases ?drain)
  have "fst ?drain \<noteq> []" by code_simp
  moreover have "journal_ok (committed nt2)" unfolding journal_ok_def by code_simp
  ultimately show ?thesis using drain_calls_once [OF _ _ run] run by simp
qed

end
