(* ===== verification/Graph_Executor.thy ===== *)
theory Graph_Executor
  imports Step_Invariant Task_Deadline Go_Error
begin

text \<open>
  The graph executor of \<open>internal/agenttask/graph.go\<close>: reads run concurrently, every other step alone,
  and no worker outlives the run. One iteration of the loop is a function of what it observes (the
  context, the steps, the clock, the answers of the store); the goroutines appear through the completions
  they send.
\<close>

section \<open>Configuration and workers\<close>

record GraphExecutor =
  g_ResearchDeadline :: "gotime option"
  g_SeparateReadBudget :: bool
  g_ParallelReads :: nat
  g_Lease :: duration

definition valid_executor :: "GraphExecutor \<Rightarrow> bool" where
  "valid_executor g \<longleftrightarrow> 1 \<le> g_ParallelReads g \<and> g_ParallelReads g \<le> 8 \<and> second \<le> g_Lease g \<and> g_Lease g \<le> 10 * minute"

text \<open>A launched worker: the claimed row and the results it may read, by step.\<close>

record worker =
  w_Step :: TaskStep
  w_Inputs :: "(string \<times> string) list"

text \<open>\<open>ex_Running\<close> maps the ids of running steps to their workers, in the order they were launched.\<close>

record executor_state =
  ex_Running :: "(string \<times> worker) list"
  ex_Exclusive :: bool
  ex_Stopped :: "goerror option"

definition idle_executor :: executor_state where
  "idle_executor = \<lparr>ex_Running = [], ex_Exclusive = False, ex_Stopped = None\<rparr>"

section \<open>Dispatch\<close>

text \<open>\<open>byID\<close>: a later row with the same id wins.\<close>

definition step_by_id :: "TaskStep list \<Rightarrow> string \<Rightarrow> TaskStep option" where
  "step_by_id steps i = List.find (\<lambda>s. s_ID s = i) (rev steps)"

fun dependency_inputs :: "TaskStep list \<Rightarrow> string list \<Rightarrow> (string \<times> string) list option" where
  "dependency_inputs steps [] = Some []"
| "dependency_inputs steps (dep # deps) =
     (case step_by_id steps dep of
        None \<Rightarrow> None
      | Some p \<Rightarrow> if s_Status p \<noteq> ''done'' then None
          else map_option (\<lambda>ins. (dep, s_Result p) # ins) (dependency_inputs steps deps))"

text \<open>Reads and the final step also see the results of finished reads; an entry found first wins.\<close>

definition step_inputs :: "TaskStep list \<Rightarrow> TaskStep \<Rightarrow> (string \<times> string) list option" where
  "step_inputs steps step =
     (case dependency_inputs steps (s_Dependencies step) of
        None \<Rightarrow> None
      | Some ins \<Rightarrow> Some (
          (if s_Kind step = ''read'' \<or> s_Kind step = ''finalize'' then
             rev (map (\<lambda>s. (s_ID s, s_Result s)) (filter (\<lambda>s. s_Kind s = ''read'' \<and> s_Status s = ''done'') steps))
           else []) @ ins))"

definition research_over :: "GraphExecutor \<Rightarrow> gotime \<Rightarrow> bool" where
  "research_over g now \<longleftrightarrow> (case g_ResearchDeadline g of None \<Rightarrow> False | Some dl \<Rightarrow> dl \<le> now)"

text \<open>
  The inner loop over the steps. \<open>claim\<close> is the store's \<open>ClaimTaskStep\<close> for this task, \<open>now\<close> the clock and
  \<open>wake\<close> the earliest deferred attempt seen (\<open>None\<close> for the zero time). The result is the executor, the
  wake-up time and the store.
\<close>

fun dispatch_steps ::
    "GraphExecutor \<Rightarrow> gotime \<Rightarrow> ('d \<Rightarrow> string \<Rightarrow> store_error + (TaskStep option \<times> 'd)) \<Rightarrow> TaskStep list \<Rightarrow>
     TaskStep list \<Rightarrow> executor_state \<Rightarrow> gotime option \<Rightarrow> 'd \<Rightarrow> executor_state \<times> gotime option \<times> 'd" where
  "dispatch_steps g now claim steps [] ex wake d = (ex, wake, d)"
| "dispatch_steps g now claim steps (step # todo) ex wake d =
     (if ex_Exclusive ex \<or> length (ex_Running ex) \<ge> g_ParallelReads g then (ex, wake, d)
      else if s_Status step \<noteq> ''pending'' \<or> s_ID step \<in> fst ` set (ex_Running ex) then
        dispatch_steps g now claim steps todo ex wake d
      else if s_Kind step \<noteq> ''read'' \<and> ex_Running ex \<noteq> [] then dispatch_steps g now claim steps todo ex wake d
      else case step_inputs steps step of
          None \<Rightarrow> dispatch_steps g now claim steps todo ex wake d
        | Some ins \<Rightarrow>
            if now < s_NextAttemptAt step then
              dispatch_steps g now claim steps todo ex
                (case wake of None \<Rightarrow> Some (s_NextAttemptAt step) | Some w \<Rightarrow> Some (min w (s_NextAttemptAt step))) d
            else if s_Kind step \<noteq> ''finalize'' \<and> \<not> (g_SeparateReadBudget g \<and> TaskStepHasCandidate step) \<and> research_over g now then
              (ex\<lparr>ex_Stopped := Some (Sentinel ErrGraphResearchBudget)\<rparr>, wake, d)
            else case claim d (s_ID step) of
                Inl e \<Rightarrow> (ex\<lparr>ex_Stopped := Some (Store e)\<rparr>, wake, d)
              | Inr (None, d') \<Rightarrow> dispatch_steps g now claim steps todo ex wake d'
              | Inr (Some row, d') \<Rightarrow>
                  dispatch_steps g now claim steps todo
                    (ex\<lparr>ex_Running := ex_Running ex @ [(s_ID step, \<lparr>w_Step = row, w_Inputs = ins\<rparr>)],
                        ex_Exclusive := s_Kind step \<noteq> ''read''\<rparr>) wake d')"

section \<open>One iteration\<close>

text \<open>
  What an iteration observes: the context's error, the answer of \<open>TaskSteps\<close> and the clock. The
  iteration returns, or waits for a completion, for \<open>wake\<close> when that timer is armed, or for the context.
\<close>

record observation =
  ob_CtxErr :: "goerror option"
  ob_Steps :: "goerror + TaskStep list"
  ob_Now :: gotime

datatype pass_result =
    Returned "goerror option"
  | Waiting "gotime option"

definition plan_finished :: "observation \<Rightarrow> executor_state \<Rightarrow> bool" where
  "plan_finished ob ex \<longleftrightarrow> ex_Stopped ex = None \<and> ex_Running ex = [] \<and>
     (case ob_Steps ob of Inl _ \<Rightarrow> False | Inr steps \<Rightarrow> steps \<noteq> [] \<and> list_all (\<lambda>s. s_Status s = ''done'') steps)"

definition pass_dispatch ::
    "GraphExecutor \<Rightarrow> ('d \<Rightarrow> string \<Rightarrow> store_error + (TaskStep option \<times> 'd)) \<Rightarrow> observation \<Rightarrow> executor_state \<Rightarrow> 'd \<Rightarrow>
     executor_state \<times> gotime option \<times> 'd" where
  "pass_dispatch g claim ob ex d =
     (if ex_Stopped ex \<noteq> None \<or> plan_finished ob ex then (ex, None, d)
      else case ob_Steps ob of
          Inl e \<Rightarrow> (ex\<lparr>ex_Stopped := Some e\<rparr>, None, d)
        | Inr steps \<Rightarrow>
            if steps = [] then (ex\<lparr>ex_Stopped := Some (Plain ''task has no persisted plan'')\<rparr>, None, d)
            else dispatch_steps g (ob_Now ob) claim steps steps ex None d)"

definition graph_pass ::
    "GraphExecutor \<Rightarrow> ('d \<Rightarrow> string \<Rightarrow> store_error + (TaskStep option \<times> 'd)) \<Rightarrow> observation \<Rightarrow> executor_state \<Rightarrow> 'd \<Rightarrow>
     pass_result \<times> executor_state \<times> 'd" where
  "graph_pass g claim ob ex0 d0 =
     (let ex = (if ex_Stopped ex0 = None then ex0\<lparr>ex_Stopped := ob_CtxErr ob\<rparr> else ex0) in
      case pass_dispatch g claim ob ex d0 of (ex', wake, d) \<Rightarrow>
        if plan_finished ob ex then (Returned None, ex', d)
        else if ex_Running ex' = [] then
          (Returned (case ex_Stopped ex' of Some e \<Rightarrow> Some e | None \<Rightarrow> Some (Sentinel ErrGraphWaiting)), ex', d)
        else (Waiting (if ex_Stopped ex' = None \<and> \<not> ex_Exclusive ex' \<and> length (ex_Running ex') < g_ParallelReads g
                       then wake else None), ex', d))"

text \<open>
  A completion of the worker \<open>i\<close> with its error. \<open>done\<close> tells whether the context is over by then, which
  it is once the run has stopped.
\<close>

definition graph_completion :: "GraphExecutor \<Rightarrow> gotime \<Rightarrow> bool \<Rightarrow> string \<Rightarrow> goerror option \<Rightarrow> executor_state \<Rightarrow> executor_state" where
  "graph_completion g now over i err ex =
     (let kind = (case map_of (ex_Running ex) i of None \<Rightarrow> [] | Some w \<Rightarrow> s_Kind (w_Step w));
          over = (over \<or> ex_Stopped ex \<noteq> None);
          ex = ex\<lparr>ex_Running := filter (\<lambda>(j, _). j \<noteq> i) (ex_Running ex), ex_Exclusive := False\<rparr>;
          bound = (kind \<noteq> ''finalize'' \<and> \<not> (g_SeparateReadBudget g \<and> kind = ''read''));
          expired = (bound \<and> research_over g now)
      in case err of
           None \<Rightarrow> ex
         | Some e \<Rightarrow>
             if errors_Is e (Sentinel ErrGraphWaiting) \<and> \<not> over \<and>
                \<not> (expired \<and> errors_Is e (Sentinel ContextDeadlineExceeded)) then ex
             else if ex_Stopped ex = None then
               ex\<lparr>ex_Stopped := Some (if expired \<and> \<not> over \<and> errors_Is e (Sentinel ContextDeadlineExceeded)
                  then Sentinel ErrGraphResearchBudget else e)\<rparr>
             else ex)"

section \<open>One step\<close>

text \<open>
  \<open>runStep\<close> after the handler returned: \<open>heartbeat\<close> is the error of the lease heartbeat (nil when it was
  stopped), \<open>over\<close> tells whether the parent context is over, \<open>render\<close>, \<open>run\<close> and \<open>clk\<close> belong to the store and \<open>msg\<close>
  to error texts. A claimed row always has a run id.
\<close>

record StepResult =
  sr_Output :: string
  sr_Accepted :: bool

definition join_errors :: "goerror option list \<Rightarrow> goerror option" where
  "join_errors es = (case List.map_filter (\<lambda>e. e) es of [] \<Rightarrow> None | xs \<Rightarrow> Some (Joined xs))"

definition tx_error :: "'a tx \<Rightarrow> goerror option" where
  "tx_error x = (case x of Inl e \<Rightarrow> Some (Store e) | Inr _ \<Rightarrow> None)"

definition tx_db :: "'a tx \<Rightarrow> db \<Rightarrow> db" where
  "tx_db x d = (case x of Inl _ \<Rightarrow> d | Inr (_, d') \<Rightarrow> d')"

definition runStep ::
    "GraphExecutor \<Rightarrow> (json \<Rightarrow> string) \<Rightarrow> (goerror \<Rightarrow> string) \<Rightarrow> uuid \<Rightarrow> clock \<Rightarrow> gotime \<Rightarrow> bool \<Rightarrow> TaskStep \<Rightarrow>
     goerror option \<Rightarrow> goerror + StepResult \<Rightarrow> db \<Rightarrow> goerror option \<times> db" where
  "runStep g render msg run clk now over step heartbeat outcome d =
     (let srun = the (s_RunID step) in
      case heartbeat of
        Some h \<Rightarrow>
          if errors_Is h (Store ErrTaskClaimLost) then (Some h, d)
          else
            (let x = FailTaskStep render run clk (s_TaskID step) (s_ID step) srun (error_text msg h) True d;
                 persist = tx_error x
             in (join_errors [Some (if research_over g now \<and> \<not> over \<and> x \<noteq> Inl ErrTaskClaimLost
                   then Sentinel ErrGraphResearchBudget else h), persist], tx_db x d))
      | None \<Rightarrow>
          (case (case outcome of
                   Inl e \<Rightarrow> Inl e
                 | Inr r \<Rightarrow> if \<not> sr_Accepted r \<or> trim_space (sr_Output r) = []
                     then Inl (Plain (''step '' @ s_ID step @ '' did not pass acceptance'')) else Inr (sr_Output r)) of
             Inr out \<Rightarrow>
               (let x = CompleteTaskStep run clk (s_TaskID step) (s_ID step) srun out d in (tx_error x, tx_db x d))
           | Inl e \<Rightarrow>
               (let retry = errors_As (\<lambda>x. case x of RetryableStepError _ delay \<Rightarrow> Some delay | _ \<Rightarrow> None) e;
                    x = FailTaskStepAfter render run clk (s_TaskID step) (s_ID step) srun (error_text msg e)
                          (retry \<noteq> None) (case retry of None \<Rightarrow> 0 | Some delay \<Rightarrow> delay) d
                in case tx_error x of
                     Some p \<Rightarrow> (join_errors [Some e, Some p], d)
                   | None \<Rightarrow>
                       if retry \<noteq> None \<and> s_Attempts step < s_MaxAttempts step
                       then (join_errors [Some (Sentinel ErrGraphWaiting), Some e], tx_db x d)
                       else (Some e, tx_db x d))))"

section \<open>Workers never overlap an exclusive step\<close>

definition executor_ok :: "GraphExecutor \<Rightarrow> executor_state \<Rightarrow> bool" where
  "executor_ok g ex \<longleftrightarrow> distinct (map fst (ex_Running ex)) \<and> length (ex_Running ex) \<le> g_ParallelReads g \<and>
     (\<forall>(i, w) \<in> set (ex_Running ex). s_ID (w_Step w) = i) \<and>
     (if ex_Exclusive ex then length (ex_Running ex) = 1
      else \<forall>(i, w) \<in> set (ex_Running ex). s_Kind (w_Step w) = ''read'')"

text \<open>
  What the executor needs of the store: a claim answers with the row asked for, and kinds never change.
  \<open>kinds d i\<close> are the kinds of the rows with id \<open>i\<close>.
\<close>

locale claim_store =
  fixes claim :: "'d \<Rightarrow> string \<Rightarrow> store_error + (TaskStep option \<times> 'd)"
    and kinds :: "'d \<Rightarrow> string \<Rightarrow> string set"
  assumes claim_row: "claim d i = Inr (Some row, d') \<Longrightarrow> s_ID row = i \<and> s_Kind row \<in> kinds d i"
    and claim_keeps: "claim d i = Inr (r, d') \<Longrightarrow> kinds d' = kinds d"
begin

definition coherent :: "'d \<Rightarrow> TaskStep list \<Rightarrow> bool" where
  "coherent d steps \<longleftrightarrow> (\<forall>s \<in> set steps. kinds d (s_ID s) \<subseteq> {s_Kind s})"

lemma launch_ok:
  assumes "executor_ok g ex" "\<not> ex_Exclusive ex" "length (ex_Running ex) < g_ParallelReads g"
    "s_ID step \<notin> fst ` set (ex_Running ex)" "s_Kind step = ''read'' \<or> ex_Running ex = []"
    "claim d (s_ID step) = Inr (Some row, d')" "kinds d (s_ID step) \<subseteq> {s_Kind step}"
  shows "executor_ok g (ex\<lparr>ex_Running := ex_Running ex @ [(s_ID step, \<lparr>w_Step = row, w_Inputs = ins\<rparr>)],
    ex_Exclusive := s_Kind step \<noteq> ''read''\<rparr>)"
  using assms claim_row [OF assms(6)] by (auto simp: executor_ok_def)

lemma dispatch_ok:
  assumes "executor_ok g ex" "coherent d steps" "set todo \<subseteq> set steps"
    "dispatch_steps g now claim steps todo ex wake d = (ex', wake', d')"
  shows "executor_ok g ex' \<and> coherent d' steps"
  using assms
proof (induction todo arbitrary: ex wake d)
  case (Cons step todo)
  show ?case
  proof (cases "\<exists>row d1 ins. step_inputs steps step = Some ins \<and> claim d (s_ID step) = Inr (Some row, d1) \<and>
      dispatch_steps g now claim steps todo (ex\<lparr>ex_Running := ex_Running ex @ [(s_ID step, \<lparr>w_Step = row, w_Inputs = ins\<rparr>)],
        ex_Exclusive := s_Kind step \<noteq> ''read''\<rparr>) wake d1 = (ex', wake', d') \<and>
      \<not> ex_Exclusive ex \<and> length (ex_Running ex) < g_ParallelReads g \<and> s_ID step \<notin> fst ` set (ex_Running ex) \<and>
      (s_Kind step = ''read'' \<or> ex_Running ex = [])")
    case True
    then obtain row d1 ins where c: "claim d (s_ID step) = Inr (Some row, d1)"
      and next_steps: "dispatch_steps g now claim steps todo (ex\<lparr>ex_Running := ex_Running ex @ [(s_ID step, \<lparr>w_Step = row, w_Inputs = ins\<rparr>)],
        ex_Exclusive := s_Kind step \<noteq> ''read''\<rparr>) wake d1 = (ex', wake', d')"
      and free: "\<not> ex_Exclusive ex" "length (ex_Running ex) < g_ParallelReads g" "s_ID step \<notin> fst ` set (ex_Running ex)"
      "s_Kind step = ''read'' \<or> ex_Running ex = []" by blast
    have kind: "kinds d (s_ID step) \<subseteq> {s_Kind step}" using Cons.prems(2,3) by (auto simp: coherent_def)
    have "coherent d1 steps" using Cons.prems(2) claim_keeps [OF c] by (simp add: coherent_def)
    then show ?thesis
      using Cons.IH [OF launch_ok [OF Cons.prems(1) free c kind] _ _ next_steps] Cons.prems(3) by simp
  next
    case False
    have quiet: "executor_ok g (ex\<lparr>ex_Stopped := e\<rparr>)" for e using Cons.prems(1) by (simp add: executor_ok_def)
    from False Cons.prems(4) consider "ex' = ex" "d' = d" | e where "ex' = ex\<lparr>ex_Stopped := e\<rparr>" "d' = d"
      | w where "dispatch_steps g now claim steps todo ex w d = (ex', wake', d')"
      | r d1 where "claim d (s_ID step) = Inr (r, d1)" "dispatch_steps g now claim steps todo ex wake d1 = (ex', wake', d')"
      by (auto split: if_splits option.splits sum.splits)
    then show ?thesis
    proof cases
      case 3
      then show ?thesis using Cons.IH [OF Cons.prems(1,2)] Cons.prems(3) by simp
    next
      case (4 r d1)
      have "coherent d1 steps" using Cons.prems(2) claim_keeps [OF 4(1)] by (simp add: coherent_def)
      then show ?thesis using Cons.IH [OF Cons.prems(1) _ _ 4(2)] Cons.prems(3) by simp
    qed (use Cons.prems(1,2) quiet in auto)
  qed
qed simp

lemma pass_ok:
  assumes ok: "executor_ok g ex" and co: "\<And>steps. ob_Steps ob = Inr steps \<Longrightarrow> coherent d steps"
    and pass: "graph_pass g claim ob ex d = (res, ex', d')"
  shows "executor_ok g ex'"
proof -
  have quiet: "executor_ok g (x\<lparr>ex_Stopped := e\<rparr>)" if "executor_ok g x" for e x using that by (simp add: executor_ok_def)
  have dispatched: "executor_ok g x'" if "executor_ok g x" "pass_dispatch g claim ob x d = (x', w, d1)" for x x' w d1
    using that quiet [OF that(1)] dispatch_ok [OF that(1) co subset_refl]
    by (auto simp: pass_dispatch_def split: if_splits sum.splits)
  let ?x = "if ex_Stopped ex = None then ex\<lparr>ex_Stopped := ob_CtxErr ob\<rparr> else ex"
  obtain x' w d1 where x': "pass_dispatch g claim ob ?x d = (x', w, d1)" by (cases "pass_dispatch g claim ob ?x d")
  have "executor_ok g ?x" using ok quiet by simp
  then have "executor_ok g x'" using dispatched x' by blast
  moreover have "ex' = x'" using pass x' by (auto simp: graph_pass_def Let_def split: if_splits)
  ultimately show ?thesis by simp
qed

end

lemma graph_completion_running:
  "ex_Running (graph_completion g now over i err ex) = filter (\<lambda>(j, _). j \<noteq> i) (ex_Running ex)"
  "ex_Exclusive (graph_completion g now over i err ex) = False"
  by (auto simp: graph_completion_def Let_def split: option.splits)

lemma completion_ok:
  assumes "executor_ok g ex" "i \<in> fst ` set (ex_Running ex)"
  shows "executor_ok g (graph_completion g now over i err ex)"
proof (cases "ex_Exclusive ex")
  case True
  then have "filter (\<lambda>(j, _). j \<noteq> i) (ex_Running ex) = []"
    using assms by (cases "ex_Running ex") (auto simp: executor_ok_def)
  then show ?thesis unfolding executor_ok_def graph_completion_running by simp
next
  case False
  have "length (filter (\<lambda>(j, _). j \<noteq> i) (ex_Running ex)) \<le> g_ParallelReads g"
    using assms(1) order_trans [OF length_filter_le] unfolding executor_ok_def by blast
  then show ?thesis
    using assms(1) False unfolding executor_ok_def graph_completion_running by (auto intro: distinct_map_filter)
qed

section \<open>The run\<close>

text \<open>
  The loop as a transition system: a pass over the store, which returns or waits; a completion of a
  running worker; or, while the run is not stopped, the timer or the context. Between passes the store
  may change in any way that keeps the kinds of the steps.
\<close>

datatype executor_config = Looping executor_state | Blocked executor_state | Ended "goerror option"

definition step_kinds :: "uuid \<Rightarrow> db \<Rightarrow> string \<Rightarrow> string set" where
  "step_kinds task d i = s_Kind ` {s \<in> set (agent_task_steps d). s_TaskID s = task \<and> s_ID s = i}"

definition store_claim :: "uuid \<Rightarrow> (string \<Rightarrow> clock) \<Rightarrow> (string \<Rightarrow> uuid) \<Rightarrow> uuid \<Rightarrow> duration \<Rightarrow> db \<Rightarrow> string \<Rightarrow> store_error + (TaskStep option \<times> db)" where
  "store_claim run clk new task lease d i = ClaimTaskStep run (clk i) (new i) task i lease d"

lemma step_kinds_triples:
  "step_kinds task d = (\<lambda>i. {k. (task, i, k) \<in> set (map (\<lambda>s. (s_TaskID s, s_ID s, s_Kind s)) (agent_task_steps d))})"
  by (intro ext) (auto simp: step_kinds_def image_iff)

interpretation task_steps: claim_store "store_claim run clk new task lease" "step_kinds task"
  for run clk new task lease
proof
  fix d d' :: db and i row
  assume "store_claim run clk new task lease d i = Inr (Some row, d')"
  then obtain s where "List.find (claimable (clk i 3) task i (agent_task_steps d)) (agent_task_steps d) = Some s"
    "row = claimed (new i) (clk i 3) lease s"
    by (auto simp: store_claim_def ClaimTaskStep_def Let_def split: if_splits sum.splits option.splits)
  then show "s_ID row = i \<and> s_Kind row \<in> step_kinds task d i"
    by (auto simp: step_kinds_def claimed_def claimable_def dest!: find_SomeD)
next
  fix d d' :: db and i r
  assume "store_claim run clk new task lease d i = Inr (r, d')"
  then consider "d' = d" | p where
      "agent_task_steps d' = update_where p (claimed (new i) (clk i 3) lease) (agent_task_steps d)"
    by (auto simp: store_claim_def ClaimTaskStep_def Let_def split: if_splits sum.splits option.splits)
  then show "step_kinds task d' = step_kinds task d"
  proof cases
    case (2 p)
    have "map (\<lambda>s. (s_TaskID s, s_ID s, s_Kind s)) (agent_task_steps d') = map (\<lambda>s. (s_TaskID s, s_ID s, s_Kind s)) (agent_task_steps d)"
      unfolding 2 by (rule map_update_where) (simp add: claimed_def)
    from arg_cong [OF this, of set] show ?thesis by (simp only: step_kinds_triples)
  qed simp
qed

inductive executor_step :: "GraphExecutor \<Rightarrow> uuid \<Rightarrow> executor_config \<Rightarrow> executor_config \<Rightarrow> bool" for g :: GraphExecutor and task :: uuid where
  pass_waits: "graph_pass g (store_claim run clk new task (g_Lease g)) ob ex d = (Waiting wake, ex', d') \<Longrightarrow>
     (\<And>steps s. ob_Steps ob = Inr steps \<Longrightarrow> s \<in> set steps \<Longrightarrow> step_kinds task d (s_ID s) \<subseteq> {s_Kind s}) \<Longrightarrow>
     executor_step g task (Looping ex) (Blocked ex')"
| pass_returns: "graph_pass g (store_claim run clk new task (g_Lease g)) ob ex d = (Returned err, ex', d') \<Longrightarrow>
     executor_step g task (Looping ex) (Ended err)"
| worker_completes: "i \<in> fst ` set (ex_Running ex) \<Longrightarrow>
     executor_step g task (Blocked ex) (Looping (graph_completion g now over i err ex))"
| wakes_up: "ex_Stopped ex = None \<Longrightarrow> executor_step g task (Blocked ex) (Looping ex)"

definition config_ok :: "GraphExecutor \<Rightarrow> executor_config \<Rightarrow> bool" where
  "config_ok g c = (case c of Looping ex \<Rightarrow> executor_ok g ex | Blocked ex \<Rightarrow> executor_ok g ex \<and> ex_Running ex \<noteq> [] | Ended _ \<Rightarrow> True)"

definition executor_start :: "executor_config \<Rightarrow> bool" where
  "executor_start c \<longleftrightarrow> c = Looping idle_executor"

interpretation executor_run: invariant_system executor_start "executor_step g task" "config_ok g"
  for g task
proof
  fix c assume "executor_start c" then show "config_ok g c"
    by (simp add: executor_start_def config_ok_def idle_executor_def executor_ok_def)
next
  fix c c' assume ok: "config_ok g c" and step: "executor_step g task c c'"
  from step show "config_ok g c'"
  proof cases
    case (pass_waits run clk new ob ex d wake ex' d')
    have "executor_ok g ex'"
      by (rule task_steps.pass_ok [OF _ _ pass_waits(3)]) (use ok pass_waits in \<open>auto simp: config_ok_def task_steps.coherent_def\<close>)
    moreover have "ex_Running ex' \<noteq> []"
      using pass_waits(3) by (auto simp: graph_pass_def Let_def split: if_splits prod.splits)
    ultimately show ?thesis using pass_waits by (simp add: config_ok_def)
  next
    case pass_returns then show ?thesis by (simp add: config_ok_def)
  next
    case worker_completes then show ?thesis using ok completion_ok by (auto simp: config_ok_def)
  next
    case wakes_up then show ?thesis using ok by (simp add: config_ok_def)
  qed
qed

end
