(* ===== verification/Executor_Theorems.thy ===== *)
theory Executor_Theorems
  imports Graph_Executor Task_Sample
begin

text \<open>
  What a run of the graph executor guarantees: exclusive steps run alone, no worker is abandoned, and a
  step reports only what the store has recorded.
\<close>

text \<open>
  C32. Workers of one run: at any moment at most \<open>ParallelReads\<close> of them run, each step at most once, and
  if two run together both are reads; a run that waits has a worker to wait for.
\<close>

theorem executor_concurrency:
  assumes "reachable_from executor_start (executor_step g task) c" and "c = Looping ex \<or> c = Blocked ex"
  shows "length (ex_Running ex) \<le> g_ParallelReads g \<and> distinct (map fst (ex_Running ex)) \<and>
    (\<forall>(i, w) \<in> set (ex_Running ex). \<forall>(j, v) \<in> set (ex_Running ex). i \<noteq> j \<longrightarrow>
      s_Kind (w_Step w) = ''read'' \<and> s_Kind (w_Step v) = ''read'') \<and>
    (c = Blocked ex \<longrightarrow> ex_Running ex \<noteq> [])"
proof -
  have ok: "executor_ok g ex" "c = Blocked ex \<Longrightarrow> ex_Running ex \<noteq> []"
    using executor_run.reachable_inv [OF assms(1)] assms(2) by (auto simp: config_ok_def)
  have "\<forall>(i, w) \<in> set (ex_Running ex). \<forall>(j, v) \<in> set (ex_Running ex). i \<noteq> j \<longrightarrow>
      s_Kind (w_Step w) = ''read'' \<and> s_Kind (w_Step v) = ''read''"
  proof (cases "ex_Exclusive ex")
    case True
    then obtain x where "ex_Running ex = [x]" using ok(1) by (auto simp: executor_ok_def length_Suc_conv)
    then show ?thesis by auto
  next
    case False then show ?thesis using ok(1) by (auto simp: executor_ok_def)
  qed
  then show ?thesis using ok by (auto simp: executor_ok_def)
qed

definition sample_executor :: GraphExecutor where
  "sample_executor = \<lparr>g_ResearchDeadline = None, g_SeparateReadBudget = False, g_ParallelReads = 3, g_Lease = minute\<rparr>"

definition sample_observation :: observation where
  "sample_observation = \<lparr>ob_CtxErr = None, ob_Steps = Inr (agent_task_steps (committed tx3)), ob_Now = 4 * second\<rparr>"

definition sample_pass :: "pass_result \<times> executor_state \<times> db" where
  "sample_pass = graph_pass sample_executor (store_claim 100 (\<lambda>_. at 4) (\<lambda>i. if i = ''a'' then 201 else 202) 1 (g_Lease sample_executor))
     sample_observation idle_executor (committed tx3)"

theorem executor_concurrency_witness:
  "length (ex_Running (fst (snd sample_pass))) = 2 \<and> length (ex_Running (fst (snd sample_pass))) \<le> g_ParallelReads sample_executor"
proof -
  let ?ex = "fst (snd sample_pass)"
  have "fst sample_pass = Waiting None" and two: "length (ex_Running ?ex) = 2" by code_simp+
  then have pass: "graph_pass sample_executor (store_claim 100 (\<lambda>_. at 4) (\<lambda>i. if i = ''a'' then 201 else 202) 1 (g_Lease sample_executor))
     sample_observation idle_executor (committed tx3) = (Waiting None, ?ex, snd (snd sample_pass))"
    unfolding sample_pass_def by (metis prod.collapse)
  have "executor_step sample_executor 1 (Looping idle_executor) (Blocked ?ex)"
  proof (rule pass_waits [OF pass])
    fix steps s assume "ob_Steps sample_observation = Inr steps" "s \<in> set steps"
    then have "s \<in> set (agent_task_steps (committed tx3))" by (simp add: sample_observation_def)
    moreover have "list_all (\<lambda>s. list_all (\<lambda>x. s_ID x = s_ID s \<longrightarrow> s_Kind x = s_Kind s) (agent_task_steps (committed tx3)))
        (agent_task_steps (committed tx3))" by code_simp
    ultimately have "\<forall>x \<in> set (agent_task_steps (committed tx3)). s_ID x = s_ID s \<longrightarrow> s_Kind x = s_Kind s"
      unfolding list_all_iff by blast
    then show "step_kinds 1 (committed tx3) (s_ID s) \<subseteq> {s_Kind s}" unfolding step_kinds_def by blast
  qed
  then have "reachable_from executor_start (executor_step sample_executor 1) (Blocked ?ex)"
    by (intro reach_step [OF reach_start]) (simp_all add: executor_start_def)
  from executor_concurrency [OF this] two show ?thesis by blast
qed

lemma stopped_completion:
  "ex_Stopped ex = Some e \<Longrightarrow> ex_Stopped (graph_completion g now over i err ex) = Some e"
  by (auto simp: graph_completion_def Let_def split: option.splits)

lemma stopped_completions:
  assumes "ex_Stopped ex = Some e"
  shows "ex_Stopped (fold (\<lambda>(i, err, now, over). graph_completion g now over i err) evs ex) = Some e \<and>
    ex_Running (fold (\<lambda>(i, err, now, over). graph_completion g now over i err) evs ex) =
      filter (\<lambda>(j, _). j \<notin> fst ` set evs) (ex_Running ex)"
  using assms
proof (induction evs arbitrary: ex)
  case (Cons ev evs)
  obtain i err now over where ev: "ev = (i, err, now, over)" by (cases ev)
  have "filter (\<lambda>(j, _). j \<notin> fst ` set evs) (filter (\<lambda>(j, _). j \<noteq> i) (ex_Running ex)) =
      filter (\<lambda>(j, _). j \<notin> fst ` set (ev # evs)) (ex_Running ex)"
    by (auto simp: ev intro!: filter_cong)
  then show ?case
    using Cons.IH [of "graph_completion g now over i err ex"] stopped_completion [OF Cons.prems]
    by (simp add: ev graph_completion_running)
qed simp

text \<open>
  C33. A run never abandons a worker: a pass returns only when none is running; it returns without
  error only when every step of the plan it just read is done. Once the run is stopped it claims nothing
  more, and after the completions of the workers that still run, in any order, it returns that error.
\<close>

theorem executor_drains:
  assumes "graph_pass g claim ob ex d = (res, ex', d')"
  shows "(\<forall>err. res = Returned err \<longrightarrow> ex_Running ex' = []) \<and>
    (res = Returned None \<longrightarrow> (\<exists>steps. ob_Steps ob = Inr steps \<and> steps \<noteq> [] \<and> list_all (\<lambda>s. s_Status s = ''done'') steps)) \<and>
    (ex_Stopped ex \<noteq> None \<longrightarrow> d' = d \<and> ex_Running ex' = ex_Running ex) \<and>
    (\<forall>e evs. ex_Stopped ex = Some e \<longrightarrow> fst ` set (ex_Running ex) \<subseteq> fst ` set evs \<longrightarrow>
      fst (graph_pass g claim ob (fold (\<lambda>(i, err, now, over). graph_completion g now over i err) evs ex) d) = Returned (Some e))"
proof (intro conjI allI impI)
  fix err assume "res = Returned err"
  then show "ex_Running ex' = []"
    using assms by (auto simp: graph_pass_def pass_dispatch_def plan_finished_def Let_def split: if_splits prod.splits)
next
  assume "res = Returned None"
  then show "\<exists>steps. ob_Steps ob = Inr steps \<and> steps \<noteq> [] \<and> list_all (\<lambda>s. s_Status s = ''done'') steps"
    using assms by (auto simp: graph_pass_def plan_finished_def Let_def split: if_splits prod.splits option.splits sum.splits)
next
  assume "ex_Stopped ex \<noteq> None"
  then show "d' = d" "ex_Running ex' = ex_Running ex"
    using assms by (auto simp: graph_pass_def pass_dispatch_def plan_finished_def Let_def split: if_splits)
next
  fix e and evs :: "(string \<times> goerror option \<times> gotime \<times> bool) list"
  assume stopped: "ex_Stopped ex = Some e" and all: "fst ` set (ex_Running ex) \<subseteq> fst ` set evs"
  let ?ex = "fold (\<lambda>(i, err, now, over). graph_completion g now over i err) evs ex"
  have "filter (\<lambda>(j, _). j \<notin> fst ` set evs) (ex_Running ex) = []" using all by (force simp: filter_empty_conv)
  then have "ex_Running ?ex = []" "ex_Stopped ?ex = Some e" using stopped_completions [OF stopped] by simp_all
  then show "fst (graph_pass g claim ob ?ex d) = Returned (Some e)"
    by (simp add: graph_pass_def pass_dispatch_def plan_finished_def Let_def)
qed

theorem executor_drains_witness:
  "ex_Running (fst (snd (graph_pass sample_executor (\<lambda>d _. Inr (None, d))
     \<lparr>ob_CtxErr = None, ob_Steps = Inr [(blank_step 1 ''a'' ''read'')\<lparr>s_Status := ''done''\<rparr>], ob_Now = 0\<rparr> idle_executor ()))) = []"
proof -
  let ?pass = "graph_pass sample_executor (\<lambda>d _. Inr (None, d))
     \<lparr>ob_CtxErr = None, ob_Steps = Inr [(blank_step 1 ''a'' ''read'')\<lparr>s_Status := ''done''\<rparr>], ob_Now = 0\<rparr> idle_executor ()"
  have "fst ?pass = Returned None"
    by (simp add: graph_pass_def pass_dispatch_def plan_finished_def idle_executor_def blank_step_def Let_def)
  then obtain ex' d' where "?pass = (Returned None, ex', d')" by (cases ?pass) auto
  from executor_drains [OF this] this show ?thesis by simp
qed

definition retryable_delay :: "goerror \<Rightarrow> duration option" where
  "retryable_delay e = errors_As (\<lambda>x. case x of RetryableStepError _ delay \<Rightarrow> Some delay | _ \<Rightarrow> None) e"

text \<open>How a step that returned from its handler ends: with an accepted output, or with an error.\<close>

definition step_end :: "TaskStep \<Rightarrow> goerror + StepResult \<Rightarrow> goerror + string" where
  "step_end step outcome = (case outcome of Inl e \<Rightarrow> Inl e
     | Inr r \<Rightarrow> if \<not> sr_Accepted r \<or> trim_space (sr_Output r) = []
         then Inl (Plain (''step '' @ s_ID step @ '' did not pass acceptance'')) else Inr (sr_Output r))"

lemma runStep_accepted:
  assumes "step_end step outcome = Inr out" and "runStep g render msg run clk now over step None outcome d = (res, d')"
  shows "(res = None \<longrightarrow> CompleteTaskStep run clk (s_TaskID step) (s_ID step) (the (s_RunID step)) out d = Inr ((), d')) \<and>
    (\<forall>e. res = Some e \<longrightarrow> \<not> errors_Is e (Sentinel ErrGraphWaiting))"
  using assms unfolding runStep_def Let_def step_end_def [symmetric]
  by (auto simp: tx_error_def tx_db_def errors_Is_def split: sum.splits)

lemma runStep_failed:
  assumes "step_end step outcome = Inl e" and "runStep g render msg run clk now over step None outcome d = (res, d')"
    and "\<not> errors_Is e (Sentinel ErrGraphWaiting)"
  shows "\<exists>e'. res = Some e' \<and> (errors_Is e' (Sentinel ErrGraphWaiting) \<longrightarrow> (\<exists>delay. retryable_delay e = Some delay \<and>
    s_Attempts step < s_MaxAttempts step \<and>
    FailTaskStepAfter render run clk (s_TaskID step) (s_ID step) (the (s_RunID step)) (error_text msg e) True delay d = Inr ((), d')))"
proof -
  let ?x = "FailTaskStepAfter render run clk (s_TaskID step) (s_ID step) (the (s_RunID step)) (error_text msg e)
    (retryable_delay e \<noteq> None) (case retryable_delay e of None \<Rightarrow> 0 | Some delay \<Rightarrow> delay) d"
  have run: "(res, d') = (case tx_error ?x of Some p \<Rightarrow> (join_errors [Some e, Some p], d)
     | None \<Rightarrow> if retryable_delay e \<noteq> None \<and> s_Attempts step < s_MaxAttempts step
         then (join_errors [Some (Sentinel ErrGraphWaiting), Some e], tx_db ?x d) else (Some e, tx_db ?x d))"
    using assms(2) unfolding runStep_def Let_def step_end_def [symmetric] retryable_delay_def [symmetric] assms(1) by simp
  show ?thesis
  proof (cases ?x)
    case (Inl p)
    then have "res = Some (Joined [e, Store p])" using run by (simp add: tx_error_def join_errors_def map_filter_simps)
    then show ?thesis using assms(3) by (simp add: errors_Is_def)
  next
    case (Inr b)
    then have x: "?x = Inr ((), tx_db ?x d)" by (cases b) (simp add: tx_db_def)
    show ?thesis
    proof (cases "retryable_delay e \<noteq> None \<and> s_Attempts step < s_MaxAttempts step")
      case True
      then obtain delay where delay: "retryable_delay e = Some delay" by blast
      have "res = Some (Joined [Sentinel ErrGraphWaiting, e])" "d' = tx_db ?x d"
        using run Inr True by (simp_all add: tx_error_def join_errors_def map_filter_simps)
      then show ?thesis using x True delay by simp
    next
      case False
      have "tx_error ?x = None" using Inr by (simp add: tx_error_def)
      then have "(res, d') = (Some e, tx_db ?x d)" using run False by (simp only: option.case if_False)
      then show ?thesis using assms(3) by simp
    qed
  qed
qed

lemma runStep_failed_error:
  assumes "step_end step outcome = Inl e" and "runStep g render msg run clk now over step None outcome d = (res, d')"
  shows "res \<noteq> None"
  using assms unfolding runStep_def Let_def step_end_def [symmetric] assms(1)
  by (auto simp add: join_errors_def map_filter_simps split: option.splits if_splits)

text \<open>
  What one step reports: it reports no error only after the result was stored as done under its own
  claim, and it reports a wait only for a classified retryable failure that was persisted with attempts
  left, so the run goes on only with work the store still knows.
\<close>

theorem runStep_reports:
  assumes "runStep g render msg run clk now over step heartbeat outcome d = (res, d')"
  shows "(res = None \<longrightarrow> (\<exists>out. outcome = Inr \<lparr>sr_Output = out, sr_Accepted = True\<rparr> \<and> trim_space out \<noteq> [] \<and> heartbeat = None \<and>
      CompleteTaskStep run clk (s_TaskID step) (s_ID step) (the (s_RunID step)) out d = Inr ((), d'))) \<and>
    (heartbeat = None \<and> (\<forall>e. outcome = Inl e \<longrightarrow> \<not> errors_Is e (Sentinel ErrGraphWaiting)) \<and>
      (\<exists>e. res = Some e \<and> errors_Is e (Sentinel ErrGraphWaiting)) \<longrightarrow>
      (\<exists>e delay. outcome = Inl e \<and> retryable_delay e = Some delay \<and> s_Attempts step < s_MaxAttempts step \<and>
        FailTaskStepAfter render run clk (s_TaskID step) (s_ID step) (the (s_RunID step)) (error_text msg e) True delay d = Inr ((), d')))"
proof (cases heartbeat)
  case (Some h)
  then have "res \<noteq> None"
    using assms by (auto simp: runStep_def Let_def join_errors_def map_filter_simps split: if_splits)
  then show ?thesis using Some by simp
next
  case None
  show ?thesis
  proof (cases "step_end step outcome")
    case (Inr out)
    then have "outcome = Inr \<lparr>sr_Output = out, sr_Accepted = True\<rparr>" "trim_space out \<noteq> []"
      by (auto simp: step_end_def split: sum.splits if_splits)
    then show ?thesis using runStep_accepted [OF Inr] assms None by auto
  next
    case (Inl e)
    have plain: "\<not> errors_Is (Plain m) (Sentinel ErrGraphWaiting)" "retryable_delay (Plain m) = None" for m
      by (simp_all add: errors_Is_def retryable_delay_def errors_As_simps)
    consider "outcome = Inl e" | m where "e = Plain m" using Inl by (auto simp: step_end_def split: sum.splits if_splits)
    then show ?thesis
    proof cases
      case 1
      note run = assms [unfolded None]
      show ?thesis using runStep_failed [OF Inl run] runStep_failed_error [OF Inl run] 1 by auto
    next
      case (2 m)
      note run = assms [unfolded None]
      show ?thesis using runStep_failed [OF Inl run] 2 plain by auto
    qed
  qed
qed

theorem runStep_reports_witness:
  "(case runStep sample_executor (\<lambda>_. []) (\<lambda>_. []) 100 (at 6) (6 * second) False (agent_task_steps (committed tx4) ! 0) None
       (Inr \<lparr>sr_Output = ''found'', sr_Accepted = True\<rparr>) (committed tx4) of
     (res, d') \<Rightarrow> res = None \<and> CompleteTaskStep 100 (at 6) 1 ''a'' 201 ''found'' (committed tx4) = Inr ((), d'))"
proof -
  let ?s = "agent_task_steps (committed tx4) ! 0"
  let ?run = "runStep sample_executor (\<lambda>_. []) (\<lambda>_. []) 100 (at 6) (6 * second) False ?s None
       (Inr \<lparr>sr_Output = ''found'', sr_Accepted = True\<rparr>) (committed tx4)"
  obtain res d' where run: "?run = (res, d')" by (cases ?run)
  have "fst ?run = None" and s: "s_TaskID ?s = 1" "s_ID ?s = ''a''" "s_RunID ?s = Some 201" by code_simp+
  then have "res = None" using run by simp
  then show ?thesis using runStep_reports [OF run] run s by auto
qed

end
