(* ===== verification/Tool_Registry.thy ===== *)
theory Tool_Registry
  imports Prelude "HOL-Library.List_Lexorder" "HOL-Library.Char_ord"
begin

text \<open>
  The tool registry of \<open>internal/core/registry.go\<close> and the way a task's registry is cut from it in
  \<open>internal/agenttask/scheduler.go\<close>. A Go map is an association list with distinct keys: its order stands
  for the order in which a \<open>range\<close> visits it, which Go leaves open, so every registry quantified over
  covers every order. The type \<open>'h\<close> is the type of tool handlers.
\<close>

section \<open>Maps\<close>

fun map_put :: "'k \<Rightarrow> 'v \<Rightarrow> ('k \<times> 'v) list \<Rightarrow> ('k \<times> 'v) list" where
  "map_put k v [] = [(k, v)]"
| "map_put k v ((k', v') # m) = (if k' = k then (k, v) # m else (k', v') # map_put k v m)"

lemma map_of_map_put [simp]: "map_of (map_put k v m) = (map_of m)(k \<mapsto> v)"
  by (induction k v m rule: map_put.induct) (auto simp: fun_eq_iff)

lemma keys_map_put [simp]: "fst ` set (map_put k v m) = insert k (fst ` set m)"
  by (induction k v m rule: map_put.induct) auto

lemma distinct_map_put [simp]: "distinct (map fst (map_put k v m)) = distinct (map fst m)"
  by (induction k v m rule: map_put.induct) (use keys_map_put in \<open>auto simp: image_iff set_eq_iff\<close>)

lemma set_map_put: "set (map_put k v m) \<subseteq> insert (k, v) (set m)"
  by (induction k v m rule: map_put.induct) auto

section \<open>Registry\<close>

record ToolDefinition =
  td_Name :: string
  td_Description :: string
  td_InputSchema :: string

record 'h registeredTool =
  rt_ReadOnly :: bool
  rt_Definition :: ToolDefinition
  rt_Handler :: 'h
  rt_EvidenceReader :: "'h option"
  rt_Mode :: string
  rt_Exposed :: bool
  rt_Remote :: bool
  rt_PeerTag :: string

record 'h ToolRegistry =
  tr_tools :: "(string \<times> 'h registeredTool) list"
  tr_remoteByPeer :: "(string \<times> 'h registeredTool) list"

definition peerPrefix :: string where "peerPrefix = ''peer:''"

definition remoteKey :: "string \<Rightarrow> string \<Rightarrow> string" where
  "remoteKey peer name = peer @ [CHR 0x00] @ name"

definition ToolModeSync :: string where "ToolModeSync = ''sync''"

definition NewToolRegistry :: "'h ToolRegistry" where
  "NewToolRegistry = \<lparr>tr_tools = [], tr_remoteByPeer = []\<rparr>"

definition put_tool :: "string \<Rightarrow> 'h registeredTool \<Rightarrow> 'h ToolRegistry \<Rightarrow> 'h ToolRegistry" where
  "put_tool name t r = r\<lparr>tr_tools := map_put name t (tr_tools r)\<rparr>"

abbreviation tool_of :: "'h ToolRegistry \<Rightarrow> string \<Rightarrow> 'h registeredTool option" where
  "tool_of r name \<equiv> map_of (tr_tools r) name"

definition Register :: "string \<Rightarrow> string \<Rightarrow> string \<Rightarrow> 'h \<Rightarrow> 'h ToolRegistry \<Rightarrow> 'h ToolRegistry" where
  "Register name description schema handler r = put_tool name \<lparr>rt_ReadOnly = False,
     rt_Definition = \<lparr>td_Name = name, td_Description = description, td_InputSchema = schema\<rparr>,
     rt_Handler = handler, rt_EvidenceReader = None, rt_Mode = ToolModeSync, rt_Exposed = False,
     rt_Remote = False, rt_PeerTag = []\<rparr> r"

definition Expose :: "string \<Rightarrow> string \<Rightarrow> 'h ToolRegistry \<Rightarrow> bool \<times> 'h ToolRegistry" where
  "Expose name mode r = (case tool_of r name of
     None \<Rightarrow> (False, r)
   | Some t \<Rightarrow> (True, put_tool name (t\<lparr>rt_Exposed := True, rt_Mode := mode\<rparr>) r))"

text \<open>A local registration owns its name; the peer's copy stays reachable by peer.\<close>

definition RegisterRemote ::
    "string \<Rightarrow> string \<Rightarrow> string \<Rightarrow> string \<Rightarrow> string \<Rightarrow> 'h \<Rightarrow> 'h ToolRegistry \<Rightarrow> 'h ToolRegistry" where
  "RegisterRemote name description schema mode peerName handler r =
     (let rt = \<lparr>rt_ReadOnly = False,
            rt_Definition = \<lparr>td_Name = name, td_Description = description, td_InputSchema = schema\<rparr>,
            rt_Handler = handler, rt_EvidenceReader = None, rt_Mode = mode, rt_Exposed = False,
            rt_Remote = True, rt_PeerTag = peerName\<rparr>;
          r' = r\<lparr>tr_remoteByPeer := map_put (remoteKey peerName name) rt (tr_remoteByPeer r)\<rparr>
      in case tool_of r name of
           Some existing \<Rightarrow> if \<not> rt_Remote existing then r' else put_tool name rt r'
         | None \<Rightarrow> put_tool name rt r')"

definition has_suffix :: "string \<Rightarrow> string \<Rightarrow> bool" where
  "has_suffix s p \<longleftrightarrow> length p \<le> length s \<and> drop (length s - length p) s = p"

text \<open>
  The loop of the fallback keeps the first match and gives up on a second one.
\<close>

fun sole_match :: "string \<Rightarrow> (string \<times> 'h registeredTool) list \<Rightarrow> 'h registeredTool option \<Rightarrow> 'h registeredTool option" where
  "sole_match p [] found = found"
| "sole_match p ((key, t) # m) found =
     (if has_suffix key p then (case found of Some _ \<Rightarrow> None | None \<Rightarrow> sole_match p m (Some t))
      else sole_match p m found)"

definition RemoteHandlerForPeer :: "string \<Rightarrow> string \<Rightarrow> 'h ToolRegistry \<Rightarrow> 'h option" where
  "RemoteHandlerForPeer peer name r =
     (case map_of (tr_remoteByPeer r) (remoteKey peer name) of
        Some t \<Rightarrow> Some (rt_Handler t)
      | None \<Rightarrow> map_option rt_Handler (sole_match (CHR 0x00 # name) (tr_remoteByPeer r) None))"

record ExposedToolInfo =
  ei_Name :: string
  ei_Description :: string
  ei_Mode :: string
  ei_Schema :: string

definition ExposedTools :: "'h ToolRegistry \<Rightarrow> ExposedToolInfo list" where
  "ExposedTools r = sort_key ei_Name (map (\<lambda>(_, t). \<lparr>ei_Name = td_Name (rt_Definition t),
       ei_Description = td_Description (rt_Definition t), ei_Mode = rt_Mode t, ei_Schema = td_InputSchema (rt_Definition t)\<rparr>)
     (filter (\<lambda>(_, t). rt_Exposed t) (tr_tools r)))"

definition ToolMetadata :: "string \<Rightarrow> 'h ToolRegistry \<Rightarrow> (string \<times> bool \<times> bool) option" where
  "ToolMetadata name r = map_option (\<lambda>t. (rt_Mode t, rt_Exposed t, rt_Remote t)) (tool_of r name)"

definition HandlerByName :: "string \<Rightarrow> 'h ToolRegistry \<Rightarrow> 'h option" where
  "HandlerByName name r = map_option rt_Handler (tool_of r name)"

definition Has :: "'h ToolRegistry \<Rightarrow> string \<Rightarrow> bool" where
  "Has r name \<longleftrightarrow> tool_of r name \<noteq> None"

definition Definitions :: "'h ToolRegistry \<Rightarrow> ToolDefinition list" where
  "Definitions r = sort_key td_Name (map (rt_Definition \<circ> snd) (tr_tools r))"

definition PeerForTool :: "string \<Rightarrow> 'h ToolRegistry \<Rightarrow> string" where
  "PeerForTool name r = (case tool_of r name of Some t \<Rightarrow> rt_PeerTag t | None \<Rightarrow> [])"

definition toolsForPeer :: "string \<Rightarrow> 'h ToolRegistry \<Rightarrow> 'h registeredTool list" where
  "toolsForPeer peer r = sort_key (td_Name \<circ> rt_Definition) (filter (\<lambda>t. rt_PeerTag t = peer) (map snd (tr_tools r)))"

text \<open>The loops over the names: \<open>seen\<close> and the output so far, one step per name.\<close>

definition add_definition :: "ToolDefinition \<Rightarrow> string set \<times> ToolDefinition list \<Rightarrow> string set \<times> ToolDefinition list" where
  "add_definition def acc = (case acc of (seen, defs) \<Rightarrow>
     if td_Name def \<in> seen then acc else (insert (td_Name def) seen, defs @ [def]))"

definition definitions_name ::
    "'h ToolRegistry \<Rightarrow> string \<Rightarrow> string set \<times> ToolDefinition list \<Rightarrow> string set \<times> ToolDefinition list" where
  "definitions_name r name acc =
     (if has_prefix name peerPrefix then
        fold (\<lambda>t. add_definition (rt_Definition t)) (toolsForPeer (drop (length peerPrefix) name) r) acc
      else case acc of (seen, defs) \<Rightarrow>
        if name \<in> seen then acc
        else (insert name seen, case tool_of r name of Some t \<Rightarrow> defs @ [rt_Definition t] | None \<Rightarrow> defs))"

definition DefinitionsForNames :: "'h ToolRegistry \<Rightarrow> string list \<Rightarrow> ToolDefinition list" where
  "DefinitionsForNames r names = snd (fold (definitions_name r) names ({}, []))"

definition add_tool ::
    "string \<Rightarrow> 'h registeredTool \<Rightarrow> string set \<times> (string \<times> 'h registeredTool) list \<Rightarrow> string set \<times> (string \<times> 'h registeredTool) list" where
  "add_tool name t acc = (case acc of (seen, sub) \<Rightarrow>
     if name \<in> seen then acc else (insert name seen, map_put name t sub))"

definition subset_name ::
    "'h ToolRegistry \<Rightarrow> string \<Rightarrow> string set \<times> (string \<times> 'h registeredTool) list \<Rightarrow>
     string set \<times> (string \<times> 'h registeredTool) list" where
  "subset_name r name acc =
     (if has_prefix name peerPrefix then
        fold (\<lambda>t. add_tool (td_Name (rt_Definition t)) t) (toolsForPeer (drop (length peerPrefix) name) r) acc
      else case acc of (seen, sub) \<Rightarrow>
        if name \<in> seen then acc
        else (insert name seen, case tool_of r name of Some t \<Rightarrow> map_put name t sub | None \<Rightarrow> sub))"

definition SubsetForNames :: "'h ToolRegistry \<Rightarrow> string list \<Rightarrow> 'h ToolRegistry" where
  "SubsetForNames r names = \<lparr>tr_tools = snd (fold (subset_name r) names ({}, [])), tr_remoteByPeer = tr_remoteByPeer r\<rparr>"

definition Count :: "'h ToolRegistry \<Rightarrow> nat" where "Count r = length (tr_tools r)"

definition Clone :: "'h ToolRegistry \<Rightarrow> 'h ToolRegistry" where
  "Clone r = \<lparr>tr_tools = fold (\<lambda>(name, t). map_put name t) (tr_tools r) [],
     tr_remoteByPeer = fold (\<lambda>(key, t). map_put key t) (tr_remoteByPeer r) []\<rparr>"

definition MarkReadOnly :: "string list \<Rightarrow> 'h ToolRegistry \<Rightarrow> string + 'h ToolRegistry" where
  "MarkReadOnly names r =
     (case List.find (\<lambda>n. tool_of r n = None) names of
        Some n \<Rightarrow> Inl n
      | None \<Rightarrow> Inr (fold (\<lambda>n r. case tool_of r n of Some t \<Rightarrow> put_tool n (t\<lparr>rt_ReadOnly := True\<rparr>) r | None \<Rightarrow> r) names r))"

definition IsReadOnly :: "'h ToolRegistry \<Rightarrow> string \<Rightarrow> bool" where
  "IsReadOnly r name = (case tool_of r name of Some t \<Rightarrow> rt_ReadOnly t | None \<Rightarrow> False)"

text \<open>A nil handler is \<open>None\<close>.\<close>

definition RegisterEvidenceReader :: "string \<Rightarrow> 'h option \<Rightarrow> 'h ToolRegistry \<Rightarrow> string + 'h ToolRegistry" where
  "RegisterEvidenceReader name handler r =
     (case tool_of r name of
        None \<Rightarrow> Inl name
      | Some t \<Rightarrow> if \<not> rt_ReadOnly t \<or> rt_Remote t \<or> handler = None then Inl name
          else Inr (put_tool name (t\<lparr>rt_EvidenceReader := handler\<rparr>) r))"

definition EvidenceOnlySubset :: "'h ToolRegistry \<Rightarrow> 'h ToolRegistry" where
  "EvidenceOnlySubset r = \<lparr>tr_tools = fold (\<lambda>(name, t) sub. case rt_EvidenceReader t of
       Some h \<Rightarrow> if rt_ReadOnly t \<and> \<not> rt_Remote t then map_put name (t\<lparr>rt_Handler := h\<rparr>) sub else sub
     | None \<Rightarrow> sub) (tr_tools r) [], tr_remoteByPeer = []\<rparr>"

text \<open>
  \<open>denied\<close> are the names hidden for the turn, \<open>call\<close> runs a handler (an error text or a value) and
  \<open>marshal\<close> renders the value. The result is the text and whether it is an error.
\<close>

definition Execute ::
    "('h \<Rightarrow> string \<Rightarrow> string + 'v) \<Rightarrow> ('v \<Rightarrow> string + string) \<Rightarrow> (string \<Rightarrow> bool) \<Rightarrow> string \<Rightarrow> string \<Rightarrow> 'h ToolRegistry \<Rightarrow> string \<times> bool" where
  "Execute call marshal denied name input r =
     (if denied name then (''tool denied for this turn: '' @ name, True)
      else case tool_of r name of
          None \<Rightarrow> (''unknown tool: '' @ name, True)
        | Some t \<Rightarrow>
            (case call (rt_Handler t) input of
               Inl e \<Rightarrow> (e, True)
             | Inr v \<Rightarrow> (case marshal v of Inl e \<Rightarrow> (''marshal result: '' @ e, True) | Inr data \<Rightarrow> (data, False))))"

section \<open>Invariant\<close>

text \<open>
  Entries sit under their own name; an evidence reader belongs to a local read-only tool; a local tool has
  no peer; and every peer registration is kept under its peer and name.
\<close>

definition tool_ok :: "string \<Rightarrow> 'h registeredTool \<Rightarrow> bool" where
  "tool_ok name t \<longleftrightarrow> td_Name (rt_Definition t) = name \<and>
     (rt_EvidenceReader t \<noteq> None \<longrightarrow> rt_ReadOnly t \<and> \<not> rt_Remote t) \<and> (\<not> rt_Remote t \<longrightarrow> rt_PeerTag t = [])"

definition remote_ok :: "string \<Rightarrow> 'h registeredTool \<Rightarrow> bool" where
  "remote_ok key t \<longleftrightarrow> rt_Remote t \<and> key = remoteKey (rt_PeerTag t) (td_Name (rt_Definition t)) \<and>
     CHR 0x00 \<notin> set (rt_PeerTag t) \<and> CHR 0x00 \<notin> set (td_Name (rt_Definition t))"

definition registry_ok :: "'h ToolRegistry \<Rightarrow> bool" where
  "registry_ok r \<longleftrightarrow> distinct (map fst (tr_tools r)) \<and> distinct (map fst (tr_remoteByPeer r)) \<and>
     (\<forall>(name, t) \<in> set (tr_tools r). tool_ok name t) \<and> (\<forall>(key, t) \<in> set (tr_remoteByPeer r). remote_ok key t)"

lemma registry_okI:
  assumes "distinct (map fst (tr_tools r))" "distinct (map fst (tr_remoteByPeer r))"
    "\<And>name t. tool_of r name = Some t \<Longrightarrow> tool_ok name t"
    "\<And>key t. map_of (tr_remoteByPeer r) key = Some t \<Longrightarrow> remote_ok key t"
  shows "registry_ok r"
  using assms by (auto simp: registry_ok_def)

lemma registry_okD:
  assumes "registry_ok r"
  shows "distinct (map fst (tr_tools r))" "distinct (map fst (tr_remoteByPeer r))"
    "tool_of r name = Some t \<Longrightarrow> tool_ok name t" "map_of (tr_remoteByPeer r) key = Some t' \<Longrightarrow> remote_ok key t'"
  using assms by (auto simp: registry_ok_def dest: map_of_SomeD)

lemma put_tool_ok: "registry_ok r \<Longrightarrow> tool_ok name t \<Longrightarrow> registry_ok (put_tool name t r)"
  by (rule registry_okI) (auto simp: put_tool_def dest: registry_okD split: if_splits)

lemma map_of_copy:
  assumes "distinct (map fst m)"
  shows "map_of (fold (\<lambda>(k, v) acc. case f k v of Some w \<Rightarrow> map_put k w acc | None \<Rightarrow> acc) m acc) k =
    (case Option.bind (map_of m k) (f k) of Some w \<Rightarrow> Some w | None \<Rightarrow> map_of acc k)"
  using assms
proof (induction m arbitrary: acc)
  case (Cons kv m)
  obtain a b where kv: "kv = (a, b)" by (cases kv)
  have "map_of m a = None" using Cons.prems kv by (simp add: map_of_eq_None_iff)
  then show ?case using Cons by (cases "f a b") (auto simp: kv split: option.splits)
qed simp

lemma distinct_copy:
  "distinct (map fst acc) \<Longrightarrow>
    distinct (map fst (fold (\<lambda>(k, v) acc. case f k v of Some w \<Rightarrow> map_put k w acc | None \<Rightarrow> acc) m acc))"
  by (induction m arbitrary: acc) (auto split: option.splits)

definition evidence_entry :: "'h registeredTool \<Rightarrow> 'h registeredTool option" where
  "evidence_entry t = (case rt_EvidenceReader t of
     Some h \<Rightarrow> if rt_ReadOnly t \<and> \<not> rt_Remote t then Some (t\<lparr>rt_Handler := h\<rparr>) else None | None \<Rightarrow> None)"

lemma EvidenceOnlySubset_copy:
  "tr_tools (EvidenceOnlySubset r) =
    fold (\<lambda>(k, v) acc. case evidence_entry v of Some w \<Rightarrow> map_put k w acc | None \<Rightarrow> acc) (tr_tools r) []"
  by (auto simp: EvidenceOnlySubset_def evidence_entry_def intro!: fold_cong split: option.splits)

lemma EvidenceOnlySubset_tool:
  "registry_ok r \<Longrightarrow> tool_of (EvidenceOnlySubset r) name = Option.bind (tool_of r name) evidence_entry"
  using map_of_copy [OF registry_okD(1), of r "\<lambda>_. evidence_entry" "[]" name]
  by (simp add: EvidenceOnlySubset_copy split: option.splits)

lemma EvidenceOnlySubset_ok:
  assumes "registry_ok r" shows "registry_ok (EvidenceOnlySubset r)"
proof (rule registry_okI)
  show "distinct (map fst (tr_tools (EvidenceOnlySubset r)))"
    unfolding EvidenceOnlySubset_copy by (rule distinct_copy) simp
next
  fix name t assume "tool_of (EvidenceOnlySubset r) name = Some t"
  then obtain t0 where "tool_of r name = Some t0" "evidence_entry t0 = Some t"
    unfolding EvidenceOnlySubset_tool [OF assms] by (auto simp: Option.bind_eq_Some_conv)
  then show "tool_ok name t" using registry_okD(3) [OF assms]
    by (auto simp: evidence_entry_def tool_ok_def split: option.splits if_splits)
qed (simp_all add: EvidenceOnlySubset_def)

lemma Clone_copy:
  "tr_tools (Clone r) = fold (\<lambda>(k, v) acc. case Some v of Some w \<Rightarrow> map_put k w acc | None \<Rightarrow> acc) (tr_tools r) []"
  "tr_remoteByPeer (Clone r) = fold (\<lambda>(k, v) acc. case Some v of Some w \<Rightarrow> map_put k w acc | None \<Rightarrow> acc) (tr_remoteByPeer r) []"
  by (simp_all add: Clone_def)

lemma Clone_lookup:
  assumes "registry_ok r"
  shows "tool_of (Clone r) name = tool_of r name" "map_of (tr_remoteByPeer (Clone r)) key = map_of (tr_remoteByPeer r) key"
  using map_of_copy [OF registry_okD(1) [OF assms], of "\<lambda>_. Some" "[]" name]
    map_of_copy [OF registry_okD(2) [OF assms], of "\<lambda>_. Some" "[]" key]
  unfolding Clone_copy by (simp_all split: option.splits)

lemma Clone_ok: "registry_ok r \<Longrightarrow> registry_ok (Clone r)"
  by (rule registry_okI)
    (simp_all only: Clone_copy distinct_copy list.map distinct.simps Clone_lookup [unfolded Clone_copy] registry_okD)

lemma Register_ok: "registry_ok r \<Longrightarrow> registry_ok (Register name description schema handler r)"
  unfolding Register_def by (rule put_tool_ok) (simp_all add: tool_ok_def)

lemma Expose_ok: "registry_ok r \<Longrightarrow> registry_ok (snd (Expose name mode r))"
  by (auto simp: Expose_def tool_ok_def split: option.splits intro!: put_tool_ok dest: registry_okD(3))

lemma RegisterRemote_ok:
  assumes "registry_ok r" "CHR 0x00 \<notin> set peerName" "CHR 0x00 \<notin> set name"
  shows "registry_ok (RegisterRemote name description schema mode peerName handler r)"
proof -
  let ?rt = "\<lparr>rt_ReadOnly = False,
    rt_Definition = \<lparr>td_Name = name, td_Description = description, td_InputSchema = schema\<rparr>,
    rt_Handler = handler, rt_EvidenceReader = None, rt_Mode = mode, rt_Exposed = False,
    rt_Remote = True, rt_PeerTag = peerName\<rparr>"
  let ?r = "r\<lparr>tr_remoteByPeer := map_put (remoteKey peerName name) ?rt (tr_remoteByPeer r)\<rparr>"
  have "registry_ok ?r"
  proof (rule registry_okI)
    fix key t assume "map_of (tr_remoteByPeer ?r) key = Some t"
    then show "remote_ok key t"
      using assms registry_okD(4) [OF assms(1)] by (cases "key = remoteKey peerName name") (auto simp: remote_ok_def)
  qed (use assms(1) in \<open>auto dest: registry_okD\<close>)
  moreover from this have "registry_ok (put_tool name ?rt ?r)" by (rule put_tool_ok) (simp add: tool_ok_def)
  ultimately show ?thesis by (simp add: RegisterRemote_def Let_def split: option.splits)
qed

lemma mark_tool_ok: "registry_ok r \<Longrightarrow> tool_of r n = Some t \<Longrightarrow> registry_ok (put_tool n (t\<lparr>rt_ReadOnly := True\<rparr>) r)"
  by (rule put_tool_ok) (auto simp: tool_ok_def dest: registry_okD(3))

lemma mark_loop_ok:
  "registry_ok r \<Longrightarrow> registry_ok (fold (\<lambda>n r. case tool_of r n of Some t \<Rightarrow> put_tool n (t\<lparr>rt_ReadOnly := True\<rparr>) r | None \<Rightarrow> r) names r)"
  by (induction names arbitrary: r) (auto split: option.splits intro: mark_tool_ok)

lemma MarkReadOnly_ok: "registry_ok r \<Longrightarrow> MarkReadOnly names r = Inr r' \<Longrightarrow> registry_ok r'"
  using mark_loop_ok by (auto simp: MarkReadOnly_def split: option.splits)

lemma RegisterEvidenceReader_ok: "registry_ok r \<Longrightarrow> RegisterEvidenceReader name handler r = Inr r' \<Longrightarrow> registry_ok r'"
  by (auto simp: RegisterEvidenceReader_def tool_ok_def split: option.splits if_splits intro!: put_tool_ok dest: registry_okD(3))

section \<open>Narrowing\<close>

text \<open>What one name of a list selects: a peer's tools, or itself.\<close>

definition selects :: "'h ToolRegistry \<Rightarrow> string \<Rightarrow> string \<Rightarrow> bool" where
  "selects r name n \<longleftrightarrow>
     (if has_prefix name peerPrefix then \<exists>t. tool_of r n = Some t \<and> rt_PeerTag t = drop (length peerPrefix) name
      else n = name)"

lemma toolsForPeer_names:
  assumes "registry_ok r"
  shows "t \<in> set (toolsForPeer peer r) \<longleftrightarrow> tool_of r (td_Name (rt_Definition t)) = Some t \<and> rt_PeerTag t = peer"
proof -
  have "t \<in> snd ` set (tr_tools r) \<longleftrightarrow> tool_of r (td_Name (rt_Definition t)) = Some t"
  proof
    assume "t \<in> snd ` set (tr_tools r)"
    then obtain n where n: "(n, t) \<in> set (tr_tools r)" by auto
    then have "tool_of r n = Some t" using registry_okD(1) [OF assms] by (simp add: map_of_is_SomeI)
    then show "tool_of r (td_Name (rt_Definition t)) = Some t" using registry_okD(3) [OF assms] by (auto simp: tool_ok_def)
  next
    assume "tool_of r (td_Name (rt_Definition t)) = Some t"
    then show "t \<in> snd ` set (tr_tools r)" by (force dest: map_of_SomeD)
  qed
  then show ?thesis by (auto simp: toolsForPeer_def)
qed

definition subset_acc :: "'h ToolRegistry \<Rightarrow> string set \<times> (string \<times> 'h registeredTool) list \<Rightarrow> bool" where
  "subset_acc r acc \<longleftrightarrow> distinct (map fst (snd acc)) \<and>
     (\<forall>n. map_of (snd acc) n = (if n \<in> fst acc then tool_of r n else None))"

lemma add_tool_acc:
  "subset_acc r acc \<Longrightarrow> tool_of r name = Some t \<Longrightarrow> subset_acc r (add_tool name t acc) \<and> fst (add_tool name t acc) = insert name (fst acc)"
  by (auto simp: subset_acc_def add_tool_def split: prod.splits)

lemma add_tools_acc:
  assumes "\<And>t. t \<in> set ts \<Longrightarrow> tool_of r (td_Name (rt_Definition t)) = Some t" "subset_acc r acc"
  shows "subset_acc r (fold (\<lambda>t. add_tool (td_Name (rt_Definition t)) t) ts acc) \<and>
    fst (fold (\<lambda>t. add_tool (td_Name (rt_Definition t)) t) ts acc) = (\<lambda>t. td_Name (rt_Definition t)) ` set ts \<union> fst acc"
  using assms by (induction ts arbitrary: acc) (auto simp: add_tool_acc)

lemma subset_name_acc:
  assumes "registry_ok r" "subset_acc r acc"
  shows "subset_acc r (subset_name r name acc) \<and> fst (subset_name r name acc) = Collect (selects r name) \<union> fst acc"
proof (cases "has_prefix name peerPrefix")
  case True
  let ?ts = "toolsForPeer (drop (length peerPrefix) name) r"
  have "(\<lambda>t. td_Name (rt_Definition t)) ` set ?ts = Collect (selects r name)"
  proof (intro set_eqI iffI)
    fix n assume "n \<in> Collect (selects r name)"
    then obtain t where t: "tool_of r n = Some t" "rt_PeerTag t = drop (length peerPrefix) name" using True by (auto simp: selects_def)
    then have "td_Name (rt_Definition t) = n" using registry_okD(3) [OF assms(1)] by (auto simp: tool_ok_def)
    then show "n \<in> (\<lambda>t. td_Name (rt_Definition t)) ` set ?ts" using t by (auto simp: image_iff toolsForPeer_names [OF assms(1)])
  qed (use True in \<open>auto simp: selects_def toolsForPeer_names [OF assms(1)]\<close>)
  then show ?thesis
    using add_tools_acc [of ?ts r acc] assms(2) True by (simp add: subset_name_def toolsForPeer_names [OF assms(1)])
next
  case False
  then show ?thesis using assms(2)
    by (auto simp: subset_name_def selects_def subset_acc_def split: prod.splits option.splits)
qed

lemma subset_names_acc:
  assumes "registry_ok r" "subset_acc r acc"
  shows "subset_acc r (fold (subset_name r) names acc) \<and>
    fst (fold (subset_name r) names acc) = {n. \<exists>name \<in> set names. selects r name n} \<union> fst acc"
  using assms(2)
proof (induction names arbitrary: acc)
  case (Cons name names)
  from subset_name_acc [OF assms(1) Cons.prems, of name] Cons.IH [of "subset_name r name acc"] show ?case by auto
qed simp

lemma SubsetForNames_tool:
  assumes "registry_ok r"
  shows "tool_of (SubsetForNames r names) n = (if \<exists>name \<in> set names. selects r name n then tool_of r n else None)"
  using subset_names_acc [OF assms, of "({}, [])" names]
  by (simp add: SubsetForNames_def subset_acc_def)

lemma SubsetForNames_ok: "registry_ok r \<Longrightarrow> registry_ok (SubsetForNames r names)"
proof (rule registry_okI)
  assume ok: "registry_ok r"
  show "distinct (map fst (tr_tools (SubsetForNames r names)))"
    using subset_names_acc [OF ok, of "({}, [])" names] by (simp add: SubsetForNames_def subset_acc_def)
  show "tool_ok n t" if "tool_of (SubsetForNames r names) n = Some t" for n t
    using that registry_okD(3) [OF ok] by (auto simp: SubsetForNames_tool [OF ok] split: if_splits)
qed (auto simp: SubsetForNames_def dest: registry_okD)

section \<open>Registries of the program\<close>

text \<open>The registries that the exported operations build; peer and tool names contain no NUL.\<close>

inductive registry_step :: "'h ToolRegistry \<Rightarrow> 'h ToolRegistry \<Rightarrow> bool" where
  step_register: "registry_step r (Register name description schema handler r)"
| step_expose: "registry_step r (snd (Expose name mode r))"
| step_remote: "CHR 0x00 \<notin> set peerName \<Longrightarrow> CHR 0x00 \<notin> set name \<Longrightarrow>
     registry_step r (RegisterRemote name description schema mode peerName handler r)"
| step_read_only: "MarkReadOnly names r = Inr r' \<Longrightarrow> registry_step r r'"
| step_evidence: "RegisterEvidenceReader name handler r = Inr r' \<Longrightarrow> registry_step r r'"
| step_subset: "registry_step r (SubsetForNames r names)"
| step_clone: "registry_step r (Clone r)"
| step_evidence_only: "registry_step r (EvidenceOnlySubset r)"

definition new_registry :: "'h ToolRegistry \<Rightarrow> bool" where
  "new_registry r \<longleftrightarrow> r = NewToolRegistry"

abbreviation built :: "'h ToolRegistry \<Rightarrow> bool" where
  "built \<equiv> reachable_from new_registry registry_step"

interpretation registry: invariant_system new_registry registry_step registry_ok
proof
  fix r r' :: "'h ToolRegistry" assume "registry_ok r" "registry_step r r'"
  from this(2,1) show "registry_ok r'"
    by cases (auto intro: Register_ok Expose_ok RegisterRemote_ok MarkReadOnly_ok RegisterEvidenceReader_ok
      SubsetForNames_ok Clone_ok EvidenceOnlySubset_ok)
qed (auto simp: new_registry_def NewToolRegistry_def registry_ok_def)

end
