(* ===== verification/Json_Scan.thy ===== *)
theory Json_Scan
  imports Prelude
begin

text \<open>
  What the program uses of Go's library on raw bytes: \<open>json.Valid\<close>, as the byte-by-byte automaton of
  \<open>encoding/json\<close> with its stack of open containers and its nesting limit, and \<open>utf8.ValidString\<close>.
\<close>

section \<open>The JSON scanner\<close>

datatype container = ObjectKey | ObjectValue | ArrayValue

datatype scan_mode =
    BeginValue | BeginValueOrEmpty | BeginString | BeginStringOrEmpty
  | EndValue | EndTop
  | InString | InStringEsc | InStringEscU nat
  | Neg | Digits0 | Digits1 | Dot | Dot0 | Exp | ExpSign | Exp0
  | Literal string

type_synonym scanner = "scan_mode \<times> container list"

definition maxNestingDepth :: int where "maxNestingDepth = 10000"

abbreviation byte_of :: "char \<Rightarrow> nat" where "byte_of c \<equiv> of_char c"

definition json_space :: "char \<Rightarrow> bool" where
  "json_space c \<longleftrightarrow> c = CHR '' '' \<or> c = CHR 0x09 \<or> c = CHR 0x0D \<or> c = CHR 0x0A"

definition ascii_digit :: "char \<Rightarrow> bool" where
  "ascii_digit c \<longleftrightarrow> 48 \<le> byte_of c \<and> byte_of c \<le> 57"

definition hex_digit :: "char \<Rightarrow> bool" where
  "hex_digit c \<longleftrightarrow> ascii_digit c \<or> 97 \<le> byte_of c \<and> byte_of c \<le> 102 \<or> 65 \<le> byte_of c \<and> byte_of c \<le> 70"

definition push :: "scan_mode \<Rightarrow> container \<Rightarrow> container list \<Rightarrow> scanner option" where
  "push m k stack = (if int (length stack) < maxNestingDepth then Some (m, k # stack) else None)"

definition pop :: "container list \<Rightarrow> scanner" where
  "pop stack = (if stack = [] then (EndTop, []) else (EndValue, stack))"

definition begin_value :: "char \<Rightarrow> container list \<Rightarrow> scanner option" where
  "begin_value c stack =
     (if json_space c then Some (BeginValue, stack)
      else if c = CHR ''{'' then push BeginStringOrEmpty ObjectKey stack
      else if c = CHR ''['' then push BeginValueOrEmpty ArrayValue stack
      else if c = CHR 0x22 then Some (InString, stack)
      else if c = CHR ''-'' then Some (Neg, stack)
      else if c = CHR ''0'' then Some (Digits0, stack)
      else if c = CHR ''t'' then Some (Literal ''rue'', stack)
      else if c = CHR ''f'' then Some (Literal ''alse'', stack)
      else if c = CHR ''n'' then Some (Literal ''ull'', stack)
      else if ascii_digit c then Some (Digits1, stack)
      else None)"

fun end_value :: "char \<Rightarrow> container list \<Rightarrow> scanner option" where
  "end_value c [] = (if json_space c then Some (EndTop, []) else None)"
| "end_value c (k # stack) =
     (if json_space c then Some (EndValue, k # stack)
      else case k of
          ObjectKey \<Rightarrow> if c = CHR '':'' then Some (BeginValue, ObjectValue # stack) else None
        | ObjectValue \<Rightarrow> if c = CHR '','' then Some (BeginString, ObjectKey # stack)
            else if c = CHR ''}'' then Some (pop stack) else None
        | ArrayValue \<Rightarrow> if c = CHR '','' then Some (BeginValue, ArrayValue # stack)
            else if c = CHR '']'' then Some (pop stack) else None)"

definition begin_string :: "char \<Rightarrow> container list \<Rightarrow> scanner option" where
  "begin_string c stack =
     (if json_space c then Some (BeginString, stack)
      else if c = CHR 0x22 then Some (InString, stack) else None)"

definition after_digits :: "char \<Rightarrow> container list \<Rightarrow> scanner option" where
  "after_digits c stack =
     (if c = CHR ''.'' then Some (Dot, stack)
      else if c = CHR ''e'' \<or> c = CHR ''E'' then Some (Exp, stack)
      else end_value c stack)"

fun scan_byte :: "scanner \<Rightarrow> char \<Rightarrow> scanner option" where
  "scan_byte (BeginValue, stack) c = begin_value c stack"
| "scan_byte (BeginValueOrEmpty, stack) c =
     (if json_space c then Some (BeginValueOrEmpty, stack)
      else if c = CHR '']'' then end_value c stack else begin_value c stack)"
| "scan_byte (BeginString, stack) c = begin_string c stack"
| "scan_byte (BeginStringOrEmpty, stack) c =
     (if json_space c then Some (BeginStringOrEmpty, stack)
      else if c = CHR ''}'' then end_value c (ObjectValue # tl stack) else begin_string c stack)"
| "scan_byte (EndValue, stack) c = end_value c stack"
| "scan_byte (EndTop, stack) c = (if json_space c then Some (EndTop, stack) else None)"
| "scan_byte (InString, stack) c =
     (if c = CHR 0x22 then Some (EndValue, stack)
      else if c = CHR 0x5C then Some (InStringEsc, stack)
      else if byte_of c < 32 then None else Some (InString, stack))"
| "scan_byte (InStringEsc, stack) c =
     (if c \<in> {CHR ''b'', CHR ''f'', CHR ''n'', CHR ''r'', CHR ''t'', CHR 0x5C, CHR ''/'', CHR 0x22} then Some (InString, stack)
      else if c = CHR ''u'' then Some (InStringEscU 4, stack) else None)"
| "scan_byte (InStringEscU n, stack) c =
     (if hex_digit c then Some (if n \<le> 1 then InString else InStringEscU (n - 1), stack) else None)"
| "scan_byte (Neg, stack) c =
     (if c = CHR ''0'' then Some (Digits0, stack) else if ascii_digit c then Some (Digits1, stack) else None)"
| "scan_byte (Digits1, stack) c = (if ascii_digit c then Some (Digits1, stack) else after_digits c stack)"
| "scan_byte (Digits0, stack) c = after_digits c stack"
| "scan_byte (Dot, stack) c = (if ascii_digit c then Some (Dot0, stack) else None)"
| "scan_byte (Dot0, stack) c =
     (if ascii_digit c then Some (Dot0, stack)
      else if c = CHR ''e'' \<or> c = CHR ''E'' then Some (Exp, stack) else end_value c stack)"
| "scan_byte (Exp, stack) c =
     (if c = CHR ''+'' \<or> c = CHR ''-'' then Some (ExpSign, stack)
      else if ascii_digit c then Some (Exp0, stack) else None)"
| "scan_byte (ExpSign, stack) c = (if ascii_digit c then Some (Exp0, stack) else None)"
| "scan_byte (Exp0, stack) c = (if ascii_digit c then Some (Exp0, stack) else end_value c stack)"
| "scan_byte (Literal [], stack) c = None"
| "scan_byte (Literal (l # ls), stack) c =
     (if c = l then Some (if ls = [] then EndValue else Literal ls, stack) else None)"

fun scan_bytes :: "scanner \<Rightarrow> string \<Rightarrow> scanner option" where
  "scan_bytes s [] = Some s"
| "scan_bytes s (c # cs) = (case scan_byte s c of None \<Rightarrow> None | Some s' \<Rightarrow> scan_bytes s' cs)"

text \<open>At the end of the input the scanner is fed one space and must then be at the top.\<close>

definition json_valid :: "string \<Rightarrow> bool" where
  "json_valid s \<longleftrightarrow>
     (case scan_bytes (BeginValue, []) s of
        None \<Rightarrow> False
      | Some (m, stack) \<Rightarrow> m = EndTop \<or>
          (case scan_byte (m, stack) (CHR '' '') of Some (EndTop, _) \<Rightarrow> True | _ \<Rightarrow> False))"

section \<open>UTF-8\<close>

definition cont_byte :: "nat \<Rightarrow> nat \<Rightarrow> char \<Rightarrow> bool" where
  "cont_byte lo hi c \<longleftrightarrow> lo \<le> byte_of c \<and> byte_of c \<le> hi"

text \<open>The bytes a first byte requires: their number and the range of the first of them.\<close>

definition utf8_first :: "char \<Rightarrow> (nat \<times> nat \<times> nat) option" where
  "utf8_first c =
     (let b = byte_of c in
      if b < 0x80 then Some (0, 0, 0)
      else if 0xC2 \<le> b \<and> b \<le> 0xDF then Some (1, 0x80, 0xBF)
      else if b = 0xE0 then Some (2, 0xA0, 0xBF)
      else if b = 0xED then Some (2, 0x80, 0x9F)
      else if 0xE1 \<le> b \<and> b \<le> 0xEF then Some (2, 0x80, 0xBF)
      else if b = 0xF0 then Some (3, 0x90, 0xBF)
      else if 0xF1 \<le> b \<and> b \<le> 0xF3 then Some (3, 0x80, 0xBF)
      else if b = 0xF4 then Some (3, 0x80, 0x8F)
      else None)"

text \<open>Valid text: \<open>n\<close> further bytes of the current code point, the next one from \<open>lo\<close> to \<open>hi\<close>.\<close>

fun utf8_rest :: "nat \<Rightarrow> nat \<Rightarrow> nat \<Rightarrow> string \<Rightarrow> bool" where
  "utf8_rest n lo hi [] \<longleftrightarrow> n = 0"
| "utf8_rest n lo hi (c # cs) =
     (if n = 0 then (case utf8_first c of None \<Rightarrow> False | Some (m, l, h) \<Rightarrow> utf8_rest m l h cs)
      else cont_byte lo hi c \<and> utf8_rest (n - 1) 0x80 0xBF cs)"

definition utf8_valid :: "string \<Rightarrow> bool" where "utf8_valid s \<longleftrightarrow> utf8_rest 0 0 0 s"

end
