(* ===== verification/Task_Program.thy ===== *)
theory Task_Program
  imports Task_Model Task_Origin Json_Scan
begin

text \<open>
  The typed task program of \<open>internal/core/task_program.go\<close>: validation, the tools it requests, its quiet
  hours and the reading of a task's requested tools.
\<close>

section \<open>Programs\<close>

definition TaskProgramSchemaV1 :: string where "TaskProgramSchemaV1 = ''blueship.task-program/v1''"

definition TaskProgramMaxInputs :: int where "TaskProgramMaxInputs = 32"
definition TaskProgramMaxDecisionTools :: int where "TaskProgramMaxDecisionTools = 32"
definition TaskProgramMaxInputBytes :: int where "TaskProgramMaxInputBytes = 64 * 1024"
definition TaskProgramMaxDecisionInstructionBytes :: int where "TaskProgramMaxDecisionInstructionBytes = 4000"

record TaskProgramInput =
  pi_ID :: string
  pi_Tool :: string
  pi_Input :: string
  pi_Enabled :: bool
  pi_OnError :: string

record TaskProgramActivation =
  pa_Mode :: string
  pa_InputIDs :: "string list"

record TaskProgramDecision =
  pd_Mode :: string
  pd_Tools :: "string list"
  pd_Instruction :: string

record TaskProgramQuietHours =
  qh_FromHour :: int
  qh_ToHour :: int

record TaskProgram =
  tp_Schema :: string
  tp_Inputs :: "TaskProgramInput list"
  tp_Activation :: TaskProgramActivation
  tp_Decision :: TaskProgramDecision
  tp_QuietHours :: "TaskProgramQuietHours option"

datatype program_error =
    BadSchema | TooManyInputs
  | BadInputID nat | InputToolRequired nat | InputToolSpaces string | DuplicateInput string
  | InputSendsMessage string | InputUsesMCP string
  | InputRequired string | InputTooLong string | InputInvalidJSON string | InputNotObject string | BadOnError string
  | ActivationIDsNotEmpty | ActivationIDsRequired | BadActivationMode
  | EmptyActivationID | ActivationIDSpaces string | DuplicateActivationID string
  | UnknownActivationID string | DisabledActivationID string
  | TooManyDecisionTools | InstructionNotUTF8 | InstructionTooLong
  | DecisionToolsNotEmpty | InstructionNotEmpty | BadDecisionMode
  | EmptyDecisionTool nat | DecisionToolSpaces nat | DuplicateDecisionTool string | DecisionSendsMessage string
  | BadFromHour | BadToHour | EqualHours
  | BadDecode

definition alnum :: "char \<Rightarrow> bool" where
  "alnum c \<longleftrightarrow> ascii_digit c \<or> 65 \<le> byte_of c \<and> byte_of c \<le> 90 \<or> 97 \<le> byte_of c \<and> byte_of c \<le> 122"

definition taskProgramInputIDPattern :: "string \<Rightarrow> bool" where
  "taskProgramInputIDPattern s \<longleftrightarrow>
     (case s of [] \<Rightarrow> False
      | c # cs \<Rightarrow> alnum c \<and> length cs \<le> 63 \<and> list_all (\<lambda>x. alnum x \<or> x = CHR ''_'' \<or> x = CHR ''-'') cs)"

definition check_input :: "nat \<times> TaskProgramInput \<Rightarrow> (string \<times> bool) list \<Rightarrow> program_error + (string \<times> bool) list" where
  "check_input p inputIDs =
     (case p of (i, inp) \<Rightarrow>
      if \<not> taskProgramInputIDPattern (pi_ID inp) then Inl (BadInputID i)
      else if pi_Tool inp = [] then Inl (InputToolRequired i)
      else if pi_Tool inp \<noteq> trim_space (pi_Tool inp) then Inl (InputToolSpaces (pi_ID inp))
      else if pi_ID inp \<in> fst ` set inputIDs then Inl (DuplicateInput (pi_ID inp))
      else if pi_Tool inp = ''message_send'' then Inl (InputSendsMessage (pi_ID inp))
      else if has_prefix (pi_Tool inp) ''mcp__'' then Inl (InputUsesMCP (pi_ID inp))
      else if pi_Input inp = [] then Inl (InputRequired (pi_ID inp))
      else if int (length (pi_Input inp)) > TaskProgramMaxInputBytes then Inl (InputTooLong (pi_ID inp))
      else if \<not> json_valid (pi_Input inp) then Inl (InputInvalidJSON (pi_ID inp))
      else if (case trim_space (pi_Input inp) of [] \<Rightarrow> True | c # _ \<Rightarrow> c \<noteq> CHR ''{'') then Inl (InputNotObject (pi_ID inp))
      else if pi_OnError inp \<noteq> ''fail'' \<and> pi_OnError inp \<noteq> ''continue'' then Inl (BadOnError (pi_ID inp))
      else Inr (inputIDs @ [(pi_ID inp, pi_Enabled inp)]))"

definition check_activation_mode :: "TaskProgramActivation \<Rightarrow> program_error + unit" where
  "check_activation_mode a =
     (if pa_Mode a = ''always'' then (if pa_InputIDs a \<noteq> [] then Inl ActivationIDsNotEmpty else Inr ())
      else if pa_Mode a = ''any_non_empty'' \<or> pa_Mode a = ''all_non_empty'' then
        (if pa_InputIDs a = [] then Inl ActivationIDsRequired else Inr ())
      else Inl BadActivationMode)"

definition check_activation_id :: "(string \<times> bool) list \<Rightarrow> string \<Rightarrow> string list \<Rightarrow> program_error + string list" where
  "check_activation_id inputIDs i seen =
     (if i = [] then Inl EmptyActivationID
      else if i \<noteq> trim_space i then Inl (ActivationIDSpaces i)
      else if i \<in> set seen then Inl (DuplicateActivationID i)
      else case map_of inputIDs i of
          None \<Rightarrow> Inl (UnknownActivationID i)
        | Some enabled \<Rightarrow> if \<not> enabled then Inl (DisabledActivationID i) else Inr (seen @ [i]))"

definition check_decision_mode :: "TaskProgramDecision \<Rightarrow> program_error + unit" where
  "check_decision_mode d =
     (if int (length (pd_Tools d)) > TaskProgramMaxDecisionTools then Inl TooManyDecisionTools
      else if \<not> utf8_valid (pd_Instruction d) then Inl InstructionNotUTF8
      else if int (length (pd_Instruction d)) > TaskProgramMaxDecisionInstructionBytes then Inl InstructionTooLong
      else if pd_Mode d = ''selected'' then Inr ()
      else if pd_Mode d = ''none'' then
        (if pd_Tools d \<noteq> [] then Inl DecisionToolsNotEmpty
         else if pd_Instruction d \<noteq> [] then Inl InstructionNotEmpty else Inr ())
      else Inl BadDecisionMode)"

definition check_decision_tool :: "nat \<times> string \<Rightarrow> string list \<Rightarrow> program_error + string list" where
  "check_decision_tool p seen =
     (case p of (i, tool) \<Rightarrow>
      if tool = [] then Inl (EmptyDecisionTool i)
      else if tool \<noteq> trim_space tool then Inl (DecisionToolSpaces i)
      else if tool \<in> set seen then Inl (DuplicateDecisionTool tool)
      else if tool = ''message_send'' then Inl (DecisionSendsMessage tool)
      else Inr (seen @ [tool]))"

definition check_quiet_hours :: "TaskProgramQuietHours option \<Rightarrow> program_error + unit" where
  "check_quiet_hours q =
     (case q of
        None \<Rightarrow> Inr ()
      | Some h \<Rightarrow>
          if qh_FromHour h < 0 \<or> qh_FromHour h > 23 then Inl BadFromHour
          else if qh_ToHour h < 0 \<or> qh_ToHour h > 23 then Inl BadToHour
          else if qh_FromHour h = qh_ToHour h then Inl EqualHours
          else Inr ())"

definition ValidateProgram :: "TaskProgram \<Rightarrow> program_error + unit" where
  "ValidateProgram p =
     (if tp_Schema p \<noteq> TaskProgramSchemaV1 then Inl BadSchema
      else if int (length (tp_Inputs p)) > TaskProgramMaxInputs then Inl TooManyInputs
      else case foldM check_input (enumerate 0 (tp_Inputs p)) [] of
          Inl e \<Rightarrow> Inl e
        | Inr inputIDs \<Rightarrow>
            (case check_activation_mode (tp_Activation p) of
               Inl e \<Rightarrow> Inl e
             | Inr _ \<Rightarrow>
                 (case foldM (check_activation_id inputIDs) (pa_InputIDs (tp_Activation p)) [] of
                    Inl e \<Rightarrow> Inl e
                  | Inr _ \<Rightarrow>
                      (case check_decision_mode (tp_Decision p) of
                         Inl e \<Rightarrow> Inl e
                       | Inr _ \<Rightarrow>
                           (case foldM check_decision_tool (enumerate 0 (pd_Tools (tp_Decision p))) [] of
                              Inl e \<Rightarrow> Inl e
                            | Inr _ \<Rightarrow> check_quiet_hours (tp_QuietHours p))))))"

definition append_tool :: "string \<Rightarrow> string list \<Rightarrow> string list" where
  "append_tool tool out = (if tool = [] \<or> tool \<in> set out then out else out @ [tool])"

definition RequestedTools :: "TaskProgram \<Rightarrow> string list" where
  "RequestedTools p =
     (let out = fold (\<lambda>inp out. if pi_Enabled inp then append_tool (pi_Tool inp) out else out) (tp_Inputs p) []
      in if pd_Mode (tp_Decision p) = ''selected'' then fold append_tool (pd_Tools (tp_Decision p)) out else out)"

text \<open>
  \<open>decode\<close> stands for \<open>json.Unmarshal\<close> of the nested value into a program. The result tells an absent
  program from a present one with its error.
\<close>

definition ParseTaskProgram :: "(json \<Rightarrow> TaskProgram option) \<Rightarrow> json \<Rightarrow> (program_error + TaskProgram) option" where
  "ParseTaskProgram decode config =
     (case object_fields config of
        None \<Rightarrow> None
      | Some envelope \<Rightarrow>
          (case map_of envelope ''task_program'' of
             None \<Rightarrow> None
           | Some raw \<Rightarrow>
               if raw = JNull then None
               else Some (case decode raw of
                   None \<Rightarrow> Inl BadDecode
                 | Some p \<Rightarrow> (case ValidateProgram p of Inl e \<Rightarrow> Inl e | Inr _ \<Rightarrow> Inr p))))"

text \<open>The requested tools of a task, if it restricts them, or the error of its program.\<close>

definition taskRequestedTools :: "(json \<Rightarrow> TaskProgram option) \<Rightarrow> AgentTask \<Rightarrow> program_error + string list option" where
  "taskRequestedTools decode task =
     (case ParseTaskProgram decode (t_Config task) of
        Some (Inl e) \<Rightarrow> Inl e
      | Some (Inr p) \<Rightarrow> Inr (Some (RequestedTools p))
      | None \<Rightarrow> if t_Tools task = [] then Inr None else Inr (Some (t_Tools task)))"

text \<open>\<open>hour\<close> is the owner's local hour, from a time zone lookup outside the model.\<close>

definition taskProgramInQuietHours :: "(json \<Rightarrow> TaskProgram option) \<Rightarrow> int \<Rightarrow> AgentTask \<Rightarrow> bool" where
  "taskProgramInQuietHours decode hour task =
     (case ParseTaskProgram decode (t_Config task) of
        Some (Inr p) \<Rightarrow>
          (case tp_QuietHours p of
             None \<Rightarrow> False
           | Some q \<Rightarrow> if qh_FromHour q < qh_ToHour q then hour \<ge> qh_FromHour q \<and> hour < qh_ToHour q
               else hour \<ge> qh_FromHour q \<or> hour < qh_ToHour q)
      | _ \<Rightarrow> False)"

section \<open>Valid programs\<close>

definition tool_name_ok :: "string \<Rightarrow> bool" where
  "tool_name_ok tool \<longleftrightarrow> tool \<noteq> [] \<and> trim_space tool = tool \<and> tool \<noteq> ''message_send''"

definition input_ok :: "TaskProgramInput \<Rightarrow> bool" where
  "input_ok inp \<longleftrightarrow> taskProgramInputIDPattern (pi_ID inp) \<and> tool_name_ok (pi_Tool inp) \<and>
     \<not> has_prefix (pi_Tool inp) ''mcp__'' \<and> int (length (pi_Input inp)) \<le> TaskProgramMaxInputBytes \<and>
     json_valid (pi_Input inp) \<and> (\<exists>cs. trim_space (pi_Input inp) = CHR ''{'' # cs) \<and>
     pi_OnError inp \<in> {''fail'', ''continue''}"

definition activation_ok :: "TaskProgramInput list \<Rightarrow> TaskProgramActivation \<Rightarrow> bool" where
  "activation_ok inputs a \<longleftrightarrow>
     (pa_Mode a = ''always'' \<and> pa_InputIDs a = [] \<or>
      pa_Mode a \<in> {''any_non_empty'', ''all_non_empty''} \<and> pa_InputIDs a \<noteq> []) \<and>
     distinct (pa_InputIDs a) \<and> set (pa_InputIDs a) \<subseteq> {pi_ID inp |inp. inp \<in> set inputs \<and> pi_Enabled inp}"

definition decision_ok :: "TaskProgramDecision \<Rightarrow> bool" where
  "decision_ok d \<longleftrightarrow> length (pd_Tools d) \<le> 32 \<and> utf8_valid (pd_Instruction d) \<and> length (pd_Instruction d) \<le> 4000 \<and>
     (pd_Mode d = ''selected'' \<or> pd_Mode d = ''none'' \<and> pd_Tools d = [] \<and> pd_Instruction d = []) \<and>
     distinct (pd_Tools d) \<and> list_all tool_name_ok (pd_Tools d)"

definition quiet_hours_ok :: "TaskProgramQuietHours \<Rightarrow> bool" where
  "quiet_hours_ok q \<longleftrightarrow> qh_FromHour q \<in> {0..23} \<and> qh_ToHour q \<in> {0..23} \<and> qh_FromHour q \<noteq> qh_ToHour q"

definition valid_program :: "TaskProgram \<Rightarrow> bool" where
  "valid_program p \<longleftrightarrow> tp_Schema p = TaskProgramSchemaV1 \<and> length (tp_Inputs p) \<le> 32 \<and>
     list_all input_ok (tp_Inputs p) \<and> distinct (map pi_ID (tp_Inputs p)) \<and>
     activation_ok (tp_Inputs p) (tp_Activation p) \<and> decision_ok (tp_Decision p) \<and>
     (case tp_QuietHours p of None \<Rightarrow> True | Some q \<Rightarrow> quiet_hours_ok q)"

section \<open>Validation is exact\<close>

text \<open>A loop that appends the entry of each element it accepts and rejects a key it has seen.\<close>

lemma foldM_distinct:
  assumes step: "\<And>x out s. f x out = Inr s \<longleftrightarrow> P x \<and> k x \<notin> g ` set out \<and> s = out @ [h x]"
    and key: "\<And>x. g (h x) = k x"
  shows "foldM f xs out = Inr s \<longleftrightarrow>
    (\<forall>x \<in> set xs. P x) \<and> distinct (map k xs) \<and> k ` set xs \<inter> g ` set out = {} \<and> s = out @ map h xs"
proof (induction xs arbitrary: out)
  case (Cons x xs)
  have "foldM f (x # xs) out = Inr s \<longleftrightarrow> P x \<and> k x \<notin> g ` set out \<and> foldM f xs (out @ [h x]) = Inr s"
  proof (cases "f x out")
    case (Inl e) then show ?thesis using step [of x out "out @ [h x]"] by auto
  next
    case (Inr t) then show ?thesis using step [of x out t] by auto
  qed
  then show ?case using Cons by (auto simp: key)
qed auto

text \<open>White space is encoded by control bytes, the space and bytes from 0x80 on.\<close>

lemma white_space_bytes:
  assumes "32 < byte_of c" "byte_of c < 128"
  shows "list_all (\<lambda>p. p \<noteq> [] \<and> hd p \<noteq> c) white_space" "list_all (\<lambda>p. p \<noteq> [] \<and> hd p \<noteq> c) (map rev white_space)"
proof -
  have "list_all (\<lambda>p. p \<noteq> [] \<and> (byte_of (hd p) \<le> 32 \<or> 128 \<le> byte_of (hd p))) white_space"
    "list_all (\<lambda>p. p \<noteq> [] \<and> (byte_of (hd p) \<le> 32 \<or> 128 \<le> byte_of (hd p))) (map rev white_space)" by code_simp+
  then show "list_all (\<lambda>p. p \<noteq> [] \<and> hd p \<noteq> c) white_space" "list_all (\<lambda>p. p \<noteq> [] \<and> hd p \<noteq> c) (map rev white_space)"
    using assms unfolding list_all_iff by fastforce+
qed

lemma pattern_trimmed:
  assumes "taskProgramInputIDPattern s" shows "s \<noteq> []" "trim_space s = s"
proof -
  have plain: "\<forall>c \<in> set s. alnum c \<or> c = CHR ''_'' \<or> c = CHR ''-''" and "s \<noteq> []"
    using assms by (auto simp: taskProgramInputIDPattern_def list_all_iff split: list.splits)
  have "32 < byte_of c \<and> byte_of c < 128" if "c \<in> set s" for c
    using bspec [OF plain that] by (auto simp: alnum_def ascii_digit_def)
  then show "s \<noteq> []" "trim_space s = s"
    using \<open>s \<noteq> []\<close> by (auto intro!: trim_space_fixed white_space_bytes)
qed

lemma check_input_iff:
  "check_input x out = Inr s \<longleftrightarrow> input_ok (snd x) \<and> pi_ID (snd x) \<notin> fst ` set out \<and>
     s = out @ [(pi_ID (snd x), pi_Enabled (snd x))]"
  by (cases x) (auto simp: check_input_def input_ok_def tool_name_ok_def split: list.splits)

lemma check_activation_id_iff:
  "check_activation_id inputIDs i out = Inr s \<longleftrightarrow>
     (i \<noteq> [] \<and> trim_space i = i \<and> map_of inputIDs i = Some True) \<and> i \<notin> (\<lambda>x. x) ` set out \<and> s = out @ [i]"
  by (auto simp: check_activation_id_def split: option.splits)

lemma check_decision_tool_iff:
  "check_decision_tool x out = Inr s \<longleftrightarrow> tool_name_ok (snd x) \<and> snd x \<notin> (\<lambda>x. x) ` set out \<and> s = out @ [snd x]"
  by (cases x) (auto simp: check_decision_tool_def tool_name_ok_def)

lemma enumerate_map: "map (\<lambda>x. f (snd x)) (enumerate n xs) = map f xs"
  using map_map [of f snd "enumerate n xs"] by (simp add: comp_def)

lemma enumerate_all: "(\<forall>x \<in> set (enumerate n xs). P (snd x)) \<longleftrightarrow> list_all P xs"
proof -
  have "snd ` set (enumerate n xs) = set xs" by (metis list.set_map map_snd_enumerate)
  then show ?thesis by (metis (no_types, lifting) image_iff list_all_iff)
qed

lemma check_inputs_iff:
  "foldM check_input (enumerate n inputs) [] = Inr s \<longleftrightarrow>
     list_all input_ok inputs \<and> distinct (map pi_ID inputs) \<and> s = map (\<lambda>inp. (pi_ID inp, pi_Enabled inp)) inputs"
  using foldM_distinct [where k = "\<lambda>x. pi_ID (snd x)" and h = "\<lambda>x. (pi_ID (snd x), pi_Enabled (snd x))" and out = "[]", OF check_input_iff, of "enumerate n inputs" s]
  by (simp add: enumerate_map enumerate_map [where f = "\<lambda>inp. (pi_ID inp, pi_Enabled inp)"] enumerate_all)

lemma check_decision_tools_iff:
  "foldM check_decision_tool (enumerate n tools) [] = Inr s \<longleftrightarrow> list_all tool_name_ok tools \<and> distinct tools \<and> s = tools"
  using foldM_distinct [where k = snd and h = snd and out = "[]", OF check_decision_tool_iff, of "enumerate n tools" s]
  by (simp add: enumerate_all)

lemma check_activation_ids_iff:
  "foldM (check_activation_id inputIDs) ids [] = Inr s \<longleftrightarrow>
     list_all (\<lambda>i. i \<noteq> [] \<and> trim_space i = i \<and> map_of inputIDs i = Some True) ids \<and> distinct ids \<and> s = ids"
  using foldM_distinct [where k = "\<lambda>x. x" and h = "\<lambda>x. x" and out = "[]" and xs = ids and s = s, OF check_activation_id_iff [of inputIDs]]
  by (simp add: list_all_iff)

lemma activation_ids_enabled:
  assumes "list_all input_ok inputs" "distinct (map pi_ID inputs)"
  shows "list_all (\<lambda>i. i \<noteq> [] \<and> trim_space i = i \<and> map_of (map (\<lambda>inp. (pi_ID inp, pi_Enabled inp)) inputs) i = Some True) ids \<longleftrightarrow>
    set ids \<subseteq> {pi_ID inp |inp. inp \<in> set inputs \<and> pi_Enabled inp}"
proof -
  let ?m = "map (\<lambda>inp. (pi_ID inp, pi_Enabled inp)) inputs"
  have "distinct (map fst ?m)" using assms(2) by (simp add: comp_def)
  then have enabled: "map_of ?m i = Some True \<longleftrightarrow> (\<exists>inp \<in> set inputs. pi_ID inp = i \<and> pi_Enabled inp)" for i
    by (auto simp: map_of_eq_Some_iff)
  have trimmed: "pi_ID inp \<noteq> [] \<and> trim_space (pi_ID inp) = pi_ID inp" if "inp \<in> set inputs" for inp
    using assms(1) that pattern_trimmed by (auto simp: list_all_iff input_ok_def)
  have "i \<noteq> [] \<and> trim_space i = i \<and> map_of ?m i = Some True \<longleftrightarrow>
      i \<in> {pi_ID inp |inp. inp \<in> set inputs \<and> pi_Enabled inp}" for i
    unfolding enabled using trimmed by auto
  then show ?thesis by (simp only: list_all_iff subset_iff Ball_def)
qed

text \<open>
  C36. Validation accepts exactly the valid programs: known schema, bounded inputs with distinct ids and
  JSON objects as arguments, no input or decision that sends messages, no input that calls an MCP tool,
  an activation over enabled inputs, distinct decision tools and a proper pair of quiet hours.
\<close>

theorem ValidateProgram_iff: "ValidateProgram p = Inr () \<longleftrightarrow> valid_program p"
proof (cases "list_all input_ok (tp_Inputs p) \<and> distinct (map pi_ID (tp_Inputs p))")
  case False
  then have "foldM check_input (enumerate 0 (tp_Inputs p)) [] \<noteq> Inr s" for s using check_inputs_iff by blast
  then show ?thesis using False by (auto simp: ValidateProgram_def valid_program_def split: sum.splits)
next
  case True
  let ?m = "map (\<lambda>inp. (pi_ID inp, pi_Enabled inp)) (tp_Inputs p)"
  let ?ids = "pa_InputIDs (tp_Activation p)" and ?tools = "pd_Tools (tp_Decision p)"
  have inputs: "foldM check_input (enumerate 0 (tp_Inputs p)) [] = Inr ?m" using True check_inputs_iff by blast
  have act: "activation_ok (tp_Inputs p) (tp_Activation p) \<longleftrightarrow>
      check_activation_mode (tp_Activation p) = Inr () \<and> foldM (check_activation_id ?m) ?ids [] = Inr ?ids"
    using True activation_ids_enabled [of "tp_Inputs p" ?ids]
    by (auto simp: activation_ok_def check_activation_mode_def check_activation_ids_iff split: if_splits)
  have dec: "decision_ok (tp_Decision p) \<longleftrightarrow>
      check_decision_mode (tp_Decision p) = Inr () \<and> foldM check_decision_tool (enumerate 0 ?tools) [] = Inr ?tools"
    by (auto simp: decision_ok_def check_decision_mode_def check_decision_tools_iff TaskProgramMaxDecisionTools_def
      TaskProgramMaxDecisionInstructionBytes_def split: if_splits)
  have quiet: "(case tp_QuietHours p of None \<Rightarrow> True | Some q \<Rightarrow> quiet_hours_ok q) \<longleftrightarrow> check_quiet_hours (tp_QuietHours p) = Inr ()"
    by (auto simp: quiet_hours_ok_def check_quiet_hours_def split: option.splits if_splits)
  have ids: "foldM (check_activation_id ?m) ?ids [] = Inr s \<Longrightarrow> s = ?ids" for s by (simp add: check_activation_ids_iff)
  have tools: "foldM check_decision_tool (enumerate 0 ?tools) [] = Inr s \<Longrightarrow> s = ?tools" for s by (simp add: check_decision_tools_iff)
  show ?thesis
    unfolding ValidateProgram_def valid_program_def act dec quiet inputs
    using True ids tools by (auto simp: TaskProgramMaxInputs_def split: sum.splits)
qed

end
