(* ===== verification/Task_Tools.thy ===== *)
theory Task_Tools
  imports Tool_Registry Task_Program
begin

text \<open>
  The registry of one task: the owner's tools under the soul's policy, cut down to the handler's defaults
  and then to what the task requests (\<open>internal/agenttask/scheduler.go\<close>), and what that guarantees.
\<close>

section \<open>Composing\<close>

definition registryForTask :: "'h ToolRegistry \<Rightarrow> string list \<Rightarrow> string list option \<Rightarrow> 'h ToolRegistry" where
  "registryForTask base handlerDefaults requested =
     (let allowed = (if handlerDefaults \<noteq> [] then SubsetForNames base handlerDefaults else base)
      in case requested of None \<Rightarrow> allowed | Some names \<Rightarrow> SubsetForNames allowed names)"

definition requestsMCPTool :: "string list \<Rightarrow> bool" where
  "requestsMCPTool tools \<longleftrightarrow> list_ex (\<lambda>tool. has_prefix (trim_space tool) ''mcp__'') tools"

record tool_meta =
  tm_Provider :: string
  tm_Core :: bool

record 'h mcp_tool =
  mt_Name :: string
  mt_Description :: string
  mt_Schema :: string
  mt_Handler :: 'h

text \<open>
  The host's answers: the MCP tools of the soul when a source is configured, and the policy hook, absent,
  failing, or giving overrides and connected providers. \<open>meta\<close> is the host's table of tool metadata, whose
  missing entries are zero.
\<close>

datatype policy_answer = NoPolicy | PolicyFailed | Policy "(string \<times> bool) list" "string list"

definition policy_allows :: "(string \<Rightarrow> tool_meta) \<Rightarrow> (string \<times> bool) list \<Rightarrow> string list \<Rightarrow> string \<Rightarrow> bool" where
  "policy_allows meta overrides providers name \<longleftrightarrow>
     \<not> (tm_Provider (meta name) \<noteq> [] \<and> tm_Provider (meta name) \<notin> set providers) \<and>
     (tm_Core (meta name) \<or> (case map_of overrides name of Some enabled \<Rightarrow> enabled | None \<Rightarrow> True))"

definition composeSoulTaskRegistry ::
    "(string \<Rightarrow> tool_meta) \<Rightarrow> 'h mcp_tool list option \<Rightarrow> policy_answer \<Rightarrow> bool \<Rightarrow> uuid \<Rightarrow> 'h ToolRegistry \<Rightarrow> string list \<Rightarrow>
     string + 'h ToolRegistry" where
  "composeSoulTaskRegistry meta mcp policy quiet soul base requestedTools =
     (let registry = (case mcp of
            None \<Rightarrow> base
          | Some tools \<Rightarrow>
              if requestsMCPTool requestedTools \<and> \<not> quiet \<and> tools \<noteq> [] then
                fold (\<lambda>tool. RegisterRemote (mt_Name tool) (mt_Description tool) (mt_Schema tool) ToolModeSync ''mcp'' (mt_Handler tool))
                  tools (Clone base)
              else base)
      in if soul = uuid_Nil then Inr registry
         else case policy of
             NoPolicy \<Rightarrow> Inr registry
           | PolicyFailed \<Rightarrow> Inl ''background tool policy''
           | Policy overrides providers \<Rightarrow>
               Inr (SubsetForNames registry (filter (policy_allows meta overrides providers) (map td_Name (Definitions registry)))))"

text \<open>
  The registry a task runs with. A bad program or a failing policy lookup leaves it empty.
\<close>

definition task_registry ::
    "(json \<Rightarrow> TaskProgram option) \<Rightarrow> (string \<Rightarrow> tool_meta) \<Rightarrow> 'h mcp_tool list option \<Rightarrow> policy_answer \<Rightarrow> int \<Rightarrow> string list \<Rightarrow>
     AgentTask \<Rightarrow> 'h ToolRegistry \<Rightarrow> 'h ToolRegistry" where
  "task_registry decode meta mcp policy hour handlerDefaults task base =
     (case taskRequestedTools decode task of
        Inl _ \<Rightarrow> registryForTask NewToolRegistry handlerDefaults (Some [])
      | Inr requested \<Rightarrow>
          (case composeSoulTaskRegistry meta mcp policy (taskProgramInQuietHours decode hour task) (t_SoulID task) base
                  (case requested of None \<Rightarrow> [] | Some names \<Rightarrow> names) of
             Inl _ \<Rightarrow> registryForTask NewToolRegistry handlerDefaults requested
           | Inr registry \<Rightarrow> registryForTask registry handlerDefaults requested))"

section \<open>Evidence\<close>

text \<open>
  C35. After research closes only persisted evidence is readable: a call on the evidence subset is
  refused, or it runs the evidence reader registered for a local read-only tool of that name. No peer can
  be reached through it.
\<close>

theorem evidence_only:
  assumes "built r"
  shows "(Execute call marshal denied name input (EvidenceOnlySubset r) = (''tool denied for this turn: '' @ name, True) \<or>
      Execute call marshal denied name input (EvidenceOnlySubset r) = (''unknown tool: '' @ name, True) \<or>
      (\<exists>t h. tool_of r name = Some t \<and> rt_ReadOnly t \<and> \<not> rt_Remote t \<and> rt_EvidenceReader t = Some h \<and>
        Execute call marshal denied name input (EvidenceOnlySubset r) =
          (case call h input of Inl e \<Rightarrow> (e, True)
           | Inr v \<Rightarrow> (case marshal v of Inl e \<Rightarrow> (''marshal result: '' @ e, True) | Inr data \<Rightarrow> (data, False))))) \<and>
    RemoteHandlerForPeer peer name (EvidenceOnlySubset r) = None"
proof -
  note ok = registry.reachable_inv [OF assms]
  consider "denied name" | "\<not> denied name" "tool_of (EvidenceOnlySubset r) name = None"
    | t h where "\<not> denied name" "tool_of r name = Some t" "rt_ReadOnly t" "\<not> rt_Remote t" "rt_EvidenceReader t = Some h"
        "tool_of (EvidenceOnlySubset r) name = Some (t\<lparr>rt_Handler := h\<rparr>)"
  proof (cases "tool_of (EvidenceOnlySubset r) name")
    case (Some t')
    then obtain t where "tool_of r name = Some t" "evidence_entry t = Some t'"
      unfolding EvidenceOnlySubset_tool [OF ok] by (auto simp: Option.bind_eq_Some_conv)
    then show thesis using that Some by (auto simp: evidence_entry_def split: option.splits if_splits)
  qed (use that in auto)
  then show ?thesis
  proof cases
    case 3 then show ?thesis by (simp add: Execute_def RemoteHandlerForPeer_def) (simp add: EvidenceOnlySubset_def)
  qed (simp_all add: Execute_def RemoteHandlerForPeer_def, simp_all add: EvidenceOnlySubset_def)
qed

definition docs1 :: "string ToolRegistry" where
  "docs1 = Register ''docs'' ''Saved documents'' ''{}'' ''fetch'' NewToolRegistry"

definition docs2 :: "string ToolRegistry" where
  "docs2 = (case MarkReadOnly [''docs''] docs1 of Inr r \<Rightarrow> r | Inl _ \<Rightarrow> NewToolRegistry)"

definition docs3 :: "string ToolRegistry" where
  "docs3 = (case RegisterEvidenceReader ''docs'' (Some ''saved'') docs2 of Inr r \<Rightarrow> r | Inl _ \<Rightarrow> NewToolRegistry)"

lemma docs_built: "built docs3"
proof -
  have 0: "built (NewToolRegistry :: string ToolRegistry)" by (rule reach_start) (simp add: new_registry_def)
  have 1: "built docs1" unfolding docs1_def by (rule reach_step [OF 0 step_register])
  have "MarkReadOnly [''docs''] docs1 = Inr docs2" by code_simp
  then have 2: "built docs2" by (rule reach_step [OF 1 step_read_only])
  have "RegisterEvidenceReader ''docs'' (Some ''saved'') docs2 = Inr docs3" by code_simp
  then show ?thesis by (rule reach_step [OF 2 step_evidence])
qed

theorem evidence_only_witness:
  "(\<exists>t. tool_of docs3 ''docs'' = Some t \<and> rt_ReadOnly t \<and> rt_EvidenceReader t = Some ''saved'' \<and>
      Execute (\<lambda>h _. Inr h) Inr (\<lambda>_. False) ''docs'' ''{}'' (EvidenceOnlySubset docs3) = (''saved'', False)) \<and>
    RemoteHandlerForPeer ''peer'' ''docs'' (EvidenceOnlySubset docs3) = None"
proof -
  have run: "Execute (\<lambda>h _. Inr h) Inr (\<lambda>_. False) ''docs'' ''{}'' (EvidenceOnlySubset docs3) = (''saved'', False)" by code_simp
  have "''tool denied for this turn: '' @ ''docs'' \<noteq> ''saved''" "''unknown tool: '' @ ''docs'' \<noteq> ''saved''" by simp_all
  then show ?thesis
    using evidence_only [OF docs_built, of "\<lambda>h _. Inr h" Inr "\<lambda>_. False" "''docs''" "''{}''" "''peer''"] by (auto simp: run)
qed

section \<open>Confinement\<close>

lemma RegisterRemote_tool:
  "tool_of (RegisterRemote name description schema mode peerName handler r) n = Some t \<Longrightarrow>
     tool_of r n = Some t \<or>
     rt_Remote t \<and> rt_PeerTag t = peerName \<and> n = name \<and> (\<forall>t0. tool_of r n = Some t0 \<longrightarrow> rt_Remote t0)"
  by (auto simp: RegisterRemote_def Let_def put_tool_def split: option.splits if_splits)

abbreviation add_mcp :: "'h mcp_tool \<Rightarrow> 'h ToolRegistry \<Rightarrow> 'h ToolRegistry" where
  "add_mcp tool \<equiv> RegisterRemote (mt_Name tool) (mt_Description tool) (mt_Schema tool) ToolModeSync ''mcp'' (mt_Handler tool)"

lemma add_mcps_ok:
  "registry_ok r \<Longrightarrow> list_all (\<lambda>tool. CHR 0x00 \<notin> set (mt_Name tool)) tools \<Longrightarrow> registry_ok (fold add_mcp tools r)"
  by (induction tools arbitrary: r) (simp_all add: RegisterRemote_ok)

lemma add_mcps_tool:
  "tool_of (fold add_mcp tools r) n = Some t \<Longrightarrow>
     tool_of r n = Some t \<or>
     rt_Remote t \<and> rt_PeerTag t = ''mcp'' \<and> n \<in> mt_Name ` set tools \<and> (\<forall>t0. tool_of r n = Some t0 \<longrightarrow> rt_Remote t0)"
proof (induction tools arbitrary: r)
  case (Cons tool tools)
  from Cons.IH [of "add_mcp tool r"] Cons.prems consider "tool_of (add_mcp tool r) n = Some t"
    | "rt_Remote t" "rt_PeerTag t = ''mcp''" "n \<in> mt_Name ` set tools" "\<forall>t0. tool_of (add_mcp tool r) n = Some t0 \<longrightarrow> rt_Remote t0"
    by auto
  then show ?case
  proof cases
    case 1 then show ?thesis using RegisterRemote_tool [OF 1] by auto
  next
    case 2
    have "rt_Remote t0" if "tool_of r n = Some t0" for t0
    proof (rule ccontr)
      assume "\<not> rt_Remote t0"
      then have "tool_of (add_mcp tool r) n = Some t0" using that by (auto simp: RegisterRemote_def Let_def put_tool_def split: option.splits)
      then show False using 2(4) \<open>\<not> rt_Remote t0\<close> by blast
    qed
    then show ?thesis using 2 by auto
  qed
qed simp

lemma selects_mono: "selects r name n \<Longrightarrow> (\<And>t. tool_of r n = Some t \<Longrightarrow> tool_of r' n = Some t) \<Longrightarrow> selects r' name n"
  by (auto simp: selects_def split: if_splits)

lemma SubsetForNames_Some:
  "registry_ok r \<Longrightarrow> tool_of (SubsetForNames r names) n = Some t \<Longrightarrow> tool_of r n = Some t \<and> (\<exists>name \<in> set names. selects r name n)"
  by (auto simp: SubsetForNames_tool split: if_splits)

lemma registryForTask_Some:
  assumes "registry_ok r" "tool_of (registryForTask r defaults requested) n = Some t"
  shows "tool_of r n = Some t \<and> (defaults \<noteq> [] \<longrightarrow> (\<exists>name \<in> set defaults. selects r name n)) \<and>
    (\<forall>names. requested = Some names \<longrightarrow> (\<exists>name \<in> set names. selects r name n))"
proof -
  let ?a = "if defaults \<noteq> [] then SubsetForNames r defaults else r"
  have ok: "registry_ok ?a" using assms(1) SubsetForNames_ok [OF assms(1)] by simp
  have down: "tool_of r n = Some t' \<and> (defaults \<noteq> [] \<longrightarrow> (\<exists>name \<in> set defaults. selects r name n))" if "tool_of ?a n = Some t'" for t'
    using that SubsetForNames_Some [OF assms(1)] by (auto split: if_splits)
  show ?thesis
  proof (cases requested)
    case None then show ?thesis using assms(2) down by (simp add: registryForTask_def Let_def)
  next
    case (Some names)
    then have "tool_of (SubsetForNames ?a names) n = Some t" using assms(2) by (simp add: registryForTask_def Let_def)
    from SubsetForNames_Some [OF ok this] obtain name where "tool_of ?a n = Some t" "name \<in> set names" "selects ?a name n" by blast
    moreover have "selects r name n" using selects_mono [OF \<open>selects ?a name n\<close>, of r] down by blast
    ultimately show ?thesis using Some down by auto
  qed
qed

lemma empty_registryForTask: "tool_of (registryForTask (NewToolRegistry :: 'h ToolRegistry) defaults requested) n = None"
proof (cases "tool_of (registryForTask (NewToolRegistry :: 'h ToolRegistry) defaults requested) n")
  case (Some t)
  have "registry_ok (NewToolRegistry :: 'h ToolRegistry)" by (simp add: NewToolRegistry_def registry_ok_def)
  from registryForTask_Some [OF this Some] show ?thesis by (simp add: NewToolRegistry_def)
qed simp

lemma Definitions_names:
  assumes "registry_ok r" "name \<in> set (map td_Name (Definitions r))" shows "\<exists>t. tool_of r name = Some t"
proof -
  from assms(2) obtain k t where "(k, t) \<in> set (tr_tools r)" "td_Name (rt_Definition t) = name" by (auto simp: Definitions_def)
  then have "tool_of r k = Some t" "k = name" using assms(1) by (auto simp: registry_ok_def tool_ok_def)
  then show ?thesis by blast
qed

lemma compose_Some:
  assumes ok: "registry_ok base"
    and mcp: "list_all (\<lambda>tool. CHR 0x00 \<notin> set (mt_Name tool) \<and> \<not> has_prefix (mt_Name tool) peerPrefix) (case mcp of None \<Rightarrow> [] | Some tools \<Rightarrow> tools)"
    and plain: "list_all (\<lambda>(name, _). \<not> has_prefix name peerPrefix) (tr_tools base)"
    and reg: "composeSoulTaskRegistry meta mcp policy quiet soul base req = Inr reg"
  shows "registry_ok reg \<and> (tool_of reg n = Some t \<longrightarrow>
    (soul \<noteq> uuid_Nil \<longrightarrow> (case policy of NoPolicy \<Rightarrow> True | PolicyFailed \<Rightarrow> False
      | Policy overrides providers \<Rightarrow> policy_allows meta overrides providers n)) \<and>
    (tool_of base n = Some t \<or> rt_Remote t \<and> rt_PeerTag t = ''mcp'' \<and> (\<forall>t0. tool_of base n = Some t0 \<longrightarrow> rt_Remote t0)))"
proof -
  let ?tools = "case mcp of None \<Rightarrow> [] | Some tools \<Rightarrow> tools"
  define r where "r = (case mcp of None \<Rightarrow> base | Some tools \<Rightarrow>
    if requestsMCPTool req \<and> \<not> quiet \<and> tools \<noteq> [] then fold add_mcp tools (Clone base) else base)"
  have nul: "list_all (\<lambda>tool. CHR 0x00 \<notin> set (mt_Name tool)) ?tools" using mcp by (auto simp: list_all_iff)
  have r_ok: "registry_ok r"
    using ok nul add_mcps_ok [OF Clone_ok [OF ok]] by (auto simp: r_def split: option.splits)
  have source: "tool_of base k = Some u \<or> rt_Remote u \<and> rt_PeerTag u = ''mcp'' \<and> k \<in> mt_Name ` set ?tools \<and> (\<forall>t0. tool_of base k = Some t0 \<longrightarrow> rt_Remote t0)"
    if "tool_of r k = Some u" for k u
    using that add_mcps_tool [of ?tools "Clone base" k u] by (auto simp: r_def Clone_lookup [OF ok] split: if_splits option.splits)
  have named: "\<not> has_prefix k peerPrefix" if u: "tool_of r k = Some u" for k u
  proof -
    consider "(k, u) \<in> set (tr_tools base)" | "k \<in> mt_Name ` set ?tools" using source [OF u] by (auto dest: map_of_SomeD)
    then show ?thesis by cases (use plain mcp in \<open>auto simp: list_all_iff\<close>)
  qed
  have "reg = r \<and> (soul = uuid_Nil \<or> policy = NoPolicy) \<or> (\<exists>overrides providers. policy = Policy overrides providers \<and>
      reg = SubsetForNames r (filter (policy_allows meta overrides providers) (map td_Name (Definitions r))))"
    using reg unfolding composeSoulTaskRegistry_def Let_def r_def [symmetric]
    by (auto split: if_splits policy_answer.splits)
  then show ?thesis
  proof (elim disjE exE conjE)
    assume "reg = r" "soul = uuid_Nil" then show ?thesis using r_ok source by blast
  next
    assume "reg = r" "policy = NoPolicy"
    then show ?thesis using r_ok source [of n t] by (simp only: policy_answer.case) blast
  next
    fix overrides providers
    let ?names = "filter (policy_allows meta overrides providers) (map td_Name (Definitions r))"
    assume p: "policy = Policy overrides providers" and sub: "reg = SubsetForNames r ?names"
    have "tool_of r n = Some t \<and> policy_allows meta overrides providers n" if "tool_of reg n = Some t"
    proof -
      from SubsetForNames_Some [OF r_ok that [unfolded sub]] obtain name where
        "tool_of r n = Some t" "name \<in> set ?names" "selects r name n" by blast
      moreover from this have "name = n" using Definitions_names [OF r_ok] named by (fastforce simp: selects_def)
      ultimately show ?thesis by simp
    qed
    moreover have "registry_ok reg" unfolding sub by (rule SubsetForNames_ok [OF r_ok])
    ultimately show ?thesis using p source [of n t] by (simp only: policy_answer.case) blast
  qed
qed

text \<open>
  C34. A task calls only what three independent authorities allow: every tool of its registry is named by
  the handler's defaults and by the task's own request (or is a tool of a peer they name), passes the
  soul's policy, and is the owner's tool of that name or an MCP tool that displaces no local one. A bad
  program or a failing policy lookup leaves it no tool at all.
\<close>

theorem task_tools_confined:
  assumes "built base" and "tool_of (task_registry decode meta mcp policy hour defaults task base) n = Some t"
    and "list_all (\<lambda>tool. CHR 0x00 \<notin> set (mt_Name tool) \<and> \<not> has_prefix (mt_Name tool) peerPrefix) (case mcp of None \<Rightarrow> [] | Some tools \<Rightarrow> tools)"
    and "list_all (\<lambda>(name, _). \<not> has_prefix name peerPrefix) (tr_tools base)"
  shows "\<exists>requested reg. taskRequestedTools decode task = Inr requested \<and>
    composeSoulTaskRegistry meta mcp policy (taskProgramInQuietHours decode hour task) (t_SoulID task) base
      (case requested of None \<Rightarrow> [] | Some names \<Rightarrow> names) = Inr reg \<and>
    (defaults \<noteq> [] \<longrightarrow> (\<exists>name \<in> set defaults. selects reg name n)) \<and>
    (\<forall>names. requested = Some names \<longrightarrow> (\<exists>name \<in> set names. selects reg name n)) \<and>
    (t_SoulID task \<noteq> uuid_Nil \<longrightarrow> (case policy of NoPolicy \<Rightarrow> True | PolicyFailed \<Rightarrow> False
      | Policy overrides providers \<Rightarrow> policy_allows meta overrides providers n)) \<and>
    (tool_of base n = Some t \<or> rt_Remote t \<and> rt_PeerTag t = ''mcp'' \<and> (\<forall>t0. tool_of base n = Some t0 \<longrightarrow> rt_Remote t0))"
proof -
  note ok = registry.reachable_inv [OF assms(1)]
  obtain requested where req: "taskRequestedTools decode task = Inr requested"
    using assms(2) by (auto simp: task_registry_def empty_registryForTask split: sum.splits)
  let ?c = "composeSoulTaskRegistry meta mcp policy (taskProgramInQuietHours decode hour task) (t_SoulID task) base
    (case requested of None \<Rightarrow> [] | Some names \<Rightarrow> names)"
  obtain reg where reg: "?c = Inr reg" "tool_of (registryForTask reg defaults requested) n = Some t"
    using assms(2) by (auto simp: task_registry_def req empty_registryForTask split: sum.splits)
  from compose_Some [OF ok assms(3,4) reg(1), of n t] registryForTask_Some [of reg defaults requested n t, OF _ reg(2)]
  show ?thesis using req reg(1) by auto
qed

text \<open>A sample: the defaults allow the documents and the messages, the program asks for the documents.\<close>

definition sample_program :: TaskProgram where
  "sample_program = \<lparr>tp_Schema = TaskProgramSchemaV1,
     tp_Inputs = [\<lparr>pi_ID = ''mail'', pi_Tool = ''inbox'', pi_Input = ''{}'', pi_Enabled = True, pi_OnError = ''fail''\<rparr>],
     tp_Activation = \<lparr>pa_Mode = ''any_non_empty'', pa_InputIDs = [''mail'']\<rparr>,
     tp_Decision = \<lparr>pd_Mode = ''selected'', pd_Tools = [''docs''], pd_Instruction = []\<rparr>,
     tp_QuietHours = Some \<lparr>qh_FromHour = 22, qh_ToHour = 7\<rparr>\<rparr>"

definition sample_tools :: "string ToolRegistry" where
  "sample_tools = Register ''message_send'' [] ''{}'' ''send'' docs3"

lemma sample_tools_built: "built sample_tools"
  unfolding sample_tools_def by (rule reach_step [OF docs_built step_register])

definition program_task :: AgentTask where
  "program_task = (blank_task 1 7 1)\<lparr>t_Config := JObj [(''task_program'', JStr ''p'')]\<rparr>"

abbreviation plain_meta :: "string \<Rightarrow> tool_meta" where
  "plain_meta \<equiv> (\<lambda>_. \<lparr>tm_Provider = [], tm_Core = False\<rparr>)"

definition soul_tools :: "string ToolRegistry" where
  "soul_tools = SubsetForNames sample_tools (filter (policy_allows plain_meta [] []) (map td_Name (Definitions sample_tools)))"

lemma sample_task_registry:
  "taskRequestedTools decode program_task = Inr (Some names) \<Longrightarrow>
     task_registry decode plain_meta None (Policy [] []) hour defaults program_task sample_tools = registryForTask soul_tools defaults (Some names)"
  by (simp add: task_registry_def composeSoulTaskRegistry_def soul_tools_def program_task_def blank_task_def)

theorem task_tools_confined_witness:
  "(let r = task_registry (\<lambda>_. Some sample_program) plain_meta None (Policy [] []) 12 [''docs'', ''message_send''] program_task sample_tools
    in map fst (tr_tools r) = [''docs''] \<and> policy_allows plain_meta [] [] ''docs'')"
proof -
  let ?r = "task_registry (\<lambda>_. Some sample_program) plain_meta None (Policy [] []) 12 [''docs'', ''message_send''] program_task sample_tools"
  have "taskRequestedTools (\<lambda>_. Some sample_program) program_task = Inr (Some [''inbox'', ''docs''])" by code_simp
  note r = sample_task_registry [OF this, of 12 "[''docs'', ''message_send'']"]
  have "map fst (tr_tools (registryForTask soul_tools [''docs'', ''message_send''] (Some [''inbox'', ''docs'']))) = [''docs'']"
    and plain: "list_all (\<lambda>(name, _). \<not> has_prefix name peerPrefix) (tr_tools sample_tools)"
    and soul: "t_SoulID program_task \<noteq> uuid_Nil" by code_simp+
  then have names: "map fst (tr_tools ?r) = [''docs'']" unfolding r by simp
  then obtain t where t: "tool_of ?r ''docs'' = Some t" by (cases "tr_tools ?r") auto
  have "policy_allows plain_meta [] [] ''docs''"
    using task_tools_confined [OF sample_tools_built t _ plain] soul by auto
  then show ?thesis using names by simp
qed

text \<open>
  Validation refuses \<open>message_send\<close> among the decision tools, but the wildcard with an empty peer name
  passes it, and narrowing expands that to every local tool.
\<close>

definition wildcard_program :: TaskProgram where
  "wildcard_program = sample_program\<lparr>tp_Decision := \<lparr>pd_Mode = ''selected'', pd_Tools = [''peer:''], pd_Instruction = []\<rparr>\<rparr>"

lemma wildcard_reaches_message_send:
  "ValidateProgram wildcard_program = Inr () \<and>
   Has (task_registry (\<lambda>_. Some wildcard_program) plain_meta None (Policy [] []) 12 [] program_task sample_tools) ''message_send''"
proof -
  have "taskRequestedTools (\<lambda>_. Some wildcard_program) program_task = Inr (Some [''inbox'', ''peer:''])" by code_simp
  note r = sample_task_registry [OF this, of 12 "[]"]
  have "ValidateProgram wildcard_program = Inr ()" "Has (registryForTask soul_tools [] (Some [''inbox'', ''peer:''])) ''message_send''" by code_simp+
  then show ?thesis unfolding r by simp
qed

end
