(* ===== verification/Outbox.thy ===== *)
theory Outbox
  imports Delivery_Theorems
begin

text \<open>
  An abstract specification of the notification journal, and the proof that the task store implements
  it: an outbox holds messages by id, each reserving a set of delivery references of its task, and knows
  which references were delivered. It has no clock, no tasks, no keys and no retry times.
\<close>

section \<open>The abstract machine\<close>

datatype status = Queued | InFlight | Sent | Unclear | Refused

record message =
  msg_Task :: uuid
  msg_User :: uuid
  msg_Text :: string
  msg_Refs :: "TaskDeliveryRef set"
  msg_Tries :: int
  msg_Status :: status

record outbox =
  ob_messages :: "uuid \<rightharpoonup> message"
  ob_delivered :: "(uuid \<times> TaskDeliveryRef) set"

definition empty_outbox :: outbox where
  "empty_outbox = \<lparr>ob_messages = Map.empty, ob_delivered = {}\<rparr>"

definition post :: "uuid \<Rightarrow> message \<Rightarrow> outbox \<Rightarrow> outbox" where
  "post i m b = b\<lparr>ob_messages := (ob_messages b)(i \<mapsto> m)\<rparr>"

text \<open>
  A message enters with references no message of its task holds, waiting or already on its way; it can be
  sent only while it waits; what is on its way goes back to wait or ends, and only a delivered message
  marks its references. References can also be marked without a message.
\<close>

inductive outbox_step :: "outbox \<Rightarrow> outbox \<Rightarrow> bool" for b :: outbox where
  admit: "ob_messages b i = None \<Longrightarrow> msg_Refs m \<noteq> {} \<Longrightarrow>
     (\<And>j m'. ob_messages b j = Some m' \<Longrightarrow> msg_Task m' = msg_Task m \<Longrightarrow> msg_Refs m' \<inter> msg_Refs m = {}) \<Longrightarrow>
     msg_Status m = Queued \<and> msg_Tries m = 0 \<or> msg_Status m = InFlight \<and> msg_Tries m = 1 \<Longrightarrow>
     outbox_step b (post i m b)"
| dispatch: "ob_messages b i = Some m \<Longrightarrow> msg_Status m = Queued \<Longrightarrow>
     outbox_step b (post i (m\<lparr>msg_Status := InFlight, msg_Tries := msg_Tries m + 1\<rparr>) b)"
| put_back: "ob_messages b i = Some m \<Longrightarrow> msg_Status m = InFlight \<Longrightarrow>
     outbox_step b (post i (m\<lparr>msg_Status := Queued\<rparr>) b)"
| give_up: "ob_messages b i = Some m \<Longrightarrow> msg_Status m = InFlight \<Longrightarrow> s \<in> {Unclear, Refused} \<Longrightarrow>
     outbox_step b (post i (m\<lparr>msg_Status := s\<rparr>) b)"
| deliver: "ob_messages b i = Some m \<Longrightarrow> msg_Status m = InFlight \<Longrightarrow>
     outbox_step b ((post i (m\<lparr>msg_Status := Sent\<rparr>) b)\<lparr>ob_delivered := ob_delivered b \<union> {msg_Task m} \<times> msg_Refs m\<rparr>)"
| mark: "outbox_step b (b\<lparr>ob_delivered := ob_delivered b \<union> {task} \<times> refs\<rparr>)"

section \<open>The abstraction\<close>

definition status_of :: "string \<Rightarrow> status" where
  "status_of s = (if s = ''dispatching'' then InFlight else if s = ''sent'' then Sent
     else if s = ''uncertain'' then Unclear else if s = ''rejected'' then Refused else Queued)"

definition refs_of :: "db \<Rightarrow> uuid \<Rightarrow> TaskDeliveryRef set" where
  "refs_of d i = ni_Ref ` {n \<in> set (notification_items d). ni_AttemptID n = i}"

definition message_of :: "db \<Rightarrow> NotificationAttempt \<Rightarrow> message" where
  "message_of d a = \<lparr>msg_Task = na_TaskID a, msg_User = na_UserID a, msg_Text = na_MessageText a,
     msg_Refs = refs_of d (na_ID a), msg_Tries = na_AttemptCount a, msg_Status = status_of (na_State a)\<rparr>"

definition outbox_of :: "db \<Rightarrow> outbox" where
  "outbox_of d = \<lparr>ob_messages = (\<lambda>i. map_option (message_of d) (find_attempt i d)),
     ob_delivered = set (agent_task_deliveries d)\<rparr>"

lemma outbox_of_empty: "outbox_of empty_db = empty_outbox"
  by (simp add: outbox_of_def empty_outbox_def empty_db_def find_attempt_def)

lemma outbox_of_same: "journal_same d d' \<Longrightarrow> outbox_of d' = outbox_of d"
  by (simp add: outbox_of_def journal_same_def find_attempt_def message_of_def [abs_def] refs_of_def)

section \<open>Simulation of the operations\<close>

text \<open>An update of the row with one id is an update of one message.\<close>

lemma find_attempt_update:
  assumes "\<And>a. na_ID (f a) = na_ID a"
  shows "find_attempt j (d\<lparr>notification_attempts := update_where p f (notification_attempts d)\<rparr>) =
    map_option (\<lambda>a. if p a then f a else a) (find_attempt j d)"
  using attempt_rows.lookup_update [of p f j] assms by (simp add: find_attempt_def attempt_rows.lookup_def)

lemma find_attemptD: "find_attempt i d = Some a \<Longrightarrow> a \<in> set (notification_attempts d) \<and> na_ID a = i"
  by (auto simp: find_attempt_def find_Some_iff)

lemma item_has_attempt:
  assumes "journal_ok d" "find_attempt i d = None" "n \<in> set (notification_items d)"
  shows "ni_AttemptID n \<noteq> i"
  using journal_okD(6) [OF assms(1,3)] assms(2) unfolding find_attempt_None by (metis imageI)

lemma task_of_item:
  assumes "journal_ok d" "find_attempt i d = Some a" "n \<in> set (notification_items d)" "ni_AttemptID n = i"
  shows "ni_TaskID n = na_TaskID a"
  using journal_okD(6) [OF assms(1,3)] find_attemptD [OF assms(2)] assms(4)
    attempt_rows.same_key_same_row [OF journal_okD(1) [OF assms(1)]] by metis

lemma outbox_of_row:
  assumes a: "find_attempt i d = Some a" "p a" and p: "\<And>b. p b \<Longrightarrow> na_ID b = i"
    and keys: "\<And>a. na_ID (f a) = na_ID a"
    and d': "d' = d0\<lparr>notification_attempts := update_where p f (notification_attempts d0)\<rparr>"
    and d0: "d0 = d\<lparr>agent_task_deliveries := ds\<rparr>"
  shows "outbox_of d' = (post i (message_of d (f a)) (outbox_of d))\<lparr>ob_delivered := set ds\<rparr>"
proof -
  have "find_attempt j d0 = find_attempt j d" for j by (simp add: d0 find_attempt_def)
  then have upd: "find_attempt j d' = map_option (\<lambda>a. if p a then f a else a) (find_attempt j d)" for j
    using find_attempt_update [OF keys, where j = j and d = d0 and p = p] by (simp only: d')
  have "\<not> p b" if "find_attempt j d = Some b" "j \<noteq> i" for j b using p find_attemptD [OF that(1)] that(2) by blast
  then have "find_attempt j d' = (if j = i then Some (f a) else find_attempt j d)" for j
    unfolding upd using a by (cases "find_attempt j d") auto
  moreover have "message_of d' = message_of d" by (simp add: message_of_def [abs_def] refs_of_def d' d0)
  moreover have "agent_task_deliveries d' = ds" by (simp add: d' d0)
  ultimately show ?thesis by (simp add: outbox_of_def post_def) (rule ext, simp)
qed

lemma outbox_of_resolve:
  assumes d': "d' = resolve_dispatching i f d0" and d0: "d0 = d\<lparr>agent_task_deliveries := ds\<rparr>"
    and keys: "\<And>a. na_ID (f a) = na_ID a"
    and keep: "\<And>a. message_of d (f a) = (message_of d a)\<lparr>msg_Status := s\<rparr>"
  shows "outbox_of d' = (outbox_of d)\<lparr>ob_delivered := set ds\<rparr> \<or>
    (\<exists>m. ob_messages (outbox_of d) i = Some m \<and> msg_Status m = InFlight \<and>
       outbox_of d' = (post i (m\<lparr>msg_Status := s\<rparr>) (outbox_of d))\<lparr>ob_delivered := set ds\<rparr>)"
proof -
  let ?p = "\<lambda>a. na_ID a = i \<and> na_State a = ''dispatching''"
  have upd: "d' = d0\<lparr>notification_attempts := update_where ?p f (notification_attempts d0)\<rparr>"
    by (simp add: d' resolve_dispatching_def)
  show ?thesis
  proof (cases "\<exists>a. find_attempt i d = Some a \<and> na_State a = ''dispatching''")
    case True
    then obtain a where a: "find_attempt i d = Some a" "na_State a = ''dispatching''" by blast
    from outbox_of_row [OF a(1) _ _ keys upd d0] a find_attemptD [OF a(1)]
    have "outbox_of d' = (post i (message_of d (f a)) (outbox_of d))\<lparr>ob_delivered := set ds\<rparr>" by simp
    moreover have "ob_messages (outbox_of d) i = Some (message_of d a)" "msg_Status (message_of d a) = InFlight"
      using a by (simp_all add: outbox_of_def message_of_def status_of_def)
    ultimately show ?thesis by (auto simp: keep)
  next
    case False
    have "find_attempt j d0 = find_attempt j d" for j by (simp add: d0 find_attempt_def)
    then have "find_attempt j d' = find_attempt j d" for j
      using find_attempt_update [OF keys, where j = j and d = d0 and p = ?p] False find_attemptD [of j d]
      by (cases "find_attempt j d") (auto simp: upd)
    moreover have "message_of d' = message_of d" by (simp add: message_of_def [abs_def] refs_of_def upd d0)
    ultimately show ?thesis by (simp add: outbox_of_def upd d0)
  qed
qed

lemma step_or_same: "outbox_step\<^sup>=\<^sup>= b b' \<longleftrightarrow> outbox_step b b' \<or> b = b'"
  by auto

lemma outbox_closed:
  assumes "d' = resolve_dispatching i f d" and "\<And>a. na_ID (f a) = na_ID a"
    and "\<And>a. message_of d (f a) = (message_of d a)\<lparr>msg_Status := s\<rparr>" and "s \<in> {Queued, Unclear, Refused}"
  shows "outbox_step\<^sup>=\<^sup>= (outbox_of d) (outbox_of d')"
proof -
  have "(outbox_of d)\<lparr>ob_delivered := set (agent_task_deliveries d)\<rparr> = outbox_of d" by (simp add: outbox_of_def)
  moreover have "(post i m (outbox_of d))\<lparr>ob_delivered := set (agent_task_deliveries d)\<rparr> = post i m (outbox_of d)" for m
    by (simp add: outbox_of_def post_def)
  moreover have "d = d\<lparr>agent_task_deliveries := agent_task_deliveries d\<rparr>" by simp
  ultimately show ?thesis
    using outbox_of_resolve [OF assms(1) _ assms(2,3)] assms(4) put_back give_up by (metis insertE step_or_same singletonD)
qed

lemma outbox_sent:
  assumes conf: "ConfirmNotificationAttempt unm isot now i receipt d = Inr (u, d')" and ok: "journal_ok d"
  shows "outbox_step\<^sup>=\<^sup>= (outbox_of d) (outbox_of d')"
  using conf
proof (rule Confirm_Inr)
  fix d0 assume d': "d' = resolve_dispatching i (sent_row now (receipt_json isot receipt)) d0"
    and d0: "d0 = d\<lparr>agent_task_deliveries := fold (\<lambda>n ds. if (ni_TaskID n, ni_Ref n) \<in> set ds then ds
      else ds @ [(ni_TaskID n, ni_Ref n)]) (filter (\<lambda>n. ni_AttemptID n = i) (notification_items d)) (agent_task_deliveries d)\<rparr>"
  let ?ds = "agent_task_deliveries d0"
  have ds: "set ?ds = set (agent_task_deliveries d) \<union>
      (\<lambda>n. (ni_TaskID n, ni_Ref n)) ` {n \<in> set (notification_items d). ni_AttemptID n = i}"
    by (simp add: d0 fold_deliveries [of "\<lambda>n. (ni_TaskID n, ni_Ref n)"])
  have upd: "d0 = d\<lparr>agent_task_deliveries := ?ds\<rparr>" by (simp add: d0)
  have step: "outbox_of d' = (outbox_of d)\<lparr>ob_delivered := set ?ds\<rparr> \<or>
    (\<exists>m. ob_messages (outbox_of d) i = Some m \<and> msg_Status m = InFlight \<and>
       outbox_of d' = (post i (m\<lparr>msg_Status := Sent\<rparr>) (outbox_of d))\<lparr>ob_delivered := set ?ds\<rparr>)"
    by (rule outbox_of_resolve [OF d' upd]) (simp_all add: sent_row_def message_of_def status_of_def)
  then show ?thesis
  proof (cases "find_attempt i d")
    case None
    with item_has_attempt [OF ok] have "set ?ds = ob_delivered (outbox_of d)" "ob_messages (outbox_of d) i = None"
      by (auto simp: ds outbox_of_def)
    then show ?thesis using step by auto
  next
    case (Some a)
    then have "set ?ds = ob_delivered (outbox_of d) \<union> {na_TaskID a} \<times> refs_of d i"
      using task_of_item [OF ok Some] by (auto simp: ds outbox_of_def refs_of_def)
    moreover have "ob_messages (outbox_of d) i = Some (message_of d a)" "msg_Task (message_of d a) = na_TaskID a"
      "msg_Refs (message_of d a) = refs_of d i"
      using find_attemptD [OF Some] Some by (simp_all add: outbox_of_def message_of_def)
    ultimately show ?thesis using step mark deliver by (metis option.inject step_or_same)
  qed
qed simp


lemma find_snoc: "List.find P (xs @ [x]) = (case List.find P xs of None \<Rightarrow> if P x then Some x else None | Some y \<Rightarrow> Some y)"
  by (induction xs) auto

lemma outbox_new:
  assumes ok: "journal_ok d" and d0: "journal_same d d0" and refs: "refs \<noteq> []" and fresh: "find_attempt (na_ID row) d = None"
    and free: "\<And>r. r \<in> set refs \<Longrightarrow> \<not> reserved (na_TaskID row) r d"
    and d': "d' = d0\<lparr>notification_attempts := notification_attempts d0 @ [row],
       notification_items := notification_items d0 @ map (item_of row) refs\<rparr>"
    and state: "na_State row = ''retryable'' \<and> na_AttemptCount row = 0 \<or> na_State row = ''dispatching'' \<and> na_AttemptCount row = 1"
  shows "outbox_step (outbox_of d) (outbox_of d')"
proof -
  have none: "ni_AttemptID n \<noteq> na_ID row" if "n \<in> set (notification_items d)" for n
    by (rule item_has_attempt [OF ok fresh that])
  have same: "notification_attempts d0 = notification_attempts d" "notification_items d0 = notification_items d"
    "agent_task_deliveries d0 = agent_task_deliveries d" using d0 by (simp_all add: journal_same_def)
  have "refs_of d' i = ni_Ref ` {n \<in> set (notification_items d). ni_AttemptID n = i} \<union>
      ni_Ref ` {n \<in> item_of row ` set refs. ni_AttemptID n = i}" for i
    unfolding refs_of_def d' same by auto
  moreover have "ni_Ref ` {n \<in> item_of row ` set refs. ni_AttemptID n = i} = (if i = na_ID row then set refs else {})" for i
    by (force simp: item_of_def)
  ultimately have refs': "refs_of d' i = (if i = na_ID row then set refs else refs_of d i)" for i
    using none by (auto simp: refs_of_def)
  have find: "find_attempt i d' = (if i = na_ID row then Some row else find_attempt i d)" for i
    using fresh unfolding find_attempt_def d' by (simp add: same find_snoc split: option.split)
  have "map_option (message_of d') (find_attempt i d) = map_option (message_of d) (find_attempt i d)" for i
    using fresh find_attemptD [of i d] by (cases "find_attempt i d") (auto simp: message_of_def refs')
  moreover have "agent_task_deliveries d' = agent_task_deliveries d" by (simp add: d' same)
  ultimately have "outbox_of d' = post (na_ID row) (message_of d' row) (outbox_of d)"
    by (simp add: outbox_of_def post_def find) (rule ext, simp)
  moreover have "outbox_step (outbox_of d) (post (na_ID row) (message_of d' row) (outbox_of d))"
  proof (rule admit)
    show "ob_messages (outbox_of d) (na_ID row) = None" using fresh by (simp add: outbox_of_def)
    show "msg_Refs (message_of d' row) \<noteq> {}" using refs by (simp add: message_of_def refs')
    show "msg_Status (message_of d' row) = Queued \<and> msg_Tries (message_of d' row) = 0 \<or>
        msg_Status (message_of d' row) = InFlight \<and> msg_Tries (message_of d' row) = 1"
      using state by (auto simp: message_of_def status_of_def)
  next
    fix j m' assume "ob_messages (outbox_of d) j = Some m'" "msg_Task m' = msg_Task (message_of d' row)"
    then obtain a where a: "find_attempt j d = Some a" "na_TaskID a = na_TaskID row" "msg_Refs m' = refs_of d j"
      using find_attemptD [of j d] by (force simp: outbox_of_def message_of_def)
    have "ni_TaskID n = na_TaskID row" if "n \<in> set (notification_items d)" "ni_AttemptID n = j" for n
      using task_of_item [OF ok a(1) that] a(2) by simp
    moreover have "msg_Refs (message_of d' row) = set refs" by (simp add: message_of_def refs')
    ultimately show "msg_Refs m' \<inter> msg_Refs (message_of d' row) = {}"
      using free unfolding a(3) by (fastforce simp: refs_of_def reserved_def)
  qed
  ultimately show ?thesis by simp
qed

lemma outbox_claim:
  assumes "ClaimRetryableNotification coll locked now d = Inr (v, d')" and ok: "journal_ok d"
  shows "outbox_step\<^sup>=\<^sup>= (outbox_of d) (outbox_of d')"
proof (cases v)
  case None
  then have "d' = d"
    using assms(1) unfolding ClaimRetryableNotification_def Let_def by (simp split: if_splits list.splits)
  then show ?thesis by simp
next
  case (Some it)
  obtain a where a: "a \<in> set (notification_attempts d)" "retry_due now a"
    and d': "d' = d\<lparr>notification_attempts := update_where (\<lambda>b. na_ID b = na_ID a) (dispatched_row now) (notification_attempts d)\<rparr>"
    using ClaimRetryableNotification_Inr [OF assms(1) [unfolded Some]] by blast
  have find: "find_attempt (na_ID a) d = Some a"
    using attempt_rows.lookup_unique [OF journal_okD(1) [OF ok] a(1)] by (simp add: find_attempt_def attempt_rows.lookup_def)
  let ?m = "message_of d a"
  have "outbox_of d' = (post (na_ID a) (message_of d (dispatched_row now a)) (outbox_of d))\<lparr>ob_delivered := set (agent_task_deliveries d)\<rparr>"
    by (rule outbox_of_row [OF find _ _ _ d']) (simp_all add: dispatched_row_def)
  also have "\<dots> = post (na_ID a) (?m\<lparr>msg_Status := InFlight, msg_Tries := msg_Tries ?m + 1\<rparr>) (outbox_of d)"
    by (simp add: post_def outbox_of_def message_of_def dispatched_row_def status_of_def)
  finally show ?thesis
    using dispatch [of "outbox_of d" "na_ID a" ?m] find a(2)
    by (simp add: outbox_of_def message_of_def status_of_def retry_due_def)
qed

lemma outbox_begin:
  assumes "BeginNotificationAttempt sha now new i user msg refs d = Inr (v, d')" and ok: "journal_ok d"
  shows "outbox_step\<^sup>=\<^sup>= (outbox_of d) (outbox_of d')"
proof (cases v)
  case (Pair a created)
  show ?thesis
    using BeginNotificationAttempt_Inr [OF assms(1) [unfolded Pair]]
  proof (elim disjE conjE exE)
    fix row rs
    assume "rs \<noteq> []" "na_TaskID row = i" "na_ID row = new" "na_State row = ''dispatching''" "na_AttemptCount row = 1"
      "find_attempt new d = None" "\<forall>r \<in> set rs. \<not> reserved i r d"
      "d' = d\<lparr>notification_attempts := notification_attempts d @ [row],
         notification_items := notification_items d @ map (item_of row) (sortTaskDeliveryRefs rs)\<rparr>"
    then have "outbox_step (outbox_of d) (outbox_of d')"
      by (intro outbox_new [OF ok, of d "sortTaskDeliveryRefs rs" row]) (simp_all add: journal_same_def)
    then show ?thesis by simp
  qed simp
qed

lemma outbox_queue:
  assumes "queue_result sha now new task notify pending version d0 = Inr d'" and same: "journal_same d d0" and ok: "journal_ok d"
  shows "outbox_step (outbox_of d) (outbox_of d')"
proof -
  obtain row refs where refs: "normalizeTaskDeliveryRefs (pending @ [\<lparr>d_InputID = ''task_result'',
        d_ItemKey = ''version:'' @ decimal (nat version)\<rparr>]) = Inr refs"
    and d': "d' = d0\<lparr>notification_attempts := notification_attempts d0 @ [row],
        notification_items := notification_items d0 @ map (item_of row) (sortTaskDeliveryRefs refs)\<rparr>"
    and row: "na_ID row = new" "na_TaskID row = t_ID task" "na_State row = ''retryable''" "na_AttemptCount row = 0"
      "find_attempt new d0 = None" "\<forall>r \<in> set refs. \<not> reserved (t_ID task) r d0"
    using queue_result_Inr [OF assms(1)] by blast
  have "refs \<noteq> []" using result_ref_kept [OF refs] by auto
  moreover have "reserved i r d0 = reserved i r d" "find_attempt i d0 = find_attempt i d" for i r
    using same by (simp_all add: reserved_def journal_same_def find_attempt_def)
  ultimately show ?thesis using row by (intro outbox_new [OF ok same _ _ _ d']) simp_all
qed

lemma outbox_mark: "MarkDelivered i refs d = Inr (u, d') \<Longrightarrow> outbox_step (outbox_of d) (outbox_of d')"
proof -
  assume "MarkDelivered i refs d = Inr (u, d')"
  then obtain rs where d': "d' = insert_deliveries i rs d" by (rule MarkDelivered_Inr)
  have "outbox_of d' = (outbox_of d)\<lparr>ob_delivered := ob_delivered (outbox_of d) \<union> {i} \<times> set rs\<rparr>"
    by (auto simp: d' insert_deliveries_def fold_deliveries outbox_of_def find_attempt_def message_of_def [abs_def] refs_of_def)
  then show ?thesis using mark by simp
qed

lemmas row_messages = message_of_def status_of_def closed_row_def deferred_row_def

lemma outbox_op:
  assumes "task_op ext clk d d'" and ok: "journal_ok d"
  shows "outbox_step\<^sup>=\<^sup>= (outbox_of d) (outbox_of d')"
  using task_op_journal [OF assms(1)]
proof
  assume "journal_op ext clk d d'"
  then show ?thesis
  proof cases
    case j_queue then show ?thesis using outbox_queue [OF _ _ ok] by simp
  next
    case j_mark then show ?thesis using outbox_mark by simp
  next
    case j_begin then show ?thesis by (rule outbox_begin [OF _ ok])
  next
    case j_confirm then show ?thesis by (rule outbox_sent [OF _ ok])
  next
    case j_claim then show ?thesis by (rule outbox_claim [OF _ ok])
  next
    case j_uncertain
    then show ?thesis by (rule Uncertain_Inr) (simp, rule outbox_closed [where s = Unclear], assumption, simp_all add: row_messages)
  next
    case j_defer
    then show ?thesis by (rule Defer_Inr) (simp, rule outbox_closed [where s = Queued], assumption, simp_all add: row_messages)
  next
    case j_reject
    then show ?thesis by (rule Reject_Inr) (simp, rule outbox_closed [where s = Refused], assumption, simp_all add: row_messages)
  qed
next
  assume "journal_same d d'"
  then show ?thesis using outbox_of_same by simp
qed

section \<open>The refinement\<close>

text \<open>
  A concrete transition system with an invariant refines an abstract one when every concrete step from a
  state of the invariant is an abstract step or leaves the abstraction as it is.
\<close>

locale refinement = invariant_system start step inv
  for start :: "'s \<Rightarrow> bool" and step :: "'s \<Rightarrow> 's \<Rightarrow> bool" and inv :: "'s \<Rightarrow> bool" +
  fixes abstraction :: "'s \<Rightarrow> 'a" and abstract_start :: 'a and abstract_step :: "'a \<Rightarrow> 'a \<Rightarrow> bool"
  assumes start_refines: "start s \<Longrightarrow> abstraction s = abstract_start"
    and step_refines: "inv s \<Longrightarrow> step s s' \<Longrightarrow> abstract_step\<^sup>=\<^sup>= (abstraction s) (abstraction s')"
begin

lemma run_refines: "step\<^sup>*\<^sup>* s s' \<Longrightarrow> inv s \<Longrightarrow> abstract_step\<^sup>*\<^sup>* (abstraction s) (abstraction s')"
proof (induction rule: rtranclp_induct)
  case (step y z)
  then have "abstract_step\<^sup>=\<^sup>= (abstraction y) (abstraction z)" using step_refines run_inv by blast
  with step.IH [OF step.prems] show ?case by auto
qed simp

lemma reachable_refines: "reachable_from start step s \<Longrightarrow> abstract_step\<^sup>*\<^sup>* abstract_start (abstraction s)"
proof (induction rule: reachable_from.induct)
  case (reach_step s s')
  then have "abstract_step\<^sup>=\<^sup>= (abstraction s) (abstraction s')" using step_refines reachable_inv by blast
  with reach_step.IH show ?case by auto
qed (simp add: start_refines)

end

interpretation outbox: refinement initial_system "system_step ext" "\<lambda>s. journal_ok (snd s)"
    "\<lambda>s. outbox_of (snd s)" empty_outbox outbox_step
  for ext
  by unfold_locales (auto simp: initial_system_def outbox_of_empty elim!: system_stepE dest!: outbox_op)

text \<open>
  C29. The task store implements the outbox: seen through the abstraction every reachable database is a
  state the outbox reaches from empty, and one committed transaction of the store, whichever it is, is
  at most one step of the outbox.
\<close>

theorem outbox_refinement:
  assumes "reachable_store ext t d"
  shows "outbox_step\<^sup>*\<^sup>* empty_outbox (outbox_of d) \<and>
    (system_step ext (t, d) (t', d') \<longrightarrow> outbox_step\<^sup>=\<^sup>= (outbox_of d) (outbox_of d'))"
  using outbox.reachable_refines [OF assms] outbox.step_refines [OF journal_system.reachable_inv [OF assms], where ?s' = "(t', d')" and ext = ext]
  by auto

theorem outbox_refinement_witness:
  "outbox_step\<^sup>*\<^sup>* empty_outbox (outbox_of (committed nt4)) \<and>
   map_option msg_Status (ob_messages (outbox_of (committed nt4)) 50) = Some Sent"
proof -
  have "map_option msg_Status (ob_messages (outbox_of (committed nt4)) 50) = Some Sent" by code_simp
  then show ?thesis using outbox_refinement [OF sample_sent] by blast
qed

end
