(* ===== verification/Transcript.thy ===== *)
theory Transcript
  imports Json_Scan
begin

text \<open>
  Conversation transcripts as the model provider sees them: token estimates (\<open>internal/core/types.go\<close>), the
  repair of interrupted tool calls when a session is loaded (\<open>runtime/session/compact.go\<close>) and the point
  where an over-long conversation is cut for summarising (\<open>runtime/agent/compact.go\<close>).
\<close>

section \<open>Messages\<close>

text \<open>The content of a tool result: a string, or any other value with its JSON text.\<close>

datatype result_content = RText string | ROther string

record ContentBlock =
  cb_Type :: string
  cb_Text :: string
  cb_ID :: string
  cb_Name :: string
  cb_Input :: string
  cb_ThoughtSignature :: string
  cb_ToolUseID :: string
  cb_Content :: result_content

text \<open>A message's content is nil, a string or a list of blocks.\<close>

datatype content = NoContent | CText string | CBlocks "ContentBlock list"

record Message =
  m_Role :: string
  m_Content :: content

definition text_block :: "string \<Rightarrow> ContentBlock" where
  "text_block s = \<lparr>cb_Type = ''text'', cb_Text = s, cb_ID = [], cb_Name = [], cb_Input = [],
     cb_ThoughtSignature = [], cb_ToolUseID = [], cb_Content = RText []\<rparr>"

fun NormalizeContent :: "content \<Rightarrow> ContentBlock list" where
  "NormalizeContent NoContent = []"
| "NormalizeContent (CText s) = [text_block s]"
| "NormalizeContent (CBlocks bs) = bs"

abbreviation blocks_of :: "Message \<Rightarrow> ContentBlock list" where
  "blocks_of m \<equiv> NormalizeContent (m_Content m)"

definition hasToolUse :: "Message \<Rightarrow> bool" where
  "hasToolUse m \<longleftrightarrow> list_ex (\<lambda>b. cb_Type b = ''tool_use'') (blocks_of m)"

definition hasToolResult :: "Message \<Rightarrow> bool" where
  "hasToolResult m \<longleftrightarrow> list_ex (\<lambda>b. cb_Type b = ''tool_result'') (blocks_of m)"

section \<open>Token estimates\<close>

text \<open>
  \<open>range\<close> over a string decodes UTF-8; a byte that starts no valid encoding is the rune U+FFFD. The result
  is the rune and the number of bytes read.
\<close>

definition decode_rune :: "char \<Rightarrow> string \<Rightarrow> nat \<times> nat" where
  "decode_rune c cs =
     (case utf8_first c of
        Some (0, _, _) \<Rightarrow> (byte_of c, 1)
      | Some (Suc n, lo, hi) \<Rightarrow>
          (case take (Suc n) cs of
             d # ds \<Rightarrow>
               if length ds = n \<and> cont_byte lo hi d \<and> list_all (cont_byte 0x80 0xBF) ds
               then (fold (\<lambda>x acc. acc * 64 + (byte_of x - 0x80)) (d # ds)
                       (byte_of c - (if n = 0 then 0xC0 else if n = 1 then 0xE0 else 0xF0)), n + 2)
               else (0xFFFD, 1)
           | [] \<Rightarrow> (0xFFFD, 1))
      | None \<Rightarrow> (0xFFFD, 1))"

fun runes_skip :: "nat \<Rightarrow> string \<Rightarrow> nat list" where
  "runes_skip n [] = []"
| "runes_skip (Suc n) (c # cs) = runes_skip n cs"
| "runes_skip 0 (c # cs) = (case decode_rune c cs of (r, w) \<Rightarrow> r # runes_skip (w - 1) cs)"

definition runes :: "string \<Rightarrow> nat list" where "runes s = runes_skip 0 s"

definition ceilDiv :: "int \<Rightarrow> int \<Rightarrow> int" where
  "ceilDiv n d = (if d \<le> 0 then 0 else if n \<le> 0 then 0 else (n + d - 1) div d)"

definition EstimateTextTokens :: "string \<Rightarrow> int" where
  "EstimateTextTokens s =
     (if s = [] then 0
      else
        let rs = runes s; n = int (length rs); nonASCII = int (length (filter (\<lambda>r. r > 127) rs));
            hasHebrew = list_ex (\<lambda>r. 0x0590 \<le> r \<and> r \<le> 0x05FF) rs;
            estimate = ceilDiv n 3;
            estimate = (if hasHebrew \<or> nonASCII * 3 \<ge> n
              then max (max 0 (max estimate (ceilDiv (int (length s)) 2))) (ceilDiv (n * 5) 6) else estimate)
        in if estimate \<le> 0 then 1 else estimate)"

definition block_tokens :: "ContentBlock \<Rightarrow> int" where
  "block_tokens b =
     (if cb_Type b = ''text'' then EstimateTextTokens (cb_Text b)
      else if cb_Type b = ''tool_use'' then
        EstimateTextTokens (cb_Name b) + EstimateTextTokens (cb_Input b) + EstimateTextTokens (cb_ThoughtSignature b)
      else if cb_Type b = ''image'' then 1600
      else if cb_Type b = ''tool_result'' then
        (case cb_Content b of RText s \<Rightarrow> EstimateTextTokens s | ROther data \<Rightarrow> EstimateTextTokens data)
      else 0)"

definition EstimateTokens :: "ContentBlock list \<Rightarrow> int" where
  "EstimateTokens bs = (let total = sum_list (map block_tokens bs) in if total = 0 then 1 else total)"

definition estimateMessagesTokens :: "Message list \<Rightarrow> int" where
  "estimateMessagesTokens msgs = sum_list (map (\<lambda>m. EstimateTokens (blocks_of m)) msgs)"

section \<open>Loading a session\<close>

text \<open>Results older than the last \<open>keep\<close> messages are replaced when they are longer than \<open>maxChars\<close>.\<close>

definition truncate_block :: "nat \<Rightarrow> ContentBlock \<Rightarrow> ContentBlock" where
  "truncate_block maxChars b =
     (if cb_Type b \<noteq> ''tool_result'' then b
      else case cb_Content b of
          RText s \<Rightarrow> if length s \<le> maxChars then b
            else b\<lparr>cb_Content := RText (''[truncated, '' @ decimal (length s) @ '' chars]'')\<rparr>
        | ROther _ \<Rightarrow> b)"

definition truncateOlderToolResults :: "nat \<Rightarrow> nat \<Rightarrow> Message list \<Rightarrow> Message list" where
  "truncateOlderToolResults keep maxChars msgs =
     (let cutoff = length msgs - keep in
      map (\<lambda>m. case m_Content m of CBlocks bs \<Rightarrow> m\<lparr>m_Content := CBlocks (map (truncate_block maxChars) bs)\<rparr> | _ \<Rightarrow> m)
        (take cutoff msgs) @ drop cutoff msgs)"

definition trimOrphanedLeading :: "Message list \<Rightarrow> Message list" where
  "trimOrphanedLeading msgs = dropWhile (\<lambda>m. m_Role m \<noteq> ''user'' \<or> hasToolResult m) msgs"

text \<open>The ids of a message's tool calls that the next message does not answer.\<close>

definition orphaned_ids :: "Message \<Rightarrow> Message option \<Rightarrow> string list" where
  "orphaned_ids m nxt =
     (let uses = map cb_ID (filter (\<lambda>b. cb_Type b = ''tool_use'' \<and> cb_ID b \<noteq> []) (blocks_of m));
          results = (case nxt of None \<Rightarrow> [] | Some n \<Rightarrow>
            map cb_ToolUseID (filter (\<lambda>b. cb_Type b = ''tool_result'' \<and> cb_ToolUseID b \<noteq> []) (blocks_of n)))
      in filter (\<lambda>i. i \<notin> set results) uses)"

definition next_of :: "Message list \<Rightarrow> nat \<Rightarrow> Message option" where
  "next_of msgs k = (if k + 1 < length msgs then Some (msgs ! (k + 1)) else None)"

definition cleaned_message :: "Message \<Rightarrow> Message option \<Rightarrow> Message" where
  "cleaned_message m nxt = m\<lparr>m_Content := CBlocks (filter (\<lambda>b. \<not> (cb_Type b = ''tool_use'' \<and> cb_ID b \<in> set (orphaned_ids m nxt))) (blocks_of m))\<rparr>"

text \<open>The loop over the index \<open>i\<close>: a message left without blocks is removed and the index is visited again.\<close>

function sanitize_from :: "nat \<Rightarrow> Message list \<Rightarrow> Message list" where
  "sanitize_from i msgs =
     (if length msgs \<le> i then msgs
      else if m_Role (msgs ! i) \<noteq> ''assistant'' \<or> \<not> hasToolUse (msgs ! i) then sanitize_from (i + 1) msgs
      else if orphaned_ids (msgs ! i) (next_of msgs i) = [] then sanitize_from (i + 1) msgs
      else if blocks_of (cleaned_message (msgs ! i) (next_of msgs i)) = [] then
        sanitize_from i (take i msgs @ drop (i + 1) msgs)
      else sanitize_from (i + 1) (msgs[i := cleaned_message (msgs ! i) (next_of msgs i)]))"
  by pat_completeness auto
termination
  by (relation "measure (\<lambda>(i, msgs). length msgs - i)") (auto simp: min_def)

declare sanitize_from.simps [simp del]

definition sanitizeOrphanedToolUse :: "Message list \<Rightarrow> Message list" where
  "sanitizeOrphanedToolUse msgs = sanitize_from 0 msgs"

text \<open>The repair steps of \<open>messagesForAPIFromRows\<close>, on the selected messages in order.\<close>

definition prepare_messages :: "Message list \<Rightarrow> Message list" where
  "prepare_messages msgs = sanitizeOrphanedToolUse (trimOrphanedLeading (truncateOlderToolResults 10 500 msgs))"

section \<open>Cutting a conversation\<close>

text \<open>The scan from the end: the index where the tokens kept reach \<open>keep\<close>, else the length.\<close>

fun scan_back :: "Message list \<Rightarrow> int \<Rightarrow> nat \<Rightarrow> int \<Rightarrow> nat" where
  "scan_back msgs keep 0 tokenSum = length msgs"
| "scan_back msgs keep (Suc i) tokenSum =
     (let tokenSum = tokenSum + EstimateTokens (blocks_of (msgs ! i)) in
      if tokenSum \<ge> keep then i else scan_back msgs keep i tokenSum)"

definition adjust_split :: "Message list \<Rightarrow> nat \<Rightarrow> nat" where
  "adjust_split msgs s =
     (if 0 < s \<and> s < length msgs then
        let s = (if hasToolResult (msgs ! s) \<and> 0 < s then s - 1 else s) in
        if hasToolUse (msgs ! s) \<and> s + 1 < length msgs then
          (let s = s + 1 in if s < length msgs \<and> hasToolResult (msgs ! s) then s + 1 else s)
        else s
      else s)"

definition findSplitPoint :: "Message list \<Rightarrow> int \<Rightarrow> nat" where
  "findSplitPoint msgs keep =
     (let s = adjust_split msgs (scan_back msgs keep (length msgs) 0);
          s = s + length (takeWhile (\<lambda>m. m_Role m \<noteq> ''user'') (drop s msgs))
      in if s \<ge> length msgs then 0 else s)"

text \<open>
  \<open>Compact\<close>: nothing below the threshold or without a cut; otherwise the older part is summarised and the
  rest kept. \<open>dialogue\<close> renders the older part, \<open>summarize\<close> calls the model.
\<close>

definition Compact ::
    "(Message list \<Rightarrow> string) \<Rightarrow> (string \<Rightarrow> string + string) \<Rightarrow> int \<Rightarrow> int \<Rightarrow> Message list \<Rightarrow> string + (string \<times> Message list)" where
  "Compact dialogue summarize threshold keepTokens msgs =
     (if estimateMessagesTokens msgs < threshold then Inr ([], msgs)
      else
        let s = findSplitPoint msgs keepTokens in
        if s = 0 then Inr ([], msgs)
        else if dialogue (take s msgs) = [] then Inr ([], msgs)
        else case summarize (dialogue (take s msgs)) of
            Inl e \<Rightarrow> Inl (''summarize: '' @ e)
          | Inr summary \<Rightarrow> Inr (summary, drop s msgs))"

section \<open>The repaired transcript\<close>

definition settled :: "Message list \<Rightarrow> nat \<Rightarrow> bool" where
  "settled msgs k \<longleftrightarrow> (k < length msgs \<longrightarrow> m_Role (msgs ! k) = ''assistant'' \<longrightarrow> orphaned_ids (msgs ! k) (next_of msgs k) = [])"

definition other_blocks :: "Message list \<Rightarrow> ContentBlock list" where
  "other_blocks msgs = filter (\<lambda>b. cb_Type b \<noteq> ''tool_use'') (concat (map blocks_of msgs))"

definition result_ids :: "Message \<Rightarrow> string set" where
  "result_ids m = {cb_ToolUseID b |b. b \<in> set (blocks_of m) \<and> cb_Type b = ''tool_result''}"

definition answers :: "Message option \<Rightarrow> string \<Rightarrow> bool" where
  "answers nxt i \<longleftrightarrow> (\<exists>n. nxt = Some n \<and> i \<in> result_ids n)"

lemma set_orphaned_ids:
  "i \<in> set (orphaned_ids m nxt) \<longleftrightarrow> i \<noteq> [] \<and> \<not> answers nxt i \<and> (\<exists>b \<in> set (blocks_of m). cb_Type b = ''tool_use'' \<and> cb_ID b = i)"
proof -
  have "answers nxt i \<longleftrightarrow> i \<in> set (case nxt of None \<Rightarrow> [] | Some n \<Rightarrow>
      map cb_ToolUseID (filter (\<lambda>b. cb_Type b = ''tool_result'' \<and> cb_ToolUseID b \<noteq> []) (blocks_of n)))" if "i \<noteq> []"
    using that by (cases nxt) (auto simp: answers_def result_ids_def)
  then show ?thesis by (auto simp: orphaned_ids_def Let_def)
qed

lemma orphaned_ids_Nil:
  "orphaned_ids m nxt = [] \<longleftrightarrow>
     (\<forall>b \<in> set (blocks_of m). cb_Type b = ''tool_use'' \<and> cb_ID b \<noteq> [] \<longrightarrow> answers nxt (cb_ID b))"
proof -
  have "orphaned_ids m nxt = [] \<longleftrightarrow> (\<forall>i. i \<notin> set (orphaned_ids m nxt))" by (cases "orphaned_ids m nxt") auto
  then show ?thesis unfolding set_orphaned_ids by auto
qed

lemma orphaned_ids_next:
  assumes "orphaned_ids m nxt = []" "\<And>n. nxt = Some n \<Longrightarrow> \<exists>n'. nxt' = Some n' \<and> result_ids n \<subseteq> result_ids n'"
  shows "orphaned_ids m nxt' = []"
  using assms unfolding orphaned_ids_Nil answers_def by blast

lemma no_use_settled: "\<not> hasToolUse m \<Longrightarrow> orphaned_ids m nxt = []"
  by (auto simp: orphaned_ids_Nil hasToolUse_def list_ex_iff)

lemma blocks_cleaned: "blocks_of (cleaned_message m nxt) =
    filter (\<lambda>b. \<not> (cb_Type b = ''tool_use'' \<and> cb_ID b \<in> set (orphaned_ids m nxt))) (blocks_of m)"
  by (simp add: cleaned_message_def)

lemma result_ids_cleaned: "result_ids (cleaned_message m nxt) = result_ids m"
  by (auto simp: result_ids_def blocks_cleaned)

lemma cleaned_settled: "orphaned_ids (cleaned_message m nxt) nxt = []"
  unfolding orphaned_ids_Nil blocks_cleaned by (auto simp: set_orphaned_ids)

text \<open>The three moves of the loop, on a transcript that is settled below \<open>i\<close>.\<close>

lemma settled_update:
  assumes "\<forall>k < i. settled msgs k" "i < length msgs"
  shows "\<forall>k < i + 1. settled (msgs[i := cleaned_message (msgs ! i) (next_of msgs i)]) k"
proof (intro allI impI)
  let ?m = "cleaned_message (msgs ! i) (next_of msgs i)"
  fix k assume "k < i + 1"
  then consider "k = i" | "k + 1 = i" | "k + 1 < i" by linarith
  then show "settled (msgs[i := ?m]) k"
  proof cases
    case 1 then show ?thesis using assms(2) cleaned_settled by (simp add: settled_def next_of_def)
  next
    case 2
    then have "settled msgs k" using assms(1) by simp
    then show ?thesis using assms(2) 2
      by (auto simp: settled_def next_of_def intro: orphaned_ids_next [of _ "Some (msgs ! i)"] simp: result_ids_cleaned)
  next
    case 3
    then have "settled msgs k" using assms(1) by simp
    then show ?thesis using assms(2) 3 by (simp add: settled_def next_of_def)
  qed
qed

lemma settled_remove:
  assumes "\<forall>k < i. settled msgs k" "i < length msgs" "blocks_of (cleaned_message (msgs ! i) (next_of msgs i)) = []"
  shows "\<forall>k < i. settled (take i msgs @ drop (i + 1) msgs) k"
proof (intro allI impI)
  let ?ms = "take i msgs @ drop (i + 1) msgs"
  fix k assume k: "k < i"
  have at_k: "?ms ! k = msgs ! k" using k assms(2) by (simp add: nth_append)
  show "settled ?ms k"
  proof (cases "k + 1 < i")
    case True
    then have "next_of ?ms k = next_of msgs k" using assms(2) by (simp add: next_of_def nth_append)
    then show ?thesis using assms(1,2) k at_k by (simp add: settled_def)
  next
    case False
    have "result_ids (msgs ! i) = {}"
      unfolding result_ids_cleaned [of "msgs ! i" "next_of msgs i", symmetric] using assms(3) by (simp add: result_ids_def)
    moreover have "i = k + 1" using k False by simp
    then have "settled msgs k" "next_of msgs k = Some (msgs ! i)" using assms(1,2) k by (simp_all add: next_of_def)
    ultimately have "m_Role (msgs ! k) = ''assistant'' \<longrightarrow> orphaned_ids (msgs ! k) None = []"
      using assms(2) k by (auto simp: settled_def orphaned_ids_Nil answers_def)
    then show ?thesis using at_k by (auto simp: settled_def orphaned_ids_Nil answers_def)
  qed
qed

lemma sanitize_from_rule [consumes 1, case_names skip remove clean]:
  assumes "P i msgs"
    and "\<And>i msgs. P i msgs \<Longrightarrow> i < length msgs \<Longrightarrow>
      m_Role (msgs ! i) \<noteq> ''assistant'' \<or> orphaned_ids (msgs ! i) (next_of msgs i) = [] \<Longrightarrow> P (i + 1) msgs"
    and "\<And>i msgs. P i msgs \<Longrightarrow> i < length msgs \<Longrightarrow> m_Role (msgs ! i) = ''assistant'' \<Longrightarrow>
      blocks_of (cleaned_message (msgs ! i) (next_of msgs i)) = [] \<Longrightarrow> P i (take i msgs @ drop (i + 1) msgs)"
    and "\<And>i msgs. P i msgs \<Longrightarrow> i < length msgs \<Longrightarrow> m_Role (msgs ! i) = ''assistant'' \<Longrightarrow>
      P (i + 1) (msgs[i := cleaned_message (msgs ! i) (next_of msgs i)])"
  shows "\<exists>n \<ge> length (sanitize_from i msgs). P n (sanitize_from i msgs)"
  using assms(1)
proof (induction i msgs rule: sanitize_from.induct)
  case (1 i msgs)
  note unfold = sanitize_from.simps [of i msgs]
  show ?case
  proof (cases "i < length msgs")
    case False
    then show ?thesis using "1.prems" unfold by (intro exI [of _ i]) simp
  next
    case True
    then have i: "\<not> length msgs \<le> i" by simp
    let ?c = "cleaned_message (msgs ! i) (next_of msgs i)"
    consider (skip) "m_Role (msgs ! i) \<noteq> ''assistant'' \<or> \<not> hasToolUse (msgs ! i)"
      | (fine) "\<not> (m_Role (msgs ! i) \<noteq> ''assistant'' \<or> \<not> hasToolUse (msgs ! i))" "orphaned_ids (msgs ! i) (next_of msgs i) = []"
      | (remove) "\<not> (m_Role (msgs ! i) \<noteq> ''assistant'' \<or> \<not> hasToolUse (msgs ! i))" "orphaned_ids (msgs ! i) (next_of msgs i) \<noteq> []" "blocks_of ?c = []"
      | (clean) "\<not> (m_Role (msgs ! i) \<noteq> ''assistant'' \<or> \<not> hasToolUse (msgs ! i))" "orphaned_ids (msgs ! i) (next_of msgs i) \<noteq> []" "blocks_of ?c \<noteq> []"
      by blast
    then show ?thesis
    proof cases
      case skip
      then have "P (i + 1) msgs" using assms(2) [OF "1.prems" True] no_use_settled by blast
      from "1.IH"(1) [OF i skip this] show ?thesis using unfold i skip by simp
    next
      case fine
      then have "P (i + 1) msgs" using assms(2) [OF "1.prems" True] by blast
      from "1.IH"(2) [OF i fine this] show ?thesis using unfold i fine by simp
    next
      case remove
      then have "P i (take i msgs @ drop (i + 1) msgs)" using assms(3) [OF "1.prems" True] by blast
      from "1.IH"(3) [OF i remove this] show ?thesis using unfold i remove by simp
    next
      case clean
      then have "P (i + 1) (msgs[i := ?c])" using assms(4) [OF "1.prems" True] by blast
      from "1.IH"(4) [OF i clean this] show ?thesis using unfold i clean by simp
    qed
  qed
qed

lemma sanitize_settled: "settled (sanitizeOrphanedToolUse msgs) k"
proof -
  have "\<exists>n \<ge> length (sanitize_from 0 msgs). \<forall>k < n. settled (sanitize_from 0 msgs) k"
  proof (rule sanitize_from_rule [where P = "\<lambda>i msgs. \<forall>k < i. settled msgs k"])
    fix i msgs assume "\<forall>k < i. settled msgs k"
      "m_Role (msgs ! i) \<noteq> ''assistant'' \<or> orphaned_ids (msgs ! i) (next_of msgs i) = []"
    then show "\<forall>k < i + 1. settled msgs k" by (auto simp: less_Suc_eq settled_def)
  qed (use settled_remove settled_update in simp_all)
  then show ?thesis by (auto simp: sanitizeOrphanedToolUse_def settled_def)
qed

lemma other_blocks_append: "other_blocks (xs @ ys) = other_blocks xs @ other_blocks ys"
  by (simp add: other_blocks_def)

lemma other_blocks_split: "i < length msgs \<Longrightarrow> other_blocks msgs = other_blocks (take i msgs) @ other_blocks [msgs ! i] @ other_blocks (drop (i + 1) msgs)"
  by (metis Suc_eq_plus1 append_Cons append_Nil id_take_nth_drop other_blocks_append)

lemma other_blocks_cleaned: "other_blocks [cleaned_message m nxt] = other_blocks [m]"
  by (auto simp: other_blocks_def blocks_cleaned intro: filter_cong)

lemma sanitize_other_blocks: "other_blocks (sanitizeOrphanedToolUse msgs) = other_blocks msgs"
proof -
  have "\<exists>n \<ge> length (sanitize_from 0 msgs). other_blocks (sanitize_from 0 msgs) = other_blocks msgs"
  proof (rule sanitize_from_rule [where P = "\<lambda>_ ms. other_blocks ms = other_blocks msgs"])
    fix i ms assume eq: "other_blocks ms = other_blocks msgs" and i: "i < length ms"
    let ?c = "cleaned_message (ms ! i) (next_of ms i)"
    show "other_blocks (take i ms @ drop (i + 1) ms) = other_blocks msgs" if "blocks_of ?c = []"
    proof -
      have "other_blocks [ms ! i] = []" using that other_blocks_cleaned [of "ms ! i" "next_of ms i"] by (simp add: other_blocks_def)
      then show ?thesis using eq other_blocks_split [OF i] by (simp add: other_blocks_append)
    qed
    show "other_blocks (ms[i := ?c]) = other_blocks msgs"
      using eq i other_blocks_split [OF i] other_blocks_split [of i "ms[i := ?c]"] other_blocks_cleaned by simp
  qed simp_all
  then show ?thesis by (simp add: sanitizeOrphanedToolUse_def)
qed

lemma sanitize_hd:
  assumes "msgs \<noteq> []" "m_Role (hd msgs) \<noteq> ''assistant''"
  shows "sanitizeOrphanedToolUse msgs \<noteq> [] \<and> hd (sanitizeOrphanedToolUse msgs) = hd msgs"
proof -
  have "\<exists>n \<ge> length (sanitize_from 0 msgs). sanitize_from 0 msgs \<noteq> [] \<and> hd (sanitize_from 0 msgs) = hd msgs"
  proof (rule sanitize_from_rule [where P = "\<lambda>_ ms. ms \<noteq> [] \<and> hd ms = hd msgs"])
    fix i ms assume P: "ms \<noteq> [] \<and> hd ms = hd msgs" and i: "i < length ms" "m_Role (ms ! i) = ''assistant''"
    then have "i \<noteq> 0" using assms(2) by (metis hd_conv_nth)
    then show "take i ms @ drop (i + 1) ms \<noteq> [] \<and> hd (take i ms @ drop (i + 1) ms) = hd msgs"
      and "ms[i := c] \<noteq> [] \<and> hd (ms[i := c]) = hd msgs" for c
      using P i(1) by (auto simp: hd_append hd_conv_nth)
  qed (use assms in simp_all)
  then show ?thesis by (simp add: sanitizeOrphanedToolUse_def)
qed

lemma settled_fixed: "(\<And>k. settled msgs k) \<Longrightarrow> sanitize_from i msgs = msgs"
proof (induction "length msgs - i" arbitrary: i)
  case 0 then show ?case by (subst sanitize_from.simps) simp
next
  case (Suc n)
  have "settled msgs i" by (rule Suc.prems)
  moreover have "sanitize_from (i + 1) msgs = msgs" using Suc by simp
  ultimately show ?case by (subst sanitize_from.simps) (auto simp: settled_def)
qed

lemma trimmed_hd: "trimOrphanedLeading msgs \<noteq> [] \<Longrightarrow> m_Role (hd (trimOrphanedLeading msgs)) = ''user'' \<and> \<not> hasToolResult (hd (trimOrphanedLeading msgs))"
  using hd_dropWhile [of "\<lambda>m. m_Role m \<noteq> ''user'' \<or> hasToolResult m" msgs] by (auto simp: trimOrphanedLeading_def)

lemma sanitize_Nil: "sanitizeOrphanedToolUse [] = []"
  unfolding sanitizeOrphanedToolUse_def by (subst sanitize_from.simps) simp

section \<open>Preparing again\<close>

text \<open>Text lengths are machine integers, so the note that replaces a long result is short itself.\<close>

definition machine_sized :: "Message \<Rightarrow> bool" where
  "machine_sized m \<longleftrightarrow> (\<forall>b \<in> set (blocks_of m). case cb_Content b of RText s \<Rightarrow> length s < 2 ^ 63 | ROther _ \<Rightarrow> True)"

definition shortened :: "Message \<Rightarrow> bool" where
  "shortened m \<longleftrightarrow> (\<forall>b \<in> set (blocks_of m). truncate_block 500 b = b)"

lemma decimal_length: "0 < k \<Longrightarrow> n < 10 ^ k \<Longrightarrow> length (decimal n) \<le> k"
proof (induction k arbitrary: n)
  case (Suc k)
  show ?case
  proof (cases "n < 10")
    case True
    then show ?thesis by (subst decimal.simps) simp
  next
    case False
    have "n div 10 < 10 ^ k" using Suc.prems(2) by (simp add: less_mult_imp_div_less mult.commute)
    moreover have "0 < k" using False Suc.prems(2) by (cases k) auto
    ultimately show ?thesis using Suc.IH False by (subst decimal.simps) simp
  qed
qed simp

lemma truncate_block_twice:
  assumes "case cb_Content b of RText s \<Rightarrow> length s < 2 ^ 63 | ROther _ \<Rightarrow> True"
  shows "truncate_block 500 (truncate_block 500 b) = truncate_block 500 b"
proof -
  have "length (decimal n) \<le> 19" if "n < 2 ^ 63" for n
    by (rule decimal_length) (use that in simp_all)
  then show ?thesis using assms by (fastforce simp: truncate_block_def split: result_content.splits)
qed

lemma truncate_shortens:
  assumes "\<And>m. m \<in> set msgs \<Longrightarrow> machine_sized m" and "k < length msgs - 10"
  shows "shortened (truncateOlderToolResults 10 500 msgs ! k)"
proof -
  have "truncateOlderToolResults 10 500 msgs ! k =
      (case m_Content (msgs ! k) of CBlocks bs \<Rightarrow> (msgs ! k)\<lparr>m_Content := CBlocks (map (truncate_block 500) bs)\<rparr> | _ \<Rightarrow> msgs ! k)"
    using assms(2) by (simp add: truncateOlderToolResults_def Let_def nth_append split: content.split)
  moreover have "machine_sized (msgs ! k)" using assms by simp
  moreover have "truncate_block 500 (text_block x) = text_block x" for x by (simp add: truncate_block_def text_block_def)
  ultimately show ?thesis
    by (auto simp: shortened_def machine_sized_def truncate_block_twice split: content.splits)
qed

lemma length_truncateOlder: "length (truncateOlderToolResults n c msgs) = length msgs"
  by (simp add: truncateOlderToolResults_def Let_def)

lemma truncate_fixed:
  assumes "\<And>k. k < length msgs - 10 \<Longrightarrow> shortened (msgs ! k)"
  shows "truncateOlderToolResults 10 500 msgs = msgs"
proof -
  have "(case m_Content m of CBlocks bs \<Rightarrow> m\<lparr>m_Content := CBlocks (map (truncate_block 500) bs)\<rparr> | _ \<Rightarrow> m) = m"
    if "m \<in> set (take (length msgs - 10) msgs)" for m
  proof -
    have "shortened m" using that assms by (auto simp: in_set_conv_nth)
    then show ?thesis by (cases m) (auto simp: shortened_def map_idI split: content.splits)
  qed
  then show ?thesis by (simp add: truncateOlderToolResults_def Let_def map_idI)
qed

text \<open>The last ten messages only grow older ones when others are removed.\<close>

lemma trim_shortened:
  assumes "\<And>k. k < length msgs - 10 \<Longrightarrow> shortened (msgs ! k)" and "k < length (trimOrphanedLeading msgs) - 10"
  shows "shortened (trimOrphanedLeading msgs ! k)"
proof -
  obtain n where "trimOrphanedLeading msgs = drop n msgs" unfolding trimOrphanedLeading_def by (metis dropWhile_eq_drop)
  then show ?thesis using assms(1) [of "n + k"] assms(2) by simp
qed

lemma sanitize_shortened:
  assumes "\<And>k. k < length msgs - 10 \<Longrightarrow> shortened (msgs ! k)" and "k < length (sanitizeOrphanedToolUse msgs) - 10"
  shows "shortened (sanitizeOrphanedToolUse msgs ! k)"
proof -
  have "\<exists>n \<ge> length (sanitize_from 0 msgs). \<forall>k < length (sanitize_from 0 msgs) - 10. shortened (sanitize_from 0 msgs ! k)"
  proof (rule sanitize_from_rule [where P = "\<lambda>_ ms. \<forall>k < length ms - 10. shortened (ms ! k)"])
    fix i and ms :: "Message list" assume P: "\<forall>k < length ms - 10. shortened (ms ! k)" and i: "i < length ms"
    let ?c = "cleaned_message (ms ! i) (next_of ms i)"
    show "\<forall>k < length (take i ms @ drop (i + 1) ms) - 10. shortened ((take i ms @ drop (i + 1) ms) ! k)"
    proof (intro allI impI)
      fix k assume k: "k < length (take i ms @ drop (i + 1) ms) - 10"
      have "(take i ms @ drop (i + 1) ms) ! k = ms ! (if k < i then k else k + 1)" using i by (simp add: nth_append min_def)
      moreover have "(if k < i then k else k + 1) < length ms - 10" using k i by auto
      ultimately show "shortened ((take i ms @ drop (i + 1) ms) ! k)" using P by simp
    qed
    have "shortened ?c" if "shortened (ms ! i)" using that by (auto simp: shortened_def blocks_cleaned)
    then show "\<forall>k < length (ms[i := ?c]) - 10. shortened (ms[i := ?c] ! k)" using P i by (auto simp: nth_list_update)
  qed (use assms(1) in simp_all)
  then show ?thesis using assms(2) by (simp add: sanitizeOrphanedToolUse_def)
qed

text \<open>
  C37. The transcript sent to a model is well formed: it is empty or begins with a user message that
  answers no tool call, and every identified tool call of an assistant message is answered in the message
  that follows. With old results shortened, it drops the messages before the first plain user message and, of those that
  remain, nothing but tool calls; and preparing a prepared transcript again changes nothing.
\<close>

theorem prepared_transcript:
  assumes "msgs' = prepare_messages msgs"
  shows "(msgs' \<noteq> [] \<longrightarrow> m_Role (hd msgs') = ''user'' \<and> \<not> hasToolResult (hd msgs')) \<and>
    (\<forall>k < length msgs'. m_Role (msgs' ! k) = ''assistant'' \<longrightarrow> (\<forall>b \<in> set (blocks_of (msgs' ! k)).
      cb_Type b = ''tool_use'' \<and> cb_ID b \<noteq> [] \<longrightarrow> k + 1 < length msgs' \<and>
        (\<exists>r \<in> set (blocks_of (msgs' ! (k + 1))). cb_Type r = ''tool_result'' \<and> cb_ToolUseID r = cb_ID b))) \<and>
    other_blocks msgs' = other_blocks (dropWhile (\<lambda>m. m_Role m \<noteq> ''user'' \<or> hasToolResult m) (truncateOlderToolResults 10 500 msgs)) \<and>
    sanitizeOrphanedToolUse msgs' = msgs' \<and>
    ((\<forall>m \<in> set msgs. machine_sized m) \<longrightarrow> prepare_messages msgs' = msgs')"
proof -
  let ?t = "trimOrphanedLeading (truncateOlderToolResults 10 500 msgs)"
  have eq: "msgs' = sanitizeOrphanedToolUse ?t" using assms by (simp add: prepare_messages_def)
  have settled: "settled msgs' k" for k unfolding eq by (rule sanitize_settled)
  have first: "m_Role (hd msgs') = ''user'' \<and> \<not> hasToolResult (hd msgs')" if "msgs' \<noteq> []"
  proof -
    have "?t \<noteq> []" using that eq sanitize_Nil by metis
    with trimmed_hd [OF this] sanitize_hd [of ?t] show ?thesis by (simp add: eq)
  qed
  have "k + 1 < length msgs' \<and> (\<exists>r \<in> set (blocks_of (msgs' ! (k + 1))). cb_Type r = ''tool_result'' \<and> cb_ToolUseID r = cb_ID b)"
    if "k < length msgs'" "m_Role (msgs' ! k) = ''assistant''" "b \<in> set (blocks_of (msgs' ! k))" "cb_Type b = ''tool_use''" "cb_ID b \<noteq> []" for k b
  proof -
    have "answers (next_of msgs' k) (cb_ID b)" using settled [of k] that by (auto simp: settled_def orphaned_ids_Nil)
    then show ?thesis by (auto simp: answers_def next_of_def result_ids_def split: if_splits)
  qed
  moreover have "other_blocks msgs' = other_blocks ?t" unfolding eq by (rule sanitize_other_blocks)
  moreover have again: "sanitizeOrphanedToolUse msgs' = msgs'"
    unfolding sanitizeOrphanedToolUse_def by (rule settled_fixed) (rule settled)
  moreover have "prepare_messages msgs' = msgs'" if "\<forall>m \<in> set msgs. machine_sized m"
  proof -
    have "truncateOlderToolResults 10 500 msgs' = msgs'"
      using truncate_shortens that unfolding eq
      by (intro truncate_fixed sanitize_shortened trim_shortened) (auto simp: length_truncateOlder)
    moreover have "trimOrphanedLeading msgs' = msgs'" using first by (cases msgs') (auto simp: trimOrphanedLeading_def)
    ultimately show ?thesis using again by (simp add: prepare_messages_def)
  qed
  ultimately show ?thesis using first unfolding trimOrphanedLeading_def by blast
qed

definition call_block :: "string \<Rightarrow> ContentBlock" where
  "call_block i = (text_block [])\<lparr>cb_Type := ''tool_use'', cb_ID := i, cb_Name := ''docs''\<rparr>"

definition result_block :: "string \<Rightarrow> ContentBlock" where
  "result_block i = (text_block [])\<lparr>cb_Type := ''tool_result'', cb_ToolUseID := i, cb_Content := RText ''found''\<rparr>"

definition crashed_transcript :: "Message list" where
  "crashed_transcript =
     [\<lparr>m_Role = ''user'', m_Content = CText ''look it up''\<rparr>,
      \<lparr>m_Role = ''assistant'', m_Content = CBlocks [text_block ''on it'', call_block ''a'', call_block ''b'']\<rparr>,
      \<lparr>m_Role = ''user'', m_Content = CBlocks [result_block ''a'']\<rparr>,
      \<lparr>m_Role = ''assistant'', m_Content = CBlocks [call_block ''c'']\<rparr>]"

theorem prepared_transcript_witness:
  "map (map cb_ID \<circ> blocks_of) (prepare_messages crashed_transcript) = [[[]], [[], ''a''], [[]]] \<and>
    m_Role (hd (prepare_messages crashed_transcript)) = ''user'' \<and>
    prepare_messages (prepare_messages crashed_transcript) = prepare_messages crashed_transcript"
proof -
  have "\<forall>m \<in> set crashed_transcript. machine_sized m"
    by (simp add: crashed_transcript_def machine_sized_def text_block_def call_block_def result_block_def)
  moreover
  have "map (map cb_ID \<circ> blocks_of) (prepare_messages crashed_transcript) = [[[]], [[], ''a''], [[]]]" by code_simp
  moreover from this have "prepare_messages crashed_transcript \<noteq> []" by auto
  ultimately show ?thesis using prepared_transcript [OF refl, of crashed_transcript] by blast
qed

section \<open>The cut\<close>

lemma findSplitPoint_user:
  assumes "findSplitPoint msgs keep = s" "s \<noteq> 0"
  shows "s < length msgs \<and> m_Role (msgs ! s) = ''user''"
proof -
  define a where "a = adjust_split msgs (scan_back msgs keep (length msgs) 0)"
  let ?w = "takeWhile (\<lambda>m. m_Role m \<noteq> ''user'') (drop a msgs)"
  have s: "s = a + length ?w" "a + length ?w < length msgs"
    using assms by (auto simp: findSplitPoint_def Let_def a_def [symmetric] split: if_splits)
  then have "length ?w < length (drop a msgs)" by simp
  from nth_length_takeWhile [OF this] have "\<not> m_Role (drop a msgs ! length ?w) \<noteq> ''user''" by simp
  then show ?thesis using s by simp
qed

text \<open>
  A cut inside a chain of tool calls: the kept part begins with the result of a call that was summarised,
  and loading it again trims everything that was kept.
\<close>

definition call_chain :: "Message list" where
  "call_chain =
     [\<lparr>m_Role = ''user'', m_Content = CText ''look it up''\<rparr>,
      \<lparr>m_Role = ''assistant'', m_Content = CBlocks [call_block ''a'']\<rparr>,
      \<lparr>m_Role = ''user'', m_Content = CBlocks [result_block ''a'']\<rparr>,
      \<lparr>m_Role = ''assistant'', m_Content = CBlocks [call_block ''b'']\<rparr>,
      \<lparr>m_Role = ''user'', m_Content = CBlocks [result_block ''b'']\<rparr>,
      \<lparr>m_Role = ''assistant'', m_Content = CText ''the answer''\<rparr>]"

lemma split_orphans_result:
  "prepare_messages call_chain = call_chain \<and> findSplitPoint call_chain 10 = 4 \<and>
   hasToolResult (drop 4 call_chain ! 0) \<and> prepare_messages (drop 4 call_chain) = []"
  by code_simp

end
