(* ===== verification/Dialog_Window.thy ===== *)
theory Dialog_Window
  imports Transcript
begin

text \<open>
  Which part of a stored conversation goes into a prompt (\<open>runtime/session/messages.go\<close> and
  \<open>models.go\<close>): the rows of \<open>chat_messages\<close>, their conversion to provider messages, the choice of
  the newest rows within a token budget and the block-anchored dialogue window.
\<close>

section \<open>Stored messages\<close>

text \<open>
  The \<open>content\<close> column by what \<open>json.Unmarshal\<close> makes of it: a list of blocks, a string, or a value that
  is neither, kept as its text.
\<close>

datatype stored_content = SBlocks "ContentBlock list" | SString string | SOther string

record StoredMessage =
  cm_ID :: uuid
  cm_SoulID :: uuid
  cm_SessionID :: uuid
  cm_Role :: string
  cm_Content :: stored_content
  cm_VisibleText :: "string option"
  cm_ProjectionStatus :: string
  cm_ProjectionReason :: "string option"
  cm_ProjectorVersion :: string
  cm_ToolUseID :: "string option"
  cm_ReplyToMessageID :: "uuid option"
  cm_TGMessageID :: "int option"
  cm_TGMessageIDs :: "int list option"
  cm_TokenEstimate :: int
  cm_CreatedAt :: gotime

definition contentFromBlocks :: "ContentBlock list \<Rightarrow> content" where
  "contentFromBlocks bs = (case bs of [b] \<Rightarrow> if cb_Type b = ''text'' then CText (cb_Text b) else CBlocks bs | _ \<Rightarrow> CBlocks bs)"

text \<open>The role and the content of the API message; the visible text is copied beside them.\<close>

definition ToAPIMessage :: "StoredMessage \<Rightarrow> Message" where
  "ToAPIMessage m = \<lparr>m_Role = cm_Role m, m_Content =
     (case cm_Content m of SBlocks bs \<Rightarrow> contentFromBlocks bs | SString s \<Rightarrow> CText s | SOther s \<Rightarrow> CText s)\<rparr>"

definition messageBlocks :: "StoredMessage \<Rightarrow> ContentBlock list" where
  "messageBlocks m = (case cm_Content m of SBlocks bs \<Rightarrow> bs | _ \<Rightarrow> [])"

section \<open>The newest rows within a budget\<close>

definition providerMessageRows :: "StoredMessage list \<Rightarrow> StoredMessage list" where
  "providerMessageRows msgs = filter (\<lambda>m. cm_Role m = ''user'' \<or> cm_Role m = ''assistant'') msgs"

definition messageHasToolResult :: "StoredMessage \<Rightarrow> bool" where
  "messageHasToolResult m \<longleftrightarrow> list_ex (\<lambda>b. cb_Type b = ''tool_result'') (messageBlocks m)"

definition messageToolResultIDs :: "StoredMessage \<Rightarrow> string list" where
  "messageToolResultIDs m = map cb_ToolUseID (filter (\<lambda>b. cb_Type b = ''tool_result'' \<and> cb_ToolUseID b \<noteq> []) (messageBlocks m))"

definition messageHasMatchingToolUse :: "string list \<Rightarrow> StoredMessage \<Rightarrow> bool" where
  "messageHasMatchingToolUse ids m \<longleftrightarrow>
     list_ex (\<lambda>b. cb_Type b = ''tool_use'' \<and> (ids = [] \<or> cb_ID b \<in> set ids)) (messageBlocks m)"

text \<open>The loop from index \<open>i\<close> on: the rows up to and with the user's message that started the turn.\<close>

fun turn_size_from :: "string list \<Rightarrow> nat \<Rightarrow> bool \<Rightarrow> StoredMessage list \<Rightarrow> nat" where
  "turn_size_from ids i seen [] = 0"
| "turn_size_from ids i seen (m # ms) =
     (if messageHasMatchingToolUse ids m then turn_size_from ids (i + 1) True ms
      else if seen \<and> cm_Role m = ''user'' \<and> \<not> messageHasToolResult m then i + 1
      else turn_size_from ids (i + 1) seen ms)"

definition latestToolResultTurnSize :: "StoredMessage list \<Rightarrow> nat" where
  "latestToolResultTurnSize msgs =
     (case msgs of [] \<Rightarrow> 0
      | m # ms \<Rightarrow> if \<not> messageHasToolResult m then 0 else turn_size_from (messageToolResultIDs m) 1 False ms)"

fun take_budget :: "('a \<Rightarrow> int) \<Rightarrow> int \<Rightarrow> int \<Rightarrow> 'a list \<Rightarrow> 'a list" where
  "take_budget tokens maxTokens tokenSum [] = []"
| "take_budget tokens maxTokens tokenSum (m # ms) =
     (if maxTokens > 0 \<and> tokenSum + tokens m > maxTokens then []
      else m # take_budget tokens maxTokens (tokenSum + tokens m) ms)"

definition selectMessagesForAPI :: "StoredMessage list \<Rightarrow> int \<Rightarrow> StoredMessage list" where
  "selectMessagesForAPI msgs maxTokens =
     (let selected = take_budget cm_TokenEstimate maxTokens 0 msgs;
          required = latestToolResultTurnSize msgs;
          selected = (if 0 < required \<and> length selected < required then take required msgs else selected)
      in if selected = [] then take 1 msgs else selected)"

definition messagesForAPIFromRows :: "StoredMessage list \<Rightarrow> int \<Rightarrow> Message list" where
  "messagesForAPIFromRows rows maxTokens =
     (let msgs = providerMessageRows rows in
      if msgs = [] then []
      else prepare_messages (map ToAPIMessage (rev (selectMessagesForAPI msgs maxTokens))))"

section \<open>Dialogue candidates\<close>

record dialogMessageCandidate =
  dc_msg :: Message
  dc_tokens :: int

definition visibleDialogCandidate :: "StoredMessage \<Rightarrow> dialogMessageCandidate option" where
  "visibleDialogCandidate stored =
     (if cm_Role stored \<noteq> ''user'' \<and> cm_Role stored \<noteq> ''assistant'' then None
      else
        let cleaned = filter (\<lambda>b. cb_Type b \<noteq> ''tool_use'' \<and> cb_Type b \<noteq> ''tool_result'') (blocks_of (ToAPIMessage stored))
        in if cleaned = [] then None
           else Some \<lparr>dc_msg = \<lparr>m_Role = cm_Role stored, m_Content = contentFromBlocks cleaned\<rparr>,
                      dc_tokens = EstimateTokens cleaned\<rparr>)"

definition dialogMessageText :: "Message \<Rightarrow> string" where
  "dialogMessageText m = join [CHR 0x0A] (map cb_Text (filter (\<lambda>b. cb_Type b = ''text'' \<and> cb_Text b \<noteq> []) (blocks_of m)))"

definition containsHebrew :: "string \<Rightarrow> bool" where
  "containsHebrew s \<longleftrightarrow> list_ex (\<lambda>r. 0x0590 \<le> r \<and> r \<le> 0x05FF) (runes s)"

fun contains_sub :: "string \<Rightarrow> string \<Rightarrow> bool" where
  "contains_sub [] p \<longleftrightarrow> p = []"
| "contains_sub (c # cs) p \<longleftrightarrow> has_prefix (c # cs) p \<or> contains_sub cs p"

text \<open>The cues, the Cyrillic and Hebrew ones as their UTF-8 bytes.\<close>

definition translation_cues :: "string list" where
  "translation_cues =
    [[CHR 0xD0, CHR 0xBF, CHR 0xD0, CHR 0xB5, CHR 0xD1, CHR 0x80, CHR 0xD0, CHR 0xB5, CHR 0xD0, CHR 0xB2, CHR 0xD0, CHR 0xB5, CHR 0xD0, CHR 0xB4, CHR 0xD0, CHR 0xB8],
     [CHR 0xD0, CHR 0xBF, CHR 0xD0, CHR 0xB5, CHR 0xD1, CHR 0x80, CHR 0xD0, CHR 0xB5, CHR 0xD0, CHR 0xB2, CHR 0xD0, CHR 0xBE, CHR 0xD0, CHR 0xB4],
     [CHR 0xD0, CHR 0xBF, CHR 0xD0, CHR 0xB5, CHR 0xD1, CHR 0x80, CHR 0xD0, CHR 0xB5, CHR 0xD0, CHR 0xB2, CHR 0xD0, CHR 0xB5, CHR 0xD1, CHR 0x81, CHR 0xD1, CHR 0x82, CHR 0xD0, CHR 0xB8],
     [CHR 0xD1, CHR 0x82, CHR 0xD1, CHR 0x80, CHR 0xD0, CHR 0xB0, CHR 0xD0, CHR 0xBD, CHR 0xD1, CHR 0x81, CHR 0xD0, CHR 0xBB],
     [CHR 0xD0, CHR 0xB8, CHR 0xD0, CHR 0xB2, CHR 0xD1, CHR 0x80, CHR 0xD0, CHR 0xB8, CHR 0xD1, CHR 0x82],
     ''hebrew'', ''translate'', ''translation'',
     [CHR 0xD7, CHR 0xA2, CHR 0xD7, CHR 0x91, CHR 0xD7, CHR 0xA8, CHR 0xD7, CHR 0x99, CHR 0xD7, CHR 0xAA]]"

text \<open>
  Two library functions over Unicode tables are arguments: \<open>lower\<close> is \<open>strings.ToLower\<close> and \<open>quote\<close> is
  the verb \<open>%q\<close>.
\<close>

definition containsTranslationCue :: "(string \<Rightarrow> string) \<Rightarrow> string \<Rightarrow> bool" where
  "containsTranslationCue lower s \<longleftrightarrow> list_ex (contains_sub (lower s)) translation_cues"

definition translation_signal :: "(string \<Rightarrow> string) \<Rightarrow> nat \<times> string \<Rightarrow> bool" where
  "translation_signal lower p \<longleftrightarrow> (case p of (i, s) \<Rightarrow> s \<noteq> [] \<and>
     (containsTranslationCue lower s \<and> (containsHebrew s \<or> i = 0) \<or>
      containsHebrew s \<and> (length (runes s) > 400 \<or> contains_sub (lower s) ''[reply to:'')))"

definition isTranslationWorkflow :: "(string \<Rightarrow> string) \<Rightarrow> dialogMessageCandidate list \<Rightarrow> bool" where
  "isTranslationWorkflow lower cs \<longleftrightarrow>
     list_ex (translation_signal lower) (enumerate 0 (map (\<lambda>c. dialogMessageText (dc_msg c)) (take 6 cs)))"

text \<open>\<open>strings.Fields\<close>: the parts between white space.\<close>

function fields_from :: "string \<Rightarrow> string \<Rightarrow> string list" where
  "fields_from acc s =
     (let word = (if acc = [] then [] else [rev acc]) in
      if s = [] then word
      else case strip_front white_space s of
          Some rest \<Rightarrow> word @ fields_from [] rest
        | None \<Rightarrow> fields_from (hd s # acc) (tl s))"
  by pat_completeness auto
termination
  by (relation "measure (length \<circ> snd)") (auto dest: strip_front_shorter)

declare fields_from.simps [simp del]

definition encode_rune :: "nat \<Rightarrow> string" where
  "encode_rune r =
     (if r < 0x80 then [char_of r]
      else if r < 0x800 then [char_of (0xC0 + r div 64), char_of (0x80 + r mod 64)]
      else if r < 0x10000 then [char_of (0xE0 + r div 4096), char_of (0x80 + r div 64 mod 64), char_of (0x80 + r mod 64)]
      else [char_of (0xF0 + r div 262144), char_of (0x80 + r div 4096 mod 64), char_of (0x80 + r div 64 mod 64), char_of (0x80 + r mod 64)])"

definition ellipsis :: string where "ellipsis = [CHR 0xE2, CHR 0x80, CHR 0xA6]"

definition compactPreview :: "string \<Rightarrow> nat \<Rightarrow> string" where
  "compactPreview s maxRunes =
     (let oneLine = join '' '' (fields_from [] s); rs = runes oneLine in
      if length rs \<le> maxRunes then oneLine
      else if maxRunes \<le> 1 then ellipsis
      else concat (map encode_rune (take (maxRunes - 1) rs)) @ ellipsis)"

definition show_bool :: "bool \<Rightarrow> string" where "show_bool b = (if b then ''true'' else ''false'')"

definition show_int :: "int \<Rightarrow> string" where
  "show_int n = (if n < 0 then ''-'' @ decimal (nat (- n)) else decimal (nat n))"

definition compactOlderTranslationCandidate :: "(string \<Rightarrow> string) \<Rightarrow> dialogMessageCandidate \<Rightarrow> dialogMessageCandidate" where
  "compactOlderTranslationCandidate quote c =
     (let txt = trim_space (dialogMessageText (dc_msg c)) in
      if txt = [] then c
      else
        let stub = ''[history compacted: older '' @ m_Role (dc_msg c) @ '' turn in translation workflow; original_runes='' @
              decimal (length (runes txt)) @ ''; original_tokens_est='' @ show_int (dc_tokens c) @ ''; contains_hebrew='' @
              show_bool (containsHebrew txt) @ ''; preview='' @ quote (compactPreview txt 180) @ '']''
        in \<lparr>dc_msg = \<lparr>m_Role = m_Role (dc_msg c), m_Content = CText stub\<rparr>, dc_tokens = EstimateTokens [text_block stub]\<rparr>)"

definition translationFullRecentMessages :: nat where "translationFullRecentMessages = 8"

definition applyTranslationHistoryLayout :: "(string \<Rightarrow> string) \<Rightarrow> dialogMessageCandidate list \<Rightarrow> dialogMessageCandidate list" where
  "applyTranslationHistoryLayout quote cs =
     take translationFullRecentMessages cs @ map (compactOlderTranslationCandidate quote) (drop translationFullRecentMessages cs)"

definition visibleDialogCandidates ::
    "(string \<Rightarrow> string) \<Rightarrow> (string \<Rightarrow> string) \<Rightarrow> StoredMessage list \<Rightarrow> dialogMessageCandidate list" where
  "visibleDialogCandidates lower quote msgs =
     (let cs = List.map_filter visibleDialogCandidate msgs
      in if isTranslationWorkflow lower cs then applyTranslationHistoryLayout quote cs else cs)"

section \<open>The window\<close>

text \<open>A first candidate over the budget is taken alone.\<close>

definition selectDialogCandidatesWithinBudget :: "dialogMessageCandidate list \<Rightarrow> int \<Rightarrow> Message list" where
  "selectDialogCandidatesWithinBudget cs maxTokens =
     (let selected = take_budget dc_tokens maxTokens 0 cs
      in map dc_msg (if selected = [] then take 1 cs else selected))"

definition trimLeadingToUser :: "Message list \<Rightarrow> Message list" where
  "trimLeadingToUser msgs = dropWhile (\<lambda>m. m_Role m \<noteq> ''user'') msgs"

definition dialogMessagesForAPIFromRows ::
    "(string \<Rightarrow> string) \<Rightarrow> (string \<Rightarrow> string) \<Rightarrow> StoredMessage list \<Rightarrow> int \<Rightarrow> Message list" where
  "dialogMessagesForAPIFromRows lower quote msgs maxTokens =
     trimLeadingToUser (rev (selectDialogCandidatesWithinBudget (visibleDialogCandidates lower quote msgs) maxTokens))"

definition dialogWindowBlock :: nat where "dialogWindowBlock = 30"

definition block_keep :: "nat \<Rightarrow> nat" where
  "block_keep n = (if n > dialogWindowBlock then n - (n - dialogWindowBlock) div dialogWindowBlock * dialogWindowBlock else n)"

text \<open>The loop: \<open>None\<close> when not even one block fits.\<close>

function fit_blocks :: "dialogMessageCandidate list \<Rightarrow> int \<Rightarrow> nat \<Rightarrow> Message list option" where
  "fit_blocks cs maxTokens keep =
     (if keep = 0 then Some []
      else
        let selected = selectDialogCandidatesWithinBudget (take keep cs) maxTokens in
        if length selected = keep then Some (trimLeadingToUser (rev selected))
        else if keep \<le> dialogWindowBlock then None
        else fit_blocks cs maxTokens (keep - dialogWindowBlock))"
  by pat_completeness auto
termination
  by (relation "measure (\<lambda>(_, _, k). k)") (auto simp: dialogWindowBlock_def)

declare fit_blocks.simps [simp del]

definition dialogMessagesOnBlockAnchor ::
    "(string \<Rightarrow> string) \<Rightarrow> (string \<Rightarrow> string) \<Rightarrow> StoredMessage list \<Rightarrow> int \<Rightarrow> Message list" where
  "dialogMessagesOnBlockAnchor lower quote msgs maxTokens =
     (let cs = visibleDialogCandidates lower quote msgs in
      if cs = [] then []
      else case fit_blocks cs maxTokens (block_keep (length cs)) of
          Some w \<Rightarrow> w
        | None \<Rightarrow> dialogMessagesForAPIFromRows lower quote msgs maxTokens)"

definition dialogMessagesIfComplete ::
    "(string \<Rightarrow> string) \<Rightarrow> (string \<Rightarrow> string) \<Rightarrow> StoredMessage list \<Rightarrow> int \<Rightarrow> Message list option" where
  "dialogMessagesIfComplete lower quote msgs maxTokens =
     (let cs = visibleDialogCandidates lower quote msgs;
          selected = selectDialogCandidatesWithinBudget cs maxTokens
      in if cs = [] \<or> length selected < length cs then None else Some (trimLeadingToUser (rev selected)))"

section \<open>Budgets\<close>

lemma take_budget_prefix: "take_budget tokens maxTokens tokenSum xs = take (length (take_budget tokens maxTokens tokenSum xs)) xs"
  by (induction xs arbitrary: tokenSum) simp_all

lemma take_budget_length: "length (take_budget tokens maxTokens tokenSum xs) \<le> length xs"
  by (induction xs arbitrary: tokenSum) (simp_all add: le_SucI)

lemma take_budget_within:
  "0 < maxTokens \<Longrightarrow> tokenSum \<le> maxTokens \<Longrightarrow>
   tokenSum + sum_list (map tokens (take_budget tokens maxTokens tokenSum xs)) \<le> maxTokens"
proof (induction xs arbitrary: tokenSum)
  case (Cons x xs)
  show ?case using Cons.IH [of "tokenSum + tokens x"] Cons.prems by (simp add: algebra_simps)
qed simp

lemma take_budget_all:
  assumes "\<And>x. x \<in> set xs \<Longrightarrow> 0 \<le> tokens x" and "maxTokens \<le> 0 \<or> tokenSum + sum_list (map tokens xs) \<le> maxTokens"
  shows "take_budget tokens maxTokens tokenSum xs = xs"
  using assms
proof (induction xs arbitrary: tokenSum)
  case (Cons x xs)
  have "0 \<le> sum_list (map tokens xs)" using Cons.prems(1) by (intro sum_list_nonneg) auto
  then show ?case using Cons.IH [of "tokenSum + tokens x"] Cons.prems by (auto simp: algebra_simps)
qed simp

text \<open>
  The rows chosen for the provider are the newest ones: never none, never less than the latest turn with
  tool results, and within the budget unless that turn or a single row is already over it.
\<close>

lemma turn_size_bound: "turn_size_from ids i seen ms \<le> i + length ms"
proof (induction ms arbitrary: i seen)
  case (Cons m ms)
  show ?case using Cons.IH [of "Suc i" True] Cons.IH [of "Suc i" seen] by simp
qed simp

lemma selectMessagesForAPI_newest:
  assumes "msgs \<noteq> []"
  shows "\<exists>k. 0 < k \<and> k \<le> length msgs \<and> selectMessagesForAPI msgs maxTokens = take k msgs \<and>
    latestToolResultTurnSize msgs \<le> k \<and>
    (0 < maxTokens \<longrightarrow> k = 1 \<or> k = latestToolResultTurnSize msgs \<or> sum_list (map cm_TokenEstimate (take k msgs)) \<le> maxTokens)"
proof -
  let ?sel = "take_budget cm_TokenEstimate maxTokens 0 msgs" and ?req = "latestToolResultTurnSize msgs"
  have req: "?req \<le> length msgs"
    using turn_size_bound [of _ 1 False "tl msgs"] assms by (cases msgs) (auto simp: latestToolResultTurnSize_def)
  note sel = take_budget_prefix [of cm_TokenEstimate maxTokens 0 msgs] take_budget_length [of cm_TokenEstimate maxTokens 0 msgs]
  consider "0 < ?req" "length ?sel < ?req" | "\<not> (0 < ?req \<and> length ?sel < ?req)" "?sel = []"
    | "\<not> (0 < ?req \<and> length ?sel < ?req)" "?sel \<noteq> []" by metis
  then show ?thesis
  proof cases
    case 1
    then show ?thesis using req assms by (intro exI [of _ ?req]) (auto simp: selectMessagesForAPI_def Let_def)
  next
    case 2
    then show ?thesis using assms by (intro exI [of _ 1]) (auto simp: selectMessagesForAPI_def Let_def Suc_le_eq)
  next
    case 3
    have "sum_list (map cm_TokenEstimate ?sel) \<le> maxTokens" if "0 < maxTokens"
      using take_budget_within [OF that, of 0 cm_TokenEstimate msgs] that by simp
    then show ?thesis using 3 sel
      by (intro exI [of _ "length ?sel"]) (auto simp: selectMessagesForAPI_def Let_def)
  qed
qed

section \<open>The anchored window\<close>

lemma EstimateTextTokens_nonneg: "0 \<le> EstimateTextTokens s"
  by (simp add: EstimateTextTokens_def Let_def)

lemma EstimateTokens_pos: "0 < EstimateTokens bs"
proof -
  have "0 \<le> block_tokens b" for b
    by (simp add: block_tokens_def EstimateTextTokens_nonneg split: result_content.split)
  then have "0 \<le> sum_list (map block_tokens bs)" by (intro sum_list_nonneg) auto
  then show ?thesis by (simp add: EstimateTokens_def Let_def)
qed

lemma candidate_tokens:
  assumes "c \<in> set (visibleDialogCandidates lower quote msgs)"
  shows "0 < dc_tokens c"
proof -
  have vis: "0 < dc_tokens x" if "visibleDialogCandidate m = Some x" for m x
    using that EstimateTokens_pos by (auto simp: visibleDialogCandidate_def Let_def split: if_splits)
  have "0 < dc_tokens (compactOlderTranslationCandidate quote x)" if "0 < dc_tokens x" for x
    using that EstimateTokens_pos by (simp add: compactOlderTranslationCandidate_def Let_def)
  then show ?thesis
    using assms vis by (auto simp: visibleDialogCandidates_def Let_def applyTranslationHistoryLayout_def map_filter_def
        dest!: in_set_takeD in_set_dropD split: if_splits)
qed

definition window :: "dialogMessageCandidate list \<Rightarrow> nat \<Rightarrow> Message list" where
  "window cs k = trimLeadingToUser (rev (map dc_msg (take k cs)))"

definition fits :: "dialogMessageCandidate list \<Rightarrow> int \<Rightarrow> nat \<Rightarrow> bool" where
  "fits cs maxTokens k \<longleftrightarrow> maxTokens \<le> 0 \<or> sum_list (map dc_tokens (take k cs)) \<le> maxTokens"

lemma select_prefix:
  "\<exists>k \<le> length cs. selectDialogCandidatesWithinBudget cs maxTokens = map dc_msg (take k cs) \<and>
     (k \<le> 1 \<or> fits cs maxTokens k)"
proof -
  let ?sel = "take_budget dc_tokens maxTokens 0 cs"
  note sel = take_budget_prefix [of dc_tokens maxTokens 0 cs] take_budget_length [of dc_tokens maxTokens 0 cs]
  have "fits cs maxTokens (length ?sel)"
    using take_budget_within [of maxTokens 0 dc_tokens cs] sel(1) by (force simp: fits_def)
  then show ?thesis
    using sel by (cases "?sel = []"; cases cs)
      (auto simp: selectDialogCandidatesWithinBudget_def intro: exI [of _ 1] exI [of _ "length ?sel"])
qed

lemma select_all:
  assumes "\<And>c. c \<in> set cs \<Longrightarrow> 0 \<le> dc_tokens c" and "fits cs maxTokens (length cs)"
  shows "selectDialogCandidatesWithinBudget cs maxTokens = map dc_msg cs"
  using take_budget_all [of cs dc_tokens maxTokens 0] assms
  by (simp add: selectDialogCandidatesWithinBudget_def fits_def)

lemma fits_take: "fits (take n cs) maxTokens k \<longleftrightarrow> fits cs maxTokens (min k n)"
  by (simp add: fits_def)

lemma block_keep_bounds:
  "block_keep n \<le> n" "block_keep n < 2 * dialogWindowBlock" "dialogWindowBlock dvd n - block_keep n"
proof -
  have "(n - 30) div 30 * 30 + (n - 30) mod 30 = n - 30" "(n - 30) mod 30 < 30" by (rule div_mult_mod_eq) simp
  then have "(n - 30) div 30 * 30 \<le> n - 30" "n - 30 < (n - 30) div 30 * 30 + 30" by linarith+
  then show "block_keep n \<le> n" "block_keep n < 2 * dialogWindowBlock" "dialogWindowBlock dvd n - block_keep n"
    by (auto simp: block_keep_def dialogWindowBlock_def)
qed

lemma block_keep_pos: "0 < n \<Longrightarrow> 0 < block_keep n"
  using div_times_less_eq_dividend [of "n - 30" 30] by (auto simp: block_keep_def dialogWindowBlock_def)

lemma block_keep_Suc:
  assumes "Suc n mod dialogWindowBlock \<noteq> 0 \<or> Suc n = dialogWindowBlock"
  shows "block_keep (Suc n) = Suc (block_keep n)"
proof -
  have "(Suc n - 30) div 30 = (n - 30) div 30" if "30 \<le> n" "Suc n mod 30 \<noteq> 0"
  proof -
    from that(1) obtain m where "n = m + 30" by (metis le_add_diff_inverse2)
    moreover from this that(2) have "Suc m mod 30 \<noteq> 0" using mod_add_self2 [of "Suc m" 30] by simp
    ultimately show ?thesis by (simp add: div_Suc)
  qed
  moreover have "(n - 30) div 30 * 30 \<le> n" using div_times_less_eq_dividend [of "n - 30" 30] by linarith
  ultimately show ?thesis using assms by (auto simp: block_keep_def dialogWindowBlock_def Suc_diff_le)
qed

lemma fit_blocks_fits:
  assumes "\<And>c. c \<in> set cs \<Longrightarrow> 0 < dc_tokens c" and "fits cs maxTokens keep" and "keep \<le> length cs"
  shows "fit_blocks cs maxTokens keep = Some (window cs keep)"
proof -
  have "selectDialogCandidatesWithinBudget (take keep cs) maxTokens = map dc_msg (take keep cs)"
    using assms by (intro select_all) (auto simp: fits_take dest!: in_set_takeD intro: less_imp_le)
  then show ?thesis
    using assms(3) by (subst fit_blocks.simps) (simp add: Let_def window_def trimLeadingToUser_def)
qed

lemma anchored_window:
  assumes "fits (visibleDialogCandidates lower quote msgs) maxTokens (block_keep (length (visibleDialogCandidates lower quote msgs)))"
  shows "dialogMessagesOnBlockAnchor lower quote msgs maxTokens =
    window (visibleDialogCandidates lower quote msgs) (block_keep (length (visibleDialogCandidates lower quote msgs)))"
  using fit_blocks_fits [OF candidate_tokens assms block_keep_bounds(1)]
  by (simp add: dialogMessagesOnBlockAnchor_def Let_def window_def trimLeadingToUser_def)

text \<open>A prefix that is not taken whole is over the budget, and the rest is cut where one more message would be.\<close>

lemma take_budget_stops:
  assumes "length (take_budget tokens maxTokens tokenSum xs) < length xs"
  shows "0 < maxTokens \<and> maxTokens < tokenSum + sum_list (map tokens (take (Suc (length (take_budget tokens maxTokens tokenSum xs))) xs))"
  using assms
proof (induction xs arbitrary: tokenSum)
  case (Cons x xs)
  then show ?case using Cons.IH [of "tokenSum + tokens x"] by (auto simp: algebra_simps split: if_splits)
qed simp

lemma fits_antimono:
  assumes "fits cs maxTokens k" "j \<le> k" "\<And>c. c \<in> set cs \<Longrightarrow> 0 < dc_tokens c"
  shows "fits cs maxTokens j"
proof -
  have "take k cs = take j cs @ take (k - j) (drop j cs)" using assms(2) by (metis le_add_diff_inverse take_add)
  moreover have "0 \<le> sum_list (map dc_tokens (take (k - j) (drop j cs)))"
    by (intro sum_list_nonneg) (auto dest!: in_set_takeD in_set_dropD assms(3) intro: less_imp_le)
  ultimately show ?thesis using assms(1) by (auto simp: fits_def)
qed

lemma select_whole:
  assumes "\<And>c. c \<in> set cs \<Longrightarrow> 0 < dc_tokens c" "0 < k" "k \<le> length cs"
  shows "length (selectDialogCandidatesWithinBudget (take k cs) maxTokens) = k \<longleftrightarrow> k = 1 \<or> fits cs maxTokens k"
proof
  assume "length (selectDialogCandidatesWithinBudget (take k cs) maxTokens) = k"
  then show "k = 1 \<or> fits cs maxTokens k" using select_prefix [of "take k cs" maxTokens] assms(2,3) by (auto simp: fits_take)
next
  assume "k = 1 \<or> fits cs maxTokens k"
  then show "length (selectDialogCandidatesWithinBudget (take k cs) maxTokens) = k"
  proof
    assume "k = 1"
    then show ?thesis using assms(3) by (cases cs) (simp_all add: selectDialogCandidatesWithinBudget_def)
  next
    assume "fits cs maxTokens k"
    then have "selectDialogCandidatesWithinBudget (take k cs) maxTokens = map dc_msg (take k cs)"
      using assms by (intro select_all) (auto simp: fits_take dest!: in_set_takeD intro: less_imp_le)
    then show ?thesis using assms(3) by simp
  qed
qed

lemma fit_blocks_step:
  assumes "\<And>c. c \<in> set cs \<Longrightarrow> 0 < dc_tokens c" "0 < k" "k \<le> length cs"
  shows "fit_blocks cs maxTokens k =
    (if k = 1 \<or> fits cs maxTokens k then Some (window cs k)
     else if k \<le> dialogWindowBlock then None else fit_blocks cs maxTokens (k - dialogWindowBlock))"
proof (cases "k = 1 \<or> fits cs maxTokens k")
  case True
  then have "length (selectDialogCandidatesWithinBudget (take k cs) maxTokens) = k" using select_whole [OF assms] by simp
  moreover from this have "selectDialogCandidatesWithinBudget (take k cs) maxTokens = map dc_msg (take k cs)"
    using select_prefix [of "take k cs" maxTokens] assms(3) by auto
  ultimately show ?thesis using True assms(2) by (subst fit_blocks.simps) (simp add: window_def)
next
  case False
  then have "length (selectDialogCandidatesWithinBudget (take k cs) maxTokens) \<noteq> k" using select_whole [OF assms] by simp
  then show ?thesis using False assms(2) by (subst fit_blocks.simps) (simp add: Let_def)
qed

lemma select_tail:
  assumes "\<And>c. c \<in> set cs \<Longrightarrow> 0 < dc_tokens c" "\<not> fits cs maxTokens b"
  obtains k where "selectDialogCandidatesWithinBudget cs maxTokens = map dc_msg (take k cs)" "1 \<le> k" "k \<le> max 1 b"
    "k = 1 \<or> fits cs maxTokens k" "\<not> fits cs maxTokens (Suc k)"
proof -
  let ?sel = "take_budget dc_tokens maxTokens 0 cs"
  have pre: "?sel = take (length ?sel) cs" by (rule take_budget_prefix)
  have within: "fits cs maxTokens (length ?sel)"
    using take_budget_within [of maxTokens 0 dc_tokens cs] pre by (force simp: fits_def)
  then have short: "length ?sel < b" using assms fits_antimono by (metis not_less)
  then have "length ?sel < length cs" using assms within take_budget_length [of dc_tokens maxTokens 0 cs] fits_take [of "length cs" cs maxTokens b]
    by (cases "b \<le> length cs") (auto simp: min_def le_less)
  from take_budget_stops [OF this] have over: "\<not> fits cs maxTokens (Suc (length ?sel))" by (simp add: fits_def)
  show ?thesis
  proof (cases "?sel = []")
    case True
    then have "\<not> fits cs maxTokens (Suc 1)" using over fits_antimono [where cs = cs and maxTokens = maxTokens and k = "Suc 1" and j = 1, OF _ _ assms(1)] by auto
    then show ?thesis using True by (intro that [of 1]) (simp_all add: selectDialogCandidatesWithinBudget_def)
  next
    case False
    then show ?thesis using pre within over short
      by (intro that [of "length ?sel"]) (auto simp: selectDialogCandidatesWithinBudget_def Let_def Suc_le_eq)
  qed
qed

text \<open>How many of the newest candidates the window is made of.\<close>

lemma anchored_size:
  fixes lower quote msgs
  defines "cs \<equiv> visibleDialogCandidates lower quote msgs"
  assumes "cs \<noteq> []" and b: "b = block_keep (length cs)"
  shows "\<exists>k. dialogMessagesOnBlockAnchor lower quote msgs maxTokens = window cs k \<and> 1 \<le> k \<and> k \<le> b \<and> (k = 1 \<or> fits cs maxTokens k) \<and>
    (fits cs maxTokens b \<longrightarrow> k = b) \<and>
    (\<not> fits cs maxTokens b \<and> dialogWindowBlock < b \<and> fits cs maxTokens (b - dialogWindowBlock) \<longrightarrow> k = b - dialogWindowBlock) \<and>
    (\<not> fits cs maxTokens b \<and> \<not> (dialogWindowBlock < b \<and> fits cs maxTokens (b - dialogWindowBlock)) \<longrightarrow>
      k \<le> dialogWindowBlock \<and> \<not> fits cs maxTokens (Suc k))"
proof -
  let ?w = "dialogMessagesOnBlockAnchor lower quote msgs maxTokens" and ?s = "b - dialogWindowBlock"
  have pos: "0 < dc_tokens c" if "c \<in> set cs" for c using candidate_tokens that unfolding cs_def by blast
  have bs: "b \<le> length cs" "b < 2 * dialogWindowBlock" "0 < b"
    using block_keep_bounds [of "length cs"] block_keep_pos [of "length cs"] assms(2) by (simp_all add: b)
  have w: "?w = (case fit_blocks cs maxTokens b of Some w \<Rightarrow> w | None \<Rightarrow> trimLeadingToUser (rev (selectDialogCandidatesWithinBudget cs maxTokens)))"
    using assms(2) by (simp add: dialogMessagesOnBlockAnchor_def dialogMessagesForAPIFromRows_def Let_def cs_def [symmetric] b split: option.split)
  note step = fit_blocks_step [OF pos bs(3,1)]
  consider (whole) "fits cs maxTokens b" | (single) "\<not> fits cs maxTokens b" "b = 1"
    | (block) "\<not> fits cs maxTokens b" "b \<noteq> 1" "dialogWindowBlock < b" "fits cs maxTokens ?s \<or> ?s = 1"
    | (tail) "\<not> fits cs maxTokens b" "b \<noteq> 1" "\<not> (dialogWindowBlock < b \<and> (fits cs maxTokens ?s \<or> ?s = 1))" by blast
  then show ?thesis
  proof cases
    case whole
    then show ?thesis using step w bs by (intro exI [of _ b]) simp
  next
    case single
    then have "\<not> fits cs maxTokens (Suc 1)" using fits_antimono [where cs = cs and maxTokens = maxTokens and k = "Suc 1" and j = 1, OF _ _ pos] by auto
    then show ?thesis using single step w by (intro exI [of _ 1]) (simp add: dialogWindowBlock_def)
  next
    case block
    have "fit_blocks cs maxTokens ?s = Some (window cs ?s)" using fit_blocks_step [where cs = cs and maxTokens = maxTokens and k = ?s, OF pos] block bs by auto
    moreover have "\<not> fits cs maxTokens (Suc 1)" if "\<not> fits cs maxTokens 1"
      using that fits_antimono [where cs = cs and maxTokens = maxTokens and k = "Suc 1" and j = 1, OF _ _ pos] by auto
    ultimately show ?thesis using block step w bs by (intro exI [of _ ?s]) (auto simp: dialogWindowBlock_def)
  next
    case tail
    have none: "fit_blocks cs maxTokens b = None"
    proof (cases "dialogWindowBlock < b")
      case True
      then have "?s \<le> dialogWindowBlock" "0 < ?s" "?s \<le> length cs" using bs by simp_all
      then show ?thesis using step tail True fit_blocks_step [where cs = cs and maxTokens = maxTokens and k = ?s, OF pos] by simp
    qed (use step tail in simp)
    let ?e = "if dialogWindowBlock < b then ?s else b"
    have "\<not> fits cs maxTokens ?e" using tail by auto
    from select_tail [OF pos this] obtain k where k: "selectDialogCandidatesWithinBudget cs maxTokens = map dc_msg (take k cs)"
      "1 \<le> k" "k \<le> max 1 ?e" "k = 1 \<or> fits cs maxTokens k" "\<not> fits cs maxTokens (Suc k)" .
    moreover have "max 1 ?e \<le> dialogWindowBlock" "max 1 ?e \<le> b" using bs by (auto simp: dialogWindowBlock_def)
    ultimately have "k \<le> dialogWindowBlock" "k \<le> b" by linarith+
    then show ?thesis using k tail none w by (intro exI [of _ k]) (auto simp: window_def)
  qed
qed

lemma window_Cons:
  assumes "window cs k \<noteq> []"
  shows "window (c # cs) (Suc k) = window cs k @ [dc_msg c]"
proof -
  obtain x where "x \<in> set (rev (map dc_msg (take k cs)))" "m_Role x = ''user''"
    using assms by (auto simp: window_def trimLeadingToUser_def)
  then show ?thesis by (simp add: window_def trimLeadingToUser_def dropWhile_append1)
qed

lemma trim_user: "trimLeadingToUser msgs = [] \<or> m_Role (hd (trimLeadingToUser msgs)) = ''user''"
  using hd_dropWhile [of "\<lambda>m. m_Role m \<noteq> ''user''" msgs] by (auto simp: trimLeadingToUser_def)

text \<open>
  C40. The dialogue window begins with a user's message and is made of the newest candidates: all but a whole number of blocks
  when these, less than two blocks, are within the budget, else one block less when that is, and otherwise as many as
  the budget allows, at least one: a block that does not fit never leaves the dialogue empty. Outside translation workflows, while the
  newest blocks fit, one more visible message extends a window that is not empty at the end without moving its first message, except when
  the count of messages reaches a multiple of the block.
\<close>

theorem dialog_window:
  assumes cs: "visibleDialogCandidates lower quote msgs = cs"
    and w: "dialogMessagesOnBlockAnchor lower quote msgs maxTokens = w"
    and b: "block_keep (length cs) = b"
  shows "(w = [] \<or> m_Role (hd w) = ''user'') \<and> b < 2 * dialogWindowBlock \<and> dialogWindowBlock dvd length cs - b \<and>
    (cs \<noteq> [] \<longrightarrow> (\<exists>k. w = window cs k \<and> 1 \<le> k \<and> k \<le> b \<and> (k = 1 \<or> fits cs maxTokens k) \<and>
      (fits cs maxTokens b \<longrightarrow> k = b) \<and>
      (\<not> fits cs maxTokens b \<and> dialogWindowBlock < b \<and> fits cs maxTokens (b - dialogWindowBlock) \<longrightarrow> k = b - dialogWindowBlock) \<and>
      (\<not> fits cs maxTokens b \<and> \<not> (dialogWindowBlock < b \<and> fits cs maxTokens (b - dialogWindowBlock)) \<longrightarrow>
        k \<le> dialogWindowBlock \<and> \<not> fits cs maxTokens (Suc k)))) \<and>
    (visibleDialogCandidate r = Some c \<and> \<not> isTranslationWorkflow lower (List.map_filter visibleDialogCandidate msgs) \<and>
     \<not> isTranslationWorkflow lower (List.map_filter visibleDialogCandidate (r # msgs)) \<and>
     fits (c # cs) maxTokens (block_keep (Suc (length cs))) \<and>
     (Suc (length cs) mod dialogWindowBlock \<noteq> 0 \<or> Suc (length cs) = dialogWindowBlock) \<and> w \<noteq> [] \<longrightarrow>
     dialogMessagesOnBlockAnchor lower quote (r # msgs) maxTokens = w @ [dc_msg c])"
proof (intro conjI impI)
  show "b < 2 * dialogWindowBlock" "dialogWindowBlock dvd length cs - b" using block_keep_bounds b by blast+
  show "\<exists>k. w = window cs k \<and> 1 \<le> k \<and> k \<le> b \<and> (k = 1 \<or> fits cs maxTokens k) \<and>
      (fits cs maxTokens b \<longrightarrow> k = b) \<and>
      (\<not> fits cs maxTokens b \<and> dialogWindowBlock < b \<and> fits cs maxTokens (b - dialogWindowBlock) \<longrightarrow> k = b - dialogWindowBlock) \<and>
      (\<not> fits cs maxTokens b \<and> \<not> (dialogWindowBlock < b \<and> fits cs maxTokens (b - dialogWindowBlock)) \<longrightarrow>
        k \<le> dialogWindowBlock \<and> \<not> fits cs maxTokens (Suc k))" if "cs \<noteq> []"
    by (rule anchored_size [of lower quote msgs b maxTokens, unfolded cs w, OF that b [symmetric]])
  show "w = [] \<or> m_Role (hd w) = ''user''"
  proof (cases "cs = []")
    case True
    then show ?thesis using cs w by (simp add: dialogMessagesOnBlockAnchor_def)
  next
    case False
    then obtain k where "w = window cs k" using anchored_size [of lower quote msgs b maxTokens, unfolded cs w, OF _ b [symmetric]] by blast
    then show ?thesis using trim_user by (simp add: window_def)
  qed
next
  assume next_row: "visibleDialogCandidate r = Some c \<and> \<not> isTranslationWorkflow lower (List.map_filter visibleDialogCandidate msgs) \<and>
     \<not> isTranslationWorkflow lower (List.map_filter visibleDialogCandidate (r # msgs)) \<and>
     fits (c # cs) maxTokens (block_keep (Suc (length cs))) \<and>
     (Suc (length cs) mod dialogWindowBlock \<noteq> 0 \<or> Suc (length cs) = dialogWindowBlock) \<and> w \<noteq> []"
  then have grown: "visibleDialogCandidates lower quote (r # msgs) = c # cs"
    using cs by (auto simp: visibleDialogCandidates_def Let_def map_filter_simps)
  have keep: "block_keep (Suc (length cs)) = Suc (block_keep (length cs))" using block_keep_Suc next_row by blast
  have "0 < dc_tokens c" using candidate_tokens [of c lower quote "r # msgs"] by (simp add: grown)
  then have "fits cs maxTokens (block_keep (length cs))" using next_row by (auto simp: fits_def keep)
  then have "w = window cs (block_keep (length cs))" using anchored_window [of lower quote msgs maxTokens] by (simp add: cs w)
  then show "dialogMessagesOnBlockAnchor lower quote (r # msgs) maxTokens = w @ [dc_msg c]"
    using anchored_window [of lower quote "r # msgs" maxTokens] next_row grown window_Cons by (simp add: keep)
qed

text \<open>A plain conversation of alternating one-word turns, newest first.\<close>

definition chat_row :: "nat \<Rightarrow> StoredMessage" where
  "chat_row n = \<lparr>cm_ID = n, cm_SoulID = 1, cm_SessionID = 1, cm_Role = (if even n then ''user'' else ''assistant''),
     cm_Content = SBlocks [text_block ''hi''], cm_VisibleText = Some ''hi'', cm_ProjectionStatus = ''projected'',
     cm_ProjectionReason = None, cm_ProjectorVersion = ''canonical-v1'', cm_ToolUseID = None, cm_ReplyToMessageID = None,
     cm_TGMessageID = None, cm_TGMessageIDs = None, cm_TokenEstimate = 1, cm_CreatedAt = int n\<rparr>"

definition chat_rows :: "nat \<Rightarrow> StoredMessage list" where
  "chat_rows n = map chat_row (rev [0..<n])"

theorem dialog_window_witness:
  "dialogMessagesOnBlockAnchor (\<lambda>s. s) (\<lambda>s. s) (chat_row 4 # chat_rows 4) 100 =
   dialogMessagesOnBlockAnchor (\<lambda>s. s) (\<lambda>s. s) (chat_rows 4) 100 @ [\<lparr>m_Role = ''user'', m_Content = CText ''hi''\<rparr>]"
proof -
  let ?cs = "visibleDialogCandidates (\<lambda>s. s) (\<lambda>s. s) (chat_rows 4)"
  let ?c = "\<lparr>dc_msg = \<lparr>m_Role = ''user'', m_Content = CText ''hi''\<rparr>, dc_tokens = 1\<rparr>"
  have "visibleDialogCandidate (chat_row 4) = Some ?c" by code_simp
  moreover have "\<not> isTranslationWorkflow (\<lambda>s. s) (List.map_filter visibleDialogCandidate (chat_rows 4))"
    "\<not> isTranslationWorkflow (\<lambda>s. s) (List.map_filter visibleDialogCandidate (chat_row 4 # chat_rows 4))" by code_simp+
  moreover have "fits (?c # ?cs) 100 (block_keep (Suc (length ?cs)))" by code_simp
  moreover have "Suc (length ?cs) mod dialogWindowBlock \<noteq> 0" by code_simp
  moreover have "dialogMessagesOnBlockAnchor (\<lambda>s. s) (\<lambda>s. s) (chat_rows 4) 100 \<noteq> []" by code_simp
  ultimately show ?thesis using dialog_window [OF refl refl refl, of "\<lambda>s. s" "\<lambda>s. s" "chat_rows 4" 100 "chat_row 4" ?c] by simp
qed

section \<open>Long sessions\<close>

text \<open>
  The store reads at most 500 rows of a session. Once that many are visible their count no longer grows, so
  the window is always the newest fifty of them: every further message drops the first one.
\<close>

lemma saturated_window_slides:
  assumes cs: "visibleDialogCandidates lower quote rows = cs" "length cs = 500" "length rows = 500"
    and new: "visibleDialogCandidates lower quote (take 500 (r # rows)) = c # take 499 cs"
    and fit: "fits cs maxTokens 50" "fits (c # cs) maxTokens 50" and user: "m_Role (dc_msg (cs ! 49)) = ''user''"
  shows "hd (dialogMessagesOnBlockAnchor lower quote rows maxTokens) = dc_msg (cs ! 49) \<and>
    dialogMessagesOnBlockAnchor lower quote (take 500 (r # rows)) maxTokens =
      trimLeadingToUser (rev (map dc_msg (take 49 cs)) @ [dc_msg c])"
proof -
  have keep: "block_keep 500 = 50" by (simp add: block_keep_def dialogWindowBlock_def)
  have "dialogMessagesOnBlockAnchor lower quote rows maxTokens = window cs 50"
    using anchored_window [of lower quote rows maxTokens] cs fit(1) by (simp add: keep)
  moreover have "take 50 cs = take 49 cs @ [cs ! 49]" using cs(2) take_Suc_conv_app_nth [of 49 cs] by simp
  moreover have "fits (c # take 499 cs) maxTokens 50" using fit(2) by (simp add: fits_def)
  then have "dialogMessagesOnBlockAnchor lower quote (take 500 (r # rows)) maxTokens = window (c # take 499 cs) 50"
    using anchored_window [of lower quote "take 500 (r # rows)" maxTokens] new cs(2) by (simp add: keep del: take_Suc_Cons)
  ultimately show ?thesis using user by (simp add: window_def trimLeadingToUser_def)
qed


text \<open>With 502 stored turns of the plain conversation the window has 50 messages, and with one more turn only 49.\<close>

definition chat_candidate :: "nat \<Rightarrow> dialogMessageCandidate" where
  "chat_candidate n = \<lparr>dc_msg = \<lparr>m_Role = (if even n then ''user'' else ''assistant''), m_Content = CText ''hi''\<rparr>, dc_tokens = 1\<rparr>"

lemma plain_candidates: "visibleDialogCandidates (\<lambda>s. s) quote (map chat_row ns) = map chat_candidate ns"
proof -
  have "EstimateTokens [text_block ''hi''] = 1" by code_simp
  then have "visibleDialogCandidate (chat_row n) = Some (chat_candidate n)" for n
    by (simp add: visibleDialogCandidate_def chat_row_def chat_candidate_def ToAPIMessage_def contentFromBlocks_def text_block_def)
  then have cs: "List.map_filter visibleDialogCandidate (map chat_row ns) = map chat_candidate ns"
    by (simp add: map_filter_def comp_def)
  have "\<not> containsTranslationCue (\<lambda>s. s) ''hi''" "\<not> containsHebrew ''hi''" by code_simp+
  then have "\<not> translation_signal (\<lambda>s. s) (i, ''hi'')" for i by (simp add: translation_signal_def)
  moreover have "dialogMessageText (dc_msg (chat_candidate n)) = ''hi''" for n
    by (simp add: dialogMessageText_def chat_candidate_def text_block_def)
  ultimately have "\<not> isTranslationWorkflow (\<lambda>s. s) (map chat_candidate ns)"
    by (auto simp: isTranslationWorkflow_def list_ex_iff in_set_enumerate_eq take_map)
  then show ?thesis by (simp add: visibleDialogCandidates_def Let_def cs)
qed

lemma long_chat_window:
  assumes "500 \<le> n"
  shows "dialogMessagesOnBlockAnchor (\<lambda>s. s) quote (take 500 (chat_rows n)) 0 =
    trimLeadingToUser (map (dc_msg \<circ> chat_candidate) [n - 50..<n])"
proof -
  have keep: "block_keep 500 = 50" by (simp add: block_keep_def dialogWindowBlock_def)
  have "take 50 (rev [0..<n]) = rev [n - 50..<n]" by (simp add: take_rev)
  then show ?thesis
    using anchored_window [of "\<lambda>s. s" quote "take 500 (chat_rows n)" 0] assms
    by (simp add: chat_rows_def plain_candidates keep fits_def window_def take_map rev_map)
qed

lemma long_chat_shrinks:
  "length (dialogMessagesOnBlockAnchor (\<lambda>s. s) quote (take 500 (chat_rows 502)) 0) = 50"
  "length (dialogMessagesOnBlockAnchor (\<lambda>s. s) quote (take 500 (chat_rows 503)) 0) = 49"
proof -
  have "[452..<502] = 452 # [453..<502]" "[453..<503] = 453 # 454 # [455..<503]" by (simp_all add: upt_rec)
  then show "length (dialogMessagesOnBlockAnchor (\<lambda>s. s) quote (take 500 (chat_rows 502)) 0) = 50"
    "length (dialogMessagesOnBlockAnchor (\<lambda>s. s) quote (take 500 (chat_rows 503)) 0) = 49"
    by (simp_all add: long_chat_window trimLeadingToUser_def chat_candidate_def)
qed

end
