(* ===== verification/Message_Projection.thy ===== *)
theory Message_Projection
  imports Dialog_Window
begin

text \<open>
  The text-only view stored beside every chat message (\<open>internal/core/message_projection.go\<close>): which
  messages have user-visible text, and how leaked tool calls and attachment markers are removed from an
  assistant's text.
\<close>

section \<open>Cleaning assistant text\<close>

fun index_of :: "string \<Rightarrow> string \<Rightarrow> nat option" where
  "index_of [] p = (if p = [] then Some 0 else None)"
| "index_of (c # cs) p = (if has_prefix (c # cs) p then Some 0 else map_option Suc (index_of cs p))"

lemma index_of_bound: "index_of s p = Some i \<Longrightarrow> i + length p \<le> length s"
proof (induction s arbitrary: i)
  case (Cons c s)
  show ?case
  proof (cases "has_prefix (c # s) p")
    case True
    then have "length (take (length p) (c # s)) = length p" by (simp add: has_prefix_def)
    then show ?thesis using Cons.prems True by simp
  next
    case False then show ?thesis using Cons by auto
  qed
qed (auto split: if_splits)

text \<open>A call emitted as text: everything from the marker to the closing brace and the separators after it.\<close>

function strip_calls :: "string \<Rightarrow> string" where
  "strip_calls s =
     (case index_of s ''call:'' of
        None \<Rightarrow> s
      | Some i \<Rightarrow>
          (case index_of (drop i s) ''}'' of
             None \<Rightarrow> s
           | Some e \<Rightarrow> strip_calls (take i s @ dropWhile (\<lambda>c. c \<in> {CHR ''|'', CHR ''>'', CHR ''<'', CHR '' '', CHR 0x0A})
                                          (drop (i + e + 1) s))))"
  by pat_completeness auto
termination
proof (relation "measure length")
  fix s i e assume "index_of s ''call:'' = Some i" "index_of (drop i s) ''}'' = Some e"
  then have "i \<le> length s" "i + e + 1 \<le> length s" using index_of_bound by fastforce+
  moreover have "length (dropWhile P (drop n s)) \<le> length s - n" for P n using length_dropWhile_le [of P "drop n s"] by simp
  from this [of "\<lambda>c. c \<in> {CHR ''|'', CHR ''>'', CHR ''<'', CHR '' '', CHR 0x0A}" "i + e + 1"]
  have "length (dropWhile (\<lambda>c. c \<in> {CHR ''|'', CHR ''>'', CHR ''<'', CHR '' '', CHR 0x0A}) (drop (i + e + 1) s)) \<le> length s - (i + e + 1)" .
  ultimately show "(take i s @ dropWhile (\<lambda>c. c \<in> {CHR ''|'', CHR ''>'', CHR ''<'', CHR '' '', CHR 0x0A}) (drop (i + e + 1) s), s) \<in> measure length"
    by (simp only: in_measure length_append length_take)
qed simp

declare strip_calls.simps [simp del]

function strip_tool_tags :: "string \<Rightarrow> string" where
  "strip_tool_tags s =
     (case index_of s ''<tool_call'' of
        None \<Rightarrow> s
      | Some start \<Rightarrow>
          (case index_of (drop start s) ''</tool_call>'' of
             None \<Rightarrow>
               (case index_of (drop start s) ''>'' of
                  None \<Rightarrow> s
                | Some e \<Rightarrow> strip_tool_tags (take start s @ drop (start + e + 1) s))
           | Some e \<Rightarrow> strip_tool_tags (take start s @ drop (start + e + length ''</tool_call>'') s)))"
  by pat_completeness auto
termination
proof (relation "measure length")
  fix s i e assume "index_of s ''<tool_call'' = Some i" "index_of (drop i s) ''>'' = Some e"
  then have "i \<le> length s" "i + e + 1 \<le> length s" using index_of_bound by fastforce+
  then show "(take i s @ drop (i + e + 1) s, s) \<in> measure length" by simp
next
  fix s i e assume "index_of s ''<tool_call'' = Some i" "index_of (drop i s) ''</tool_call>'' = Some e"
  then have "i \<le> length s" "i + e + 12 \<le> length s" using index_of_bound by fastforce+
  then show "(take i s @ drop (i + e + length ''</tool_call>'') s, s) \<in> measure length" by simp
qed simp

declare strip_tool_tags.simps [simp del]

definition html_tags :: "string list" where
  "html_tags = [''<br>'', ''<br/>'', ''<br />'', ''</html>'', ''<html>'', ''</body>'', ''<body>'']"

definition channel_tokens :: "string list" where
  "channel_tokens = [''<channel|>'', ''</channel>'', [CHR 0x0A] @ ''thought'' @ [CHR 0x0A],
     [CHR 0x0A, CHR 0x0A] @ ''thought'' @ [CHR 0x0A, CHR 0x0A]]"

definition stripLeakedAssistantArtifacts :: "string \<Rightarrow> string \<times> bool" where
  "stripLeakedAssistantArtifacts original =
     (let s = strip_tool_tags (strip_calls original);
          s = fold remove_all html_tags s;
          s = fold remove_all channel_tokens s;
          s = trim_prefix (trim_prefix s (''thought'' @ [CHR 0x0A])) ''thought''
      in (s, s \<noteq> original))"

definition SanitizeLeakedAssistantText :: "string \<Rightarrow> string" where
  "SanitizeLeakedAssistantText s = trim_space (fst (stripLeakedAssistantArtifacts s))"

text \<open>
  The marker \<open>[attached: id]\<close>, in any letter case, with optional blanks and 36 hexadecimal digits or
  hyphens: what remains after a match at the front of a string, the first match, and removal of all.
\<close>

definition lower_ascii :: "char \<Rightarrow> char" where
  "lower_ascii c = (if 65 \<le> (of_char c :: nat) \<and> (of_char c :: nat) \<le> 90 then char_of ((of_char c :: nat) + 32) else c)"

definition re_space :: "char \<Rightarrow> bool" where
  "re_space c \<longleftrightarrow> c \<in> {CHR 0x09, CHR 0x0A, CHR 0x0C, CHR 0x0D, CHR 0x20}"

definition id_char :: "char \<Rightarrow> bool" where
  "id_char c \<longleftrightarrow> hex_digit c \<or> c = CHR ''-''"

definition attachment_open :: string where "attachment_open = ''[attached:''"

definition attachment_close :: "string \<Rightarrow> string option" where
  "attachment_close s = (case dropWhile re_space s of [] \<Rightarrow> None | c # rest \<Rightarrow> if c = CHR '']'' then Some rest else None)"

definition match_attachment :: "string \<Rightarrow> string option" where
  "match_attachment s =
     (if map lower_ascii (take 10 s) \<noteq> attachment_open then None
      else
        let s = dropWhile re_space (drop 10 s) in
        if length (take 36 s) < 36 \<or> \<not> list_all id_char (take 36 s) then None
        else attachment_close (drop 36 s))"

lemma attachment_close_shorter: "attachment_close s = Some r \<Longrightarrow> length r < length s"
  using length_dropWhile_le [of re_space s] by (auto simp: attachment_close_def split: list.splits if_splits)

lemma match_attachment_shorter: "match_attachment s = Some r \<Longrightarrow> length r < length s"
  using attachment_close_shorter [of "drop 36 (dropWhile re_space (drop 10 s))" r] length_dropWhile_le [of re_space "drop 10 s"]
  by (auto simp: match_attachment_def Let_def split: if_splits)

fun has_attachment :: "string \<Rightarrow> bool" where
  "has_attachment [] = False"
| "has_attachment (c # cs) \<longleftrightarrow> match_attachment (c # cs) \<noteq> None \<or> has_attachment cs"

function remove_attachments :: "string \<Rightarrow> string" where
  "remove_attachments s =
     (if s = [] then []
      else case match_attachment s of Some r \<Rightarrow> remove_attachments r | None \<Rightarrow> hd s # remove_attachments (tl s))"
  by pat_completeness auto
termination
  by (relation "measure length") (auto dest: match_attachment_shorter)

declare remove_attachments.simps [simp del]

fun split_lines :: "string \<Rightarrow> string \<Rightarrow> string list" where
  "split_lines acc [] = [rev acc]"
| "split_lines acc (c # cs) = (if c = CHR 0x0A then rev acc # split_lines [] cs else split_lines (c # acc) cs)"

definition trim_line :: "string \<Rightarrow> string" where
  "trim_line l = rev (dropWhile (\<lambda>c. c \<in> {CHR '' '', CHR 0x09, CHR 0x0D}) (rev l))"

text \<open>At most one blank line in a row; the argument counts the blank ones so far.\<close>

fun collapse_lines :: "nat \<Rightarrow> string list \<Rightarrow> string list" where
  "collapse_lines blank [] = []"
| "collapse_lines blank (l # ls) =
     (let l = trim_line l in
      if l = [] then (if blank + 1 > 1 then collapse_lines (blank + 1) ls else l # collapse_lines (blank + 1) ls)
      else l # collapse_lines 0 ls)"

definition collapseAssistantVisibleLines :: "string \<Rightarrow> string" where
  "collapseAssistantVisibleLines s = trim_space (join [CHR 0x0A] (collapse_lines 0 (split_lines [] s)))"

definition ProjectAssistantVisibleText :: "string \<Rightarrow> string" where
  "ProjectAssistantVisibleText s =
     (case stripLeakedAssistantArtifacts s of (cleaned, artifactsRemoved) \<Rightarrow>
        if has_attachment cleaned then collapseAssistantVisibleLines (remove_attachments cleaned)
        else if artifactsRemoved then trim_space cleaned
        else s)"

section \<open>Projection\<close>

record MessageProjection =
  mp_VisibleText :: "string option"
  mp_Status :: string
  mp_Reason :: string
  mp_ProjectorVersion :: string

definition projectedText :: "string \<Rightarrow> string \<Rightarrow> MessageProjection" where
  "projectedText s version = \<lparr>mp_VisibleText = Some s, mp_Status = ''projected'', mp_Reason = [], mp_ProjectorVersion = version\<rparr>"

definition nonDialogueProjection :: "string \<Rightarrow> string \<Rightarrow> MessageProjection" where
  "nonDialogueProjection reason version =
     \<lparr>mp_VisibleText = None, mp_Status = ''non_dialogue'', mp_Reason = reason, mp_ProjectorVersion = version\<rparr>"

definition unprojectableLegacy :: "string \<Rightarrow> MessageProjection" where
  "unprojectableLegacy reason =
     \<lparr>mp_VisibleText = None, mp_Status = ''unprojectable_legacy'', mp_Reason = reason, mp_ProjectorVersion = ''legacy-v1''\<rparr>"

definition provider_markers :: "string list" where
  "provider_markers = [''[reply to:'', ''[reply-attached:'', ''[ref:'', ''[pdf:'', ''[xlsx:'', ''[docx:'', ''[file:'', ''[video:'', ''[attached:'']"

definition containsProviderExpansion :: "(string \<Rightarrow> string) \<Rightarrow> string \<Rightarrow> bool" where
  "containsProviderExpansion lower s \<longleftrightarrow> list_ex (contains_sub (lower s)) provider_markers"

text \<open>A result is a transcript at once; otherwise calls without any text or image are.\<close>

definition isToolTranscript :: "ContentBlock list \<Rightarrow> bool" where
  "isToolTranscript bs \<longleftrightarrow> list_ex (\<lambda>b. cb_Type b = ''tool_result'') bs \<or>
     list_ex (\<lambda>b. cb_Type b = ''tool_use'') bs \<and> \<not> list_ex (\<lambda>b. cb_Type b = ''text'') bs \<and> \<not> list_ex (\<lambda>b. cb_Type b = ''image'') bs"

fun text_parts :: "bool \<Rightarrow> ContentBlock list \<Rightarrow> string list option" where
  "text_parts allow [] = Some []"
| "text_parts allow (b # bs) =
     (if cb_Type b = ''text'' then map_option (Cons (cb_Text b)) (text_parts allow bs)
      else if cb_Type b = ''image'' \<or> cb_Type b = ''tool_use'' \<and> allow then text_parts allow bs
      else None)"

definition textOnlyProjection :: "ContentBlock list \<Rightarrow> bool \<Rightarrow> string option" where
  "textOnlyProjection bs allowToolUse = map_option (join [CHR 0x0A, CHR 0x0A]) (text_parts allowToolUse bs)"

definition projectLegacyBlocks :: "(string \<Rightarrow> string) \<Rightarrow> ContentBlock list \<Rightarrow> MessageProjection" where
  "projectLegacyBlocks lower bs =
     (if bs = [] then unprojectableLegacy ''empty_content''
      else if isToolTranscript bs then nonDialogueProjection ''tool_transcript'' ''legacy-v1''
      else case textOnlyProjection bs False of
          None \<Rightarrow> unprojectableLegacy ''mixed_or_unknown_content''
        | Some s \<Rightarrow> if containsProviderExpansion lower s then unprojectableLegacy ''provider_expanded_text''
            else projectedText s ''legacy-v1'')"

text \<open>The payload is given by its decoded value; \<open>null\<close> counts as a list without blocks.\<close>

definition ProjectLegacyMessage :: "(string \<Rightarrow> string) \<Rightarrow> string \<Rightarrow> stored_content \<Rightarrow> MessageProjection" where
  "ProjectLegacyMessage lower role payload =
     (if trim_space role \<noteq> ''user'' \<and> trim_space role \<noteq> ''assistant'' then nonDialogueProjection ''role_not_dialogue'' ''legacy-v1''
      else case payload of
          SString s \<Rightarrow> if containsProviderExpansion lower s then unprojectableLegacy ''provider_expanded_text''
            else projectedText s ''legacy-v1''
        | SBlocks bs \<Rightarrow> projectLegacyBlocks lower bs
        | SOther _ \<Rightarrow> unprojectableLegacy ''malformed_content'')"

text \<open>Raw JSON inside a block must be valid for the blocks to be written.\<close>

definition blocks_marshal :: "ContentBlock list \<Rightarrow> bool" where
  "blocks_marshal bs \<longleftrightarrow> list_all (\<lambda>b. cb_Input b = [] \<or> json_valid (cb_Input b)) bs"

definition ProjectMessageForWrite ::
    "(string \<Rightarrow> string) \<Rightarrow> string \<Rightarrow> string option \<Rightarrow> ContentBlock list \<Rightarrow> MessageProjection" where
  "ProjectMessageForWrite lower role visible bs =
     (if role \<noteq> ''user'' \<and> role \<noteq> ''assistant'' then nonDialogueProjection ''role_not_dialogue'' ''canonical-v1''
      else if isToolTranscript bs then nonDialogueProjection ''tool_transcript'' ''canonical-v1''
      else case visible of
          Some s \<Rightarrow> projectedText (if role = ''assistant'' then ProjectAssistantVisibleText s else s) ''canonical-v1''
        | None \<Rightarrow>
            (case (if role = ''assistant'' then textOnlyProjection bs True else None) of
               Some s \<Rightarrow> projectedText (ProjectAssistantVisibleText s) ''canonical-v1''
             | None \<Rightarrow> if \<not> blocks_marshal bs then unprojectableLegacy ''marshal_content''
                 else ProjectLegacyMessage lower role (SBlocks bs)))"

section \<open>What is visible\<close>

lemmas projection_simps = projectedText_def nonDialogueProjection_def unprojectableLegacy_def

text \<open>
  Visible text is stored exactly for projected rows, and never for tool traffic: not for a row with a
  tool result, nor for one without a dialogue role.
\<close>

lemma ProjectMessageForWrite_visible:
  "mp_VisibleText (ProjectMessageForWrite lower role visible bs) \<noteq> None \<longleftrightarrow>
     mp_Status (ProjectMessageForWrite lower role visible bs) = ''projected''"
  by (simp add: ProjectMessageForWrite_def ProjectLegacyMessage_def projectLegacyBlocks_def projection_simps
      split: option.split)

lemma ProjectMessageForWrite_hides_tools:
  assumes "role \<notin> {''user'', ''assistant''} \<or> (\<exists>b \<in> set bs. cb_Type b = ''tool_result'')"
  shows "mp_VisibleText (ProjectMessageForWrite lower role visible bs) = None"
  using assms by (auto simp: ProjectMessageForWrite_def projection_simps isToolTranscript_def list_ex_iff)

lemma no_index: "index_of s p = None \<Longrightarrow> p \<noteq> [] \<Longrightarrow> remove_all p s = s"
proof (induction s)
  case (Cons c s)
  then show ?case by (subst remove_all.simps) (auto split: if_splits)
qed (simp add: remove_all.simps)

lemma has_prefix_appendD: "has_prefix s (p @ q) \<Longrightarrow> has_prefix s p"
  unfolding has_prefix_def by (metis append_eq_conv_conj append_take_drop_id append.assoc)

text \<open>Text without any of the markers is shown byte for byte.\<close>

lemma ProjectAssistantVisibleText_clean:
  assumes none: "\<forall>p \<in> set ([''call:'', ''<tool_call''] @ html_tags @ channel_tokens). index_of s p = None"
    and "\<not> has_prefix s ''thought''" "\<not> has_attachment s"
  shows "ProjectAssistantVisibleText s = s"
proof -
  have keep: "fold remove_all ps s = s" if "\<forall>p \<in> set ps. p \<noteq> [] \<and> index_of s p = None" for ps
    using that by (induction ps) (simp_all add: no_index)
  have "fold remove_all html_tags s = s" "fold remove_all channel_tokens s = s"
    by (rule keep; use none in \<open>simp add: html_tags_def channel_tokens_def\<close>)+
  moreover have "strip_calls s = s" "strip_tool_tags s = s"
    using none by (simp_all add: strip_calls.simps [of s] strip_tool_tags.simps [of s])
  moreover have "\<not> has_prefix s (''thought'' @ [CHR 0x0A])" using assms(2) has_prefix_appendD by blast
  ultimately have "stripLeakedAssistantArtifacts s = (s, False)"
    using assms(2) by (simp add: stripLeakedAssistantArtifacts_def Let_def trim_prefix_def)
  then show ?thesis using assms(3) by (simp add: ProjectAssistantVisibleText_def)
qed

end
