(* ===== verification/Session_Store.thy ===== *)
theory Session_Store
  imports Message_Projection Task_Model "HOL-Library.Product_Lexorder"
begin

text \<open>
  The chat-session store of \<open>runtime/session\<close>: sessions, messages and soft summaries, and every operation
  that writes them. A session carries counters of its messages and tokens; the invariant is that they
  agree with the rows.
\<close>

section \<open>Tables\<close>

record Session =
  cs_ID :: uuid
  cs_SoulID :: uuid
  cs_UserID :: uuid
  cs_Model :: string
  cs_TokenCount :: int
  cs_MessageCount :: int
  cs_CompactSummary :: "string option"
  cs_PreviousID :: "uuid option"
  cs_Active :: bool
  cs_Source :: string
  cs_SourceID :: "uuid option"
  cs_LastInputTokens :: "int option"
  cs_CreatedAt :: gotime
  cs_UpdatedAt :: gotime

record SoftSummary =
  ss_SessionID :: uuid
  ss_UserID :: uuid
  ss_SoulID :: uuid
  ss_Source :: string
  ss_ToMessageID :: "uuid option"
  ss_MessageCount :: int
  ss_TokenCount :: int
  ss_Summary :: string
  ss_CreatedAt :: gotime

record chat =
  chat_sessions :: "Session list"
  chat_messages :: "StoredMessage list"
  chat_session_summaries :: "SoftSummary list"

text \<open>A failed statement, and the errors the store raises itself.\<close>

datatype chat_error =
    InvalidUUID
  | ForeignKeyViolation
  | UniqueViolation
  | CheckViolation
  | IntegerOutOfRange
  | NoRow
  | SessionNotFound
  | MarshalError
  | ArgumentsRequired

type_synonym 'a chat_tx = "chat_error + ('a \<times> chat)"

definition int4 :: "int \<Rightarrow> bool" where
  "int4 n \<longleftrightarrow> - 2147483648 \<le> n \<and> n \<le> 2147483647"

definition session_ids :: "chat \<Rightarrow> uuid list" where "session_ids c = map cs_ID (chat_sessions c)"

definition find_session :: "uuid \<Rightarrow> chat \<Rightarrow> Session option" where
  "find_session i c = List.find (\<lambda>s. cs_ID s = i) (chat_sessions c)"

definition messages_of :: "uuid \<Rightarrow> chat \<Rightarrow> StoredMessage list" where
  "messages_of i c = filter (\<lambda>m. cm_SessionID m = i) (chat_messages c)"

text \<open>\<open>ORDER BY ... DESC\<close>. Rows with equal keys come in reverse order of insertion; PostgreSQL leaves it open.\<close>

definition newest :: "('a \<Rightarrow> 'k::linorder) \<Rightarrow> 'a list \<Rightarrow> 'a list" where
  "newest key rows = rev (sort_key key rows)"

definition first_of :: "'a list \<Rightarrow> 'a option" where
  "first_of xs = (case xs of [] \<Rightarrow> None | x # _ \<Rightarrow> Some x)"

section \<open>Sessions\<close>

definition new_session :: "uuid \<Rightarrow> gotime \<Rightarrow> uuid \<Rightarrow> uuid \<Rightarrow> string \<Rightarrow> string \<Rightarrow> Session" where
  "new_session i now soul user model source = \<lparr>cs_ID = i, cs_SoulID = soul, cs_UserID = user, cs_Model = model,
     cs_TokenCount = 0, cs_MessageCount = 0, cs_CompactSummary = None, cs_PreviousID = None, cs_Active = True,
     cs_Source = source, cs_SourceID = None, cs_LastInputTokens = None, cs_CreatedAt = now, cs_UpdatedAt = now\<rparr>"

definition insert_session :: "Session \<Rightarrow> chat \<Rightarrow> Session chat_tx" where
  "insert_session s c =
     (if cs_ID s \<in> set (session_ids c) then Inl UniqueViolation
      else if (case cs_PreviousID s of None \<Rightarrow> False | Some p \<Rightarrow> p \<notin> set (session_ids c)) then Inl ForeignKeyViolation
      else Inr (s, c\<lparr>chat_sessions := chat_sessions c @ [s]\<rparr>))"

definition archive_rows :: "gotime \<Rightarrow> (Session \<Rightarrow> bool) \<Rightarrow> chat \<Rightarrow> chat" where
  "archive_rows now p c = c\<lparr>chat_sessions := update_where p (\<lambda>s. s\<lparr>cs_Active := False, cs_UpdatedAt := now\<rparr>) (chat_sessions c)\<rparr>"

text \<open>
  \<open>pg_uuid\<close> is PostgreSQL's conversion of text to \<open>uuid\<close>. The two statements are not one transaction: the
  previous session stays archived when the insert fails.
\<close>

definition CreateWithPrevious ::
    "(string \<Rightarrow> uuid option) \<Rightarrow> gotime \<Rightarrow> uuid \<Rightarrow> uuid \<Rightarrow> string \<Rightarrow> string \<Rightarrow> string \<Rightarrow> chat \<Rightarrow> (chat_error + Session) \<times> chat" where
  "CreateWithPrevious pg_uuid now new soul userID model previousID c =
     (let c = (if previousID = [] then c else case pg_uuid previousID of
          None \<Rightarrow> c | Some p \<Rightarrow> archive_rows now (\<lambda>s. cs_ID s = p) c)
      in case (pg_uuid userID, if previousID = [] then Some None else map_option Some (pg_uuid previousID)) of
           (Some user, Some previous) \<Rightarrow>
             (case insert_session ((new_session new now soul user model ''chat'')\<lparr>cs_PreviousID := previous\<rparr>) c of
                Inl e \<Rightarrow> (Inl e, c) | Inr (s, c') \<Rightarrow> (Inr s, c'))
         | _ \<Rightarrow> (Inl InvalidUUID, c))"

definition CreateSession ::
    "(string \<Rightarrow> uuid option) \<Rightarrow> gotime \<Rightarrow> uuid \<Rightarrow> uuid \<Rightarrow> string \<Rightarrow> string \<Rightarrow> chat \<Rightarrow> (chat_error + Session) \<times> chat" where
  "CreateSession pg_uuid now new soul userID model c = CreateWithPrevious pg_uuid now new soul userID model [] c"

definition CreateSessionWithSource ::
    "(string \<Rightarrow> uuid option) \<Rightarrow> gotime \<Rightarrow> uuid \<Rightarrow> uuid \<Rightarrow> string \<Rightarrow> string \<Rightarrow> string \<Rightarrow> string \<Rightarrow> chat \<Rightarrow> uuid chat_tx" where
  "CreateSessionWithSource pg_uuid now new soul userID model source sourceID c =
     (case (pg_uuid userID, if sourceID = [] then Some None else map_option Some (pg_uuid sourceID)) of
        (Some user, Some src) \<Rightarrow>
          (case insert_session ((new_session new now soul user model source)\<lparr>cs_SourceID := src\<rparr>) c of
             Inl e \<Rightarrow> Inl e | Inr (s, c') \<Rightarrow> Inr (cs_ID s, c'))
      | _ \<Rightarrow> Inl InvalidUUID)"

definition active_session :: "uuid \<Rightarrow> uuid \<Rightarrow> string \<Rightarrow> chat \<Rightarrow> Session option" where
  "active_session soul user source c = first_of (newest cs_UpdatedAt
     (filter (\<lambda>s. cs_UserID s = user \<and> cs_SoulID s = soul \<and> cs_Active s \<and> cs_Source s = source) (chat_sessions c)))"

definition GetOrCreate ::
    "(string \<Rightarrow> uuid option) \<Rightarrow> gotime \<Rightarrow> uuid \<Rightarrow> uuid \<Rightarrow> string \<Rightarrow> string \<Rightarrow> chat \<Rightarrow> (chat_error + Session) \<times> chat" where
  "GetOrCreate pg_uuid now new soul userID model c =
     (case Option.bind (pg_uuid userID) (\<lambda>user. active_session soul user ''chat'' c) of
        Some s \<Rightarrow> (Inr s, c)
      | None \<Rightarrow> CreateSession pg_uuid now new soul userID model c)"

definition GetOrCreateNotebook ::
    "(string \<Rightarrow> uuid option) \<Rightarrow> gotime \<Rightarrow> uuid \<Rightarrow> uuid \<Rightarrow> string \<Rightarrow> string \<Rightarrow> chat \<Rightarrow> Session chat_tx" where
  "GetOrCreateNotebook pg_uuid now new soul userID model c =
     (case pg_uuid userID of
        None \<Rightarrow> Inl InvalidUUID
      | Some user \<Rightarrow>
          (case active_session soul user ''notebook'' c of
             Some s \<Rightarrow> Inr (s, c)
           | None \<Rightarrow> insert_session (new_session new now soul user model ''notebook'') c))"

text \<open>Deleting messages clears the references of summaries to them.\<close>

definition delete_messages :: "(StoredMessage \<Rightarrow> bool) \<Rightarrow> chat \<Rightarrow> chat" where
  "delete_messages p c = c\<lparr>chat_messages := filter (\<lambda>m. \<not> p m) (chat_messages c),
     chat_session_summaries := update_where
       (\<lambda>s. case ss_ToMessageID s of None \<Rightarrow> False | Some i \<Rightarrow> i \<in> cm_ID ` set (filter p (chat_messages c)))
       (\<lambda>s. s\<lparr>ss_ToMessageID := None\<rparr>) (chat_session_summaries c)\<rparr>"

definition ClearSessionMessages :: "(string \<Rightarrow> uuid option) \<Rightarrow> string \<Rightarrow> chat \<Rightarrow> unit chat_tx" where
  "ClearSessionMessages pg_uuid sessionID c =
     (case pg_uuid sessionID of None \<Rightarrow> Inl InvalidUUID
      | Some i \<Rightarrow> Inr ((), delete_messages (\<lambda>m. cm_SessionID m = i) c))"

definition IsActive :: "(string \<Rightarrow> uuid option) \<Rightarrow> string \<Rightarrow> chat \<Rightarrow> chat_error + bool" where
  "IsActive pg_uuid sessionID c =
     (case pg_uuid sessionID of None \<Rightarrow> Inl InvalidUUID
      | Some i \<Rightarrow> (case find_session i c of None \<Rightarrow> Inl NoRow | Some s \<Rightarrow> Inr (cs_Active s)))"

definition Archive :: "(string \<Rightarrow> uuid option) \<Rightarrow> gotime \<Rightarrow> string \<Rightarrow> chat \<Rightarrow> unit chat_tx" where
  "Archive pg_uuid now sessionID c =
     (case pg_uuid sessionID of None \<Rightarrow> Inl InvalidUUID
      | Some i \<Rightarrow> if rows_affected (\<lambda>s. cs_ID s = i) (chat_sessions c) = 0 then Inl SessionNotFound
          else Inr ((), archive_rows now (\<lambda>s. cs_ID s = i) c))"

definition RecordLastInputTokens :: "(string \<Rightarrow> uuid option) \<Rightarrow> gotime \<Rightarrow> string \<Rightarrow> int \<Rightarrow> chat \<Rightarrow> unit chat_tx" where
  "RecordLastInputTokens pg_uuid now sessionID inputTokens c =
     (if sessionID = [] \<or> inputTokens \<le> 0 then Inr ((), c)
      else case pg_uuid sessionID of None \<Rightarrow> Inl InvalidUUID
        | Some i \<Rightarrow> if \<not> int4 inputTokens then Inl IntegerOutOfRange
            else Inr ((), c\<lparr>chat_sessions := update_where (\<lambda>s. cs_ID s = i)
              (\<lambda>s. s\<lparr>cs_LastInputTokens := Some inputTokens, cs_UpdatedAt := now\<rparr>) (chat_sessions c)\<rparr>))"

text \<open>Sessions of finished one-shot graph tasks are archived; \<open>locked\<close> are the rows other transactions hold.\<close>

definition finished_session :: "AgentTask list \<Rightarrow> Session \<Rightarrow> bool" where
  "finished_session tasks s \<longleftrightarrow> cs_Active s \<and> cs_Source s = ''agent_task'' \<and>
     list_ex (\<lambda>t. cs_SourceID s = Some (t_ID t) \<and> t_UserID t = cs_UserID s \<and> t_SoulID t = cs_SoulID s \<and>
       t_ExecutorVersion t = 2 \<and> t_Schedule t = None \<and> t_Cadence t = None \<and> t_Strategy t \<noteq> ''recurring'' \<and>
       t_Status t \<in> {''done'', ''failed'', ''canceled''}) tasks"

definition ArchiveTerminalTaskSessions ::
    "(uuid \<Rightarrow> bool) \<Rightarrow> gotime \<Rightarrow> AgentTask list \<Rightarrow> int \<Rightarrow> chat \<Rightarrow> nat \<times> chat" where
  "ArchiveTerminalTaskSessions locked now tasks limit c =
     (let ids = map cs_ID (take (nat (max 1 (min 100 limit))) (sort_key (\<lambda>s. (cs_UpdatedAt s, cs_ID s))
          (filter (\<lambda>s. finished_session tasks s \<and> \<not> locked (cs_ID s)) (chat_sessions c))))
      in (length ids, archive_rows now (\<lambda>s. cs_ID s \<in> set ids) c))"

section \<open>Messages\<close>

text \<open>The CHECK constraint on the projection columns.\<close>

definition shape_check :: "StoredMessage \<Rightarrow> bool" where
  "shape_check m \<longleftrightarrow> cm_ProjectionStatus m \<in> {''projected'', ''non_dialogue'', ''unprojectable_legacy''} \<and>
     (if cm_ProjectionStatus m = ''projected'' then cm_VisibleText m \<noteq> None
      else cm_VisibleText m = None \<and> (case cm_ProjectionReason m of None \<Rightarrow> False | Some r \<Rightarrow> btrim r \<noteq> []))"

text \<open>An insert, and one with \<open>ON CONFLICT (id) DO NOTHING\<close> and the number of rows it added.\<close>

definition insert_message :: "StoredMessage \<Rightarrow> chat \<Rightarrow> chat_error + chat" where
  "insert_message m c =
     (if \<not> int4 (cm_TokenEstimate m) then Inl IntegerOutOfRange
      else if \<not> shape_check m then Inl CheckViolation
      else if cm_ID m \<in> cm_ID ` set (chat_messages c) then Inl UniqueViolation
      else if cm_SessionID m \<notin> set (session_ids c) then Inl ForeignKeyViolation
      else Inr (c\<lparr>chat_messages := chat_messages c @ [m]\<rparr>))"

definition insert_or_skip :: "StoredMessage \<Rightarrow> chat \<Rightarrow> chat_error + (int \<times> chat)" where
  "insert_or_skip m c =
     (case insert_message m c of
        Inr c' \<Rightarrow> Inr (1, c')
      | Inl UniqueViolation \<Rightarrow> Inr (0, c)
      | Inl e \<Rightarrow> Inl e)"

definition bump_session :: "uuid \<Rightarrow> int \<Rightarrow> int \<Rightarrow> gotime \<Rightarrow> chat \<Rightarrow> chat_error + chat" where
  "bump_session i tokens n now c =
     (if list_ex (\<lambda>s. cs_ID s = i \<and> \<not> (int4 (cs_TokenCount s + tokens) \<and> int4 (cs_MessageCount s + n))) (chat_sessions c)
      then Inl IntegerOutOfRange
      else Inr (c\<lparr>chat_sessions := update_where (\<lambda>s. cs_ID s = i) (\<lambda>s. s\<lparr>cs_TokenCount := cs_TokenCount s + tokens,
        cs_MessageCount := cs_MessageCount s + n, cs_UpdatedAt := now\<rparr>) (chat_sessions c)\<rparr>))"

definition reason_column :: "MessageProjection \<Rightarrow> string option" where
  "reason_column p = (if mp_Reason p = [] then None else Some (mp_Reason p))"

definition message_row ::
    "uuid \<Rightarrow> uuid \<Rightarrow> uuid \<Rightarrow> string \<Rightarrow> ContentBlock list \<Rightarrow> MessageProjection \<Rightarrow> int \<Rightarrow> gotime \<Rightarrow> StoredMessage" where
  "message_row i soul session role bs p tokens created = \<lparr>cm_ID = i, cm_SoulID = soul, cm_SessionID = session,
     cm_Role = role, cm_Content = SBlocks bs, cm_VisibleText = mp_VisibleText p, cm_ProjectionStatus = mp_Status p,
     cm_ProjectionReason = reason_column p, cm_ProjectorVersion = mp_ProjectorVersion p, cm_ToolUseID = None,
     cm_ReplyToMessageID = None, cm_TGMessageID = None, cm_TGMessageIDs = None, cm_TokenEstimate = tokens,
     cm_CreatedAt = created\<rparr>"

definition telegramMessageIDColumns :: "int list \<Rightarrow> int option \<times> int list option" where
  "telegramMessageIDColumns ids =
     (let filtered = rev (remdups (rev (filter (\<lambda>i. i \<noteq> 0) ids)))
      in if filtered = [] then (None, None) else (Some (hd filtered), Some filtered))"

record ChatMessage = Message +
  m_VisibleText :: "string option"
  m_ReplyToMessageID :: string
  m_TGMessageIDs :: "int list"

definition tool_use_column :: "string \<Rightarrow> ContentBlock list \<Rightarrow> string option" where
  "tool_use_column role bs =
     (if role \<noteq> ''user'' then None
      else map_option cb_ToolUseID (List.find (\<lambda>b. cb_Type b = ''tool_result'' \<and> cb_ToolUseID b \<noteq> []) bs))"

definition appendInternal ::
    "(string \<Rightarrow> string) \<Rightarrow> (string \<Rightarrow> uuid option) \<Rightarrow> gotime \<Rightarrow> uuid \<Rightarrow> uuid \<Rightarrow> string \<Rightarrow> ChatMessage \<Rightarrow> ContentBlock list \<Rightarrow>
     string option \<Rightarrow> int \<Rightarrow> chat \<Rightarrow> StoredMessage chat_tx" where
  "appendInternal lower pg_uuid now new soul sessionID msg bs toolUseID tokens c =
     (if \<not> blocks_marshal bs then Inl MarshalError
      else
        let p = ProjectMessageForWrite lower (m_Role msg) (m_VisibleText msg) bs;
            reply = (if m_ReplyToMessageID msg = [] then Some None else map_option Some (pg_uuid (m_ReplyToMessageID msg)))
        in case (pg_uuid sessionID, reply) of
             (Some session, Some replyTo) \<Rightarrow>
               let row = (message_row new soul session (m_Role msg) bs p tokens now)\<lparr>
                     cm_ToolUseID := (if toolUseID = None then tool_use_column (m_Role msg) bs else toolUseID),
                     cm_ReplyToMessageID := replyTo,
                     cm_TGMessageID := fst (telegramMessageIDColumns (m_TGMessageIDs msg)),
                     cm_TGMessageIDs := snd (telegramMessageIDColumns (m_TGMessageIDs msg))\<rparr>
               in (case insert_message row c of Inl e \<Rightarrow> Inl e
                   | Inr c1 \<Rightarrow> (case bump_session session tokens 1 now c1 of Inl e \<Rightarrow> Inl e | Inr c2 \<Rightarrow> Inr (row, c2)))
           | _ \<Rightarrow> Inl InvalidUUID)"

definition AppendPersisted ::
    "(string \<Rightarrow> string) \<Rightarrow> (string \<Rightarrow> uuid option) \<Rightarrow> gotime \<Rightarrow> uuid \<Rightarrow> uuid \<Rightarrow> string \<Rightarrow> ChatMessage \<Rightarrow> chat \<Rightarrow> StoredMessage chat_tx" where
  "AppendPersisted lower pg_uuid now new soul sessionID msg c =
     (let bs = NormalizeContent (m_Content msg)
      in appendInternal lower pg_uuid now new soul sessionID msg bs None (EstimateTokens bs) c)"

definition AppendWithTokensPersisted ::
    "(string \<Rightarrow> string) \<Rightarrow> (string \<Rightarrow> uuid option) \<Rightarrow> gotime \<Rightarrow> uuid \<Rightarrow> uuid \<Rightarrow> string \<Rightarrow> ChatMessage \<Rightarrow> int \<Rightarrow> chat \<Rightarrow> StoredMessage chat_tx" where
  "AppendWithTokensPersisted lower pg_uuid now new soul sessionID msg tokens c =
     appendInternal lower pg_uuid now new soul sessionID msg (NormalizeContent (m_Content msg)) None tokens c"

section \<open>Turns the assistant starts\<close>

text \<open>
  The two rows of an autonomous turn with their ids derived from the delivery attempt (\<open>newSHA1\<close> is
  \<open>uuid.NewSHA1\<close>): an invisible boundary one microsecond before the assistant's message.
\<close>

definition AutonomousTurnMessageIDs :: "(uuid \<Rightarrow> string \<Rightarrow> uuid) \<Rightarrow> uuid \<Rightarrow> uuid \<times> uuid" where
  "AutonomousTurnMessageIDs newSHA1 attempt =
     (newSHA1 attempt ''autonomous-turn-boundary/v1'', newSHA1 attempt ''autonomous-turn-assistant/v1'')"

definition boundary_row :: "(string \<Rightarrow> string) \<Rightarrow> uuid \<Rightarrow> uuid \<Rightarrow> uuid \<Rightarrow> gotime \<Rightarrow> StoredMessage" where
  "boundary_row lower i soul session deliveredAt =
     message_row i soul session ''turn_boundary'' [] (ProjectMessageForWrite lower ''turn_boundary'' None []) 0 (deliveredAt - 1000)"

definition assistant_row :: "(string \<Rightarrow> string) \<Rightarrow> uuid \<Rightarrow> uuid \<Rightarrow> uuid \<Rightarrow> string \<Rightarrow> int option \<Rightarrow> gotime \<Rightarrow> StoredMessage" where
  "assistant_row lower i soul session txt tg deliveredAt =
     (let bs = [text_block (trim_space txt)]
      in (message_row i soul session ''assistant'' bs (ProjectMessageForWrite lower ''assistant'' (Some txt) bs)
            (EstimateTokens bs) deliveredAt)\<lparr>cm_TGMessageID := tg\<rparr>)"

text \<open>Both inserts and their counts: of boundary rows and of assistant rows.\<close>

definition insert_turn :: "StoredMessage \<Rightarrow> StoredMessage \<Rightarrow> chat \<Rightarrow> chat_error + (int \<times> int \<times> chat)" where
  "insert_turn b a c =
     (case insert_or_skip b c of
        Inl e \<Rightarrow> Inl e
      | Inr (n, c1) \<Rightarrow> (case insert_or_skip a c1 of Inl e \<Rightarrow> Inl e | Inr (m, c2) \<Rightarrow> Inr (n, m, c2)))"

definition AppendAutonomousAssistant ::
    "(string \<Rightarrow> string) \<Rightarrow> (string \<Rightarrow> uuid option) \<Rightarrow> (uuid \<Rightarrow> string \<Rightarrow> uuid) \<Rightarrow> gotime \<Rightarrow> uuid \<Rightarrow> uuid \<Rightarrow> string \<Rightarrow> string \<Rightarrow>
     int \<Rightarrow> gotime \<Rightarrow> chat \<Rightarrow> unit chat_tx" where
  "AppendAutonomousAssistant lower pg_uuid newSHA1 now soul attempt sessionID txt tgMessageID deliveredAt c =
     (if attempt = uuid_Nil \<or> sessionID = [] \<or> trim_space txt = [] then Inl ArgumentsRequired
      else case pg_uuid sessionID of
          None \<Rightarrow> Inl InvalidUUID
        | Some session \<Rightarrow>
            let txt = trim_space txt;
                deliveredAt = (if deliveredAt = time_zero then now else deliveredAt);
                (boundaryID, assistantID) = AutonomousTurnMessageIDs newSHA1 attempt;
                a = assistant_row lower assistantID soul session txt (if tgMessageID = 0 then None else Some tgMessageID) deliveredAt
            in (case insert_turn (boundary_row lower boundaryID soul session deliveredAt) a c of
                  Inl e \<Rightarrow> Inl e
                | Inr (n, m, c') \<Rightarrow>
                    (case bump_session session (cm_TokenEstimate a * m) (n + m) now c' of
                       Inl e \<Rightarrow> Inl e | Inr c'' \<Rightarrow> Inr ((), c''))))"

section \<open>Reply links\<close>

definition LookupByTGMessageID :: "(string \<Rightarrow> uuid option) \<Rightarrow> string \<Rightarrow> int \<Rightarrow> chat \<Rightarrow> chat_error + uuid option" where
  "LookupByTGMessageID pg_uuid sessionID tg c =
     (if tg = 0 then Inr None
      else case pg_uuid sessionID of None \<Rightarrow> Inl InvalidUUID
        | Some i \<Rightarrow> Inr (map_option cm_ID (first_of (newest cm_CreatedAt
            (filter (\<lambda>m. cm_TGMessageID m = Some tg \<or> (case cm_TGMessageIDs m of None \<Rightarrow> False | Some ids \<Rightarrow> tg \<in> set ids)) (messages_of i c))))))"

text \<open>\<open>SELECT DISTINCT\<close> gives the ids in no particular order; here they stay in the order of the array.\<close>

definition AttachTGMessageID :: "(string \<Rightarrow> uuid option) \<Rightarrow> string \<Rightarrow> string \<Rightarrow> int \<Rightarrow> chat \<Rightarrow> unit chat_tx" where
  "AttachTGMessageID pg_uuid sessionID messageID tg c =
     (if sessionID = [] \<or> messageID = [] \<or> tg = 0 then Inr ((), c)
      else case (pg_uuid sessionID, pg_uuid messageID) of
          (Some session, Some i) \<Rightarrow> Inr ((), c\<lparr>chat_messages := update_where (\<lambda>m. cm_SessionID m = session \<and> cm_ID m = i)
            (\<lambda>m. m\<lparr>cm_TGMessageID := (if cm_TGMessageID m = None then Some tg else cm_TGMessageID m),
                   cm_TGMessageIDs := Some (remdups ((case cm_TGMessageIDs m of None \<Rightarrow> [] | Some ids \<Rightarrow> ids) @ [tg]))\<rparr>)
            (chat_messages c)\<rparr>)
        | _ \<Rightarrow> Inl InvalidUUID)"

section \<open>Compaction and summaries\<close>

definition CompactSession :: "(string \<Rightarrow> uuid option) \<Rightarrow> gotime \<Rightarrow> string \<Rightarrow> string \<Rightarrow> nat \<Rightarrow> chat \<Rightarrow> unit chat_tx" where
  "CompactSession pg_uuid now sessionID summary keepCount c =
     (case pg_uuid sessionID of None \<Rightarrow> Inl InvalidUUID
      | Some i \<Rightarrow>
          (case find_session i c of
             None \<Rightarrow> Inl NoRow
           | Some s \<Rightarrow>
               if cs_Source s = ''chat'' then Inr ((), c)
               else
                 let kept = cm_ID ` set (take keepCount (newest cm_CreatedAt (messages_of i c)));
                     c1 = delete_messages (\<lambda>m. cm_SessionID m = i \<and> cm_ID m \<notin> kept) c;
                     tokens = sum_list (map cm_TokenEstimate (messages_of i c1));
                     n = int (length (messages_of i c1))
                 in if \<not> (int4 tokens \<and> int4 n) then Inl IntegerOutOfRange
                    else Inr ((), c1\<lparr>chat_sessions := update_where (\<lambda>s. cs_ID s = i) (\<lambda>s. s\<lparr>
                      cs_CompactSummary := Some (case cs_CompactSummary s of None \<Rightarrow> summary
                        | Some old \<Rightarrow> if old = [] then summary
                            else old @ [CHR 0x0A, CHR 0x0A] @ ''---'' @ [CHR 0x0A, CHR 0x0A] @ summary),
                      cs_TokenCount := tokens, cs_MessageCount := n, cs_UpdatedAt := now\<rparr>) (chat_sessions c1)\<rparr>)))"

definition AppendSoftSummary ::
    "(string \<Rightarrow> uuid option) \<Rightarrow> gotime \<Rightarrow> string \<Rightarrow> string \<Rightarrow> int \<Rightarrow> int \<Rightarrow> string \<Rightarrow> chat \<Rightarrow> unit chat_tx" where
  "AppendSoftSummary pg_uuid now sessionID toMessageID messageCount tokenCount summary c =
     (if summary = [] \<or> sessionID = [] \<or> toMessageID = [] then Inr ((), c)
      else case (pg_uuid sessionID, pg_uuid toMessageID) of
          (Some i, Some to_message) \<Rightarrow>
            if \<not> (int4 messageCount \<and> int4 tokenCount) then Inl IntegerOutOfRange
            else (case find_session i c of
               None \<Rightarrow> Inr ((), c)
             | Some s \<Rightarrow>
                 if to_message \<notin> cm_ID ` set (chat_messages c) then Inl ForeignKeyViolation
                 else Inr ((), c\<lparr>chat_session_summaries := chat_session_summaries c @
                   [\<lparr>ss_SessionID = i, ss_UserID = cs_UserID s, ss_SoulID = cs_SoulID s, ss_Source = cs_Source s,
                     ss_ToMessageID = Some to_message, ss_MessageCount = messageCount, ss_TokenCount = tokenCount,
                     ss_Summary = summary, ss_CreatedAt = now\<rparr>]\<rparr>))
        | _ \<Rightarrow> Inl InvalidUUID)"

definition summaries_of :: "uuid \<Rightarrow> chat \<Rightarrow> SoftSummary list" where
  "summaries_of i c = newest ss_CreatedAt (filter (\<lambda>s. ss_SessionID s = i) (chat_session_summaries c))"

definition LatestSoftSummaryText :: "(string \<Rightarrow> uuid option) \<Rightarrow> string \<Rightarrow> chat \<Rightarrow> chat_error + string" where
  "LatestSoftSummaryText pg_uuid sessionID c =
     (if sessionID = [] then Inr []
      else case pg_uuid sessionID of None \<Rightarrow> Inl InvalidUUID
        | Some i \<Rightarrow> Inr (case summaries_of i c of [] \<Rightarrow> [] | s # _ \<Rightarrow> ss_Summary s))"

text \<open>The join drops summaries whose message is gone.\<close>

definition summary_boundary :: "uuid \<Rightarrow> chat \<Rightarrow> gotime option" where
  "summary_boundary i c = first_of (List.map_filter (\<lambda>s. Option.bind (ss_ToMessageID s)
     (\<lambda>m. map_option cm_CreatedAt (List.find (\<lambda>x. cm_ID x = m) (chat_messages c)))) (summaries_of i c))"

record SoftSummaryStatus_result =
  st_Should :: bool
  st_TokenCount :: int
  st_NewTokens :: int
  st_LatestMsgID :: "uuid option"

definition SoftSummaryStatus ::
    "(string \<Rightarrow> uuid option) \<Rightarrow> string \<Rightarrow> int \<Rightarrow> int \<Rightarrow> chat \<Rightarrow> chat_error + SoftSummaryStatus_result" where
  "SoftSummaryStatus pg_uuid sessionID threshold minNewTokens c =
     (let quiet = (\<lambda>n. \<lparr>st_Should = False, st_TokenCount = n, st_NewTokens = 0, st_LatestMsgID = None\<rparr>) in
      if threshold \<le> 0 then Inr (quiet 0)
      else
        let minNewTokens = (if minNewTokens \<le> 0 then threshold else minNewTokens) in
        case pg_uuid sessionID of None \<Rightarrow> Inl InvalidUUID
        | Some i \<Rightarrow>
            (case find_session i c of
               None \<Rightarrow> Inl NoRow
             | Some s \<Rightarrow>
                 if cs_TokenCount s < threshold then Inr (quiet (cs_TokenCount s))
                 else (case newest cm_CreatedAt (messages_of i c) of
                     [] \<Rightarrow> Inr (quiet (cs_TokenCount s))
                   | latest # _ \<Rightarrow>
                       let n = sum_list (map cm_TokenEstimate (filter (\<lambda>m. case summary_boundary i c of
                             None \<Rightarrow> True | Some b \<Rightarrow> b < cm_CreatedAt m) (messages_of i c)))
                       in Inr \<lparr>st_Should = (minNewTokens \<le> n), st_TokenCount = cs_TokenCount s, st_NewTokens = n,
                               st_LatestMsgID = Some (cm_ID latest)\<rparr>)))"

section \<open>Reading a conversation\<close>

definition dialog_role :: "StoredMessage \<Rightarrow> bool" where
  "dialog_role m \<longleftrightarrow> cm_Role m = ''user'' \<or> cm_Role m = ''assistant''"

definition LatestUserMessageAnchor :: "(string \<Rightarrow> uuid option) \<Rightarrow> string \<Rightarrow> chat \<Rightarrow> chat_error + (uuid \<times> gotime) option" where
  "LatestUserMessageAnchor pg_uuid sessionID c =
     (case pg_uuid sessionID of None \<Rightarrow> Inl InvalidUUID
      | Some i \<Rightarrow> Inr (map_option (\<lambda>m. (cm_ID m, cm_CreatedAt m)) (first_of (newest (\<lambda>m. (cm_CreatedAt m, cm_ID m))
          (filter (\<lambda>m. cm_Role m = ''user'' \<and> cm_ToolUseID m = None) (messages_of i c))))))"

definition latest_dialog :: "uuid \<Rightarrow> chat \<Rightarrow> StoredMessage option" where
  "latest_dialog i c = first_of (newest (\<lambda>m. (cm_CreatedAt m, cm_ID m)) (filter dialog_role (messages_of i c)))"

definition LatestDialogMessageID :: "(string \<Rightarrow> uuid option) \<Rightarrow> string \<Rightarrow> chat \<Rightarrow> chat_error + uuid option" where
  "LatestDialogMessageID pg_uuid sessionID c =
     (case pg_uuid sessionID of None \<Rightarrow> Inl InvalidUUID | Some i \<Rightarrow> Inr (map_option cm_ID (latest_dialog i c)))"

definition LatestDialogRole :: "(string \<Rightarrow> uuid option) \<Rightarrow> string \<Rightarrow> chat \<Rightarrow> chat_error + string" where
  "LatestDialogRole pg_uuid sessionID c =
     (case pg_uuid sessionID of None \<Rightarrow> Inl InvalidUUID
      | Some i \<Rightarrow> Inr (case latest_dialog i c of None \<Rightarrow> [] | Some m \<Rightarrow> cm_Role m))"

definition LatestAssistantMessageID :: "(string \<Rightarrow> uuid option) \<Rightarrow> string \<Rightarrow> chat \<Rightarrow> chat_error + uuid option" where
  "LatestAssistantMessageID pg_uuid sessionID c =
     (case pg_uuid sessionID of None \<Rightarrow> Inl InvalidUUID
      | Some i \<Rightarrow> Inr (map_option cm_ID (first_of (newest cm_CreatedAt
          (filter (\<lambda>m. cm_Role m = ''assistant'') (messages_of i c))))))"

definition MessageForReply :: "(string \<Rightarrow> uuid option) \<Rightarrow> string \<Rightarrow> string \<Rightarrow> chat \<Rightarrow> chat_error + (string \<times> string)" where
  "MessageForReply pg_uuid sessionID messageID c =
     (if sessionID = [] \<or> messageID = [] then Inr ([], [])
      else case (pg_uuid sessionID, pg_uuid messageID) of
          (Some session, Some i) \<Rightarrow>
            (case List.find (\<lambda>m. cm_SessionID m = session \<and> cm_ID m = i) (chat_messages c) of
               None \<Rightarrow> Inr ([], [])
             | Some m \<Rightarrow>
                 (case cm_Content m of
                    SBlocks bs \<Rightarrow> Inr (cm_Role m, join [CHR 0x0A, CHR 0x0A]
                      (map cb_Text (filter (\<lambda>b. cb_Type b = ''text'' \<and> trim_space (cb_Text b) \<noteq> []) bs)))
                  | _ \<Rightarrow> Inl MarshalError))
        | _ \<Rightarrow> Inl InvalidUUID)"

definition MessagesForAPI :: "(string \<Rightarrow> uuid option) \<Rightarrow> string \<Rightarrow> int \<Rightarrow> chat \<Rightarrow> chat_error + Message list" where
  "MessagesForAPI pg_uuid sessionID maxTokens c =
     (case pg_uuid sessionID of None \<Rightarrow> Inl InvalidUUID
      | Some i \<Rightarrow> Inr (messagesForAPIFromRows (take 200 (newest cm_CreatedAt (filter dialog_role (messages_of i c)))) maxTokens))"

definition AllMessagesForAPI :: "(string \<Rightarrow> uuid option) \<Rightarrow> string \<Rightarrow> chat \<Rightarrow> chat_error + Message list" where
  "AllMessagesForAPI pg_uuid sessionID c =
     (case pg_uuid sessionID of None \<Rightarrow> Inl InvalidUUID
      | Some i \<Rightarrow> Inr (map ToAPIMessage (sort_key cm_CreatedAt (filter dialog_role (messages_of i c)))))"

definition DialogMessagesForAPI ::
    "(string \<Rightarrow> string) \<Rightarrow> (string \<Rightarrow> string) \<Rightarrow> (string \<Rightarrow> uuid option) \<Rightarrow> string \<Rightarrow> int \<Rightarrow> bool \<Rightarrow> chat \<Rightarrow> chat_error + Message list" where
  "DialogMessagesForAPI lower quote pg_uuid sessionID maxTokens anchorToSummary c =
     (case pg_uuid sessionID of None \<Rightarrow> Inl InvalidUUID
      | Some i \<Rightarrow>
          let anchored = dialogMessagesOnBlockAnchor lower quote (take 500 (newest cm_CreatedAt (messages_of i c))) maxTokens
          in Inr (case (if anchorToSummary then summary_boundary i c else None) of
               None \<Rightarrow> anchored
             | Some b \<Rightarrow>
                 (case dialogMessagesIfComplete lower quote
                     (take 500 (newest cm_CreatedAt (filter (\<lambda>m. b < cm_CreatedAt m) (messages_of i c)))) maxTokens of
                    Some out \<Rightarrow> out
                  | None \<Rightarrow> anchored)))"

end
