(* ===== verification/Session_Theorems.thy ===== *)
theory Session_Theorems
  imports Session_Store
begin

text \<open>
  The chat tables as a transition system, and its invariant: keys are unique, every message belongs to a
  session and satisfies the constraint on its projection, and the counters of every session whose messages
  are never cleared are the counts over its rows.
\<close>

section \<open>The transition system\<close>

record chat_external =
  cx_lower :: "string \<Rightarrow> string"
  cx_uuid :: "string \<Rightarrow> uuid option"
  cx_sha1 :: "uuid \<Rightarrow> string \<Rightarrow> uuid"

text \<open>Only the notebook session is ever cleared: the gateway resets it before each question.\<close>

inductive chat_op :: "chat_external \<Rightarrow> chat \<Rightarrow> chat \<Rightarrow> bool" for x :: chat_external where
  op_create: "CreateWithPrevious (cx_uuid x) now new soul user model previous c = (r, c') \<Longrightarrow> chat_op x c c'"
| op_create_source: "CreateSessionWithSource (cx_uuid x) now new soul user model source sourceID c = Inr (i, c') \<Longrightarrow> chat_op x c c'"
| op_get_or_create: "GetOrCreate (cx_uuid x) now new soul user model c = (r, c') \<Longrightarrow> chat_op x c c'"
| op_notebook: "GetOrCreateNotebook (cx_uuid x) now new soul user model c = Inr (s, c') \<Longrightarrow> chat_op x c c'"
| op_clear: "ClearSessionMessages (cx_uuid x) sid c = Inr (u, c') \<Longrightarrow> cx_uuid x sid = Some i \<Longrightarrow>
     find_session i c = Some s \<Longrightarrow> cs_Source s = ''notebook'' \<Longrightarrow> chat_op x c c'"
| op_archive: "Archive (cx_uuid x) now sid c = Inr (u, c') \<Longrightarrow> chat_op x c c'"
| op_input_tokens: "RecordLastInputTokens (cx_uuid x) now sid tokens c = Inr (u, c') \<Longrightarrow> chat_op x c c'"
| op_archive_tasks: "ArchiveTerminalTaskSessions locked now tasks limit c = (n, c') \<Longrightarrow> chat_op x c c'"
| op_append: "appendInternal (cx_lower x) (cx_uuid x) now new soul sid msg bs tool tokens c = Inr (row, c') \<Longrightarrow> chat_op x c c'"
| op_autonomous: "AppendAutonomousAssistant (cx_lower x) (cx_uuid x) (cx_sha1 x) now soul attempt sid txt tg delivered c = Inr (u, c') \<Longrightarrow>
     chat_op x c c'"
| op_attach: "AttachTGMessageID (cx_uuid x) sid mid tg c = Inr (u, c') \<Longrightarrow> chat_op x c c'"
| op_compact: "CompactSession (cx_uuid x) now sid summary keep c = Inr (u, c') \<Longrightarrow> chat_op x c c'"
| op_summary: "AppendSoftSummary (cx_uuid x) now sid mid n tokens summary c = Inr (u, c') \<Longrightarrow> chat_op x c c'"

definition empty_chat :: chat where
  "empty_chat = \<lparr>chat_sessions = [], chat_messages = [], chat_session_summaries = []\<rparr>"

section \<open>The invariant\<close>

definition counted :: "chat \<Rightarrow> Session \<Rightarrow> bool" where
  "counted c s \<longleftrightarrow> cs_TokenCount s = sum_list (map cm_TokenEstimate (messages_of (cs_ID s) c)) \<and>
     cs_MessageCount s = int (length (messages_of (cs_ID s) c))"

definition chat_ok :: "chat \<Rightarrow> bool" where
  "chat_ok c \<longleftrightarrow> distinct (session_ids c) \<and> distinct (map cm_ID (chat_messages c)) \<and>
     (\<forall>m \<in> set (chat_messages c). cm_SessionID m \<in> set (session_ids c) \<and> shape_check m) \<and>
     (\<forall>s \<in> set (chat_sessions c). cs_Source s \<noteq> ''notebook'' \<longrightarrow> counted c s)"

lemma chat_okD:
  assumes "chat_ok c"
  shows "distinct (session_ids c)" "distinct (map cm_ID (chat_messages c))"
    "m \<in> set (chat_messages c) \<Longrightarrow> cm_SessionID m \<in> set (session_ids c)" "m \<in> set (chat_messages c) \<Longrightarrow> shape_check m"
    "s \<in> set (chat_sessions c) \<Longrightarrow> cs_Source s \<noteq> ''notebook'' \<Longrightarrow> counted c s"
  using assms by (simp_all add: chat_ok_def)

lemma find_sessionD: "find_session i c = Some s \<Longrightarrow> s \<in> set (chat_sessions c) \<and> cs_ID s = i"
  by (auto simp: find_session_def find_Some_iff)

interpretation session_rows: keyed_rows cs_ID .

text \<open>Updates of session columns the invariant does not speak of.\<close>

lemma chat_ok_sessions:
  assumes ok: "chat_ok c" and f: "\<And>s. cs_ID (f s) = cs_ID s \<and> cs_Source (f s) = cs_Source s \<and>
      cs_TokenCount (f s) = cs_TokenCount s \<and> cs_MessageCount (f s) = cs_MessageCount s"
  shows "chat_ok (c\<lparr>chat_sessions := update_where p f (chat_sessions c)\<rparr>)"
proof -
  have "map cs_ID (update_where p f (chat_sessions c)) = map cs_ID (chat_sessions c)" by (simp add: map_update_where f)
  then show ?thesis
    using ok unfolding chat_ok_def session_ids_def by (auto simp: set_update_where counted_def messages_of_def f)
qed

lemma chat_ok_summaries: "chat_ok c \<Longrightarrow> chat_ok (c\<lparr>chat_session_summaries := ss\<rparr>)"
  by (simp add: chat_ok_def session_ids_def counted_def messages_of_def)

lemma chat_ok_archive: "chat_ok c \<Longrightarrow> chat_ok (archive_rows now p c)"
  unfolding archive_rows_def by (rule chat_ok_sessions) simp_all

lemma chat_ok_new_session:
  assumes "chat_ok c" "insert_session s c = Inr (s', c')" "cs_TokenCount s = 0" "cs_MessageCount s = 0"
  shows "chat_ok c'"
proof -
  have fresh: "cs_ID s \<notin> set (session_ids c)" and c': "c' = c\<lparr>chat_sessions := chat_sessions c @ [s]\<rparr>"
    using assms(2) by (auto simp: insert_session_def split: if_splits)
  have "messages_of (cs_ID s) c = []" using chat_okD(3) [OF assms(1)] fresh by (force simp: messages_of_def filter_empty_conv)
  then show ?thesis
    using assms(1,3,4) fresh unfolding chat_ok_def c' by (auto simp: session_ids_def counted_def messages_of_def)
qed

text \<open>New rows of one session, counted in it.\<close>

definition add_messages :: "uuid \<Rightarrow> StoredMessage list \<Rightarrow> gotime \<Rightarrow> chat \<Rightarrow> chat" where
  "add_messages i ms now c = c\<lparr>chat_messages := chat_messages c @ ms,
     chat_sessions := update_where (\<lambda>s. cs_ID s = i) (\<lambda>s. s\<lparr>cs_TokenCount := cs_TokenCount s + sum_list (map cm_TokenEstimate ms),
       cs_MessageCount := cs_MessageCount s + int (length ms), cs_UpdatedAt := now\<rparr>) (chat_sessions c)\<rparr>"

lemma chat_ok_add:
  assumes ok: "chat_ok c" and ms: "distinct (map cm_ID ms)"
    "\<And>m. m \<in> set ms \<Longrightarrow> cm_SessionID m = i \<and> i \<in> set (session_ids c) \<and> shape_check m \<and> cm_ID m \<notin> cm_ID ` set (chat_messages c)"
  shows "chat_ok (add_messages i ms now c)"
proof -
  have ids: "session_ids (add_messages i ms now c) = session_ids c"
    by (simp add: session_ids_def add_messages_def map_update_where)
  have rows: "messages_of j (add_messages i ms now c) = messages_of j c @ (if j = i then ms else [])" for j
    using ms(2) by (auto simp: messages_of_def add_messages_def filter_empty_conv intro: filter_True)
  have "counted (add_messages i ms now c) s'" if s': "s' \<in> set (chat_sessions (add_messages i ms now c))" "cs_Source s' \<noteq> ''notebook''" for s'
  proof -
    let ?f = "\<lambda>s. s\<lparr>cs_TokenCount := cs_TokenCount s + sum_list (map cm_TokenEstimate ms), cs_MessageCount := cs_MessageCount s + int (length ms), cs_UpdatedAt := now\<rparr>"
    have "s' \<in> set (update_where (\<lambda>s. cs_ID s = i) ?f (chat_sessions c))" using s'(1) by (simp add: add_messages_def)
    then obtain s where s: "s \<in> set (chat_sessions c)" "s' = (if cs_ID s = i then ?f s else s)"
      unfolding set_update_where by auto
    then have "counted c s" using chat_okD(5) [OF ok s(1)] s'(2) by (auto split: if_splits)
    then show ?thesis using s(2) by (auto simp: counted_def rows)
  qed
  moreover have "distinct (map cm_ID (chat_messages (add_messages i ms now c)))"
  proof -
    have "cm_ID x \<notin> cm_ID ` set (chat_messages c)" if "x \<in> set ms" for x using ms(2) [OF that] by simp
    then have "cm_ID ` set (chat_messages c) \<inter> cm_ID ` set ms = {}" unfolding disjoint_iff by (metis imageE)
    then show ?thesis using chat_okD(2) [OF ok] ms(1) by (simp add: add_messages_def)
  qed
  moreover have "cm_SessionID m \<in> set (session_ids c) \<and> shape_check m" if "m \<in> set (chat_messages (add_messages i ms now c))" for m
    using that chat_okD(3,4) [OF ok, of m] ms(2) [of m] by (auto simp: add_messages_def)
  ultimately show ?thesis using chat_okD(1) [OF ok] unfolding chat_ok_def ids by blast
qed

lemma bump_session_Inr:
  assumes "bump_session i tokens n now (c\<lparr>chat_messages := chat_messages c @ ms\<rparr>) = Inr c'"
    "tokens = sum_list (map cm_TokenEstimate ms)" "n = int (length ms)"
  shows "c' = add_messages i ms now c"
  using assms by (auto simp: bump_session_def add_messages_def split: if_splits)

lemma insert_message_Inr:
  "insert_message m c = Inr c' \<Longrightarrow> c' = c\<lparr>chat_messages := chat_messages c @ [m]\<rparr> \<and> cm_ID m \<notin> cm_ID ` set (chat_messages c) \<and>
     cm_SessionID m \<in> set (session_ids c) \<and> shape_check m"
  by (auto simp: insert_message_def split: if_splits)

lemma insert_or_skip_Inr:
  assumes "insert_or_skip m c = Inr (n, c')"
  obtains "n = 0" "c' = c" "cm_ID m \<in> cm_ID ` set (chat_messages c)" | "n = 1" "insert_message m c = Inr c'"
proof (cases "insert_message m c")
  case (Inl e)
  then have "n = 0" "c' = c" "e = UniqueViolation" using assms by (auto simp: insert_or_skip_def split: chat_error.splits)
  then show ?thesis using that(1) Inl by (auto simp: insert_message_def split: if_splits)
next
  case (Inr c1) then show ?thesis using assms that(2) by (simp add: insert_or_skip_def)
qed

text \<open>What a turn adds: those of its two rows whose ids are not there yet.\<close>

lemma insert_turn_Inr:
  assumes "insert_turn b a c = Inr (n, m, c')"
  shows "\<exists>ms. c' = c\<lparr>chat_messages := chat_messages c @ ms\<rparr> \<and> n + m = int (length ms) \<and> set ms \<subseteq> {b, a} \<and>
    cm_TokenEstimate b * n + cm_TokenEstimate a * m = sum_list (map cm_TokenEstimate ms) \<and> distinct (map cm_ID ms) \<and>
    (\<forall>x \<in> set ms. cm_SessionID x \<in> set (session_ids c) \<and> shape_check x \<and> cm_ID x \<notin> cm_ID ` set (chat_messages c)) \<and>
    {cm_ID b, cm_ID a} \<subseteq> cm_ID ` set (chat_messages c) \<union> cm_ID ` set ms"
proof -
  obtain c1 where b: "insert_or_skip b c = Inr (n, c1)" and a: "insert_or_skip a c1 = Inr (m, c')"
    using assms(1) by (auto simp: insert_turn_def split: sum.splits)
  show ?thesis
  proof (rule insert_or_skip_Inr [OF b]; rule insert_or_skip_Inr [OF a])
    assume "n = 0" "c1 = c" "m = 0" "c' = c1" "cm_ID b \<in> cm_ID ` set (chat_messages c)" "cm_ID a \<in> cm_ID ` set (chat_messages c1)"
    then show ?thesis by (intro exI [of _ "[]"]) auto
  next
    assume "n = 0" "c1 = c" "cm_ID b \<in> cm_ID ` set (chat_messages c)" "m = 1" "insert_message a c1 = Inr c'"
    then show ?thesis by (intro exI [of _ "[a]"]) (auto dest!: insert_message_Inr)
  next
    assume "n = 1" "insert_message b c = Inr c1" "m = 0" "c' = c1" "cm_ID a \<in> cm_ID ` set (chat_messages c1)"
    then show ?thesis by (intro exI [of _ "[b]"]) (auto dest!: insert_message_Inr)
  next
    assume "n = 1" "insert_message b c = Inr c1" "m = 1" "insert_message a c1 = Inr c'"
    then show ?thesis by (intro exI [of _ "[b, a]"]) (auto dest!: insert_message_Inr simp: session_ids_def)
  qed
qed

lemma chat_ok_delete:
  assumes ok: "chat_ok c" and f: "\<And>s. cs_ID (f s) = cs_ID s \<and> cs_Source (f s) = cs_Source s"
    and other: "\<And>m. m \<in> set (chat_messages c) \<Longrightarrow> p m \<Longrightarrow> cm_SessionID m = i"
    and here: "\<And>s. s \<in> set (chat_sessions c) \<Longrightarrow> cs_ID s = i \<Longrightarrow> cs_Source s \<noteq> ''notebook'' \<Longrightarrow> counted (delete_messages p c) (f s)"
  shows "chat_ok ((delete_messages p c)\<lparr>chat_sessions := update_where (\<lambda>s. cs_ID s = i) f (chat_sessions c)\<rparr>)"
proof -
  let ?c' = "(delete_messages p c)\<lparr>chat_sessions := update_where (\<lambda>s. cs_ID s = i) f (chat_sessions c)\<rparr>"
  have ids: "session_ids ?c' = session_ids c" by (simp add: session_ids_def map_update_where f)
  have counted_same: "counted ?c' s = counted (delete_messages p c) s" for s by (simp add: counted_def messages_of_def)
  have rows: "messages_of j (delete_messages p c) = messages_of j c" if "j \<noteq> i" for j
    using that other by (auto simp: messages_of_def delete_messages_def intro: filter_cong)
  have "counted ?c' s'" if s': "s' \<in> set (chat_sessions ?c')" "cs_Source s' \<noteq> ''notebook''" for s'
  proof -
    have "s' \<in> set (update_where (\<lambda>s. cs_ID s = i) f (chat_sessions c))" using s'(1) by simp
    then obtain s where s: "s \<in> set (chat_sessions c)" "s' = (if cs_ID s = i then f s else s)" unfolding set_update_where by auto
    show ?thesis
    proof (cases "cs_ID s = i")
      case True then show ?thesis using here [OF s(1)] s s'(2) f by (simp add: counted_same)
    next
      case False
      then have "counted (delete_messages p c) s" using chat_okD(5) [OF ok s(1)] s s'(2) rows [OF False] by (simp add: counted_def)
      then show ?thesis using False s(2) by (simp add: counted_same)
    qed
  qed
  moreover have "distinct (map cm_ID (chat_messages ?c'))" using chat_okD(2) [OF ok] by (simp add: delete_messages_def distinct_map_filter)
  moreover have "cm_SessionID m \<in> set (session_ids c) \<and> shape_check m" if "m \<in> set (chat_messages ?c')" for m
    using that chat_okD(3,4) [OF ok, of m] by (simp add: delete_messages_def)
  ultimately show ?thesis using chat_okD(1) [OF ok] unfolding chat_ok_def ids by blast
qed

lemma chat_ok_clear:
  assumes ok: "chat_ok c" and s: "find_session i c = Some s" "cs_Source s = ''notebook''"
  shows "chat_ok (delete_messages (\<lambda>m. cm_SessionID m = i) c)"
proof -
  have "cs_Source s' = ''notebook''" if "s' \<in> set (chat_sessions c)" "cs_ID s' = i" for s'
    using session_rows.same_key_same_row [OF chat_okD(1) [OF ok, unfolded session_ids_def] that(1)] find_sessionD [OF s(1)] that(2) s(2) by metis
  then have "chat_ok ((delete_messages (\<lambda>m. cm_SessionID m = i) c)\<lparr>chat_sessions := update_where (\<lambda>s. cs_ID s = i) (\<lambda>s. s) (chat_sessions c)\<rparr>)"
    by (intro chat_ok_delete [OF ok]) simp_all
  then show ?thesis by (simp add: update_where_def delete_messages_def)
qed

lemma chat_ok_compact:
  assumes ok: "chat_ok c" and comp: "CompactSession pg now sid summary keep c = Inr (u, c')"
  shows "chat_ok c'"
proof -
  consider "c' = c" | i s f q where "find_session i c = Some s" "\<And>s. cs_ID (f s) = cs_ID s \<and> cs_Source (f s) = cs_Source s"
      "\<And>m. q m \<Longrightarrow> cm_SessionID m = i"
      "\<And>s. cs_TokenCount (f s) = sum_list (map cm_TokenEstimate (messages_of i (delete_messages q c))) \<and>
        cs_MessageCount (f s) = int (length (messages_of i (delete_messages q c)))"
      "c' = (delete_messages q c)\<lparr>chat_sessions := update_where (\<lambda>s. cs_ID s = i) f (chat_sessions c)\<rparr>"
  proof -
    obtain i where i: "pg sid = Some i" using comp by (auto simp: CompactSession_def split: option.splits)
    obtain s where s: "find_session i c = Some s" using comp i by (auto simp: CompactSession_def split: option.splits)
    let ?q = "\<lambda>m. cm_SessionID m = i \<and> cm_ID m \<notin> cm_ID ` set (take keep (newest cm_CreatedAt (messages_of i c)))"
    have same: "chat_sessions (delete_messages ?q c) = chat_sessions c" by (simp add: delete_messages_def)
    show thesis
    proof (cases "cs_Source s = ''chat''")
      case True then show ?thesis using comp i s that(1) by (simp add: CompactSession_def)
    next
      case False
      show ?thesis
        by (rule that(2) [OF s, where q = ?q and f = "\<lambda>s. s\<lparr>
            cs_CompactSummary := Some (case cs_CompactSummary s of None \<Rightarrow> summary
              | Some old \<Rightarrow> if old = [] then summary else old @ [CHR 0x0A, CHR 0x0A] @ ''---'' @ [CHR 0x0A, CHR 0x0A] @ summary),
            cs_TokenCount := sum_list (map cm_TokenEstimate (messages_of i (delete_messages ?q c))),
            cs_MessageCount := int (length (messages_of i (delete_messages ?q c))), cs_UpdatedAt := now\<rparr>"])
          (use comp i s False same in \<open>auto simp: CompactSession_def Let_def split: if_splits\<close>)
    qed
  qed
  then show ?thesis
  proof cases
    case (2 i s f q)
    show ?thesis unfolding 2(5) by (rule chat_ok_delete [OF ok]) (use 2 in \<open>auto simp: counted_def\<close>)
  qed (simp add: ok)
qed

lemma chat_ok_attach:
  assumes ok: "chat_ok c" and "AttachTGMessageID pg sid mid tg c = Inr (u, c')"
  shows "chat_ok c'"
proof -
  consider "c' = c" | p f where "c' = c\<lparr>chat_messages := update_where p f (chat_messages c)\<rparr>"
      "\<And>m. cm_ID (f m) = cm_ID m \<and> cm_SessionID (f m) = cm_SessionID m \<and> cm_TokenEstimate (f m) = cm_TokenEstimate m \<and> shape_check (f m) = shape_check m"
    using assms(2) by (auto simp: AttachTGMessageID_def shape_check_def split: if_splits option.splits)
  then show ?thesis
  proof cases
    case (2 p f)
    have tokens: "map cm_TokenEstimate (messages_of i c') = map cm_TokenEstimate (messages_of i c)" for i
      unfolding 2(1) messages_of_def using 2(2) by (induction "chat_messages c" arbitrary: c) (simp_all add: update_where_def filter_map comp_def)
    then have "counted c' s = counted c s" for s unfolding counted_def by (metis length_map)
    moreover have "map cm_ID (chat_messages c') = map cm_ID (chat_messages c)" using 2 by (simp add: map_update_where)
    ultimately show ?thesis using ok 2 unfolding chat_ok_def session_ids_def by (auto simp: set_update_where)
  qed (simp add: ok)
qed

lemma chat_ok_append:
  assumes ok: "chat_ok c" and app: "appendInternal lower pg now new soul sid msg bs tool tokens c = Inr (row, c')"
  shows "chat_ok c'"
proof -
  obtain i c1 where ins: "insert_message row c = Inr c1" and bump: "bump_session i tokens 1 now c1 = Inr c'"
    and row: "cm_SessionID row = i" "cm_TokenEstimate row = tokens"
    using app by (auto simp: appendInternal_def Let_def message_row_def split: if_splits option.splits sum.splits)
  note r = insert_message_Inr [OF ins]
  have "c' = add_messages i [row] now c" using bump r row by (intro bump_session_Inr [of i tokens 1]) simp_all
  then show ?thesis using chat_ok_add [OF ok, of "[row]" i now] r row by simp
qed

lemma turn_row_fields [simp]:
  "cm_SessionID (boundary_row lower b soul i t) = i" "cm_TokenEstimate (boundary_row lower b soul i t) = 0"
  "cm_ID (boundary_row lower b soul i t) = b" "cm_SessionID (assistant_row lower a soul i txt tg t) = i"
  "cm_ID (assistant_row lower a soul i txt tg t) = a"
  by (simp_all add: boundary_row_def assistant_row_def message_row_def Let_def)

lemma turn_added:
  assumes ok: "chat_ok c" and ins: "insert_turn (boundary_row lower b soul i t) (assistant_row lower a soul i txt tg t) c = Inr (n, m, c1)"
  shows "\<exists>ms. (\<forall>now c'. bump_session i (cm_TokenEstimate (assistant_row lower a soul i txt tg t) * m) (n + m) now c1 = Inr c' \<longrightarrow>
      c' = add_messages i ms now c \<and> chat_ok c') \<and>
    c1 = c\<lparr>chat_messages := chat_messages c @ ms\<rparr> \<and> n + m = int (length ms) \<and>
    set ms \<subseteq> {boundary_row lower b soul i t, assistant_row lower a soul i txt tg t} \<and>
    {b, a} \<subseteq> cm_ID ` set (chat_messages c) \<union> cm_ID ` set ms \<and> (\<forall>x \<in> set ms. cm_ID x \<notin> cm_ID ` set (chat_messages c))"
proof -
  from insert_turn_Inr [OF ins] obtain ms where c1: "c1 = c\<lparr>chat_messages := chat_messages c @ ms\<rparr>"
    and ms: "n + m = int (length ms)" "set ms \<subseteq> {boundary_row lower b soul i t, assistant_row lower a soul i txt tg t}"
      "cm_TokenEstimate (assistant_row lower a soul i txt tg t) * m = sum_list (map cm_TokenEstimate ms)" "distinct (map cm_ID ms)"
      "\<forall>x \<in> set ms. cm_SessionID x \<in> set (session_ids c) \<and> shape_check x \<and> cm_ID x \<notin> cm_ID ` set (chat_messages c)"
      "{b, a} \<subseteq> cm_ID ` set (chat_messages c) \<union> cm_ID ` set ms" by auto
  have in_i: "cm_SessionID x = i" if "x \<in> set ms" for x using that ms(2) by auto
  have fresh: "chat_ok (add_messages i ms now c)" for now
    by (rule chat_ok_add [OF ok ms(4)]) (use ms(5) in_i in auto)
  show ?thesis
  proof (intro exI [of _ ms] conjI allI impI)
    fix now c' assume "bump_session i (cm_TokenEstimate (assistant_row lower a soul i txt tg t) * m) (n + m) now c1 = Inr c'"
    from bump_session_Inr [OF this [unfolded c1] ms(3,1)] show "c' = add_messages i ms now c" .
    then show "chat_ok c'" using fresh by simp
  next
    show "\<forall>x \<in> set ms. cm_ID x \<notin> cm_ID ` set (chat_messages c)" using ms(5) by simp
  qed (rule c1 ms)+
qed

lemma AppendAutonomousAssistant_Inr:
  assumes app: "AppendAutonomousAssistant lower pg sha now soul attempt sid txt tg delivered c = Inr (u, c')"
    and ids: "AutonomousTurnMessageIDs sha attempt = (b, a)"
  obtains i t tg' n m c1 where
    "insert_turn (boundary_row lower b soul i t) (assistant_row lower a soul i (trim_space txt) tg' t) c = Inr (n, m, c1)"
    "bump_session i (cm_TokenEstimate (assistant_row lower a soul i (trim_space txt) tg' t) * m) (n + m) now c1 = Inr c'"
proof -
  obtain i where i: "pg sid = Some i" using app by (auto simp: AppendAutonomousAssistant_def split: if_splits option.splits)
  let ?t = "if delivered = time_zero then now else delivered" and ?tg = "if tg = 0 then None else Some tg"
  let ?b = "boundary_row lower b soul i ?t" and ?a = "assistant_row lower a soul i (trim_space txt) ?tg ?t"
  have guard: "\<not> (attempt = uuid_Nil \<or> sid = [] \<or> trim_space txt = [])"
    using app by (auto simp: AppendAutonomousAssistant_def split: if_splits)
  have "(case insert_turn ?b ?a c of Inl e \<Rightarrow> Inl e | Inr (n, m, c1) \<Rightarrow>
      (case bump_session i (cm_TokenEstimate ?a * m) (n + m) now c1 of Inl e \<Rightarrow> Inl e | Inr c'' \<Rightarrow> Inr ((), c''))) = Inr (u, c')"
    using app guard unfolding AppendAutonomousAssistant_def ids Let_def i
    by (simp only: if_False option.case prod.case)
  then obtain n m c1 where "insert_turn ?b ?a c = Inr (n, m, c1)"
    "bump_session i (cm_TokenEstimate ?a * m) (n + m) now c1 = Inr c'"
    by (simp split: sum.splits prod.splits)
  then show ?thesis by (rule that)
qed

lemma chat_ok_autonomous:
  assumes "chat_ok c" "AppendAutonomousAssistant lower pg sha now soul attempt sid txt tg delivered c = Inr (u, c')"
  shows "chat_ok c'"
proof -
  obtain b a where "AutonomousTurnMessageIDs sha attempt = (b, a)" by fastforce
  from assms(2) this show ?thesis by (rule AppendAutonomousAssistant_Inr) (use turn_added [OF assms(1)] in blast)
qed

text \<open>After the append both rows are there.\<close>

lemma appended_turn_present:
  assumes "AppendAutonomousAssistant lower pg sha now soul attempt sid txt tg delivered c = Inr (u, c')"
    and "AutonomousTurnMessageIDs sha attempt = (b, a)"
  shows "{b, a} \<subseteq> cm_ID ` set (chat_messages c')"
  using assms
proof (rule AppendAutonomousAssistant_Inr)
  fix i t tg' n m c1
  assume ins: "insert_turn (boundary_row lower b soul i t) (assistant_row lower a soul i (trim_space txt) tg' t) c = Inr (n, m, c1)"
    and "bump_session i (cm_TokenEstimate (assistant_row lower a soul i (trim_space txt) tg' t) * m) (n + m) now c1 = Inr c'"
  then have "chat_messages c' = chat_messages c1" by (auto simp: bump_session_def split: if_splits)
  then show ?thesis using insert_turn_Inr [OF ins] by auto
qed

lemma chat_ok_create: "chat_ok c \<Longrightarrow> CreateWithPrevious pg now new soul user model previous c = (r, c') \<Longrightarrow> chat_ok c'"
  by (auto simp: CreateWithPrevious_def Let_def new_session_def intro: chat_ok_archive chat_ok_new_session
      split: if_splits option.splits sum.splits)

lemma chat_ok_create_source:
  "chat_ok c \<Longrightarrow> CreateSessionWithSource pg now new soul user model source sourceID c = Inr (i, c') \<Longrightarrow> chat_ok c'"
  by (auto simp: CreateSessionWithSource_def new_session_def intro: chat_ok_new_session split: if_splits option.splits sum.splits)

lemma chat_ok_notebook: "chat_ok c \<Longrightarrow> GetOrCreateNotebook pg now new soul user model c = Inr (s, c') \<Longrightarrow> chat_ok c'"
  by (auto simp: GetOrCreateNotebook_def new_session_def intro: chat_ok_new_session split: option.splits)

lemma chat_ok_get: "chat_ok c \<Longrightarrow> GetOrCreate pg now new soul user model c = (r, c') \<Longrightarrow> chat_ok c'"
  by (auto simp: GetOrCreate_def CreateSession_def intro: chat_ok_create split: option.splits)

lemma chat_ok_tokens: "chat_ok c \<Longrightarrow> RecordLastInputTokens pg now sid tokens c = Inr (u, c') \<Longrightarrow> chat_ok c'"
  by (auto simp: RecordLastInputTokens_def intro: chat_ok_sessions split: if_splits option.splits)

lemma chat_ok_op: "chat_op x c c' \<Longrightarrow> chat_ok c \<Longrightarrow> chat_ok c'"
proof (induction rule: chat_op.induct)
  case op_create then show ?case by (rule chat_ok_create [rotated])
next
  case op_create_source then show ?case by (rule chat_ok_create_source [rotated])
next
  case op_get_or_create then show ?case by (rule chat_ok_get [rotated])
next
  case op_notebook then show ?case by (rule chat_ok_notebook [rotated])
next
  case (op_clear sid c u c' i s) then show ?case using chat_ok_clear [of c i s] by (simp add: ClearSessionMessages_def)
next
  case op_archive then show ?case by (auto simp: Archive_def intro: chat_ok_archive split: if_splits option.splits)
next
  case op_input_tokens then show ?case by (rule chat_ok_tokens [rotated])
next
  case op_archive_tasks then show ?case by (auto simp: ArchiveTerminalTaskSessions_def Let_def intro: chat_ok_archive)
next
  case op_append then show ?case by (rule chat_ok_append [rotated])
next
  case op_autonomous then show ?case by (rule chat_ok_autonomous [rotated])
next
  case op_attach then show ?case by (rule chat_ok_attach [rotated])
next
  case op_compact then show ?case by (rule chat_ok_compact [rotated])
next
  case op_summary then show ?case
    by (auto simp: AppendSoftSummary_def intro: chat_ok_summaries split: if_splits option.splits)
qed

section \<open>Constraints\<close>

text \<open>The rows the store writes satisfy the constraint on the projection columns.\<close>

lemma projection_shape:
  "shape_check (message_row i soul session role bs (ProjectMessageForWrite lower role visible bs) tokens created)"
proof -
  let ?p = "ProjectMessageForWrite lower role visible bs"
  have "mp_Status ?p \<in> {''projected'', ''non_dialogue'', ''unprojectable_legacy''}"
    by (simp add: ProjectMessageForWrite_def ProjectLegacyMessage_def projectLegacyBlocks_def projection_simps split: option.split)
  moreover have "mp_Status ?p \<noteq> ''projected'' \<longrightarrow> mp_Reason ?p \<in> {''role_not_dialogue'', ''tool_transcript'', ''marshal_content'',
      ''empty_content'', ''mixed_or_unknown_content'', ''provider_expanded_text''}"
    by (simp add: ProjectMessageForWrite_def ProjectLegacyMessage_def projectLegacyBlocks_def projection_simps split: option.split)
  moreover have "list_all (\<lambda>r. r \<noteq> [] \<and> btrim r \<noteq> []) [''role_not_dialogue'', ''tool_transcript'', ''marshal_content'',
      ''empty_content'', ''mixed_or_unknown_content'', ''provider_expanded_text'']" by code_simp
  ultimately show ?thesis
    using ProjectMessageForWrite_visible [of lower role visible bs]
    by (auto simp: shape_check_def message_row_def reason_column_def)
qed

end
