(* ===== verification/Chat_History.thy ===== *)
theory Chat_History
  imports Session_Theorems Delivery_Theorems
begin

text \<open>
  Confirmed turns the assistant started are written into the chat they belong to
  (\<open>internal/core/agent_store.go\<close>): the projection of one delivery attempt, the drain for one session and
  the global reconciliation. The same rows are appended eagerly by the gateway
  (\<open>AppendAutonomousAssistant\<close>); both paths meet in the ids derived from the attempt.
\<close>

section \<open>Projection of one attempt\<close>

text \<open>\<open>strconv.ParseInt(s, 10, 64)\<close>.\<close>

definition parse_int64 :: "string \<Rightarrow> int option" where
  "parse_int64 s =
     (let (negative, ds) = (case s of c # cs \<Rightarrow> if c = CHR ''-'' then (True, cs) else if c = CHR ''+'' then (False, cs) else (False, s)
          | [] \<Rightarrow> (False, []));
          n = (if negative then - number ds else number ds)
      in if ds = [] \<or> \<not> list_all digit ds then None
         else if - (2 ^ 63) \<le> n \<and> n < 2 ^ 63 then Some n else None)"

datatype history_error =
    AttemptRequired
  | AttemptMissing
  | AttemptNotSent string
  | MarkerMalformed
  | NotAutonomous
  | ForeignTurn
  | ReceiptMalformed
  | InvalidSessionID
  | ForeignSession
  | InvalidTelegramID
  | HistoryStore chat_error

text \<open>
  The chat tables and the column \<open>autonomous_history_projected_at\<close> of the attempts that have it. The
  arguments of \<open>history_external\<close> are \<open>uuid.Parse\<close> and the JSON codecs of the turn and of the receipt.
\<close>

record history =
  h_chat :: chat
  h_projected :: "(uuid \<times> gotime) list"

record history_external = chat_external +
  hx_parse_uuid :: "string \<Rightarrow> uuid option"
  hx_commit :: "string \<Rightarrow> AutonomousTurnCommit option"
  hx_receipt :: "json \<Rightarrow> TaskNotificationReceipt option"

definition telegram_column :: "TaskNotificationReceipt \<Rightarrow> int option option" where
  "telegram_column receipt =
     (if rc_Transport receipt \<noteq> ''telegram'' then Some None
      else case parse_int64 (trim_space (rc_MessageID receipt)) of
          None \<Rightarrow> None
        | Some n \<Rightarrow> if n \<le> 0 then None else Some (Some n))"

definition projectAutonomousTurn ::
    "history_external \<Rightarrow> gotime \<Rightarrow> uuid \<Rightarrow> gotime \<Rightarrow> AutonomousTurnCommit \<Rightarrow> TaskNotificationReceipt \<Rightarrow> chat \<Rightarrow> history_error + chat" where
  "projectAutonomousTurn x now attempt deliveredAt commit receipt c =
     (case hx_parse_uuid x (trim_space (c_SessionID commit)) of
        None \<Rightarrow> Inl InvalidSessionID
      | Some session \<Rightarrow>
          if \<not> list_ex (\<lambda>s. cs_ID s = session \<and> cs_UserID s = c_UserID commit \<and> cs_SoulID s = c_SoulID commit \<and>
                 cs_Source s = ''chat'') (chat_sessions c) then Inl ForeignSession
          else case telegram_column receipt of
              None \<Rightarrow> Inl InvalidTelegramID
            | Some tg \<Rightarrow>
                let (boundaryID, assistantID) = AutonomousTurnMessageIDs (cx_sha1 x) attempt;
                    a = assistant_row (cx_lower x) assistantID (c_SoulID commit) session (c_Text commit) tg deliveredAt
                in (case insert_turn (boundary_row (cx_lower x) boundaryID (c_SoulID commit) session deliveredAt) a c of
                      Inl e \<Rightarrow> Inl (HistoryStore e)
                    | Inr (n, m, c1) \<Rightarrow>
                        if n + m = 0 then Inr c1
                        else case bump_session session (cm_TokenEstimate a * m) (n + m) now c1 of
                            Inl e \<Rightarrow> Inl (HistoryStore e) | Inr c2 \<Rightarrow> Inr c2))"

definition delivered_at :: "TaskNotificationReceipt \<Rightarrow> NotificationAttempt \<Rightarrow> gotime" where
  "delivered_at receipt a =
     (if rc_DeliveredAt receipt \<noteq> time_zero then rc_DeliveredAt receipt
      else case na_ResolvedAt a of
          Some t \<Rightarrow> if t \<noteq> time_zero then t else na_LastAttemptAt a
        | None \<Rightarrow> na_LastAttemptAt a)"

definition ProjectAutonomousHistoryAttempt ::
    "history_external \<Rightarrow> gotime \<Rightarrow> uuid \<Rightarrow> db \<Rightarrow> history \<Rightarrow> history_error + history" where
  "ProjectAutonomousHistoryAttempt x now i d h =
     (if i = uuid_Nil then Inl AttemptRequired
      else case find_attempt i d of
          None \<Rightarrow> Inl AttemptMissing
        | Some a \<Rightarrow>
            if i \<in> fst ` set (h_projected h) then Inr h
            else if na_State a \<noteq> ''sent'' then Inl (AttemptNotSent (na_State a))
            else (case ParseAutonomousTurnNotification (hx_commit x) (na_MessageText a) of
                Malformed \<Rightarrow> Inl MarkerMalformed
              | Ordinary \<Rightarrow> Inl NotAutonomous
              | Turn commit \<Rightarrow>
                  if c_UserID commit \<noteq> na_UserID a then Inl ForeignTurn
                  else (case Option.bind (na_Receipt a) (hx_receipt x) of
                      None \<Rightarrow> Inl ReceiptMalformed
                    | Some receipt \<Rightarrow>
                        (case projectAutonomousTurn x now i (delivered_at receipt a) commit receipt (h_chat h) of
                           Inl e \<Rightarrow> Inl e
                         | Inr c \<Rightarrow> Inr (h\<lparr>h_chat := c, h_projected := (i, now) # h_projected h\<rparr>)))))"

section \<open>Draining\<close>

text \<open>One attempt after the other, each in its own transaction; an error leaves its attempt for later.\<close>

fun project_all :: "history_external \<Rightarrow> gotime \<Rightarrow> db \<Rightarrow> uuid list \<Rightarrow> history \<Rightarrow> nat \<times> (uuid \<times> history_error) list \<times> history" where
  "project_all x now d [] h = (0, [], h)"
| "project_all x now d (i # is) h =
     (case ProjectAutonomousHistoryAttempt x now i d h of
        Inl e \<Rightarrow> (case project_all x now d is h of (n, es, h') \<Rightarrow> (n, (i, e) # es, h'))
      | Inr h1 \<Rightarrow> (case project_all x now d is h1 of (n, es, h') \<Rightarrow> (n + 1, es, h')))"

definition pending_history :: "db \<Rightarrow> history \<Rightarrow> NotificationAttempt list" where
  "pending_history d h = filter (\<lambda>a. na_State a = ''sent'' \<and> na_ID a \<notin> fst ` set (h_projected h) \<and>
     has_prefix (na_MessageText a) autonomousTurnNotificationPrefix) (notification_attempts d)"

definition of_conversation :: "history_external \<Rightarrow> uuid \<Rightarrow> uuid \<Rightarrow> string \<Rightarrow> NotificationAttempt \<Rightarrow> bool" where
  "of_conversation x userID soulID sessionID a \<longleftrightarrow>
     (case ParseAutonomousTurnNotification (hx_commit x) (na_MessageText a) of
        Turn commit \<Rightarrow> c_UserID commit = userID \<and> c_SoulID commit = soulID \<and> c_SessionID commit = sessionID
      | _ \<Rightarrow> False)"

definition EnsureAutonomousHistoryForSession ::
    "history_external \<Rightarrow> gotime \<Rightarrow> uuid \<Rightarrow> uuid \<Rightarrow> string \<Rightarrow> db \<Rightarrow> history \<Rightarrow> history_error + ((uuid \<times> history_error) list \<times> history)" where
  "EnsureAutonomousHistoryForSession x now userID soulID sessionID d h =
     (if userID = uuid_Nil \<or> soulID = uuid_Nil \<or> trim_space sessionID = [] then Inl AttemptRequired
      else
        let candidates = sort_key (\<lambda>a. (the (na_ResolvedAt a), na_ID a)) (filter (\<lambda>a. na_UserID a = userID) (pending_history d h))
        in case project_all x now d (map na_ID (filter (of_conversation x userID soulID sessionID) candidates)) h of
             (_, es, h') \<Rightarrow> Inr (es, h'))"

definition ReconcileAutonomousHistory ::
    "history_external \<Rightarrow> gotime \<Rightarrow> int \<Rightarrow> db \<Rightarrow> history \<Rightarrow> nat \<times> (uuid \<times> history_error) list \<times> history" where
  "ReconcileAutonomousHistory x now limit d h =
     (if limit \<le> 0 then (0, [], h)
      else project_all x now d (map na_ID (take (nat limit)
             (sort_key (\<lambda>a. (- the (na_ResolvedAt a), na_ID a)) (pending_history d h)))) h)"

section \<open>The chat and its history as one system\<close>

text \<open>Every operation of the session store, and projections against any state of the journal.\<close>

inductive history_step :: "history_external \<Rightarrow> history \<Rightarrow> history \<Rightarrow> bool" for x :: history_external where
  chat_step: "chat_op (chat_external.truncate x) (h_chat h) c' \<Longrightarrow> history_step x h (h\<lparr>h_chat := c'\<rparr>)"
| project_step: "ProjectAutonomousHistoryAttempt x now i d h = Inr h' \<Longrightarrow> history_step x h h'"

definition empty_history :: history where
  "empty_history = \<lparr>h_chat = empty_chat, h_projected = []\<rparr>"

lemma project_Inr:
  assumes "ProjectAutonomousHistoryAttempt x now i d h = Inr h'"
  obtains "i \<in> fst ` set (h_projected h)" "h' = h"
  | row commit receipt c where "find_attempt i d = Some row" "i \<notin> fst ` set (h_projected h)" "na_State row = ''sent''"
      "projectAutonomousTurn x now i (delivered_at receipt row) commit receipt (h_chat h) = Inr c"
      "h' = h\<lparr>h_chat := c, h_projected := (i, now) # h_projected h\<rparr>"
  using assms unfolding ProjectAutonomousHistoryAttempt_def
  by (auto split: if_splits option.splits parsed_turn.splits sum.splits)

lemma turn_projected:
  assumes ok: "chat_ok c" and proj: "projectAutonomousTurn x now i t commit receipt c = Inr c'"
    and ids: "AutonomousTurnMessageIDs (cx_sha1 x) i = (b, a)"
  shows "\<exists>session ms. c' = (if ms = [] then c else add_messages session ms now c) \<and> chat_ok c' \<and>
    (\<forall>m \<in> set ms. cm_ID m \<in> {b, a} \<and> cm_ID m \<notin> cm_ID ` set (chat_messages c)) \<and>
    {b, a} \<subseteq> cm_ID ` set (chat_messages c) \<union> cm_ID ` set ms"
proof -
  obtain session tg where s: "hx_parse_uuid x (trim_space (c_SessionID commit)) = Some session" "telegram_column receipt = Some tg"
    using proj by (auto simp: projectAutonomousTurn_def split: option.splits if_splits)
  let ?b = "boundary_row (cx_lower x) b (c_SoulID commit) session t"
  let ?a = "assistant_row (cx_lower x) a (c_SoulID commit) session (c_Text commit) tg t"
  have "(case insert_turn ?b ?a c of Inl e \<Rightarrow> Inl (HistoryStore e) | Inr (n, m, c1) \<Rightarrow>
      if n + m = 0 then Inr c1
      else case bump_session session (cm_TokenEstimate ?a * m) (n + m) now c1 of Inl e \<Rightarrow> Inl (HistoryStore e) | Inr c2 \<Rightarrow> Inr c2) = Inr c'"
    using proj unfolding projectAutonomousTurn_def s option.case ids Let_def prod.case by (simp only: sum.distinct split: if_splits)
  then obtain n m c1 where ins: "insert_turn ?b ?a c = Inr (n, m, c1)"
    and c': "n + m = 0 \<and> c' = c1 \<or> n + m \<noteq> 0 \<and> bump_session session (cm_TokenEstimate ?a * m) (n + m) now c1 = Inr c'"
    by (simp split: sum.splits prod.splits if_splits)
  from turn_added [OF ok ins] obtain ms where ms: "\<forall>now c'. bump_session session (cm_TokenEstimate ?a * m) (n + m) now c1 = Inr c' \<longrightarrow>
      c' = add_messages session ms now c \<and> chat_ok c'" "c1 = c\<lparr>chat_messages := chat_messages c @ ms\<rparr>" "n + m = int (length ms)"
    "set ms \<subseteq> {?b, ?a}" "{b, a} \<subseteq> cm_ID ` set (chat_messages c) \<union> cm_ID ` set ms"
    "\<forall>x \<in> set ms. cm_ID x \<notin> cm_ID ` set (chat_messages c)" by (elim exE conjE)
  have "cm_ID y \<in> {b, a}" if "y \<in> set ms" for y using that ms(4) by auto
  moreover have "c' = (if ms = [] then c else add_messages session ms now c) \<and> chat_ok c'"
    using c' ms(1-3) ok by (cases ms) auto
  ultimately show ?thesis using ms(5,6) by blast
qed

lemma chat_ok_project:
  assumes "chat_ok (h_chat h)" "ProjectAutonomousHistoryAttempt x now i d h = Inr h'"
  shows "chat_ok (h_chat h')"
  using assms(2)
proof (rule project_Inr)
  fix row commit receipt c
  assume "projectAutonomousTurn x now i (delivered_at receipt row) commit receipt (h_chat h) = Inr c"
    "h' = h\<lparr>h_chat := c, h_projected := (i, now) # h_projected h\<rparr>"
  then show ?thesis using turn_projected [OF assms(1)] by (metis history.select_convs(1) history.surjective history.update_convs(1,2) surj_pair)
qed (simp add: assms(1))

interpretation chat_system: invariant_system "\<lambda>h. h = empty_history" "history_step x" "\<lambda>h. chat_ok (h_chat h)"
  for x
proof unfold_locales
  fix h :: history assume "h = empty_history"
  then show "chat_ok (h_chat h)" by (simp add: empty_history_def empty_chat_def chat_ok_def session_ids_def)
next
  fix h h' assume ok: "chat_ok (h_chat h)" and step: "history_step x h h'"
  from step show "chat_ok (h_chat h')"
    by cases (auto intro: chat_ok_op [OF _ ok] chat_ok_project [OF ok])
qed

abbreviation reachable_history :: "history_external \<Rightarrow> history \<Rightarrow> bool" where
  "reachable_history x h \<equiv> reachable_from (\<lambda>h. h = empty_history) (history_step x) h"

text \<open>Both drains are runs of projections.\<close>

lemma project_all_run: "(history_step x)\<^sup>*\<^sup>* h (snd (snd (project_all x now d is h)))"
proof (induction "is" arbitrary: h)
  case (Cons i "is")
  show ?case
  proof (cases "ProjectAutonomousHistoryAttempt x now i d h")
    case (Inl e) then show ?thesis using Cons [of h] by (cases "project_all x now d is h") simp
  next
    case (Inr h1)
    then have "history_step x h h1" by (rule project_step)
    then show ?thesis using Cons [of h1] Inr
      by (cases "project_all x now d is h1") (auto intro: converse_rtranclp_into_rtranclp)
  qed
qed simp

lemma reconcile_run: "(history_step x)\<^sup>*\<^sup>* h (snd (snd (ReconcileAutonomousHistory x now limit d h)))"
  using project_all_run by (simp add: ReconcileAutonomousHistory_def)

section \<open>A sample conversation\<close>

definition sample_ids :: "string \<Rightarrow> uuid option" where
  "sample_ids s = (if s = ''s1'' then Some 1 else if s = ''u7'' then Some 7 else None)"

definition sample_turn :: AutonomousTurnCommit where
  "sample_turn = \<lparr>c_UserID = 7, c_SoulID = 3, c_AnchorMessageID = ''a'', c_SessionID = ''s1'', c_DialogMessageID = ''d'',
     c_ActivityToken = ''t'', c_Text = ''hello''\<rparr>"

definition sample_hx :: history_external where
  "sample_hx = \<lparr>cx_lower = (\<lambda>s. s), cx_uuid = sample_ids,
     cx_sha1 = (\<lambda>i n. if n = ''autonomous-turn-boundary/v1'' then 2 * i else 2 * i + 1),
     hx_parse_uuid = sample_ids, hx_commit = (\<lambda>_. Some sample_turn), hx_receipt = (\<lambda>_. Some mail_receipt)\<rparr>"

definition sample_attempt :: NotificationAttempt where
  "sample_attempt = \<lparr>na_ID = 50, na_TaskID = 1, na_UserID = 7, na_OccurrenceKey = ''k'',
     na_MessageText = autonomousTurnNotificationPrefix @ [CHR 0x0A] @ encode64 std_alphabet ''x'', na_State = ''sent'',
     na_Receipt = Some JNull, na_ErrorMessage = None, na_AttemptCount = 1, na_NextAttemptAt = None,
     na_LastAttemptAt = 4 * second, na_CreatedAt = 4 * second, na_ResolvedAt = Some (4 * second)\<rparr>"

definition sample_journal :: db where
  "sample_journal = empty_db\<lparr>notification_attempts := [sample_attempt]\<rparr>"

definition hist1 :: history where
  "hist1 = \<lparr>h_chat = snd (CreateWithPrevious sample_ids second 1 3 ''u7'' ''m'' [] empty_chat), h_projected = []\<rparr>"

definition hist2 :: "history_error + history" where
  "hist2 = ProjectAutonomousHistoryAttempt sample_hx (5 * second) 50 sample_journal hist1"

lemma hist1_reachable: "reachable_history sample_hx hist1"
proof (rule reach_step)
  show "reachable_history sample_hx empty_history" by (rule reach_start) simp
  have "chat_op (chat_external.truncate sample_hx) empty_chat (h_chat hist1)"
    by (rule chat_op.op_create [where now = second and new = 1 and soul = 3 and user = "''u7''" and model = "''m''" and previous = "[]"])
      (simp add: hist1_def sample_hx_def chat_external.truncate_def prod_eq_iff)
  then have "chat_op (chat_external.truncate sample_hx) (h_chat empty_history) (h_chat hist1)" by (simp add: empty_history_def)
  from chat_step [OF this] show "history_step sample_hx empty_history hist1" by (simp add: empty_history_def hist1_def)
qed

lemma sum_result: "(case r of Inr h \<Rightarrow> P h | Inl _ \<Rightarrow> False) \<Longrightarrow> \<exists>h. r = Inr h \<and> P h"
  by (cases r) auto

definition two_messages :: "history \<Rightarrow> bool" where
  "two_messages h \<longleftrightarrow> (case chat_sessions (h_chat h) of [s] \<Rightarrow> cs_Source s = ''chat'' \<and> cs_MessageCount s = 2 | _ \<Rightarrow> False)"

lemma hist2_result: "\<exists>h. hist2 = Inr h \<and> two_messages h"
  by (rule sum_result) code_simp

section \<open>Counters and single projection\<close>

text \<open>
  C38. In every reachable state the counters of a session outside the private notebook are exact: its
  message count is the number of its rows and its token count the sum of their estimates, over appends,
  autonomous turns, projections and compactions in any order.
\<close>

theorem session_counters:
  assumes "reachable_history x h" and "s \<in> set (chat_sessions (h_chat h))" and "cs_Source s \<noteq> ''notebook''"
  shows "cs_MessageCount s = int (length (messages_of (cs_ID s) (h_chat h))) \<and>
    cs_TokenCount s = sum_list (map cm_TokenEstimate (messages_of (cs_ID s) (h_chat h)))"
  using chat_okD(5) [OF chat_system.reachable_inv [OF assms(1)] assms(2,3)] by (simp add: counted_def)

theorem session_counters_witness:
  "\<exists>h s. hist2 = Inr h \<and> s \<in> set (chat_sessions (h_chat h)) \<and> cs_MessageCount s = 2 \<and>
     length (messages_of (cs_ID s) (h_chat h)) = 2"
proof -
  obtain h where h: "hist2 = Inr h"
    and rows: "two_messages h" using hist2_result by blast
  have "history_step sample_hx hist1 h" using h by (simp add: hist2_def project_step)
  with hist1_reachable have reach: "reachable_history sample_hx h" by (rule reach_step)
  obtain s where s: "chat_sessions (h_chat h) = [s]" "cs_Source s = ''chat''" "cs_MessageCount s = 2"
    using rows by (auto simp: two_messages_def split: list.splits)
  then have "s \<in> set (chat_sessions (h_chat h))" "cs_Source s \<noteq> ''notebook''" by simp_all
  from session_counters [OF reach this] s(3) this(1) h show ?thesis by auto
qed

text \<open>
  C39. A confirmed turn enters the chat once: after a projection its two rows are there, only missing ones
  were added, projecting again changes nothing, and when the gateway had already appended the turn the chat
  stays exactly as it is.
\<close>

theorem history_projected_once:
  assumes "reachable_history x h" and "ProjectAutonomousHistoryAttempt x now i d h = Inr h'"
    and "AutonomousTurnMessageIDs (cx_sha1 x) i = (b, a)" and "i \<notin> fst ` set (h_projected h)"
  shows "ProjectAutonomousHistoryAttempt x later i d h' = Inr h' \<and> distinct (map cm_ID (chat_messages (h_chat h'))) \<and>
    {b, a} \<subseteq> cm_ID ` set (chat_messages (h_chat h')) \<and>
    (\<exists>ms. chat_messages (h_chat h') = chat_messages (h_chat h) @ ms \<and> cm_ID ` set ms = {b, a} - cm_ID ` set (chat_messages (h_chat h))) \<and>
    (AppendAutonomousAssistant (cx_lower x) (cx_uuid x) (cx_sha1 x) now0 soul i sid txt tg t c0 = Inr (u, h_chat h) \<longrightarrow>
       h_chat h' = h_chat h)"
proof -
  have ok: "chat_ok (h_chat h)" by (rule chat_system.reachable_inv [OF assms(1)])
  have ok': "chat_ok (h_chat h')" by (rule chat_ok_project [OF ok assms(2)])
  from assms(2) obtain row commit receipt c where row: "find_attempt i d = Some row"
    and c: "projectAutonomousTurn x now i (delivered_at receipt row) commit receipt (h_chat h) = Inr c"
    and h': "h' = h\<lparr>h_chat := c, h_projected := (i, now) # h_projected h\<rparr>"
    by (rule project_Inr) (use assms(4) in auto)
  from turn_projected [OF ok c assms(3)] obtain session ms
    where ms: "c = (if ms = [] then h_chat h else add_messages session ms now (h_chat h))"
      "\<forall>m \<in> set ms. cm_ID m \<in> {b, a} \<and> cm_ID m \<notin> cm_ID ` set (chat_messages (h_chat h))"
      "{b, a} \<subseteq> cm_ID ` set (chat_messages (h_chat h)) \<union> cm_ID ` set ms" by blast
  have msgs: "chat_messages (h_chat h') = chat_messages (h_chat h) @ ms" by (simp add: h' ms(1) add_messages_def)
  have added: "cm_ID ` set ms = {b, a} - cm_ID ` set (chat_messages (h_chat h))"
  proof
    show "cm_ID ` set ms \<subseteq> {b, a} - cm_ID ` set (chat_messages (h_chat h))" using ms(2) by (intro image_subsetI) simp
    show "{b, a} - cm_ID ` set (chat_messages (h_chat h)) \<subseteq> cm_ID ` set ms" using ms(3) by (intro subsetI) (metis DiffE UnE subsetD)
  qed
  have "h_chat h' = h_chat h"
    if "AppendAutonomousAssistant (cx_lower x) (cx_uuid x) (cx_sha1 x) now0 soul i sid txt tg t c0 = Inr (u, h_chat h)"
  proof -
    have "ms = []" using appended_turn_present [OF that assms(3)] added by auto
    then show ?thesis by (simp add: h' ms(1))
  qed
  moreover have "ProjectAutonomousHistoryAttempt x later i d h' = Inr h'"
    using assms(2) row by (auto simp: ProjectAutonomousHistoryAttempt_def h' split: if_splits)
  moreover have "{b, a} \<subseteq> cm_ID ` set (chat_messages (h_chat h'))" using ms(3) msgs by auto
  moreover have "\<exists>ms. chat_messages (h_chat h') = chat_messages (h_chat h) @ ms \<and>
      cm_ID ` set ms = {b, a} - cm_ID ` set (chat_messages (h_chat h))" using msgs added by (intro exI [of _ ms] conjI)
  ultimately show ?thesis using chat_okD(2) [OF ok'] by (intro conjI impI) assumption+
qed

theorem history_projected_once_witness:
  "\<exists>h. hist2 = Inr h \<and> ProjectAutonomousHistoryAttempt sample_hx (9 * second) 50 sample_journal h = Inr h"
proof -
  obtain h where h: "hist2 = Inr h" using hist2_result by blast
  have "AutonomousTurnMessageIDs (cx_sha1 sample_hx) 50 = (100, 101)" "50 \<notin> fst ` set (h_projected hist1)" by code_simp+
  from history_projected_once [OF hist1_reachable h [unfolded hist2_def] this, of "9 * second"] h show ?thesis by blast
qed

section \<open>Cleared sessions\<close>

text \<open>Clearing the notebook session deletes its messages and leaves its counters as they were.\<close>

lemma clear_keeps_counters:
  assumes "ClearSessionMessages pg sid c = Inr (u, c')" "pg sid = Some i"
  shows "messages_of i c' = [] \<and> chat_sessions c' = chat_sessions c"
  using assms by (auto simp: ClearSessionMessages_def delete_messages_def messages_of_def filter_empty_conv)

end
