(* ===== verification/Go_Duration.thy ===== *)
theory Go_Duration
  imports Go_Time
begin

text \<open>
  \<open>time.ParseDuration\<close>, which reads the schedules and cadences of tasks: the integers before and after
  the point with their overflow checks, the fraction in double precision, and the 64-bit sum.
\<close>

section \<open>Double precision\<close>

text \<open>
  A float \<open>(m, e)\<close> is \<open>m * 2 ^ e\<close> with at most 53 bits in \<open>m\<close>, rounded to the nearest, ties to even. The
  exponent is not bounded: the parser's only floats beyond the range of a double are scales of more than
  300 fraction digits, whose contribution is below one nanosecond in either case and is cut to zero.
\<close>

type_synonym go_float = "int \<times> int"

function bit_width :: "int \<Rightarrow> int" where
  "bit_width x = (if x > 0 then bit_width (x div 2) + 1 else 0)"
  by pat_completeness auto
termination
  by (relation "measure nat") auto

declare bit_width.simps [simp del]

definition round_even :: "int \<Rightarrow> int \<Rightarrow> int" where
  "round_even p q = (let n = p div q; r = p mod q in
     if 2 * r < q then n else if 2 * r > q then n + 1 else n + n mod 2)"

definition scaled :: "int \<Rightarrow> int \<Rightarrow> int \<Rightarrow> int \<times> int" where
  "scaled p q k = (if k \<ge> 0 then (p * 2 ^ nat k, q) else (p, q * 2 ^ nat (- k)))"

definition float_quot :: "int \<Rightarrow> int \<Rightarrow> go_float" where
  "float_quot p q =
     (if p = 0 then (0, 0)
      else
        let k0 = 53 + bit_width q - bit_width p;
            k = (case scaled p q k0 of (a, b) \<Rightarrow> if a div b \<ge> 2 ^ 53 then k0 - 1 else k0)
        in case scaled p q k of (a, b) \<Rightarrow> (round_even a b, - k))"

definition float_mult :: "go_float \<Rightarrow> go_float \<Rightarrow> go_float" where
  "float_mult x y = (case float_quot (fst x * fst y) 1 of (m, e) \<Rightarrow> (m, e + snd x + snd y))"

definition float_divide :: "go_float \<Rightarrow> go_float \<Rightarrow> go_float" where
  "float_divide x y = (case float_quot (fst x) (fst y) of (m, e) \<Rightarrow> (m, e + snd x - snd y))"

definition float_trunc :: "go_float \<Rightarrow> int" where
  "float_trunc x = (if snd x \<ge> 0 then fst x * 2 ^ nat (snd x) else fst x div 2 ^ nat (- snd x))"

section \<open>The parser\<close>

fun leadingInt :: "int \<Rightarrow> string \<Rightarrow> (int \<times> string) option" where
  "leadingInt x [] = Some (x, [])"
| "leadingInt x (c # s) =
     (if \<not> digit c then Some (x, c # s)
      else if x > 2 ^ 63 div 10 then None
      else let x' = x * 10 + digit_value c in if x' > 2 ^ 63 then None else leadingInt x' s)"

fun leadingFraction :: "bool \<Rightarrow> int \<Rightarrow> go_float \<Rightarrow> string \<Rightarrow> int \<times> go_float \<times> string" where
  "leadingFraction overflow x scale [] = (x, scale, [])"
| "leadingFraction overflow x scale (c # s) =
     (if \<not> digit c then (x, scale, c # s)
      else if overflow \<or> x > (2 ^ 63 - 1) div 10 then leadingFraction True x scale s
      else
        let y = x * 10 + digit_value c in
        if y > 2 ^ 63 then leadingFraction True x scale s
        else leadingFraction False y (float_mult scale (10, 0)) s)"

definition unitMap :: "(string \<times> int) list" where
  "unitMap = [(''ns'', 1), (''us'', 1000), ([CHR 0xC2, CHR 0xB5, CHR ''s''], 1000),
     ([CHR 0xCE, CHR 0xBC, CHR ''s''], 1000), (''ms'', millisecond), (''s'', second), (''m'', minute),
     (''h'', 60 * minute)]"

definition number_char :: "char \<Rightarrow> bool" where
  "number_char c \<longleftrightarrow> c = CHR ''.'' \<or> digit c"

text \<open>The optional point and fraction, and whether it has a digit.\<close>

definition parse_point :: "string \<Rightarrow> int \<times> go_float \<times> string \<times> bool" where
  "parse_point s =
     (if s \<noteq> [] \<and> hd s = CHR ''.'' then
        case leadingFraction False 0 (1, 0) (tl s) of (f, scale, u) \<Rightarrow> (f, scale, u, length u \<noteq> length (tl s))
      else (0, (1, 0), s, False))"

text \<open>One number with its unit: the nanoseconds and the rest of the text.\<close>

definition unit_value :: "int \<Rightarrow> int \<Rightarrow> go_float \<Rightarrow> int \<Rightarrow> int option" where
  "unit_value v f scale unit =
     (if v > 2 ^ 63 div unit then None
      else if f > 0 then
        let v' = (v * unit + float_trunc (float_mult (float_quot f 1) (float_divide (float_quot unit 1) scale))) mod 2 ^ 64
        in if v' > 2 ^ 63 then None else Some v'
      else Some (v * unit))"

definition parse_unit :: "string \<Rightarrow> (int \<times> string) option" where
  "parse_unit s =
     (if s = [] \<or> \<not> number_char (hd s) then None
      else case leadingInt 0 s of
          None \<Rightarrow> None
        | Some (v, s1) \<Rightarrow>
            (case parse_point s1 of (f, scale, s2, post) \<Rightarrow>
             let u = takeWhile (\<lambda>c. \<not> number_char c) s2 in
             if length s1 = length s \<and> \<not> post then None
             else if u = [] then None
             else case map_of unitMap u of
                 None \<Rightarrow> None
               | Some unit \<Rightarrow> map_option (\<lambda>v. (v, dropWhile (\<lambda>c. \<not> number_char c) s2)) (unit_value v f scale unit)))"

lemma leadingInt_length: "leadingInt x s = Some (v, r) \<Longrightarrow> length r \<le> length s"
  by (induction x s rule: leadingInt.induct) (auto simp: Let_def split: if_splits)

lemma leadingFraction_length: "length (snd (snd (leadingFraction b x sc s))) \<le> length s"
  by (induction b x sc s rule: leadingFraction.induct) (auto simp: Let_def)

lemma parse_point_length: "parse_point s = (f, sc, t, post) \<Longrightarrow> length t \<le> length s"
  using leadingFraction_length [of False 0 "(1, 0)" "tl s"]
  by (auto simp: parse_point_def split: if_splits prod.splits)

lemma dropWhile_shorter: "takeWhile P xs \<noteq> [] \<Longrightarrow> length (dropWhile P xs) < length xs"
  by (cases xs) (auto simp: le_imp_less_Suc length_dropWhile_le split: if_splits)

lemma parse_unit_shorter:
  assumes "parse_unit s = Some (v, r)" shows "length r < length s"
proof -
  from assms obtain w s1 where s1: "leadingInt 0 s = Some (w, s1)"
    by (auto simp: parse_unit_def split: if_splits option.splits)
  obtain f sc s2 post where s2: "parse_point s1 = (f, sc, s2, post)" by (cases "parse_point s1") auto
  have "r = dropWhile (\<lambda>c. \<not> number_char c) s2" "takeWhile (\<lambda>c. \<not> number_char c) s2 \<noteq> []"
    using assms by (simp_all add: parse_unit_def s1 s2 Let_def split: if_splits option.splits)
  then have "length r < length s2" using dropWhile_shorter by blast
  then show ?thesis using leadingInt_length [OF s1] parse_point_length [OF s2] by linarith
qed

function parse_units :: "int \<Rightarrow> string \<Rightarrow> int option" where
  "parse_units d s =
     (if s = [] then Some d
      else case parse_unit s of
          None \<Rightarrow> None
        | Some (v, r) \<Rightarrow> let d' = (d + v) mod 2 ^ 64 in if d' > 2 ^ 63 then None else parse_units d' r)"
  by pat_completeness auto
termination
  by (relation "measure (length \<circ> snd)") (auto dest: parse_unit_shorter)

declare parse_units.simps [simp del]

definition ParseDuration :: "string \<Rightarrow> duration option" where
  "ParseDuration s =
     (let signed = s \<noteq> [] \<and> (hd s = CHR ''-'' \<or> hd s = CHR ''+'');
          neg = signed \<and> hd s = CHR ''-'';
          s = (if signed then tl s else s)
      in
      if s = ''0'' then Some 0
      else if s = [] then None
      else case parse_units 0 s of
          None \<Rightarrow> None
        | Some d \<Rightarrow> if neg then Some (- d) else if d > 2 ^ 63 - 1 then None else Some d)"

section \<open>Correctness\<close>

text \<open>Fractions go through double precision, and two halves of \<open>2 ^ 64\<close> wrap to zero.\<close>

lemma ParseDuration_examples:
  "ParseDuration ''24h'' = Some (1440 * minute)"
  "ParseDuration ''1h30m'' = Some (90 * minute)"
  "ParseDuration ''1.5h'' = Some (90 * minute)"
  "ParseDuration ''-5m'' = Some (- 5 * minute)"
  "ParseDuration ''0.3s'' = Some (300 * millisecond)"
  "ParseDuration ''30'' = None" "ParseDuration '' 24h'' = None" "ParseDuration ''1d'' = None"
  "ParseDuration ''9223372036854775808ns9223372036854775808ns'' = Some 0"
  by code_simp+

lemma parse_units_range: "parse_units d s = Some r \<Longrightarrow> 0 \<le> d \<Longrightarrow> d \<le> 2 ^ 63 \<Longrightarrow> 0 \<le> r \<and> r \<le> 2 ^ 63"
proof (induction d s rule: parse_units.induct)
  case (1 d s)
  show ?case
  proof (cases "s = []")
    case True then show ?thesis using "1.prems" by (simp add: parse_units.simps)
  next
    case False
    from "1.prems"(1) obtain v t where p: "parse_unit s = Some (v, t)" "\<not> (d + v) mod 2 ^ 64 > 2 ^ 63"
      "parse_units ((d + v) mod 2 ^ 64) t = Some r"
      by (subst (asm) parse_units.simps) (simp add: False Let_def split: option.splits prod.splits if_splits)
    show ?thesis by (rule "1.IH" [OF False p(1) refl refl p(2,3)]) (use p(2) in simp_all)
  qed
qed

lemma ParseDuration_range: "ParseDuration s = Some d \<Longrightarrow> min_duration \<le> d \<and> d \<le> max_duration"
  by (auto simp: ParseDuration_def Let_def dest!: parse_units_range split: if_splits option.splits)

text \<open>A decimal count and a unit, the form schedules are written in, is read as their product.\<close>

lemma leadingInt_append:
  "leadingInt x ds = Some (y, []) \<Longrightarrow> leadingInt x (ds @ s) = leadingInt y s"
  by (induction x ds rule: leadingInt.induct) (auto simp: Let_def split: if_splits)

lemma decimal_digit: "k < 10 \<Longrightarrow> digit (char_of (48 + k))" "k < 10 \<Longrightarrow> digit_value (char_of (48 + k)) = int k" for k :: nat
  by (simp_all add: digit_def digit_value_def)

lemma leadingInt_decimal: "int n \<le> 2 ^ 63 \<Longrightarrow> leadingInt 0 (decimal n) = Some (int n, [])"
proof (induction n rule: less_induct)
  case (less n)
  show ?case
  proof (cases "n < 10")
    case True
    then show ?thesis by (subst decimal.simps) (simp add: decimal_digit)
  next
    case False
    let ?q = "n div 10" and ?r = "n mod 10"
    have "leadingInt 0 (decimal ?q) = Some (int ?q, [])" using less False by auto
    then have "leadingInt 0 (decimal n) = leadingInt (int ?q) [char_of (48 + ?r)]"
      using False by (subst decimal.simps) (simp add: leadingInt_append)
    also have "\<dots> = Some (int n, [])"
    proof -
      have sum: "int ?q * 10 + int ?r = int n"
        by (metis of_nat_add of_nat_mult of_nat_numeral mult_div_mod_eq mult.commute)
      then have "\<not> int ?q > 2 ^ 63 div 10" using less.prems by linarith
      then show ?thesis using less.prems sum by (simp add: decimal_digit Let_def)
    qed
    finally show ?thesis .
  qed
qed

lemma decimal_digits: "decimal n \<noteq> [] \<and> list_all digit (decimal n)"
proof (induction n rule: less_induct)
  case (less n)
  show ?case
  proof (cases "n < 10")
    case True then show ?thesis by (subst (1 2) decimal.simps) (simp add: decimal_digit)
  next
    case False
    then show ?thesis using less [of "n div 10"] by (subst (1 2) decimal.simps) (simp add: decimal_digit)
  qed
qed

lemma unitMap_names:
  assumes "map_of unitMap u = Some unit"
  shows "u \<noteq> []" "list_all (\<lambda>c. \<not> number_char c) u" "0 < unit"
proof -
  have all: "list_all (\<lambda>(u, unit). u \<noteq> [] \<and> list_all (\<lambda>c. \<not> number_char c) u \<and> 0 < unit) unitMap" by code_simp
  have "(u, unit) \<in> set unitMap" using assms by (rule map_of_SomeD)
  then show "u \<noteq> []" "list_all (\<lambda>c. \<not> number_char c) u" "0 < unit"
    using all by (auto simp: list_all_iff)
qed

lemma parse_unit_decimal:
  assumes unit: "map_of unitMap u = Some unit" and "int n * unit \<le> 2 ^ 63"
  shows "parse_unit (decimal n @ u) = Some (int n * unit, [])"
proof -
  note names = unitMap_names [OF unit]
  have "int n * 1 \<le> int n * unit" using names(3) by (intro mult_left_mono) simp_all
  then have n: "int n \<le> 2 ^ 63" using assms(2) by linarith
  obtain c u' where u: "u = c # u'" "\<not> number_char c" using names by (cases u) auto
  then have "\<not> digit c" "c \<noteq> CHR ''.''" by (auto simp: number_char_def)
  then have lead: "leadingInt 0 (decimal n @ u) = Some (int n, u)" and point: "parse_point u = (0, (1, 0), u, False)"
    using leadingInt_append [OF leadingInt_decimal [OF n], of u] by (simp_all add: u parse_point_def)
  have split: "takeWhile (\<lambda>c. \<not> number_char c) u = u" "dropWhile (\<lambda>c. \<not> number_char c) u = []"
    using names(2) by (simp_all add: list_all_iff)
  have "number_char (hd (decimal n @ u))" using decimal_digits [of n] by (cases "decimal n") (auto simp: number_char_def)
  moreover have "\<not> int n > 2 ^ 63 div unit" using zdiv_mono1 [OF assms(2) names(3)] names(3) by simp
  ultimately show ?thesis
    using decimal_digits [of n] names(1) unit
    by (simp add: parse_unit_def lead point split unit_value_def Let_def del: takeWhile_eq_all_conv dropWhile_eq_Nil_conv)
qed

lemma ParseDuration_decimal:
  assumes unit: "map_of unitMap u = Some unit" and le: "int n * unit \<le> max_duration"
  shows "ParseDuration (decimal n @ u) = Some (int n * unit)"
proof -
  let ?s = "decimal n @ u"
  obtain c s where s: "decimal n = c # s" "digit c" using decimal_digits [of n] by (cases "decimal n") auto
  then have "c \<noteq> CHR ''-''" "c \<noteq> CHR ''+''" by (auto simp: digit_def)
  moreover have "?s \<noteq> ''0''" using s unitMap_names(1) [OF unit] by auto
  moreover have "0 \<le> int n * unit" using unitMap_names(3) [OF unit] by simp
  then have "parse_units 0 ?s = Some (int n * unit)"
    using le s parse_unit_decimal [OF unit, of n] by (subst parse_units.simps) (simp add: parse_units.simps [of _ "[]"])
  ultimately show ?thesis using le s by (auto simp: ParseDuration_def Let_def)
qed

end
