(* ===== verification/Task_Scheduler.thy ===== *)
theory Task_Scheduler
  imports Go_Duration Task_Lifecycle Task_Program
begin

text \<open>
  Dispatch by the scheduler: the gates of \<open>internal/agenttask/scheduler.go\<close> that decide whether a pending
  task runs now, one tick over the pending tasks, the graph tasks of \<open>graph_coordinator.go\<close>, and the
  wake-up timer of \<open>wakeup.go\<close>. Handlers, the host's hooks and the time zone database are parameters.
\<close>

section \<open>Intervals\<close>

definition scheduleDueTolerance :: duration where "scheduleDueTolerance = second"

definition durationDue :: "duration \<Rightarrow> duration \<Rightarrow> bool" where
  "durationDue elapsed interval =
     (if interval \<le> 0 then elapsed \<ge> interval
      else
        let tolerance = (if scheduleDueTolerance \<ge> interval then interval div 2 else scheduleDueTolerance)
        in elapsed \<ge> interval - tolerance)"

definition cadenceElapsed :: "gotime \<Rightarrow> AgentTask \<Rightarrow> bool" where
  "cadenceElapsed now task =
     (case t_Cadence task of
        None \<Rightarrow> True
      | Some c \<Rightarrow>
          if c = [] then True
          else case ParseDuration c of
              None \<Rightarrow> True
            | Some d \<Rightarrow> (case t_LastRunAt task of None \<Rightarrow> True | Some r \<Rightarrow> durationDue (time_sub now r) d))"

definition shouldRunNow :: "gotime \<Rightarrow> AgentTask \<Rightarrow> bool" where
  "shouldRunNow now task =
     (case t_Schedule task of
        None \<Rightarrow> True
      | Some c \<Rightarrow>
          (case ParseDuration c of
             None \<Rightarrow> False
           | Some d \<Rightarrow> (case t_LastRunAt task of None \<Rightarrow> True | Some r \<Rightarrow> durationDue (time_sub now r) d)))"

text \<open>
  The calls of an iteration as \<open>encoding/json\<close> reads them when its error is ignored: elements and
  fields of another type keep their zero value.
\<close>

definition call_fields :: "json \<Rightarrow> string \<times> bool" where
  "call_fields j =
     (case struct_members j of
        None \<Rightarrow> ([], False)
      | Some kvs \<Rightarrow> (last ([] # List.map_filter dec_str (field_values ''name'' kvs)),
                     last (False # List.map_filter dec_bool (field_values ''error'' kvs))))"

definition trace_calls :: "json option \<Rightarrow> (string \<times> bool) list" where
  "trace_calls raw = (case raw of Some (JArr js) \<Rightarrow> map call_fields js | _ \<Rightarrow> [])"

definition cadenceRunEnded :: "AgentTask \<Rightarrow> IterationResult \<Rightarrow> bool" where
  "cadenceRunEnded task result =
     (case t_Cadence task of
        None \<Rightarrow> False
      | Some c \<Rightarrow>
          if trim_space c = [] then False
          else ir_Done result \<or>
            list_ex (\<lambda>(name, error). name = ''message_send'' \<and> \<not> error) (trace_calls (ir_ToolCallsJSON result)))"

section \<open>The state of the scheduler\<close>

text \<open>
  The lease map, the deduplication of warnings with the warnings logged so far, the goroutines started
  and the database. A map of Go with boolean values is a function, false where it has no entry.
\<close>

record 'h scheduler =
  sc_busy :: "uuid \<Rightarrow> bool"
  sc_dailyAtWarned :: "string \<Rightarrow> bool"
  sc_warnings :: "string list"
  sc_spawned :: "(AgentTask \<times> 'h \<times> string) list"
  sc_sem :: nat
  sc_DB :: db

definition warn_once :: "string \<Rightarrow> 'h scheduler \<Rightarrow> 'h scheduler" where
  "warn_once key s =
     s\<lparr>sc_dailyAtWarned := (sc_dailyAtWarned s)(key := True),
       sc_warnings := sc_warnings s @ (if sc_dailyAtWarned s key then [] else [key])\<rparr>"

definition trySetBusy :: "uuid \<Rightarrow> (uuid \<Rightarrow> bool) \<Rightarrow> bool \<times> (uuid \<Rightarrow> bool)" where
  "trySetBusy i lease_map = (if lease_map i then (False, lease_map) else (True, lease_map(i := True)))"

definition setBusy :: "uuid \<Rightarrow> bool \<Rightarrow> (uuid \<Rightarrow> bool) \<Rightarrow> uuid \<Rightarrow> bool" where
  "setBusy i val lease_map = lease_map(i := val)"

section \<open>Not-before and daily gates\<close>

text \<open>The start time a task's configuration asks for: absent, malformed or an instant.\<close>

datatype start_config = NoStart | BadStart | StartAt gotime

definition start_config_of :: "AgentTask \<Rightarrow> start_config" where
  "start_config_of task =
     (case struct_members (t_Config task) of
        None \<Rightarrow> NoStart
      | Some kvs \<Rightarrow>
          (case str_field ''start_at'' kvs of
             None \<Rightarrow> NoStart
           | Some s \<Rightarrow>
               if trim_space s = [] then NoStart
               else case parse_rfc3339 (trim_space s) of None \<Rightarrow> BadStart | Some moment \<Rightarrow> StartAt moment))"

definition startAtGateOpen :: "(uuid \<Rightarrow> string) \<Rightarrow> AgentTask \<Rightarrow> gotime \<Rightarrow> 'h scheduler \<Rightarrow> bool \<times> 'h scheduler" where
  "startAtGateOpen uuid_text task now s =
     (case start_config_of task of
        NoStart \<Rightarrow> (True, s)
      | BadStart \<Rightarrow> (True, warn_once (uuid_text (t_ID task) @ '':start_at'') s)
      | StartAt moment \<Rightarrow> (\<not> now < moment, s))"

text \<open>
  Decoding \<open>{"daily_at": {"hour": H}}\<close> into nested pointers: a null resets a pointer, an object decodes
  into the struct already allocated. The outer \<open>None\<close> is a decoding error.
\<close>

definition all_values :: "string \<Rightarrow> (string \<times> json) list \<Rightarrow> json list" where
  "all_values name kvs = [v. (k, v) \<leftarrow> kvs, fold_name k = fold_name name]"

fun decode_hour :: "int option \<Rightarrow> json list \<Rightarrow> int option option" where
  "decode_hour h [] = Some h"
| "decode_hour h (JNull # vs) = decode_hour None vs"
| "decode_hour h (JNum n # vs) = decode_hour (Some n) vs"
| "decode_hour h (_ # vs) = None"

fun decode_daily :: "int option option \<Rightarrow> json list \<Rightarrow> int option option option" where
  "decode_daily p [] = Some p"
| "decode_daily p (JNull # vs) = decode_daily None vs"
| "decode_daily p (JObj kvs # vs) =
     (case decode_hour (case p of None \<Rightarrow> None | Some h \<Rightarrow> h) (all_values ''hour'' kvs) of
        None \<Rightarrow> None | Some h \<Rightarrow> decode_daily (Some h) vs)"
| "decode_daily p (_ # vs) = None"

text \<open>The hour, if the gate applies, and whether the value is malformed.\<close>

definition daily_config_of :: "AgentTask \<Rightarrow> int option \<times> bool" where
  "daily_config_of task =
     (case Option.bind (struct_members (t_Config task)) (\<lambda>kvs. decode_daily None (all_values ''daily_at'' kvs)) of
        None \<Rightarrow> (None, False)
      | Some None \<Rightarrow> (None, False)
      | Some (Some None) \<Rightarrow> (None, True)
      | Some (Some (Some h)) \<Rightarrow> if h < 0 \<or> h > 23 then (None, True) else (Some h, False))"

definition dailyAtHour :: "(uuid \<Rightarrow> string) \<Rightarrow> AgentTask \<Rightarrow> 'h scheduler \<Rightarrow> int option \<times> 'h scheduler" where
  "dailyAtHour uuid_text task s =
     (case daily_config_of task of
        (hour, malformed) \<Rightarrow> (hour, if malformed then warn_once (uuid_text (t_ID task)) s else s))"

text \<open>
  A location gives the offset from UTC in seconds at an instant. \<open>load\<close> is \<open>time.LoadLocation\<close>, \<open>resolve\<close>
  the host's \<open>ResolveTimezone\<close> for the soul in the context.
\<close>

type_synonym location = "gotime \<Rightarrow> int"

definition local_hour :: "location \<Rightarrow> gotime \<Rightarrow> int" where
  "local_hour loc t = ((t + loc t * second) div (60 * minute)) mod 24"

definition local_day :: "location \<Rightarrow> gotime \<Rightarrow> int" where
  "local_day loc t = (t + loc t * second) div (1440 * minute)"

definition TimezoneFor :: "(string \<Rightarrow> location option) \<Rightarrow> (uuid \<Rightarrow> string) option \<Rightarrow> uuid \<Rightarrow> location \<Rightarrow> location" where
  "TimezoneFor load resolve soul def =
     (case resolve of
        None \<Rightarrow> def
      | Some f \<Rightarrow> if f soul = [] then def else (case load (f soul) of Some loc \<Rightarrow> loc | None \<Rightarrow> def))"

text \<open>The configuration, when there is one: the process time zone and the resolver.\<close>

definition owner_location ::
    "(string \<Rightarrow> location option) \<Rightarrow> (string \<times> (uuid \<Rightarrow> string) option) option \<Rightarrow> uuid \<Rightarrow> location" where
  "owner_location load config soul =
     (case config of
        None \<Rightarrow> (\<lambda>_. 0)
      | Some (tz, resolve) \<Rightarrow>
          TimezoneFor load resolve soul (case load tz of Some loc \<Rightarrow> loc | None \<Rightarrow> (\<lambda>_. 0)))"

definition daily_open :: "location \<Rightarrow> int option \<Rightarrow> AgentTask \<Rightarrow> gotime \<Rightarrow> bool" where
  "daily_open loc hour task now =
     (case hour of
        None \<Rightarrow> True
      | Some h \<Rightarrow> local_hour loc now = h \<and>
          (case t_LastRunAt task of None \<Rightarrow> True | Some r \<Rightarrow> local_day loc r \<noteq> local_day loc now))"

section \<open>The environment of a tick\<close>

record 'h sched_env =
  se_handlers :: "string \<Rightarrow> 'h option"
  se_strategyHandlers :: "string \<Rightarrow> 'h option"
  se_AuthorizeExecution :: "(AgentTask \<Rightarrow> string + bool) option"
  se_DueEarly :: "(gotime \<Rightarrow> AgentTask list \<Rightarrow> (uuid \<Rightarrow> bool) option) option"
  se_load :: "string \<Rightarrow> location option"
  se_config :: "(string \<times> (uuid \<Rightarrow> string) option) option"
  se_decode :: "json \<Rightarrow> TaskProgram option"
  se_uuid_text :: "uuid \<Rightarrow> string"

definition task_location :: "'h sched_env \<Rightarrow> AgentTask \<Rightarrow> location" where
  "task_location env task = owner_location (se_load env) (se_config env) (t_SoulID task)"

definition dailyGateOpen :: "'h sched_env \<Rightarrow> AgentTask \<Rightarrow> gotime \<Rightarrow> 'h scheduler \<Rightarrow> bool \<times> 'h scheduler" where
  "dailyGateOpen env task now s =
     (case dailyAtHour (se_uuid_text env) task s of
        (hour, s') \<Rightarrow> (daily_open (task_location env task) hour task now, s'))"

definition executionAllowed :: "'h sched_env \<Rightarrow> AgentTask \<Rightarrow> bool" where
  "executionAllowed env task =
     (case se_AuthorizeExecution env of
        None \<Rightarrow> True
      | Some authorize \<Rightarrow> (case authorize task of Inl _ \<Rightarrow> False | Inr allowed \<Rightarrow> allowed))"

definition resolveHandler :: "'h sched_env \<Rightarrow> AgentTask \<Rightarrow> ('h \<times> string) option" where
  "resolveHandler env task =
     (if t_Handler task \<noteq> [] then
        map_option (\<lambda>h. (h, ''handler:'' @ t_Handler task)) (se_handlers env (t_Handler task))
      else if t_Strategy task \<noteq> [] \<and> t_Strategy task \<noteq> StrategyRecurring then
        map_option (\<lambda>h. (h, ''strategy:'' @ t_Strategy task)) (se_strategyHandlers env (t_Strategy task))
      else None)"

definition waits_for_schedule :: "gotime \<Rightarrow> AgentTask \<Rightarrow> bool" where
  "waits_for_schedule now task =
     (case (t_Schedule task, t_LastRunAt task) of
        (Some c, Some r) \<Rightarrow> (case ParseDuration c of None \<Rightarrow> False | Some d \<Rightarrow> \<not> durationDue (time_sub now r) d)
      | _ \<Rightarrow> False)"

definition recurringDueEarly :: "'h sched_env \<Rightarrow> AgentTask list \<Rightarrow> gotime \<Rightarrow> uuid \<Rightarrow> bool" where
  "recurringDueEarly env tasks now =
     (case se_DueEarly env of
        None \<Rightarrow> (\<lambda>_. False)
      | Some dueEarly \<Rightarrow>
          let waiting = filter (waits_for_schedule now) tasks in
          if waiting = [] then (\<lambda>_. False)
          else case dueEarly now waiting of None \<Rightarrow> (\<lambda>_. False) | Some due \<Rightarrow> due)"

section \<open>One tick\<close>

text \<open>
  One pass of the loop over the pending tasks; \<open>now k\<close> is the \<open>k\<close>-th reading of the clock in it.
\<close>

definition dispatch_task ::
    "'h sched_env \<Rightarrow> (uuid \<Rightarrow> bool) \<Rightarrow> clock \<Rightarrow> AgentTask \<Rightarrow> 'h scheduler \<Rightarrow> 'h scheduler" where
  "dispatch_task env early now task s =
     (case resolveHandler env task of
        None \<Rightarrow> s\<lparr>sc_DB := Fail (t_ID task)
            (''no dispatcher: handler='' @ t_Handler task @ '' strategy='' @ t_Strategy task) (sc_DB s)\<rparr>
      | Some (handler, tag) \<Rightarrow>
          if sc_busy s (t_ID task) then s
          else if t_Schedule task \<noteq> None \<and> \<not> shouldRunNow (now 0) task \<and> \<not> early (t_ID task) then s
          else if taskProgramInQuietHours (se_decode env) (local_hour (task_location env task) (now 1)) task then s
          else case startAtGateOpen (se_uuid_text env) task (now 2) s of
              (started, s) \<Rightarrow>
                if \<not> started then s
                else case dailyGateOpen env task (now 3) s of
                    (daily, s) \<Rightarrow>
                      if \<not> daily then s
                      else if \<not> cadenceElapsed (now 4) task then s
                      else if \<not> executionAllowed env task then s
                      else case trySetBusy (t_ID task) (sc_busy s) of
                          (ok, lease_map) \<Rightarrow>
                            if \<not> ok then s
                            else s\<lparr>sc_busy := lease_map, sc_spawned := sc_spawned s @ [(task, handler, tag)]\<rparr>)"

definition dispatch_loop ::
    "'h sched_env \<Rightarrow> (uuid \<Rightarrow> bool) \<Rightarrow> (nat \<Rightarrow> clock) \<Rightarrow> AgentTask list \<Rightarrow> 'h scheduler \<Rightarrow> 'h scheduler" where
  "dispatch_loop env early now tasks s =
     fold (\<lambda>(k, task). dispatch_task env early (now k) task) (enumerate 0 tasks) s"

text \<open>The end of \<open>Run\<close>: the pending tasks, the early runs the host asks for, the loop.\<close>

definition dispatch_pending :: "'h sched_env \<Rightarrow> gotime \<Rightarrow> gotime \<Rightarrow> (nat \<Rightarrow> clock) \<Rightarrow> 'h scheduler \<Rightarrow> 'h scheduler" where
  "dispatch_pending env query_now early_now now s =
     (let tasks = PendingTasks query_now (sc_DB s)
      in dispatch_loop env (recurringDueEarly env tasks early_now) now tasks s)"

definition maxConcurrentTasks :: nat where "maxConcurrentTasks = 8"

text \<open>
  The graph tasks: the loop ends when no slot is free, and gives the lease of that task back. A graph task
  runs under the installed runner, which has no dispatch tag.
\<close>

fun dispatch_graph ::
    "'h sched_env \<Rightarrow> 'h \<Rightarrow> (nat \<Rightarrow> gotime) \<Rightarrow> AgentTask list \<Rightarrow> 'h scheduler \<Rightarrow> 'h scheduler" where
  "dispatch_graph env runner now [] s = s"
| "dispatch_graph env runner now (task # tasks) s =
     (let next = (\<lambda>k. now (Suc k)) in
      if \<not> executionAllowed env task then dispatch_graph env runner next tasks s
      else case startAtGateOpen (se_uuid_text env) task (now 0) s of
          (started, s) \<Rightarrow>
            if \<not> started then dispatch_graph env runner next tasks s
            else case trySetBusy (t_ID task) (sc_busy s) of
                (ok, lease_map) \<Rightarrow>
                  if \<not> ok then dispatch_graph env runner next tasks s
                  else if sc_sem s < maxConcurrentTasks then
                    dispatch_graph env runner next tasks
                      (s\<lparr>sc_busy := lease_map, sc_sem := sc_sem s + 1, sc_spawned := sc_spawned s @ [(task, runner, [])]\<rparr>)
                  else s\<lparr>sc_busy := setBusy (t_ID task) False lease_map\<rparr>)"

definition dispatchGraphTasks ::
    "(json \<Rightarrow> string) \<Rightarrow> (string \<Rightarrow> gotime option) \<Rightarrow> 'h sched_env \<Rightarrow> 'h option \<Rightarrow> gotime \<Rightarrow> (nat \<Rightarrow> gotime) \<Rightarrow>
     'h scheduler \<Rightarrow> store_error + 'h scheduler" where
  "dispatchGraphTasks render timestamptz env graphRunner query_now now s =
     (case graphRunner of
        None \<Rightarrow> Inr s
      | Some runner \<Rightarrow>
          (case RunnableGraphTasks render timestamptz query_now (int maxConcurrentTasks * 2) (sc_DB s) of
             Inl e \<Rightarrow> Inl e
           | Inr tasks \<Rightarrow> Inr (dispatch_graph env runner now tasks s)))"

end
