(* ===== verification/Scheduler_Theorems.thy ===== *)
theory Scheduler_Theorems
  imports Task_Scheduler
begin

text \<open>
  Properties of dispatch: which tasks a tick starts, when an interval is due, and how many workers the
  lease map and the semaphore admit.
\<close>

section \<open>Intervals and gates\<close>

text \<open>
  The tolerance stays below the interval, so no positive interval is due at once; an interval of at most a
  second is due after half of it, a longer one a second early.
\<close>

lemma durationDue_window:
  assumes "durationDue elapsed interval" "0 < interval"
  shows "0 < elapsed" "interval - second \<le> elapsed" "interval \<le> second \<Longrightarrow> interval \<le> 2 * elapsed"
  using assms by (auto simp: durationDue_def scheduleDueTolerance_def Let_def split: if_splits)

lemma durationDue_reached: "interval \<le> elapsed \<Longrightarrow> durationDue elapsed interval"
  by (auto simp: durationDue_def scheduleDueTolerance_def Let_def)

lemma durationDue_mono: "durationDue elapsed interval \<Longrightarrow> elapsed \<le> later \<Longrightarrow> durationDue later interval"
  by (auto simp: durationDue_def Let_def split: if_splits)

text \<open>A task the host may bring forward is one whose schedule holds it back.\<close>

lemma waits_for_schedule_iff:
  "waits_for_schedule now task \<longleftrightarrow> t_Schedule task \<noteq> None \<and> \<not> shouldRunNow now task \<and>
     Option.bind (t_Schedule task) ParseDuration \<noteq> None"
  by (auto simp: waits_for_schedule_def shouldRunNow_def split: option.splits)

lemma daily_open_once:
  assumes "t_LastRunAt task = Some r" "local_day loc r = local_day loc now"
  shows "\<not> daily_open loc (Some h) task now"
  using assms by (simp add: daily_open_def)

lemma daily_open_next_day:
  assumes "t_LastRunAt task = Some r" "local_day loc r < local_day loc now" "local_hour loc now = h"
  shows "daily_open loc (Some h) task now"
  using assms by (simp add: daily_open_def)

text \<open>
  The not-before gate trims \<open>start_at\<close>, the wall-clock budget does not: a task asked to start at 21:14 with a
  space in the value waits for 21:14 and expires at half past twelve.
\<close>

definition evening_task :: AgentTask where
  "evening_task = (blank_task 1 7 1)\<lparr>t_Config := JObj [(''start_at'', JStr '' 2026-07-15T21:14:00Z'')],
     t_CreatedAt := (case parse_rfc3339 ''2026-07-15T12:00:00Z'' of Some c \<Rightarrow> c | None \<Rightarrow> 0)\<rparr>"

lemma untrimmed_start_at:
  "(case parse_rfc3339 ''2026-07-15T21:14:00Z'' of None \<Rightarrow> False | Some m \<Rightarrow> start_config_of evening_task = StartAt m) \<and>
   TaskWallDeadline evening_task 0 (30 * minute) = parse_rfc3339 ''2026-07-15T12:30:00Z''"
  by code_simp

section \<open>What a tick starts\<close>

definition admitted :: "'h sched_env \<Rightarrow> (uuid \<Rightarrow> bool) \<Rightarrow> clock \<Rightarrow> AgentTask \<Rightarrow> bool" where
  "admitted env early now task \<longleftrightarrow>
     (t_Schedule task \<noteq> None \<longrightarrow> shouldRunNow (now 0) task \<or> early (t_ID task)) \<and>
     \<not> taskProgramInQuietHours (se_decode env) (local_hour (task_location env task) (now 1)) task \<and>
     (case start_config_of task of StartAt moment \<Rightarrow> moment \<le> now 2 | _ \<Rightarrow> True) \<and>
     daily_open (task_location env task) (fst (daily_config_of task)) task (now 3) \<and>
     cadenceElapsed (now 4) task \<and> executionAllowed env task"

definition started :: "'h sched_env \<Rightarrow> (uuid \<Rightarrow> bool) \<Rightarrow> clock \<Rightarrow> (uuid \<Rightarrow> bool) \<Rightarrow> AgentTask \<Rightarrow> (AgentTask \<times> 'h \<times> string) list" where
  "started env early now held task =
     (case resolveHandler env task of
        None \<Rightarrow> []
      | Some (h, tag) \<Rightarrow> if \<not> held (t_ID task) \<and> admitted env early now task then [(task, h, tag)] else [])"

lemma warn_once_keeps [simp]:
  "sc_busy (warn_once k s) = sc_busy s" "sc_spawned (warn_once k s) = sc_spawned s" "sc_DB (warn_once k s) = sc_DB s"
  "sc_sem (warn_once k s) = sc_sem s"
  by (simp_all add: warn_once_def)

lemma startAtGateOpen_keeps:
  assumes "startAtGateOpen ut task now s = (b, s')"
  shows "sc_busy s' = sc_busy s" "sc_spawned s' = sc_spawned s" "sc_DB s' = sc_DB s" "sc_sem s' = sc_sem s"
    "b = (case start_config_of task of StartAt moment \<Rightarrow> moment \<le> now | _ \<Rightarrow> True)"
  using assms by (auto simp: startAtGateOpen_def split: start_config.splits)

lemma dailyGateOpen_keeps:
  assumes "dailyGateOpen env task now s = (b, s')"
  shows "sc_busy s' = sc_busy s" "sc_spawned s' = sc_spawned s" "sc_DB s' = sc_DB s" "sc_sem s' = sc_sem s"
    "b = daily_open (task_location env task) (fst (daily_config_of task)) task now"
  using assms by (auto simp: dailyGateOpen_def dailyAtHour_def split: prod.splits if_splits)

definition no_dispatcher :: "AgentTask \<Rightarrow> db \<Rightarrow> db" where
  "no_dispatcher task = Fail (t_ID task) (''no dispatcher: handler='' @ t_Handler task @ '' strategy='' @ t_Strategy task)"

text \<open>One pass: the state it leaves, whichever warnings it logged on the way.\<close>

lemma dispatch_task_effect:
  "sc_spawned (dispatch_task env early now task s) = sc_spawned s @ started env early now (sc_busy s) task"
  "sc_busy (dispatch_task env early now task s) =
     (\<lambda>i. sc_busy s i \<or> (\<exists>w \<in> set (started env early now (sc_busy s) task). t_ID (fst w) = i))"
  "sc_DB (dispatch_task env early now task s) =
     (if resolveHandler env task = None then no_dispatcher task (sc_DB s) else sc_DB s)"
proof -
  obtain b s1 where g1: "startAtGateOpen (se_uuid_text env) task (now 2) s = (b, s1)" by fastforce
  obtain c s2 where g2: "dailyGateOpen env task (now 3) s1 = (c, s2)" by fastforce
  note keep = startAtGateOpen_keeps [OF g1] dailyGateOpen_keeps [OF g2]
  show "sc_spawned (dispatch_task env early now task s) = sc_spawned s @ started env early now (sc_busy s) task"
    "sc_busy (dispatch_task env early now task s) =
       (\<lambda>i. sc_busy s i \<or> (\<exists>w \<in> set (started env early now (sc_busy s) task). t_ID (fst w) = i))"
    "sc_DB (dispatch_task env early now task s) =
       (if resolveHandler env task = None then no_dispatcher task (sc_DB s) else sc_DB s)"
    by (auto simp: dispatch_task_def started_def admitted_def no_dispatcher_def g1 g2 keep trySetBusy_def split: option.splits)
qed

lemma started_ids: "w \<in> set (started env early now held task) \<Longrightarrow> fst w = task"
  by (auto simp: started_def split: option.splits if_splits)

lemma started_cong:
  "held (t_ID task) = held' (t_ID task) \<Longrightarrow> started env early now held task = started env early now held' task"
  by (simp add: started_def split: option.splits)

definition all_started ::
    "'h sched_env \<Rightarrow> (uuid \<Rightarrow> bool) \<Rightarrow> (nat \<Rightarrow> clock) \<Rightarrow> (uuid \<Rightarrow> bool) \<Rightarrow> (nat \<times> AgentTask) list \<Rightarrow> (AgentTask \<times> 'h \<times> string) list" where
  "all_started env early now held kts = concat (map (\<lambda>(k, task). started env early (now k) held task) kts)"

lemma all_started_simps [simp]:
  "all_started env early now held [] = []"
  "all_started env early now held ((k, task) # kts) = started env early (now k) held task @ all_started env early now held kts"
  by (simp_all add: all_started_def)

lemma all_started_ids: "w \<in> set (all_started env early now held kts) \<Longrightarrow> fst w \<in> snd ` set kts"
  by (induction kts) (force dest: started_ids)+

text \<open>The loop over tasks with different ids: every pass sees the leases held at the start.\<close>

lemma dispatch_fold:
  assumes "distinct (map (\<lambda>p. t_ID (snd p)) kts)"
  shows "sc_spawned (fold (\<lambda>(k, task). dispatch_task env early (now k) task) kts s) =
      sc_spawned s @ all_started env early now (sc_busy s) kts \<and>
    sc_busy (fold (\<lambda>(k, task). dispatch_task env early (now k) task) kts s) =
      (\<lambda>i. sc_busy s i \<or> (\<exists>w \<in> set (all_started env early now (sc_busy s) kts). t_ID (fst w) = i)) \<and>
    sc_DB (fold (\<lambda>(k, task). dispatch_task env early (now k) task) kts s) =
      fold no_dispatcher (filter (\<lambda>t. resolveHandler env t = None) (map snd kts)) (sc_DB s)"
  using assms
proof (induction kts arbitrary: s)
  case (Cons kt kts)
  obtain k task where kt: "kt = (k, task)" by fastforce
  let ?s = "dispatch_task env early (now k) task s"
  have same: "started env early (now k') (sc_busy ?s) t = started env early (now k') (sc_busy s) t"
    if "(k', t) \<in> set kts" for k' t
  proof (rule started_cong)
    have "t_ID t \<noteq> t_ID task" using Cons.prems that by (force simp: kt)
    then show "sc_busy ?s (t_ID t) = sc_busy s (t_ID t)"
      using started_ids [of _ env early "now k" "sc_busy s" task] by (auto simp: dispatch_task_effect)
  qed
  then have rest: "all_started env early now (sc_busy ?s) kts = all_started env early now (sc_busy s) kts"
    unfolding all_started_def by (intro arg_cong [of _ _ concat] map_cong) auto
  have ids: "distinct (map (\<lambda>p. t_ID (snd p)) kts)" using Cons.prems by simp
  show ?case
    using Cons.IH [OF ids, of ?s] unfolding rest by (simp add: kt dispatch_task_effect bex_Un disj_assoc)
qed simp

lemma distinct_all_started:
  "distinct (map (\<lambda>p. t_ID (snd p)) kts) \<Longrightarrow> distinct (map (\<lambda>w. t_ID (fst w)) (all_started env early now held kts))"
proof (induction kts)
  case (Cons kt kts)
  obtain k task where kt: "kt = (k, task)" by fastforce
  let ?rest = "all_started env early now held kts"
  have out: "t_ID task \<notin> (\<lambda>w. t_ID (fst w)) ` set ?rest"
    using Cons.prems all_started_ids [of _ env early now held kts] by (force simp: kt)
  have "started env early (now k) held task = [] \<or> (\<exists>h tag. started env early (now k) held task = [(task, h, tag)])"
    by (auto simp: started_def split: option.splits)
  moreover have "distinct (map (\<lambda>w. t_ID (fst w)) ?rest)" using Cons by simp
  ultimately show ?case using out by (elim disjE exE) (simp_all add: kt)
qed simp

lemma distinct_PendingTasks: "keys_ok d \<Longrightarrow> distinct (map t_ID (PendingTasks now d))"
  by (auto simp: PendingTasks_def keys_ok_def distinct_map intro: inj_on_subset)

lemma enumerate_ids: "map (\<lambda>p. t_ID (snd p)) (enumerate n ts) = map t_ID ts"
  using map_map [of t_ID snd "enumerate n ts"] by (simp add: comp_def map_snd_enumerate)

section \<open>Workers\<close>

text \<open>
  A worker passes admission (the non-blocking \<open>select\<close> on the semaphore), runs with or without a slot and
  leaves: it frees its slot first and its lease last. Ticks, graph dispatch and workers interleave freely.
\<close>

datatype stage = Admission | HoldsSlot | Unslotted | Leaving

record pool =
  pl_busy :: "uuid \<Rightarrow> bool"
  pl_sem :: nat
  pl_workers :: "(uuid \<times> stage) list"

definition empty_pool :: pool where
  "empty_pool = \<lparr>pl_busy = (\<lambda>_. False), pl_sem = 0, pl_workers = []\<rparr>"

inductive pool_step :: "pool \<Rightarrow> pool \<Rightarrow> bool" where
  spawn: "trySetBusy i (pl_busy p) = (True, held) \<Longrightarrow>
    pool_step p (p\<lparr>pl_busy := held, pl_workers := pl_workers p @ [(i, Admission)]\<rparr>)"
| acquire: "pl_workers p = ws @ (i, Admission) # ws' \<Longrightarrow> pl_sem p < maxConcurrentTasks \<Longrightarrow>
    pool_step p (p\<lparr>pl_sem := pl_sem p + 1, pl_workers := ws @ (i, HoldsSlot) # ws'\<rparr>)"
| refuse: "pl_workers p = ws @ (i, Admission) # ws' \<Longrightarrow> \<not> pl_sem p < maxConcurrentTasks \<Longrightarrow>
    pool_step p (p\<lparr>pl_workers := ws @ (i, Leaving) # ws'\<rparr>)"
| exempt: "pl_workers p = ws @ (i, Admission) # ws' \<Longrightarrow>
    pool_step p (p\<lparr>pl_workers := ws @ (i, Unslotted) # ws'\<rparr>)"
| free_slot: "pl_workers p = ws @ (i, HoldsSlot) # ws' \<Longrightarrow>
    pool_step p (p\<lparr>pl_sem := pl_sem p - 1, pl_workers := ws @ (i, Leaving) # ws'\<rparr>)"
| finish: "pl_workers p = ws @ (i, Unslotted) # ws' \<Longrightarrow>
    pool_step p (p\<lparr>pl_workers := ws @ (i, Leaving) # ws'\<rparr>)"
| leave: "pl_workers p = ws @ (i, Leaving) # ws' \<Longrightarrow>
    pool_step p (p\<lparr>pl_busy := setBusy i False (pl_busy p), pl_workers := ws @ ws'\<rparr>)"

definition slots_used :: "pool \<Rightarrow> nat" where
  "slots_used p = length (filter (\<lambda>w. snd w = HoldsSlot) (pl_workers p))"

definition pool_ok :: "pool \<Rightarrow> bool" where
  "pool_ok p \<longleftrightarrow> distinct (map fst (pl_workers p)) \<and> (\<forall>i. pl_busy p i \<longleftrightarrow> i \<in> fst ` set (pl_workers p)) \<and>
     pl_sem p = slots_used p \<and> pl_sem p \<le> maxConcurrentTasks"

lemma pool_step_ok:
  assumes "pool_step p q" "pool_ok p" shows "pool_ok q"
  using assms
proof cases
  case (spawn i held)
  then show ?thesis using assms(2) by (auto simp: pool_ok_def trySetBusy_def slots_used_def split: if_splits) force
next
  case (leave ws i ws')
  then show ?thesis using assms(2) by (auto simp: pool_ok_def setBusy_def slots_used_def)
qed (use assms(2) in \<open>auto simp: pool_ok_def slots_used_def\<close>)

interpretation worker_pool: invariant_system "\<lambda>p. p = empty_pool" pool_step pool_ok
proof
  show "p = empty_pool \<Longrightarrow> pool_ok p" for p by (simp add: empty_pool_def pool_ok_def slots_used_def)
  show "pool_ok p \<Longrightarrow> pool_step p q \<Longrightarrow> pool_ok q" for p q by (rule pool_step_ok)
qed

text \<open>A pass of the dispatch loop takes at most one lease, and takes it as the step \<open>spawn\<close> does.\<close>

lemma dispatch_spawns:
  assumes "pl_busy p = sc_busy s"
  shows "sc_busy (dispatch_task env early now task s) = sc_busy s \<and> sc_spawned (dispatch_task env early now task s) = sc_spawned s \<or>
    (\<exists>h tag q. sc_spawned (dispatch_task env early now task s) = sc_spawned s @ [(task, h, tag)] \<and> pool_step p q \<and>
       pl_busy q = sc_busy (dispatch_task env early now task s) \<and> pl_workers q = pl_workers p @ [(t_ID task, Admission)])"
proof (cases "started env early now (sc_busy s) task")
  case Nil then show ?thesis by (simp add: dispatch_task_effect)
next
  case (Cons w ws)
  then obtain h tag where w: "started env early now (sc_busy s) task = [(task, h, tag)]" "\<not> sc_busy s (t_ID task)"
    by (auto simp: started_def split: option.splits if_splits)
  let ?q = "p\<lparr>pl_busy := (pl_busy p)(t_ID task := True), pl_workers := pl_workers p @ [(t_ID task, Admission)]\<rparr>"
  have "pool_step p ?q" using w(2) assms by (intro spawn) (simp add: trySetBusy_def)
  moreover have "pl_busy ?q = sc_busy (dispatch_task env early now task s)"
    by (auto simp: dispatch_task_effect w assms)
  ultimately show ?thesis by (intro disjI2 exI [of _ h] exI [of _ tag] exI [of _ ?q]) (simp add: dispatch_task_effect w)
qed

section \<open>Results\<close>

text \<open>A sample: of two recurring tasks one is due, the third task names no handler.\<close>

definition sample_env :: "unit sched_env" where
  "sample_env = \<lparr>se_handlers = (\<lambda>h. if h = ''background'' then Some () else None), se_strategyHandlers = (\<lambda>_. None),
     se_AuthorizeExecution = None, se_DueEarly = None, se_load = (\<lambda>_. None), se_config = None,
     se_decode = (\<lambda>_. None), se_uuid_text = (\<lambda>_. ''id'')\<rparr>"

definition sample_tick :: "unit scheduler" where
  "sample_tick = \<lparr>sc_busy = (\<lambda>_. False), sc_dailyAtWarned = (\<lambda>_. False), sc_warnings = [], sc_spawned = [], sc_sem = 0,
     sc_DB = empty_db\<lparr>agent_tasks :=
       [(blank_task 1 7 1)\<lparr>t_Schedule := Some ''5m'', t_LastRunAt := Some (4 * minute)\<rparr>,
        (blank_task 2 7 1)\<lparr>t_Schedule := Some ''5m'', t_LastRunAt := Some (6 * minute)\<rparr>,
        (blank_task 3 7 1)\<lparr>t_Handler := ''gone''\<rparr>]\<rparr>\<rparr>"

text \<open>
  (C21) A tick starts exactly the pending tasks that have a handler, are not leased and pass every gate at the
  moment the loop reaches them, each of them once and under its lease; the tasks without a handler fail, and
  nothing else changes in the database.
\<close>

theorem tick_starts_exactly:
  assumes "keys_ok (sc_DB s)"
  shows "let tasks = PendingTasks query_now (sc_DB s);
      new = all_started env (recurringDueEarly env tasks early_now) now (sc_busy s) (enumerate 0 tasks);
      s' = dispatch_pending env query_now early_now now s
    in sc_spawned s' = sc_spawned s @ new \<and> distinct (map (\<lambda>w. t_ID (fst w)) new) \<and>
       sc_busy s' = (\<lambda>i. sc_busy s i \<or> (\<exists>w \<in> set new. t_ID (fst w) = i)) \<and>
       sc_DB s' = fold no_dispatcher (filter (\<lambda>t. resolveHandler env t = None) tasks) (sc_DB s)"
proof -
  let ?tasks = "PendingTasks query_now (sc_DB s)" and ?early = "recurringDueEarly env (PendingTasks query_now (sc_DB s)) early_now"
  have ids: "distinct (map (\<lambda>p. t_ID (snd p)) (enumerate 0 ?tasks))"
    using distinct_PendingTasks [OF assms] by (simp add: enumerate_ids)
  show ?thesis
    using dispatch_fold [OF ids, of env ?early now s] distinct_all_started [OF ids, of env ?early now "sc_busy s"]
    by (simp add: dispatch_pending_def dispatch_loop_def Let_def map_snd_enumerate)
qed

theorem tick_starts_exactly_witness:
  "keys_ok (sc_DB sample_tick) \<and>
   map (\<lambda>w. t_ID (fst w)) (sc_spawned (dispatch_pending sample_env (10 * minute) (10 * minute) (\<lambda>_ _. 10 * minute) sample_tick)) = [1] \<and>
   map t_Status (agent_tasks (sc_DB (dispatch_pending sample_env (10 * minute) (10 * minute) (\<lambda>_ _. 10 * minute) sample_tick))) =
     [''pending'', ''pending'', ''failed'']"
proof -
  have keys: "keys_ok (sc_DB sample_tick)" by code_simp
  note tick = tick_starts_exactly [OF keys, of "10 * minute" sample_env "10 * minute" "\<lambda>_ _. 10 * minute", unfolded Let_def]
  have "map (\<lambda>w. t_ID (fst w)) (sc_spawned sample_tick @ all_started sample_env (recurringDueEarly sample_env
      (PendingTasks (10 * minute) (sc_DB sample_tick)) (10 * minute)) (\<lambda>_ _. 10 * minute) (sc_busy sample_tick)
      (enumerate 0 (PendingTasks (10 * minute) (sc_DB sample_tick)))) = [1]" by code_simp
  moreover have "map t_Status (agent_tasks (fold no_dispatcher (filter (\<lambda>t. resolveHandler sample_env t = None)
      (PendingTasks (10 * minute) (sc_DB sample_tick))) (sc_DB sample_tick))) = [''pending'', ''pending'', ''failed'']" by code_simp
  ultimately show ?thesis using keys tick by metis
qed

text \<open>
  (C22) However ticks and workers interleave, a task has at most one worker in the process, a task is leased
  exactly while it has one, and at most eight workers hold a slot.
\<close>

theorem worker_exclusion:
  assumes "reachable_from (\<lambda>p. p = empty_pool) pool_step p"
  shows "distinct (map fst (pl_workers p)) \<and> (\<forall>i. pl_busy p i \<longleftrightarrow> i \<in> fst ` set (pl_workers p)) \<and>
    pl_sem p = slots_used p \<and> slots_used p \<le> 8"
  using worker_pool.reachable_inv [OF assms] by (simp add: pool_ok_def maxConcurrentTasks_def)

theorem worker_exclusion_witness:
  "\<exists>p. reachable_from (\<lambda>p. p = empty_pool) pool_step p \<and> map fst (pl_workers p) = [7] \<and> slots_used p = 1 \<and> pl_sem p = slots_used p"
proof -
  let ?p = "\<lparr>pl_busy = (\<lambda>_. False)(7 := True), pl_sem = 0, pl_workers = [(7, Admission)]\<rparr>"
  let ?q = "?p\<lparr>pl_sem := 1, pl_workers := [(7, HoldsSlot)]\<rparr>"
  have "pool_step empty_pool ?p"
    using spawn [of 7 empty_pool "(\<lambda>_. False)(7 := True)"] by (simp add: trySetBusy_def empty_pool_def)
  moreover have "pool_step ?p ?q" using acquire [of ?p "[]" 7 "[]"] by (simp add: maxConcurrentTasks_def)
  ultimately have "reachable_from (\<lambda>p. p = empty_pool) pool_step ?q" by (blast intro: reachable_from.intros)
  then show ?thesis using worker_exclusion [of ?q] by (intro exI [of _ ?q]) (simp add: slots_used_def)
qed

end
