(* ===== verification/Review_Verdict.thy ===== *)
theory Review_Verdict
  imports Prelude
begin

text \<open>
  What a review of a result says: the verdicts of \<open>internal/agenttask/evaluator.go\<close>. The scheduler, the graph
  validation and the grounding audit share them.
\<close>

record ClaimGrounding =
  cg_Claim :: string
  cg_ClaimType :: string
  cg_Status :: string
  cg_SupportingDocURL :: string
  cg_SupportingSpan :: string
  cg_Issue :: string

record GroundingPartAudit =
  pa_TargetHash :: string
  pa_Claims :: "ClaimGrounding list"

record GroundingVerdict =
  gv_AuditedParts :: "GroundingPartAudit list"
  gv_RetryDelay :: duration
  gv_Met :: bool
  gv_Unavailable :: bool
  gv_Reason :: string
  gv_Claims :: "ClaimGrounding list"
  gv_TotalCount :: int
  gv_GroundedCount :: int
  gv_PartialCount :: int
  gv_UngroundedCount :: int
  gv_RecheckURLs :: "string list"

record AcceptanceVerdict =
  av_RetryDelay :: duration
  av_Met :: bool
  av_Reason :: string
  av_Unavailable :: bool
  av_Grounding :: "GroundingVerdict option"
  av_GroundingInputHash :: string

text \<open>The zero values of the two verdicts.\<close>

definition no_verdict :: GroundingVerdict where
  "no_verdict = \<lparr>gv_AuditedParts = [], gv_RetryDelay = 0, gv_Met = False, gv_Unavailable = False, gv_Reason = [],
     gv_Claims = [], gv_TotalCount = 0, gv_GroundedCount = 0, gv_PartialCount = 0, gv_UngroundedCount = 0, gv_RecheckURLs = []\<rparr>"

definition no_acceptance :: AcceptanceVerdict where
  "no_acceptance = \<lparr>av_RetryDelay = 0, av_Met = False, av_Reason = [], av_Unavailable = False, av_Grounding = None,
     av_GroundingInputHash = []\<rparr>"

definition recheck_urls :: "AcceptanceVerdict \<Rightarrow> string list" where
  "recheck_urls v = (case av_Grounding v of None \<Rightarrow> [] | Some g \<Rightarrow> gv_RecheckURLs g)"

lemmas verdict_defs = no_verdict_def no_acceptance_def

end
