(* ===== verification/Task_Iteration.thy ===== *)
theory Task_Iteration
  imports Review_Verdict Task_Scheduler Task_Tools Notify_Delivery
begin

text \<open>
  One iteration of a version-1 task and the loop around it: \<open>executeTaskOnce\<close> and \<open>runTask\<close> of
  \<open>internal/agenttask/scheduler.go\<close>, \<open>expireTask\<close> and the deadline maintenance of \<open>deadline.go\<close>, the skill
  router of \<open>router.go\<close> and the feedback of \<open>evaluator.go\<close>. The handler, the acceptance review and the
  router's model call are parameters; telemetry, hooks of the host and the audit row are left out.
\<close>

section \<open>Parameters\<close>

text \<open>
  The localized texts are \<open>fmt.Sprintf\<close> of configured formats on the title, and for the partial result on
  the short id. \<open>ie_expired\<close> tells when the context of a confirmation runs out.
\<close>

record ui_texts =
  ui_TaskStoppedEmpty :: "string \<Rightarrow> string"
  ui_TaskEmptyResult :: "string \<Rightarrow> string"
  ui_TaskPartial :: "string \<Rightarrow> string \<Rightarrow> string"
  ui_TaskProgressQueued :: "string \<Rightarrow> string"
  ui_TaskProgressRunning :: "string \<Rightarrow> string"
  ui_TaskDeadline :: "string \<Rightarrow> string"

record iteration_env =
  ie_ext :: external
  ie_ui :: ui_texts
  ie_msg :: "goerror \<Rightarrow> string"
  ie_parse_uuid :: "string \<Rightarrow> uuid option"
  ie_validator :: "(AgentTask \<Rightarrow> TaskDeliveryRef list \<Rightarrow> goerror + bool) option"
  ie_notify :: "transport option"
  ie_journal :: bool
  ie_expired :: "nat \<Rightarrow> bool"
  ie_allowed :: "AgentTask \<Rightarrow> bool"

abbreviation later :: "nat \<Rightarrow> clock \<Rightarrow> clock" where
  "later n clk \<equiv> (\<lambda>k. clk (n + k))"

section \<open>Expiry\<close>

definition finalize_in :: "iteration_env \<Rightarrow> clock \<Rightarrow> uuid \<Rightarrow> uuid \<Rightarrow> TaskFinalization \<Rightarrow> db \<Rightarrow> TaskArtifact option tx" where
  "finalize_in env clk new i fin d =
     FinalizeTask (ext_sha256 (ie_ext env)) (ext_sprintf3 (ie_ext env)) (ext_render (ie_ext env)) (ext_coll (ie_ext env))
       uuid_Nil clk new i fin d"

definition short_id :: "iteration_env \<Rightarrow> AgentTask \<Rightarrow> string" where
  "short_id env task = take 8 (ext_uuid_text (ie_ext env) (t_ID task))"

definition expiry :: "iteration_env \<Rightarrow> AgentTask \<Rightarrow> gotime \<Rightarrow> TaskFinalization" where
  "expiry env task now = (blank_finalization ''partial'')\<lparr>fin_Reason := TaskDeadlineExceeded, fin_ExpiredAt := Some now,
     fin_EmptyBody := ui_TaskStoppedEmpty (ie_ui env) (t_Title task),
     fin_Notify := ui_TaskPartial (ie_ui env) (t_Title task) (short_id env task),
     fin_EmptyNotify := ui_TaskStoppedEmpty (ie_ui env) (t_Title task)\<rparr>"

text \<open>The store implements the finalizer, so the branch of stores without one is not reached.\<close>

definition expireTask :: "iteration_env \<Rightarrow> clock \<Rightarrow> uuid \<Rightarrow> AgentTask \<Rightarrow> gotime \<Rightarrow> db \<Rightarrow> bool tx" where
  "expireTask env clk new task now d =
     (case finalize_in env clk new (t_ID task) (expiry env task now) d of
        Inl e \<Rightarrow> Inl e
      | Inr (None, d') \<Rightarrow> Inr (False, d')
      | Inr (Some _, d') \<Rightarrow> Inr (True, d'))"

definition expire_logged :: "iteration_env \<Rightarrow> clock \<Rightarrow> uuid \<Rightarrow> AgentTask \<Rightarrow> gotime \<Rightarrow> db \<Rightarrow> db" where
  "expire_logged env clk new task now d = (case expireTask env clk new task now d of Inl _ \<Rightarrow> d | Inr (_, d') \<Rightarrow> d')"

definition deadline_passed :: "AgentTask \<Rightarrow> gotime \<Rightarrow> bool" where
  "deadline_passed task now \<longleftrightarrow> (case t_Deadline task of None \<Rightarrow> False | Some dl \<Rightarrow> \<not> dl > now)"

section \<open>Notifications of an iteration\<close>

definition delivery_refs :: "IterationResult \<Rightarrow> TaskDeliveryRef list" where
  "delivery_refs result = (case ir_PendingDeliveries result of None \<Rightarrow> [] | Some rs \<Rightarrow> rs)"

definition deliver_in ::
    "iteration_env \<Rightarrow> clock \<Rightarrow> uuid \<Rightarrow> AgentTask \<Rightarrow> string \<Rightarrow> TaskDeliveryRef list \<Rightarrow> db \<Rightarrow> delivery" where
  "deliver_in env clk new task body refs d =
     deliverTaskNotification (ie_ext env) (ie_msg env) clk (ie_expired env) new
       (validatedTaskNotifier (ie_parse_uuid env) (ie_validator env) (ie_notify env) task refs) (ie_journal env)
       (t_ID task) (t_UserID task) body refs d"

definition deliverNotify :: "iteration_env \<Rightarrow> clock \<Rightarrow> uuid \<Rightarrow> AgentTask \<Rightarrow> IterationResult \<Rightarrow> db \<Rightarrow> delivery" where
  "deliverNotify env clk new task result d = deliver_in env clk new task (ir_Notify result) (delivery_refs result) d"

definition retry_disposition :: "AgentTask \<Rightarrow> IterationResult \<Rightarrow> delivery \<Rightarrow> bool \<Rightarrow> notificationFailureDisposition" where
  "retry_disposition task result dl retryUnkeyed =
     classifyNotificationFailure task (delivery_refs result) (dl_Delivered dl) (dl_Error dl) retryUnkeyed"

definition notifyTaskLifecycle :: "iteration_env \<Rightarrow> clock \<Rightarrow> uuid \<Rightarrow> AgentTask \<Rightarrow> string \<Rightarrow> db \<Rightarrow> delivery" where
  "notifyTaskLifecycle env clk new task stage d =
     (let ui = ie_ui env;
          text = (if stage = ''deadline'' then ui_TaskDeadline ui
                  else if t_LastRunAt task \<noteq> None \<or> t_Iteration task > 0 then ui_TaskProgressRunning ui
                  else ui_TaskProgressQueued ui)
      in deliver_in env clk new task (text (t_Title task)) [\<lparr>d_InputID = ''task_lifecycle'', d_ItemKey = stage\<rparr>] d)"

section \<open>Deadline maintenance\<close>

definition taskProgressAfter :: duration where "taskProgressAfter = 10 * minute"

definition taskWallTimeout :: "duration option \<Rightarrow> duration" where
  "taskWallTimeout configured = (case configured of Some l \<Rightarrow> if l > 0 then l else DefaultTaskWallTimeout | None \<Rightarrow> DefaultTaskWallTimeout)"

text \<open>
  One task of the maintenance loop at the fixed time \<open>now\<close> of the tick; \<open>clk\<close> and \<open>new\<close> are the clock and the
  attempt id of its transactions. An error ends the loop.
\<close>

definition maintain_task ::
    "iteration_env \<Rightarrow> duration option \<Rightarrow> gotime \<Rightarrow> clock \<times> uuid \<times> AgentTask \<Rightarrow> db \<Rightarrow> store_error + db" where
  "maintain_task env limit now p d =
     (case p of (clk, new, task) \<Rightarrow>
      if t_Status task = ''failed'' then Inr (dl_DB (notifyTaskLifecycle env clk new task ''deadline'' d))
      else case TaskWallDeadline task now (taskWallTimeout limit) of
          None \<Rightarrow> Inr d
        | Some deadline \<Rightarrow>
            let moved = t_Deadline task \<noteq> Some deadline;
                d1 = (if moved then SetTaskDeadline (t_ID task) deadline d else d);
                task1 = (if moved then task\<lparr>t_Deadline := Some deadline\<rparr> else task)
            in
            if \<not> deadline > now then
              (case expireTask env clk new task1 now d1 of Inl e \<Rightarrow> Inl e | Inr (_, d2) \<Rightarrow> Inr d2)
            else if \<not> periodic task1 \<and> \<not> TaskWallStart task1 now + taskProgressAfter > now then
              Inr (dl_DB (notifyTaskLifecycle env clk new task1 ''progress'' d1))
            else Inr d1)"

definition maintainTaskDeadlines ::
    "iteration_env \<Rightarrow> duration option \<Rightarrow> gotime \<Rightarrow> (nat \<Rightarrow> clock) \<Rightarrow> (nat \<Rightarrow> uuid) \<Rightarrow> db \<Rightarrow> store_error + db" where
  "maintainTaskDeadlines env limit now clk new d =
     foldM (\<lambda>(k, task). maintain_task env limit now (clk k, new k, task)) (enumerate 0 (DeadlineTasks d)) d"

definition maintainGraphDeadlines ::
    "iteration_env \<Rightarrow> gotime \<Rightarrow> (nat \<Rightarrow> clock) \<Rightarrow> (nat \<Rightarrow> uuid) \<Rightarrow> db \<Rightarrow> store_error + db" where
  "maintainGraphDeadlines env now clk new d =
     (case ExpiredGraphTasks now 100 d of
        Inl e \<Rightarrow> Inl e
      | Inr tasks \<Rightarrow>
          foldM (\<lambda>(k, task) d. case expireTask env (clk k) (new k) task now d of Inl e \<Rightarrow> Inl e | Inr (_, d') \<Rightarrow> Inr d')
            (enumerate 0 tasks) d)"

section \<open>Routing\<close>

record SkillMeta =
  sk_Slug :: string
  sk_Tags :: "string list"

text \<open>The note the router appends to acceptance criteria, as its UTF-8 bytes.\<close>

definition delivery_note :: string where
  "delivery_note = map (char_of :: nat \<Rightarrow> char)
     [10, 10, 91, 115, 121, 115, 116, 101, 109, 93, 32, 208, 148, 208, 190, 209, 129, 209, 130, 208, 176,
      208, 178, 208, 186, 208, 176, 32, 209, 129, 208, 190, 208, 190, 208, 177, 209, 137, 208, 181, 208,
      189, 208, 184, 209, 143, 32, 208, 191, 208, 190, 208, 187, 209, 140, 208, 183, 208, 190, 208, 178,
      208, 176, 209, 130, 208, 181, 208, 187, 209, 142, 32, 208, 178, 209, 139, 208, 191, 208, 190, 208,
      187, 208, 189, 209, 143, 208, 181, 209, 130, 209, 129, 209, 143, 32, 209, 129, 208, 184, 209, 129,
      209, 130, 208, 181, 208, 188, 208, 190, 208, 185, 32, 208, 159, 208, 158, 208, 161, 208, 155, 208,
      149, 32, 208, 183, 208, 176, 208, 178, 208, 181, 209, 128, 209, 136, 208, 181, 208, 189, 208, 184,
      209, 143, 32, 208, 183, 208, 176, 208, 180, 208, 176, 209, 135, 208, 184, 46, 32, 208, 157, 208, 181,
      32, 209, 130, 209, 128, 208, 181, 208, 177, 209, 131, 208, 185, 32, 208, 190, 209, 130, 32, 208, 183,
      208, 176, 208, 180, 208, 176, 209, 135, 208, 184, 32, 208, 178, 209, 139, 208, 183, 208, 190, 208,
      178, 208, 176, 32, 109, 101, 115, 115, 97, 103, 101, 95, 115, 101, 110, 100, 59, 32, 208, 183, 208,
      176, 208, 180, 208, 176, 209, 135, 208, 176, 32, 208, 178, 209, 139, 208, 191, 208, 190, 208, 187,
      208, 189, 208, 181, 208, 189, 208, 176, 44, 32, 208, 186, 208, 190, 208, 179, 208, 180, 208, 176, 32,
      208, 191, 209, 128, 208, 190, 208, 178, 208, 181, 209, 128, 208, 181, 208, 189, 208, 189, 209, 139,
      208, 185, 32, 112, 97, 121, 108, 111, 97, 100, 32, 208, 191, 208, 190, 208, 187, 209, 131, 209, 135,
      208, 181, 208, 189, 32, 208, 184, 32, 208, 178, 208, 190, 208, 183, 208, 178, 209, 128, 208, 176,
      209, 137, 209, 145, 208, 189, 32, 209, 128, 208, 181, 208, 183, 209, 131, 208, 187, 209, 140, 209,
      130, 208, 176, 209, 130, 208, 190, 208, 188, 46]"

definition trim_chars :: "char set \<Rightarrow> string \<Rightarrow> string" where
  "trim_chars cs s = rev (dropWhile (\<lambda>c. c \<in> cs) (rev (dropWhile (\<lambda>c. c \<in> cs) s)))"

text \<open>
  The members of a task's configuration that may still be routed. \<open>raw_text\<close> is the text of a member as
  the column holds it.
\<close>

definition routable_config :: "(json \<Rightarrow> string) \<Rightarrow> AgentTask \<Rightarrow> (string \<times> json) list option" where
  "routable_config raw_text task =
     (if t_Iteration task \<noteq> 0 \<or> t_Strategy task \<noteq> ''direct'' then None
      else case struct_members (t_Config task) of
          None \<Rightarrow> None
        | Some kvs \<Rightarrow>
            if (case map_of kvs ''skills'' of None \<Rightarrow> False | Some raw \<Rightarrow> length (raw_text raw) > 2) then None
            else if map_of kvs ''routed'' \<noteq> None then None
            else Some kvs)"

definition router_text :: "string \<Rightarrow> string" where
  "router_text reply = trim_chars {CHR 0x60, CHR 0x20, CHR 0x0A}
     (trim_prefix (trim_space reply) (replicate 3 (CHR 0x60) @ ''json''))"

definition routed_members :: "SkillMeta list \<Rightarrow> string \<Rightarrow> (string \<times> json) list \<Rightarrow> (string \<times> json) list" where
  "routed_members catalog skill kvs =
     (let kvs = set_member ''routed'' (JBool True) kvs in
      if skill = [] then kvs
      else
        let kvs = set_member ''skills'' (JArr [JStr skill]) kvs in
        if list_ex (\<lambda>sk. sk_Slug sk = skill \<and> list_ex (\<lambda>tag. tag = ''delivery'' \<or> tag = ''courier'') (sk_Tags sk)) catalog
        then set_member ''voice_handoff'' (JBool True) kvs else kvs)"

text \<open>
  \<open>catalog\<close> is the soul's skill catalog, absent when the hook, the model or the catalog is missing; \<open>ask\<close> is the
  model's reply, \<open>None\<close> for an error, and \<open>decode\<close> the JSON decoding of the two fields of its verdict.
\<close>

definition routeTaskSkill ::
    "(json \<Rightarrow> string) \<Rightarrow> SkillMeta list option \<Rightarrow> (AgentTask \<Rightarrow> string option) \<Rightarrow> (string \<Rightarrow> (string \<times> int) option) \<Rightarrow>
     AgentTask \<Rightarrow> db \<Rightarrow> AgentTask \<times> db" where
  "routeTaskSkill raw_text catalog ask decode task d =
     (case (routable_config raw_text task, catalog) of
        (Some kvs, Some skills) \<Rightarrow>
          if skills = [] then (task, d)
          else
            (case Option.bind (ask task) (\<lambda>reply. decode (router_text reply)) of
               None \<Rightarrow> (task, d)
             | Some (picked, iterations) \<Rightarrow>
                 let skill = trim_space picked;
                     skill = (if skill = [] \<or> list_ex (\<lambda>sk. sk_Slug sk = skill) skills then skill else []);
                     members = routed_members skills skill kvs;
                     task' = task\<lparr>t_Config := JObj members,
                       t_MaxIterations := (if skill \<noteq> [] \<and> iterations > 0 \<and> iterations < t_MaxIterations task
                         then iterations else t_MaxIterations task),
                       t_AcceptanceCriteria := (if map_of members ''voice_handoff'' \<noteq> None
                         then map_option (\<lambda>c. c @ delivery_note) (t_AcceptanceCriteria task) else t_AcceptanceCriteria task)\<rparr>
                 in (task', UpdateShaping (t_ID task) (t_Config task') (t_MaxIterations task') (t_AcceptanceCriteria task') d))
      | _ \<Rightarrow> (task, d))"

section \<open>Feedback of a rejected result\<close>

definition injectFeedback :: "json option \<Rightarrow> string \<Rightarrow> json option" where
  "injectFeedback progress reason =
     (if reason = [] then progress
      else case struct_members (jsonbObject progress) of
          None \<Rightarrow> progress
        | Some kvs \<Rightarrow> Some (JObj (set_member ''acceptance_feedback'' (JStr reason) kvs)))"

definition rejectionProgress :: "json \<Rightarrow> json option \<Rightarrow> string \<Rightarrow> json option" where
  "rejectionProgress previous current reason =
     injectFeedback (case current of Some (JObj kvs) \<Rightarrow> current | _ \<Rightarrow> Some previous) reason"

section \<open>Settling an iteration\<close>

text \<open>
  What an iteration leaves behind: whether the next one follows at once, the outcome of the audit row, the
  flags the completion hook sees, the transport calls and the database.
\<close>

record iteration =
  io_again :: bool
  io_Outcome :: string
  io_IsFinal :: bool
  io_Partial :: bool
  io_Calls :: "provider_call list"
  io_DB :: db

definition settled :: "string \<Rightarrow> db \<Rightarrow> iteration" where
  "settled outcome d = \<lparr>io_again = False, io_Outcome = outcome, io_IsFinal = False, io_Partial = False, io_Calls = [], io_DB = d\<rparr>"

definition durableOneShot :: "AgentTask \<Rightarrow> bool" where
  "durableOneShot task \<longleftrightarrow> t_Schedule task = None \<and> t_Cadence task = None \<and> t_Strategy task \<noteq> StrategyRecurring"

definition has_criteria :: "AgentTask \<Rightarrow> bool" where
  "has_criteria task \<longleftrightarrow> t_Schedule task = None \<and>
     (case t_AcceptanceCriteria task of None \<Rightarrow> False | Some c \<Rightarrow> trim_space c \<noteq> [])"

text \<open>A failed notification of a scheduled task requeues it for the next tick.\<close>

definition notify_then ::
    "iteration_env \<Rightarrow> clock \<Rightarrow> uuid \<Rightarrow> AgentTask \<Rightarrow> IterationResult \<Rightarrow> bool \<Rightarrow> (db \<Rightarrow> iteration) \<Rightarrow> db \<Rightarrow> iteration" where
  "notify_then env clk new task result retryUnkeyed rest d =
     (let dl = deliverNotify env clk new task result d;
          out = (if retry_disposition task result dl retryUnkeyed = notificationFailureRetry
               then settled ''notify_failed'' (SetPendingForNotificationRetry (t_ID task) (dl_DB dl))
               else rest (dl_DB dl))
      in out\<lparr>io_Calls := dl_Calls dl @ io_Calls out\<rparr>)"

definition settle_pause :: "iteration_env \<Rightarrow> clock \<Rightarrow> uuid \<Rightarrow> AgentTask \<Rightarrow> IterationResult \<Rightarrow> db \<Rightarrow> iteration" where
  "settle_pause env clk new task result d =
     notify_then env clk new task result False
       (\<lambda>d. settled ''pause'' (PauseTask (t_ID task) (ir_Progress result) d)) d"

definition settle_continue :: "iteration_env \<Rightarrow> clock \<Rightarrow> uuid \<Rightarrow> AgentTask \<Rightarrow> IterationResult \<Rightarrow> db \<Rightarrow> iteration" where
  "settle_continue env clk new task result d =
     notify_then env clk new task result False
       (\<lambda>d. (settled ''continue'' (UpdateProgress (t_ID task) (ir_Progress result) d))
          \<lparr>io_again := t_Schedule task = None \<and> \<not> cadenceRunEnded task result\<rparr>) d"

text \<open>A durable task whose executor returned nothing stops with a partial result.\<close>

definition settle_empty ::
    "iteration_env \<Rightarrow> clock \<Rightarrow> uuid \<Rightarrow> gotime \<Rightarrow> AgentTask \<Rightarrow> IterationResult \<Rightarrow> db \<Rightarrow> iteration" where
  "settle_empty env clk new claim task result d =
     (let empty = ui_TaskEmptyResult (ie_ui env) (t_Title task) in
      case finalize_in env clk new (t_ID task) ((blank_finalization ''partial'')\<lparr>fin_Reason := ''empty_submission'',
             fin_ClaimStartedAt := Some claim, fin_Progress := ir_Progress result, fin_EmptyBody := empty,
             fin_EmptyNotify := empty, fin_Notify := ui_TaskPartial (ie_ui env) (t_Title task) (short_id env task)\<rparr>) d of
        Inl _ \<Rightarrow> settled ''failed'' d
      | Inr (None, d') \<Rightarrow> settled ''failed'' d'
      | Inr (Some _, d') \<Rightarrow> (settled ''empty_submission'' d')\<lparr>io_IsFinal := True, io_Partial := True\<rparr>)"

text \<open>
  The review could not run: the saved candidate waits for another review, and after the third attempt is kept
  as a partial result.
\<close>

definition settle_unavailable ::
    "iteration_env \<Rightarrow> clock \<Rightarrow> uuid \<Rightarrow> gotime \<Rightarrow> TaskSubmission option \<Rightarrow> AgentTask \<Rightarrow> IterationResult \<Rightarrow> string \<Rightarrow> db \<Rightarrow> iteration" where
  "settle_unavailable env clk new claim submission task result reason d =
     (let attempts = (case submission of None \<Rightarrow> 0 | Some s \<Rightarrow> sub_ReviewAttempts s) in
      if attempts \<ge> 2 then
        (case finalize_in env clk new (t_ID task) ((blank_finalization ''partial'')\<lparr>fin_Body := ir_Output result,
               fin_Reason := ''verification_unavailable'', fin_ClaimStartedAt := Some claim, fin_Progress := ir_Progress result,
               fin_Notify := ui_TaskPartial (ie_ui env) (t_Title task) (short_id env task)\<rparr>) d of
           Inl _ \<Rightarrow> settled ''verification_unavailable'' d
         | Inr (None, d') \<Rightarrow> settled ''verification_unavailable'' d'
         | Inr (Some _, d') \<Rightarrow> (settled ''verification_unavailable'' d')\<lparr>io_IsFinal := True, io_Partial := True\<rparr>)
      else
        settled ''verification_wait''
          (case DeferTaskVerification (t_ID task) claim reason (clk 0 + (attempts + 1) * (30 * second)) d of
             Inl _ \<Rightarrow> d | Inr (_, d') \<Rightarrow> d'))"

definition settle_rejected ::
    "gotime \<Rightarrow> AgentTask \<Rightarrow> IterationResult \<Rightarrow> AcceptanceVerdict \<Rightarrow> db \<Rightarrow> iteration" where
  "settle_rejected claim task result verdict d =
     (let progress = rejectionProgress (t_Progress task) (ir_Progress result) (av_Reason verdict);
          again = (t_Schedule task = None \<and> \<not> cadenceRunEnded task result)
      in
      if durableOneShot task then
        (case RejectTaskSubmission (t_ID task) claim progress (recheck_urls verdict) d of
           Inl _ \<Rightarrow> settled ''rejected'' d
         | Inr (_, d') \<Rightarrow> (settled ''rejected'' d')\<lparr>io_again := again\<rparr>)
      else (settled ''rejected'' (UpdateProgressWithRecheck (t_ID task) progress (recheck_urls verdict) d))\<lparr>io_again := again\<rparr>)"

definition settle_accepted ::
    "iteration_env \<Rightarrow> clock \<Rightarrow> uuid \<Rightarrow> gotime \<Rightarrow> AgentTask \<Rightarrow> IterationResult \<Rightarrow> db \<Rightarrow> iteration" where
  "settle_accepted env clk new claim task result d =
     (if durableOneShot task then
        (case finalize_in env clk new (t_ID task) ((blank_finalization ''completed'')\<lparr>fin_Body := ir_Output result,
               fin_Notify := ir_Notify result, fin_Progress := ir_Progress result, fin_ClaimStartedAt := Some claim,
               fin_PendingDeliveries := delivery_refs result\<rparr>) d of
           Inl _ \<Rightarrow> settled ''failed'' d
         | Inr (None, d') \<Rightarrow> settled ''failed'' d'
         | Inr (Some _, d') \<Rightarrow> (settled ''done'' d')\<lparr>io_IsFinal := True\<rparr>)
      else
        notify_then env clk new task result True
          (\<lambda>d. case Complete (clk 2) (t_ID task) (ir_Output result) d of
             Inl _ \<Rightarrow> settled ''failed'' d
           | Inr (_, d') \<Rightarrow>
               (settled ''done'' (if t_Schedule task \<noteq> None then ResetForNextRun (t_ID task) d' else d'))\<lparr>io_IsFinal := True\<rparr>) d)"

text \<open>The handler says it is done: save the candidate, have it reviewed, act on the verdict.\<close>

definition settle_done ::
    "iteration_env \<Rightarrow> (AgentTask \<Rightarrow> string \<Rightarrow> json option \<Rightarrow> AcceptanceVerdict) \<Rightarrow> clock \<Rightarrow> uuid \<Rightarrow> gotime \<Rightarrow> TaskSubmission option \<Rightarrow>
     AgentTask \<Rightarrow> IterationResult \<Rightarrow> db \<Rightarrow> iteration" where
  "settle_done env evaluate clk new claim submission task result d =
     (if durableOneShot task \<and> trim_space (ir_Output result) = [] then settle_empty env clk new claim task result d
      else case (if durableOneShot task \<and> submission = None then SaveTaskSubmission (clk 0) (t_ID task) claim result d
                 else Inr ((), d)) of
          Inl _ \<Rightarrow> settled ''failed'' d
        | Inr (_, d1) \<Rightarrow>
            if \<not> has_criteria task then settle_accepted env (later 1 clk) new claim task result d1
            else
              let verdict = evaluate task (ir_Output result) (ir_ToolCallsJSON result) in
              if deadline_passed task (clk 1) then
                settled ''failed'' (expire_logged env (later 3 clk) new task (clk 2) d1)
              else if av_Unavailable verdict \<and> durableOneShot task then
                settle_unavailable env (later 2 clk) new claim submission task result (av_Reason verdict) d1
              else if \<not> av_Met verdict then settle_rejected claim task result verdict d1
              else settle_accepted env (later 2 clk) new claim task result d1)"

definition settle ::
    "iteration_env \<Rightarrow> (AgentTask \<Rightarrow> string \<Rightarrow> json option \<Rightarrow> AcceptanceVerdict) \<Rightarrow> clock \<Rightarrow> uuid \<Rightarrow> gotime \<Rightarrow> TaskSubmission option \<Rightarrow>
     AgentTask \<Rightarrow> IterationResult \<Rightarrow> db \<Rightarrow> iteration" where
  "settle env evaluate clk new claim submission task result d =
     (if ir_Pause result then settle_pause env clk new task result d
      else if ir_Done result then settle_done env evaluate clk new claim submission task result d
      else settle_continue env clk new task result d)"

section \<open>One iteration\<close>

datatype 'h tool_setup = NoUsableTools string | ToolsInvalid goerror | ToolsReady "'h ToolRegistry"

text \<open>
  A handler with what its task's registry is built from (the parameters of \<open>task_registry\<close>), and the review.
  The handler may change the database through its tools and checkpoints.
\<close>

record 'h worker =
  wo_decode :: "json \<Rightarrow> TaskProgram option"
  wo_meta :: "string \<Rightarrow> tool_meta"
  wo_mcp :: "'h mcp_tool list option"
  wo_policy :: policy_answer
  wo_hour :: int
  wo_DefaultTools :: "string list"
  wo_base :: "'h ToolRegistry"
  wo_Run :: "AgentTask \<Rightarrow> 'h ToolRegistry \<Rightarrow> db \<Rightarrow> (goerror + IterationResult) \<times> db"
  wo_evaluate :: "AgentTask \<Rightarrow> string \<Rightarrow> json option \<Rightarrow> AcceptanceVerdict"

definition tools_for :: "'h worker \<Rightarrow> AgentTask \<Rightarrow> 'h tool_setup" where
  "tools_for w task =
     (case taskRequestedTools (wo_decode w) task of
        Inl _ \<Rightarrow> ToolsInvalid (Plain ''task program'')
      | Inr requested \<Rightarrow>
          let names = (case requested of None \<Rightarrow> [] | Some ns \<Rightarrow> ns) in
          (case composeSoulTaskRegistry (wo_meta w) (wo_mcp w) (wo_policy w)
                  (taskProgramInQuietHours (wo_decode w) (wo_hour w) task) (t_SoulID task) (wo_base w) names of
             Inl e \<Rightarrow> ToolsInvalid (Plain e)
           | Inr base \<Rightarrow>
               let registry = registryForTask base (wo_DefaultTools w) requested in
               if requested \<noteq> None \<and> Count registry = 0 \<and> Count base > 0
               then NoUsableTools (''requested tools resolve to an empty registry: '' @ join '', '' names)
               else ToolsReady registry))"

text \<open>The delivery references of a saved candidate, or \<open>None\<close> when they do not decode.\<close>

definition decode_ref :: "json \<Rightarrow> TaskDeliveryRef option" where
  "decode_ref j =
     (case struct_members j of
        None \<Rightarrow> None
      | Some kvs \<Rightarrow>
          (case (str_field ''InputID'' kvs, str_field ''ItemKey'' kvs) of
             (Some i, Some k) \<Rightarrow> Some \<lparr>d_InputID = i, d_ItemKey = k\<rparr>
           | _ \<Rightarrow> None))"

fun decode_refs :: "json \<Rightarrow> TaskDeliveryRef list option option" where
  "decode_refs JNull = Some None"
| "decode_refs (JArr js) =
     (if list_all (\<lambda>j. decode_ref j \<noteq> None) js then Some (Some (map (the \<circ> decode_ref) js)) else None)"
| "decode_refs _ = None"

definition submission_result :: "TaskSubmission \<Rightarrow> IterationResult option" where
  "submission_result s =
     (case decode_refs (sub_PendingDeliveries s) of
        None \<Rightarrow> None
      | Some refs \<Rightarrow> Some \<lparr>ir_Done = True, ir_Pause = False, ir_Progress = Some (sub_Progress s), ir_Output = sub_Output s,
          ir_Notify = sub_Notify s, ir_Notified = False, ir_IsFinal = False, ir_Partial = False,
          ir_ToolCallsJSON = Some (sub_ToolCalls s), ir_PendingDeliveries = refs\<rparr>)"

text \<open>The claim: the database-generated start of this run, or the database where the iteration stops.\<close>

definition begin_iteration :: "iteration_env \<Rightarrow> clock \<Rightarrow> uuid \<Rightarrow> AgentTask \<Rightarrow> db \<Rightarrow> db + (gotime \<times> db)" where
  "begin_iteration env clk new task d =
     (if deadline_passed task (clk 0) then Inl (expire_logged env (later 2 clk) new task (clk 1) d)
      else if \<not> ie_allowed env task then Inl d
      else case TrySetRunning (clk 1) (t_ID task) d of
          (won, d1) \<Rightarrow>
            if \<not> won then Inl d1
            else case find_task d1 (t_ID task) of
                None \<Rightarrow> Inl d1
              | Some row \<Rightarrow>
                  (case t_LastRunAt row of
                     None \<Rightarrow> Inl d1
                   | Some claim \<Rightarrow> if t_Status row \<noteq> ''running'' then Inl d1 else Inr (claim, d1)))"

text \<open>The result to settle: a saved candidate, the handler's, or an error. \<open>Inl\<close> stops the iteration.\<close>

definition produce_result ::
    "'h worker \<Rightarrow> gotime \<Rightarrow> AgentTask \<Rightarrow> db \<Rightarrow> db + (TaskSubmission option \<times> (goerror + IterationResult) \<times> db)" where
  "produce_result w now task d =
     (case tools_for w task of
        NoUsableTools reason \<Rightarrow> Inl (Fail (t_ID task) reason d)
      | setup \<Rightarrow>
          (case (if durableOneShot task then ReadTaskSubmission (t_ID task) d else None) of
             Some s \<Rightarrow>
               if sub_NextReviewAt s > now then Inl (SetPending (t_ID task) d)
               else (case submission_result s of None \<Rightarrow> Inl d | Some result \<Rightarrow> Inr (Some s, Inr result, d))
           | None \<Rightarrow>
               (case setup of
                  ToolsReady registry \<Rightarrow> (case wo_Run w task registry d of (r, d') \<Rightarrow> Inr (None, r, d'))
                | ToolsInvalid e \<Rightarrow> Inr (None, Inl e, d)
                | NoUsableTools reason \<Rightarrow> Inl d)))"

definition executeTaskOnce :: "iteration_env \<Rightarrow> 'h worker \<Rightarrow> clock \<Rightarrow> uuid \<Rightarrow> AgentTask \<Rightarrow> db \<Rightarrow> iteration" where
  "executeTaskOnce env w clk new task d =
     (case begin_iteration env clk new task d of
        Inl d' \<Rightarrow> settled [] d'
      | Inr (claim, d1) \<Rightarrow>
          (case produce_result w (clk 2) task d1 of
             Inl d' \<Rightarrow> settled [] d'
           | Inr (submission, result, d2) \<Rightarrow>
               if deadline_passed task (clk 3) then
                 settled ''failed'' (expire_logged env (later 5 clk) new task (clk 4) d2)
               else case result of
                   Inl _ \<Rightarrow> settled ''failed'' (SetPending (t_ID task) d2)
                 | Inr r \<Rightarrow> settle env (wo_evaluate w) (later 4 clk) new claim submission task r d2))"

section \<open>Back to back\<close>

text \<open>
  The loop of \<open>runTask\<close> once the slot is taken. The \<open>k\<close>-th iteration runs with its own clock, attempt id and
  worker, \<open>after k\<close> are the readings of the clock that follow it, and \<open>cancelled k\<close> tells whether the context is
  done then. The fuel bounds the iterations: \<open>None\<close> means the loop has not ended within it.
\<close>

fun run_iterations ::
    "nat \<Rightarrow> iteration_env \<Rightarrow> (nat \<Rightarrow> 'h worker) \<Rightarrow> (nat \<Rightarrow> clock) \<Rightarrow> (nat \<Rightarrow> clock) \<Rightarrow> (nat \<Rightarrow> uuid) \<Rightarrow> (nat \<Rightarrow> bool) \<Rightarrow> nat \<Rightarrow>
     AgentTask \<Rightarrow> db \<Rightarrow> db option" where
  "run_iterations 0 env w clk after new cancelled k task d = None"
| "run_iterations (Suc n) env w clk after new cancelled k task d =
     (let out = executeTaskOnce env (w k) (clk k) (new k) task d; d1 = io_DB out in
      if \<not> io_again out then Some d1
      else case find_task d1 (t_ID task) of
          None \<Rightarrow> Some d1
        | Some nxt \<Rightarrow>
            if t_Status nxt \<noteq> ''pending'' then Some d1
            else if t_MaxIterations nxt > 0 \<and> t_Iteration nxt \<ge> t_MaxIterations nxt then Some d1
            else if deadline_passed nxt (after k 0) then
              Some (expire_logged env (later 2 (after k)) (new k) nxt (after k 1) d1)
            else if cancelled k then Some d1
            else run_iterations n env w clk after new cancelled (Suc k) nxt d1)"

end
