(* ===== verification/Iteration_Theorems.thy ===== *)
theory Iteration_Theorems
  imports Task_Iteration Task_Sample
begin

text \<open>
  Properties of an iteration: nothing unaccepted is published, a replaced worker writes no result, the
  back-to-back loop ends, and deadline maintenance bounds every one-shot task.
\<close>

section \<open>Frames\<close>

text \<open>The journal operations leave the tasks and the submissions alone.\<close>

named_theorems keeps_tasks

lemma begin_tasks [keeps_tasks]:
  assumes "BeginNotificationAttempt sha now new i u msg refs d = Inr (v, d')"
  shows "agent_tasks d' = agent_tasks d \<and> agent_task_submissions d' = agent_task_submissions d"
  using assms by (auto simp: BeginNotificationAttempt_def Let_def split: if_splits sum.splits option.splits)

lemma resolve_dispatching_tasks [simp]:
  "agent_tasks (resolve_dispatching i f d) = agent_tasks d"
  "agent_task_submissions (resolve_dispatching i f d) = agent_task_submissions d"
  by (simp_all add: resolve_dispatching_def)

lemma confirm_tasks [keeps_tasks]:
  assumes "ConfirmNotificationAttempt um fmt now i r d = Inr (v, d')"
  shows "agent_tasks d' = agent_tasks d \<and> agent_task_submissions d' = agent_task_submissions d"
  using assms by (auto simp: ConfirmNotificationAttempt_def Let_def split: if_splits option.splits)

lemma confirm_tries_tasks:
  assumes "confirm_tries ext now expired k i r e d = (e', d')"
  shows "agent_tasks d' = agent_tasks d \<and> agent_task_submissions d' = agent_task_submissions d"
  using assms
proof (induction k arbitrary: e)
  case (Suc k)
  then show ?case by (auto split: sum.splits if_splits dest: keeps_tasks)
qed simp

lemma resolution_tasks [keeps_tasks]:
  "RejectNotificationAttempt now i rs d = Inr (v, d') \<Longrightarrow> agent_tasks d' = agent_tasks d \<and> agent_task_submissions d' = agent_task_submissions d"
  "DeferNotificationAttempt i rs retry d = Inr (v, d') \<Longrightarrow> agent_tasks d' = agent_tasks d \<and> agent_task_submissions d' = agent_task_submissions d"
  "MarkNotificationUncertain now i rs d = Inr (v, d') \<Longrightarrow> agent_tasks d' = agent_tasks d \<and> agent_task_submissions d' = agent_task_submissions d"
  by (auto simp: RejectNotificationAttempt_def DeferNotificationAttempt_def MarkNotificationUncertain_def Let_def
      split: if_splits option.splits)

lemma resolve_tasks:
  "agent_tasks (res_DB (resolveTaskNotificationAttempt ext msg now expired i answer d)) = agent_tasks d \<and>
   agent_task_submissions (res_DB (resolveTaskNotificationAttempt ext msg now expired i answer d)) = agent_task_submissions d"
  by (auto simp: resolveTaskNotificationAttempt_def Let_def split: sum.splits prod.splits option.splits
      dest: keeps_tasks confirm_tries_tasks)

lemma deliver_tasks [simp]:
  "agent_tasks (dl_DB (deliver_in env clk new task body refs d)) = agent_tasks d"
  "agent_task_submissions (dl_DB (deliver_in env clk new task body refs d)) = agent_task_submissions d"
  by (auto simp: deliver_in_def deliverTaskNotification_def resolve_tasks Let_def
      split: sum.splits prod.splits option.splits if_splits dest: keeps_tasks)

section \<open>Publishing\<close>

definition done_tasks :: "db \<Rightarrow> uuid set" where
  "done_tasks d = t_ID ` {t \<in> set (agent_tasks d). t_Status t = ''done''}"

definition completed_results :: "db \<Rightarrow> TaskArtifact list" where
  "completed_results d = filter (\<lambda>a. a_Outcome a = ''completed'') (agent_task_artifacts d)"

text \<open>No task became done and no completed result was stored.\<close>

definition unpublished :: "db \<Rightarrow> db \<Rightarrow> bool" where
  "unpublished d d' \<longleftrightarrow> done_tasks d' \<subseteq> done_tasks d \<and> completed_results d' = completed_results d"

definition legacy_task :: "uuid \<Rightarrow> db \<Rightarrow> bool" where
  "legacy_task i d \<longleftrightarrow> (\<forall>t \<in> set (agent_tasks d). t_ID t = i \<longrightarrow> t_ExecutorVersion t = 1)"

lemma unpublished_refl [simp]: "unpublished d d"
  by (simp add: unpublished_def)

lemma unpublished_trans: "unpublished d d' \<Longrightarrow> unpublished d' d'' \<Longrightarrow> unpublished d d''"
  by (auto simp: unpublished_def)

lemma unpublished_same:
  "agent_tasks d' = agent_tasks d \<Longrightarrow> agent_task_artifacts d' = agent_task_artifacts d \<Longrightarrow> unpublished d d'"
  by (simp add: unpublished_def done_tasks_def completed_results_def)

lemma unpublished_update:
  assumes "agent_tasks d' = update_where p f (agent_tasks d)" "completed_results d' = completed_results d"
    and "\<And>t. t_Status (f t) \<noteq> ''done''"
  shows "unpublished d d'"
  using assms by (auto simp: unpublished_def done_tasks_def set_update_where)

lemma finalize_partial:
  assumes "finalize_in env clk new i fin d = Inr (art, d')" "legacy_task i d" "fin_Outcome fin = ''partial''"
  shows "unpublished d d'"
proof -
  consider "d' = d" | task body where "find_task d i = Some task"
      "write_result (ext_sha256 (ie_ext env)) clk new task fin body d = Inr (art, d')"
    using finalizeTaskTx_Inr [OF assms(1) [unfolded finalize_in_def FinalizeTask_def]] by blast
  then show ?thesis
  proof cases
    case 1 then show ?thesis by simp
  next
    case (2 task body)
    note w = write_result_Inr [OF 2(2)]
    have v1: "\<not> TaskRunsToCompletion task"
      using find_task_SomeD [OF 2(1)] assms(2) by (auto simp: legacy_task_def TaskRunsToCompletion_def)
    have out: "result_outcome fin body \<in> {''partial'', ''blocked''}" using assms(3) by (simp add: result_outcome_def)
    then have "TaskTerminalStatus task (result_outcome fin body) = ''failed''" using v1 by (auto simp: TaskTerminalStatus_def)
    moreover have "completed_results d' = completed_results d"
      using w out by (auto simp: completed_results_def result_artifact_def)
    ultimately show ?thesis using w by (auto intro!: unpublished_update simp: finalized_task_def)
  qed
qed

lemma expire_unpublished: "legacy_task (t_ID task) d \<Longrightarrow> unpublished d (expire_logged env clk new task now d)"
  by (auto simp: expire_logged_def expireTask_def expiry_def blank_finalization_def
      split: sum.splits option.splits intro: finalize_partial)

lemma SaveTaskSubmission_tasks:
  assumes "SaveTaskSubmission now i claim r d = Inr (u, d')"
  shows "agent_tasks d' = agent_tasks d" "agent_task_artifacts d' = agent_task_artifacts d"
  using assms by (auto simp: SaveTaskSubmission_def Let_def split: if_splits)

lemma requeue_unpublished:
  "DeferTaskVerification i claim reason nxt d = Inr (u, d') \<Longrightarrow> unpublished d d'"
  "RejectTaskSubmission i claim progress urls d = Inr (u, d') \<Longrightarrow> unpublished d d'"
  "unpublished d (UpdateProgressWithRecheck i progress urls d)"
  by (auto simp: DeferTaskVerification_def RejectTaskSubmission_def UpdateProgressWithRecheck_def UpdateProgress_def
      requeued_def completed_results_def split: if_splits intro!: unpublished_update)

text \<open>An iteration that published nothing: no call, no final result other than a partial one.\<close>

definition withheld :: "db \<Rightarrow> iteration \<Rightarrow> bool" where
  "withheld d out \<longleftrightarrow> unpublished d (io_DB out) \<and> io_Calls out = [] \<and> (io_IsFinal out \<longrightarrow> io_Partial out)"

lemma withheld_settled: "unpublished d d' \<Longrightarrow> withheld d (settled outcome d')"
  by (simp add: withheld_def settled_def)

lemma settle_rejected_withheld: "withheld d (settle_rejected claim task result verdict d)"
  by (auto simp: withheld_def settle_rejected_def settled_def Let_def requeue_unpublished split: sum.splits)

lemma settle_unavailable_withheld:
  "legacy_task (t_ID task) d \<Longrightarrow> withheld d (settle_unavailable env clk new claim submission task result reason d)"
  by (auto simp: withheld_def settle_unavailable_def settled_def blank_finalization_def Let_def requeue_unpublished
      split: sum.splits option.splits intro: finalize_partial)

lemma settle_empty_withheld: "legacy_task (t_ID task) d \<Longrightarrow> withheld d (settle_empty env clk new claim task result d)"
  by (auto simp: withheld_def settle_empty_def settled_def blank_finalization_def Let_def
      split: sum.splits option.splits intro: finalize_partial)

lemma withheld_trans: "unpublished d d' \<Longrightarrow> withheld d' out \<Longrightarrow> withheld d out"
  by (auto simp: withheld_def intro: unpublished_trans)

text \<open>The verdict that lets a result through.\<close>

definition accepted :: "AgentTask \<Rightarrow> AcceptanceVerdict \<Rightarrow> bool" where
  "accepted task verdict \<longleftrightarrow> av_Met verdict \<and> \<not> (av_Unavailable verdict \<and> durableOneShot task)"

lemma settle_done_withheld:
  assumes "has_criteria task" "\<not> accepted task (evaluate task (ir_Output result) (ir_ToolCallsJSON result))" "legacy_task (t_ID task) d"
  shows "withheld d (settle_done env evaluate clk new claim submission task result d)"
proof (cases "durableOneShot task \<and> trim_space (ir_Output result) = []")
  case True then show ?thesis using settle_empty_withheld [OF assms(3)] by (simp add: settle_done_def)
next
  case False
  show ?thesis
  proof (cases "if durableOneShot task \<and> submission = None then SaveTaskSubmission (clk 0) (t_ID task) claim result d else Inr ((), d)")
    case (Inl e) with False show ?thesis by (auto simp: settle_done_def intro: withheld_settled)
  next
    case (Inr p)
    obtain u d1 where p: "p = (u, d1)" by (cases p)
    have same: "agent_tasks d1 = agent_tasks d" "agent_task_artifacts d1 = agent_task_artifacts d"
      using Inr by (auto simp: p split: if_splits dest: SaveTaskSubmission_tasks)
    then have un: "unpublished d d1" and v1: "legacy_task (t_ID task) d1"
      using assms(3) by (auto simp: legacy_task_def intro: unpublished_same)
    have "withheld d1 (settle_done env evaluate clk new claim submission task result d)"
      using False assms(1,2) Inr v1
      by (auto simp: settle_done_def p accepted_def Let_def settle_rejected_withheld
          intro: withheld_settled expire_unpublished settle_unavailable_withheld)
    then show ?thesis by (rule withheld_trans [OF un])
  qed
qed

section \<open>Lost claims\<close>

definition lost_claim :: "uuid \<Rightarrow> gotime \<Rightarrow> db \<Rightarrow> bool" where
  "lost_claim i claim d \<longleftrightarrow> \<not> (\<exists>t \<in> set (agent_tasks d). holds_claim i claim t)"

lemma finalize_lost:
  assumes "finalize_in env clk new i fin d = Inr (art, d')" "lost_claim i claim d" "fin_ClaimStartedAt fin = Some claim"
  shows "art = None \<and> d' = d"
proof -
  have "\<not> holds_claim i claim t" if "find_task d i = Some t" for t
    using assms(2) find_task_SomeD [OF that] by (auto simp: lost_claim_def)
  then show ?thesis
    using assms(1,3) find_task_SomeD
    by (auto simp: finalize_in_def FinalizeTask_def finalizeTaskTx_def holds_claim_def split: if_splits option.splits)
qed

lemma lost_claim_rows: "lost_claim i claim d \<Longrightarrow> rows_affected (holds_claim i claim) (agent_tasks d) = 0"
  by (auto simp: lost_claim_def rows_affected_def filter_empty_conv)

text \<open>Every way to settle a finished one-shot under a lost claim leaves the database as it was.\<close>

definition no_effect :: "db \<Rightarrow> iteration \<Rightarrow> bool" where
  "no_effect d out \<longleftrightarrow> io_DB out = d \<and> \<not> io_again out \<and> io_Calls out = [] \<and> \<not> io_IsFinal out"

lemma no_effect_settled [simp]: "no_effect d (settled outcome d)"
  by (simp add: no_effect_def settled_def)

lemma settle_lost:
  assumes "lost_claim (t_ID task) claim d" "durableOneShot task"
  shows "no_effect d (settle_empty env clk new claim task result d)"
    "no_effect d (settle_unavailable env clk new claim submission task result reason d)"
    "no_effect d (settle_rejected claim task result verdict d)"
    "no_effect d (settle_accepted env clk new claim task result d)"
  using assms lost_claim_rows [OF assms(1)]
  by (auto simp: no_effect_def settled_def settle_empty_def settle_unavailable_def settle_rejected_def settle_accepted_def
      DeferTaskVerification_def RejectTaskSubmission_def Let_def blank_finalization_def
      split: sum.splits option.splits dest: finalize_lost)

section \<open>Progress of a run\<close>

definition task_rows_of :: "uuid \<Rightarrow> db \<Rightarrow> AgentTask list" where
  "task_rows_of i d = filter (\<lambda>t. t_ID t = i) (agent_tasks d)"

lemma find_task_rows: "find_task d i = (case task_rows_of i d of [] \<Rightarrow> None | t # _ \<Rightarrow> Some t)"
proof -
  have "List.find P xs = (case filter P xs of [] \<Rightarrow> None | t # _ \<Rightarrow> Some t)" for P and xs :: "AgentTask list"
    by (induction xs) auto
  then show ?thesis by (simp add: find_task_def task_rows_of_def)
qed

lemma task_rows_of_update:
  assumes "\<And>t. p t \<Longrightarrow> t_ID (f t) = t_ID t"
  shows "task_rows_of i (d\<lparr>agent_tasks := update_where p f (agent_tasks d)\<rparr>) = update_where p f (task_rows_of i d)"
proof -
  have "filter (\<lambda>t. t_ID t = i) (update_where p f xs) = update_where p f (filter (\<lambda>t. t_ID t = i) xs)" for xs
    using assms by (induction xs) auto
  then show ?thesis by (simp add: task_rows_of_def)
qed

lemma task_rows_of_same: "agent_tasks d' = agent_tasks d \<Longrightarrow> task_rows_of i d' = task_rows_of i d"
  by (simp add: task_rows_of_def)

text \<open>
  What a handler must leave alone for the loop to end: the state, the count and the budget of its own
  task. Tools and checkpoints write other columns and other rows.
\<close>

definition run_state :: "AgentTask \<Rightarrow> string \<times> int \<times> int" where
  "run_state t = (t_Status t, t_Iteration t, t_MaxIterations t)"

definition handler_keeps :: "uuid \<Rightarrow> 'h worker \<Rightarrow> bool" where
  "handler_keeps i w \<longleftrightarrow> (\<forall>task registry d. map run_state (task_rows_of i (snd (wo_Run w task registry d))) =
     map run_state (task_rows_of i d))"

lemma begin_iteration_state:
  assumes "begin_iteration env clk new task d = Inr (claim, d1)" "task_rows_of (t_ID task) d = [t]"
  shows "map run_state (task_rows_of (t_ID task) d1) = [(''running'', t_Iteration t, t_MaxIterations t)]"
proof -
  obtain won d' where claim_row: "TrySetRunning (clk 1) (t_ID task) d = (won, d')" by (cases "TrySetRunning (clk 1) (t_ID task) d")
  have rows: "task_rows_of (t_ID task) d' = update_where (queue_claimable (clk 1) (t_ID task))
      (\<lambda>t. t\<lparr>t_Status := ''running'', t_LastRunAt := Some (clk 1)\<rparr>) [t]"
    using claim_row task_rows_of_update [of _ "\<lambda>t. t\<lparr>t_Status := ''running'', t_LastRunAt := Some (clk 1)\<rparr>" "t_ID task" d] assms(2)
    by (auto simp: TrySetRunning_def)
  have "d1 = d'" "\<exists>row. find_task d1 (t_ID task) = Some row \<and> t_Status row = ''running''"
    using assms(1) claim_row by (auto simp: begin_iteration_def split: if_splits option.splits)
  then show ?thesis using rows by (auto simp: find_task_rows run_state_def)
qed

lemma produce_result_state:
  assumes "produce_result w now task d = Inr (submission, r, d')" "handler_keeps i w"
  shows "map run_state (task_rows_of i d') = map run_state (task_rows_of i d)"
proof -
  have keep: "map run_state (task_rows_of i e') = map run_state (task_rows_of i e)" if "wo_Run w task registry e = (x, e')" for registry e x e'
    using assms(2) that unfolding handler_keeps_def by (metis snd_conv)
  show ?thesis
    using assms(1) by (auto simp: produce_result_def split: tool_setup.splits option.splits if_splits prod.splits dest!: keep)
qed

text \<open>An iteration that asks for the next one has counted itself and put the row back.\<close>

definition counted :: "uuid \<Rightarrow> db \<Rightarrow> db \<Rightarrow> bool" where
  "counted i d d' \<longleftrightarrow> (\<forall>n m. map run_state (task_rows_of i d) = [(''running'', n, m)] \<longrightarrow>
     map run_state (task_rows_of i d') = [(''pending'', n + 1, m)])"

lemma requeued_state:
  assumes "map run_state ts = [(''running'', n, m)]" "list_all p ts"
  shows "map run_state (update_where p (requeued progress urls) ts) = [(''pending'', n + 1, m)]"
  using assms by (cases ts) (auto simp: run_state_def requeued_def)

lemma running_requeued_counted:
  "counted i d (d\<lparr>agent_tasks := update_where (\<lambda>t. t_ID t = i \<and> t_Status t = ''running'') (requeued progress urls) (agent_tasks d)\<rparr>)"
  (is "counted i d ?d'")
  unfolding counted_def
proof (intro allI impI)
  fix n m assume run: "map run_state (task_rows_of i d) = [(''running'', n, m)]"
  have rows: "task_rows_of i ?d' =
      update_where (\<lambda>t. t_ID t = i \<and> t_Status t = ''running'') (requeued progress urls) (task_rows_of i d)"
    by (rule task_rows_of_update) (simp add: requeued_def)
  have "list_all (\<lambda>t. t_ID t = i) (task_rows_of i d)" by (simp add: task_rows_of_def list_all_iff)
  then have "list_all (\<lambda>t. t_ID t = i \<and> t_Status t = ''running'') (task_rows_of i d)"
    using run by (cases "task_rows_of i d") (auto simp: run_state_def)
  then show "map run_state (task_rows_of i ?d') = [(''pending'', n + 1, m)]"
    unfolding rows by (rule requeued_state [OF run])
qed

lemma UpdateProgress_counted:
  "counted i d (UpdateProgress i progress d)" "counted i d (UpdateProgressWithRecheck i progress urls d)"
  by (simp_all add: UpdateProgress_def UpdateProgressWithRecheck_def running_requeued_counted)

lemma RejectTaskSubmission_counted:
  assumes "RejectTaskSubmission i claim progress urls d = Inr (u, d')"
  shows "counted i d d'"
  unfolding counted_def
proof (intro allI impI)
  fix n m assume run: "map run_state (task_rows_of i d) = [(''running'', n, m)]"
  then obtain t where t: "task_rows_of i d = [t]" by (cases "task_rows_of i d") auto
  have "0 < rows_affected (holds_claim i claim) (agent_tasks d)" and
    d': "agent_tasks d' = update_where (holds_claim i claim) (requeued progress urls) (agent_tasks d)"
    using assms by (auto simp: RejectTaskSubmission_def split: if_splits)
  then obtain r where "r \<in> set (agent_tasks d)" "holds_claim i claim r" by (auto simp: rows_affected_pos)
  then have "r \<in> set (task_rows_of i d)" by (simp add: task_rows_of_def holds_claim_def)
  then have held: "list_all (holds_claim i claim) (task_rows_of i d)" using \<open>holds_claim i claim r\<close> by (simp add: t)
  have "task_rows_of i d' = update_where (holds_claim i claim) (requeued progress urls) (task_rows_of i d)"
    using task_rows_of_update [of "holds_claim i claim" "requeued progress urls" i d] d'
    by (simp add: task_rows_of_def requeued_def)
  then show "map run_state (task_rows_of i d') = [(''pending'', n + 1, m)]"
    using requeued_state [OF run held] by simp
qed

lemma counted_after: "agent_tasks d1 = agent_tasks d \<Longrightarrow> counted i d1 d' \<Longrightarrow> counted i d d'"
  by (simp add: counted_def task_rows_of_def)

lemma settle_continue_counted:
  "io_again (settle_continue env clk new task result d) \<Longrightarrow> counted (t_ID task) d (io_DB (settle_continue env clk new task result d))"
  by (auto simp: settle_continue_def notify_then_def settled_def deliverNotify_def Let_def split: if_splits
      intro: counted_after [OF _ UpdateProgress_counted(1)])

lemma settle_rejected_counted:
  "io_again (settle_rejected claim task result verdict d) \<Longrightarrow> counted (t_ID task) d (io_DB (settle_rejected claim task result verdict d))"
  by (auto simp: settle_rejected_def settled_def Let_def UpdateProgress_counted split: if_splits sum.splits
      dest: RejectTaskSubmission_counted)

lemma settle_stops:
  "\<not> io_again (settle_pause env clk new task result d)" "\<not> io_again (settle_empty env clk new claim task result d)"
  "\<not> io_again (settle_unavailable env clk new claim submission task result reason d)"
  "\<not> io_again (settle_accepted env clk new claim task result d)" "\<not> io_again (settled outcome d)"
  by (simp_all add: settle_pause_def settle_empty_def settle_unavailable_def settle_accepted_def notify_then_def settled_def
      Let_def split: sum.splits option.splits)

lemma settle_done_counted:
  assumes again: "io_again (settle_done env evaluate clk new claim submission task result d)"
  shows "counted (t_ID task) d (io_DB (settle_done env evaluate clk new claim submission task result d))"
proof -
  obtain u d1 where d1: "(if durableOneShot task \<and> submission = None then SaveTaskSubmission (clk 0) (t_ID task) claim result d else Inr ((), d)) = Inr (u, d1)"
    using again by (auto simp: settle_done_def settle_stops split: if_splits sum.splits)
  have same: "agent_tasks d1 = agent_tasks d" using d1 by (auto split: if_splits dest: SaveTaskSubmission_tasks)
  let ?v = "evaluate task (ir_Output result) (ir_ToolCallsJSON result)"
  have eq: "settle_done env evaluate clk new claim submission task result d = settle_rejected claim task result ?v d1"
    using again d1 unfolding settle_done_def by (auto simp: settle_stops Let_def split: if_splits)
  show ?thesis using again counted_after [OF same settle_rejected_counted] unfolding eq by blast
qed

lemma settle_counted:
  "io_again (settle env evaluate clk new claim submission task result d) \<Longrightarrow>
   counted (t_ID task) d (io_DB (settle env evaluate clk new claim submission task result d))"
  by (auto simp: settle_def settle_stops settle_done_counted settle_continue_counted split: if_splits)

lemma executeTaskOnce_counted:
  assumes again: "io_again (executeTaskOnce env w clk new task d)" and keeps: "handler_keeps (t_ID task) w"
    and row: "task_rows_of (t_ID task) d = [t]"
  shows "map run_state (task_rows_of (t_ID task) (io_DB (executeTaskOnce env w clk new task d))) =
    [(''pending'', t_Iteration t + 1, t_MaxIterations t)]"
proof -
  obtain claim d1 where d1: "begin_iteration env clk new task d = Inr (claim, d1)"
    using again by (auto simp: executeTaskOnce_def settle_stops split: sum.splits)
  obtain submission r d2 where d2: "produce_result w (clk 2) task d1 = Inr (submission, r, d2)"
    using again d1 by (auto simp: executeTaskOnce_def settle_stops split: sum.splits)
  have "\<not> deadline_passed task (clk 3)" "\<exists>result. r = Inr result"
    using again d1 d2 by (auto simp: executeTaskOnce_def settle_stops split: if_splits sum.splits)
  then obtain result where eq: "executeTaskOnce env w clk new task d =
      settle env (wo_evaluate w) (later 4 clk) new claim submission task result d2"
    using d1 d2 by (auto simp: executeTaskOnce_def)
  have "map run_state (task_rows_of (t_ID task) d2) = [(''running'', t_Iteration t, t_MaxIterations t)]"
    using begin_iteration_state [OF d1 row] produce_result_state [OF d2 keeps] by simp
  moreover have "counted (t_ID task) d2 (io_DB (executeTaskOnce env w clk new task d))"
    using settle_counted again unfolding eq .
  ultimately show ?thesis by (simp add: counted_def)
qed

lemma run_iterations_ends:
  assumes keeps: "\<And>k. handler_keeps i (w k)" and "t_ID task = i" "task_rows_of i d = [t]" "0 < t_MaxIterations t"
    and "nat (t_MaxIterations t - t_Iteration t) \<le> Suc n"
  shows "\<exists>d'. run_iterations (Suc n) env w clk after new cancelled k task d = Some d'"
  using assms(2-)
proof (induction n arbitrary: k task d t)
  case (0 k task d t)
  let ?out = "executeTaskOnce env (w k) (clk k) (new k) task d"
  have "t_MaxIterations nxt > 0 \<and> t_Iteration nxt \<ge> t_MaxIterations nxt"
    if "io_again ?out" "find_task (io_DB ?out) i = Some nxt" for nxt
    using executeTaskOnce_counted [OF that(1)] keeps 0 that(2)
    by (auto simp: find_task_rows run_state_def split: list.splits)
  then show ?case using 0 by (auto simp: Let_def split: option.splits)
next
  case (Suc n k task d t)
  let ?out = "executeTaskOnce env (w k) (clk k) (new k) task d"
  show ?case
  proof (cases "io_again ?out")
    case False then show ?thesis by (simp add: Let_def)
  next
    case True
    obtain nxt where nxt: "task_rows_of i (io_DB ?out) = [nxt]" "run_state nxt = (''pending'', t_Iteration t + 1, t_MaxIterations t)"
      using executeTaskOnce_counted [OF True] keeps Suc.prems by auto
    then have found: "find_task (io_DB ?out) (t_ID task) = Some nxt" and id: "t_ID nxt = i"
      using Suc.prems(1) find_task_SomeD [of "io_DB ?out" i nxt] by (auto simp: find_task_rows)
    have "\<exists>d'. run_iterations (Suc n) env w clk after new cancelled (Suc k) nxt (io_DB ?out) = Some d'"
      using nxt(2) Suc.prems by (intro Suc.IH [OF id nxt(1)]) (auto simp: run_state_def)
    then show ?thesis using found unfolding run_iterations.simps(2) [of "Suc n"] by (auto simp: Let_def simp del: run_iterations.simps)
  qed
qed

section \<open>Deadline maintenance\<close>

definition one_shot :: "AgentTask \<Rightarrow> bool" where
  "one_shot t \<longleftrightarrow> t_ExecutorVersion t = 1 \<and> unfinished t \<and> \<not> periodic t"

definition bounded_task :: "gotime \<Rightarrow> duration \<Rightarrow> AgentTask \<Rightarrow> bool" where
  "bounded_task now limit t \<longleftrightarrow>
     (one_shot t \<longrightarrow> (\<exists>dl. t_Deadline t = Some dl \<and> now < dl \<and> dl \<le> TaskWallStart t now + limit))"

text \<open>The row of one task was replaced, no other task changed.\<close>

definition set_row :: "AgentTask \<Rightarrow> db \<Rightarrow> db \<Rightarrow> bool" where
  "set_row v d d' \<longleftrightarrow> agent_tasks d' = map (\<lambda>t. if t_ID t = t_ID v then v else t) (agent_tasks d)"

lemma set_row_update:
  assumes "distinct (map t_ID (agent_tasks d))" "task \<in> set (agent_tasks d)" "agent_tasks d' = update_where p f (agent_tasks d)"
    and "\<And>t. p t \<Longrightarrow> t_ID t = t_ID task" "t_ID (if p task then f task else task) = t_ID task"
  shows "set_row (if p task then f task else task) d d'"
proof -
  let ?v = "if p task then f task else task"
  have only: "t = task" if "t \<in> set (agent_tasks d)" "t_ID t = t_ID task" for t
    using task_rows.same_key_same_row [OF assms(1)] that assms(2) by blast
  have "(if p t then f t else t) = (if t_ID t = t_ID ?v then ?v else t)" if "t \<in> set (agent_tasks d)" for t
  proof (cases "t_ID t = t_ID task")
    case True then show ?thesis using only [OF that True] assms(5) by presburger
  next
    case False then show ?thesis using assms(4) [of t] assms(5) by presburger
  qed
  then show ?thesis unfolding set_row_def assms(3) update_where_def by (rule map_cong [OF refl])
qed

lemma set_row_same: "distinct (map t_ID (agent_tasks d)) \<Longrightarrow> task \<in> set (agent_tasks d) \<Longrightarrow> agent_tasks d' = agent_tasks d \<Longrightarrow> set_row task d d'"
  using set_row_update [of d task d' "\<lambda>_. False" id] by (simp add: update_where_def)

lemma set_row_trans: "set_row u d d' \<Longrightarrow> set_row v d' d'' \<Longrightarrow> t_ID v = t_ID u \<Longrightarrow> set_row v d d''"
  by (auto simp: set_row_def)

lemma set_row_ids: "set_row v d d' \<Longrightarrow> map t_ID (agent_tasks d') = map t_ID (agent_tasks d)"
  by (auto simp: set_row_def)

lemma set_row_in: "set_row v d d' \<Longrightarrow> t_ID v \<in> t_ID ` set (agent_tasks d) \<Longrightarrow> v \<in> set (agent_tasks d')"
  by (auto simp: set_row_def)

lemma TaskWallStart_deadline [simp]: "TaskWallStart (t\<lparr>t_Deadline := x\<rparr>) now = TaskWallStart t now"
  by (simp add: TaskWallStart_def)

lemma periodic_deadline [simp]: "periodic (t\<lparr>t_Deadline := x\<rparr>) = periodic t"
  by (simp add: periodic_def)

lemma taskWallTimeout_pos: "0 < taskWallTimeout limit"
  by (auto simp: taskWallTimeout_def DefaultTaskWallTimeout_def split: option.splits)

lemma wall_deadline_bound:
  assumes "TaskWallDeadline t now limit = Some dl" "0 < limit"
  shows "\<not> periodic t \<Longrightarrow> dl \<le> TaskWallStart t now + limit" "t_Deadline t = Some x \<Longrightarrow> dl \<le> x"
  using assms by (auto simp: TaskWallDeadline_def Let_def split: if_splits option.splits)

lemma SetTaskDeadline_row:
  assumes "distinct (map t_ID (agent_tasks d))" "task \<in> set (agent_tasks d)"
    "t_ExecutorVersion task = 1" "unfinished task" "\<And>x. t_Deadline task = Some x \<Longrightarrow> dl < x"
  shows "set_row (task\<lparr>t_Deadline := Some dl\<rparr>) d (SetTaskDeadline (t_ID task) dl d)"
proof -
  let ?p = "\<lambda>t. t_ExecutorVersion t = 1 \<and> t_ID t = t_ID task \<and> unfinished t \<and> (case t_Deadline t of None \<Rightarrow> True | Some x \<Rightarrow> x > dl)"
  have "?p task" using assms(3-) by (auto split: option.splits)
  then show ?thesis
    using set_row_update [OF assms(1,2), of "SetTaskDeadline (t_ID task) dl d" ?p "\<lambda>t. t\<lparr>t_Deadline := Some dl\<rparr>"]
    by (simp add: SetTaskDeadline_def)
qed

lemma expireTask_row:
  assumes "distinct (map t_ID (agent_tasks d))" "row \<in> set (agent_tasks d)" "t_ID row = t_ID task"
    "expireTask env clk new task now d = Inr (b, d')" "t_ExecutorVersion row = 1" "unfinished row" "t_Deadline row = Some dl" "dl \<le> now"
  shows "\<exists>v. set_row v d d' \<and> t_ID v = t_ID task \<and> \<not> unfinished v"
proof -
  let ?fin = "expiry env task now"
  have found: "find_task d (t_ID task) = Some row"
    using task_rows.lookup_unique [OF assms(1,2)] assms(3) by (simp add: find_task_def task_rows.lookup_def)
  obtain art where fin: "finalize_in env clk new (t_ID task) ?fin d = Inr (art, d')"
    using assms(4) by (auto simp: expireTask_def split: sum.splits option.splits)
  have "finalize_in env clk new (t_ID task) ?fin d = write_result (ext_sha256 (ie_ext env)) clk new row ?fin
      (final_body (ext_sprintf3 (ie_ext env)) (ext_render (ie_ext env)) (ext_coll (ie_ext env)) ?fin row d) d"
    using assms(5-) found by (simp add: finalize_in_def FinalizeTask_def finalizeTaskTx_def expiry_def blank_finalization_def)
  then obtain body where w: "write_result (ext_sha256 (ie_ext env)) clk new row ?fin body d = Inr (art, d')" using fin by metis
  let ?g = "finalized_task (clk 0) (TaskTerminalStatus row (result_outcome ?fin body)) ?fin (result_artifact (clk 0) row ?fin body d)"
  have "set_row (?g row) d d'"
    using set_row_update [OF assms(1,2), of d' "\<lambda>t. t_ID t = t_ID row" ?g] write_result_Inr [OF w] by (simp add: finalized_task_def)
  moreover have "t_ID (?g row) = t_ID task" "\<not> unfinished (?g row)"
    using TaskTerminalStatus_terminal [of row "result_outcome ?fin body"] assms(3) by (auto simp: finalized_task_def unfinished_def)
  ultimately show ?thesis by blast
qed

lemma one_shot_wall: "one_shot t \<Longrightarrow> \<exists>dl. TaskWallDeadline t now limit = Some dl"
  by (auto simp: one_shot_def TaskWallDeadline_def TaskRunsToCompletion_def Let_def)

text \<open>One pass of the loop bounds the task it is about.\<close>

lemma maintain_task_row:
  assumes rows: "distinct (map t_ID (agent_tasks d))" "task \<in> set (agent_tasks d)"
    and ok: "maintain_task env limit now (clk, new, task) d = Inr d'"
    and task: "t_ExecutorVersion task = 1" "unfinished task \<or> t_Status task = ''failed''"
  shows "\<exists>v. set_row v d d' \<and> t_ID v = t_ID task \<and> bounded_task now (taskWallTimeout limit) v"
proof (cases "t_Status task = ''failed''")
  case True
  then have "set_row task d d'" using ok set_row_same [OF rows] by (auto simp: maintain_task_def notifyTaskLifecycle_def Let_def)
  then show ?thesis using True by (intro exI [of _ task]) (simp add: bounded_task_def one_shot_def unfinished_def)
next
  case False
  with task have live: "unfinished task" by simp
  show ?thesis
  proof (cases "TaskWallDeadline task now (taskWallTimeout limit)")
    case None
    then have "d' = d" "\<not> one_shot task" using ok False one_shot_wall [of task now "taskWallTimeout limit"]
      by (auto simp: maintain_task_def)
    then show ?thesis using set_row_same [OF rows] by (intro exI [of _ task]) (simp add: bounded_task_def)
  next
    case (Some dl)
    let ?moved = "t_Deadline task \<noteq> Some dl" and ?task = "task\<lparr>t_Deadline := Some dl\<rparr>"
    let ?d1 = "if ?moved then SetTaskDeadline (t_ID task) dl d else d"
    note bound = wall_deadline_bound [OF Some taskWallTimeout_pos]
    have eq: "?task = task" if "\<not> ?moved" using that by simp
    have row1: "set_row ?task d ?d1"
    proof (cases ?moved)
      case True
      then have "dl < x" if "t_Deadline task = Some x" for x using bound(2) that by fastforce
      then show ?thesis using SetTaskDeadline_row [OF rows task(1) live] True by simp
    next
      case False
      then show ?thesis using eq set_row_same [OF rows refl] by metis
    qed
    have t1: "(if ?moved then task\<lparr>t_Deadline := Some dl\<rparr> else task) = ?task" using eq by auto
    have rows1: "distinct (map t_ID (agent_tasks ?d1))" "?task \<in> set (agent_tasks ?d1)"
      using set_row_ids [OF row1] rows set_row_in [OF row1] by auto
    have ok': "(if \<not> dl > now then
         (case expireTask env clk new ?task now ?d1 of Inl e \<Rightarrow> Inl e | Inr (_, d2) \<Rightarrow> Inr d2)
       else if \<not> periodic ?task \<and> \<not> TaskWallStart ?task now + taskProgressAfter > now then
         Inr (dl_DB (notifyTaskLifecycle env clk new ?task ''progress'' ?d1))
       else Inr ?d1) = Inr d'"
      using ok False unfolding maintain_task_def by (simp only: prod.case Some option.case Let_def t1 if_False)
    show ?thesis
    proof (cases "dl > now")
      case True
      then have "agent_tasks d' = agent_tasks ?d1" using ok' by (auto simp: notifyTaskLifecycle_def Let_def split: if_splits)
      then have "set_row ?task d d'" using row1 by (simp add: set_row_def)
      moreover have "bounded_task now (taskWallTimeout limit) ?task" using True bound(1) by (simp add: bounded_task_def one_shot_def)
      ultimately show ?thesis by (intro exI [of _ ?task]) simp
    next
      case False
      then obtain b where expired: "expireTask env clk new ?task now ?d1 = Inr (b, d')" using ok' by (auto split: sum.splits)
      have "t_ExecutorVersion ?task = 1" "unfinished ?task" "t_Deadline ?task = Some dl" "dl \<le> now"
        using task(1) live False by (simp_all add: unfinished_def)
      from expireTask_row [OF rows1 refl expired this]
      obtain v where v: "set_row v ?d1 d'" "t_ID v = t_ID ?task" "\<not> unfinished v" by blast
      then show ?thesis using set_row_trans [OF row1] by (intro exI [of _ v]) (auto simp: bounded_task_def one_shot_def)
    qed
  qed
qed

lemma maintain_loop:
  assumes "foldM (\<lambda>(k, task). maintain_task env limit now (clk k, new k, task)) kts d = Inr d'"
    and "distinct (map t_ID (agent_tasks d))" "distinct (map (\<lambda>p. t_ID (snd p)) kts)"
    and "snd ` set kts \<subseteq> {t \<in> set (agent_tasks d). t_ExecutorVersion t = 1 \<and> (unfinished t \<or> t_Status t = ''failed'')}"
    and "t \<in> set (agent_tasks d')"
  shows "t_ID t \<in> t_ID ` snd ` set kts \<and> bounded_task now (taskWallTimeout limit) t \<or> t \<in> set (agent_tasks d) \<and> t_ID t \<notin> t_ID ` snd ` set kts"
  using assms
proof (induction kts arbitrary: d)
  case (Cons kt kts)
  obtain k task where kt: "kt = (k, task)" by fastforce
  obtain d1 where d1: "maintain_task env limit now (clk k, new k, task) d = Inr d1"
    "foldM (\<lambda>(k, task). maintain_task env limit now (clk k, new k, task)) kts d1 = Inr d'"
    using Cons.prems(1) by (auto simp: kt split: sum.splits)
  have task: "task \<in> set (agent_tasks d)" "t_ExecutorVersion task = 1" "unfinished task \<or> t_Status task = ''failed''"
    using Cons.prems(4) by (auto simp: kt)
  obtain v where v: "set_row v d d1" "t_ID v = t_ID task" "bounded_task now (taskWallTimeout limit) v"
    using maintain_task_row [OF Cons.prems(2) task(1) d1(1) task(2,3)] by blast
  have others: "x \<in> set (agent_tasks d1) \<longleftrightarrow> x \<in> set (agent_tasks d)" if "t_ID x \<noteq> t_ID task" for x
    using that v(1,2) by (auto simp: set_row_def)
  have rest: "t_ID (snd p) \<noteq> t_ID task" if "p \<in> set kts" for p using Cons.prems(3) that by (force simp: kt)
  have sub: "snd ` set kts \<subseteq> {t \<in> set (agent_tasks d1). t_ExecutorVersion t = 1 \<and> (unfinished t \<or> t_Status t = ''failed'')}"
    using Cons.prems(4) others rest by (auto simp: kt)
  have ids: "distinct (map t_ID (agent_tasks d1))" "distinct (map (\<lambda>p. t_ID (snd p)) kts)"
    using Cons.prems(2,3) set_row_ids [OF v(1)] by simp_all
  have IH: "t_ID t \<in> t_ID ` snd ` set kts \<and> bounded_task now (taskWallTimeout limit) t \<or> t \<in> set (agent_tasks d1) \<and> t_ID t \<notin> t_ID ` snd ` set kts"
    by (rule Cons.IH [OF d1(2) ids sub Cons.prems(5)])
  show ?case
  proof (cases "t_ID t = t_ID task")
    case True
    have "t = v" if "t \<in> set (agent_tasks d1)" using that v(1,2) True by (auto simp: set_row_def)
    then show ?thesis using IH True v(3) by (auto simp: kt)
  next
    case False then show ?thesis using IH others by (auto simp: kt)
  qed
qed simp

lemma set_DeadlineTasks: "set (DeadlineTasks d) \<subseteq> {t \<in> set (agent_tasks d). t_ExecutorVersion t = 1 \<and> (unfinished t \<or> t_Status t = ''failed'')}"
  by (auto simp: DeadlineTasks_def)

lemma one_shot_maintained: "t \<in> set (agent_tasks d) \<Longrightarrow> one_shot t \<Longrightarrow> t \<in> set (DeadlineTasks d)"
  by (auto simp: DeadlineTasks_def one_shot_def periodic_def)

lemma distinct_DeadlineTasks: "distinct (map t_ID (agent_tasks d)) \<Longrightarrow> distinct (map t_ID (DeadlineTasks d))"
  unfolding DeadlineTasks_def by (auto simp: distinct_map intro: inj_on_subset)

section \<open>Results\<close>

definition sample_iteration_env :: iteration_env where
  "sample_iteration_env = \<lparr>ie_ext = sample_ext,
     ie_ui = \<lparr>ui_TaskStoppedEmpty = (\<lambda>t. t), ui_TaskEmptyResult = (\<lambda>t. t), ui_TaskPartial = (\<lambda>t i. t),
       ui_TaskProgressQueued = (\<lambda>t. t), ui_TaskProgressRunning = (\<lambda>t. t), ui_TaskDeadline = (\<lambda>t. t)\<rparr>,
     ie_msg = (\<lambda>_. ''error''), ie_parse_uuid = (\<lambda>_. None), ie_validator = None, ie_notify = None, ie_journal = True,
     ie_expired = (\<lambda>_. False), ie_allowed = (\<lambda>_. True)\<rparr>"

definition claimed_task :: AgentTask where
  "claimed_task = (blank_task 1 7 1)\<lparr>t_AcceptanceCriteria := Some ''cite sources'', t_Status := ''running'', t_LastRunAt := Some 5\<rparr>"

definition claimed_db :: db where
  "claimed_db = empty_db\<lparr>agent_tasks := [claimed_task]\<rparr>"

definition draft_result :: IterationResult where
  "draft_result = \<lparr>ir_Done = True, ir_Pause = False, ir_Progress = None, ir_Output = ''draft'', ir_Notify = ''done'',
     ir_Notified = False, ir_IsFinal = False, ir_Partial = False, ir_ToolCallsJSON = None, ir_PendingDeliveries = None\<rparr>"

definition rejecting :: "AgentTask \<Rightarrow> string \<Rightarrow> json option \<Rightarrow> AcceptanceVerdict" where
  "rejecting _ _ _ = no_acceptance\<lparr>av_Reason := ''no sources''\<rparr>"

text \<open>
  (C9) A result the review did not accept is not published: settling an iteration of a task with acceptance
  criteria under any other verdict makes no task done, stores no completed result, calls no transport, and is
  final only as a partial result.
\<close>

theorem acceptance_gate:
  assumes "has_criteria task" "ir_Done result" "\<not> ir_Pause result" "legacy_task (t_ID task) d"
    and "\<not> accepted task (evaluate task (ir_Output result) (ir_ToolCallsJSON result))"
    and "out = settle env evaluate clk new claim submission task result d"
  shows "done_tasks (io_DB out) \<subseteq> done_tasks d \<and> completed_results (io_DB out) = completed_results d \<and>
    io_Calls out = [] \<and> (io_IsFinal out \<longrightarrow> io_Partial out)"
  using settle_done_withheld [of task evaluate result d env clk new claim submission] assms by (simp add: settle_def withheld_def unpublished_def)

theorem acceptance_gate_witness:
  "done_tasks (io_DB (settle sample_iteration_env rejecting (\<lambda>_. 9) 100 5 None claimed_task draft_result claimed_db)) = {} \<and>
   map t_Status (agent_tasks (io_DB (settle sample_iteration_env rejecting (\<lambda>_. 9) 100 5 None claimed_task draft_result claimed_db))) = [''pending'']"
proof -
  have "has_criteria claimed_task" "ir_Done draft_result" "\<not> ir_Pause draft_result" by code_simp+
  moreover have "legacy_task (t_ID claimed_task) claimed_db"
    by (simp add: legacy_task_def claimed_db_def claimed_task_def blank_task_def)
  moreover have "\<not> accepted claimed_task (rejecting claimed_task (ir_Output draft_result) (ir_ToolCallsJSON draft_result))"
    by (simp add: accepted_def rejecting_def no_acceptance_def)
  moreover have "done_tasks claimed_db = {}" by (simp add: done_tasks_def claimed_db_def claimed_task_def)
  moreover have "map t_Status (agent_tasks (io_DB (settle sample_iteration_env rejecting (\<lambda>_. 9) 100 5 None claimed_task draft_result claimed_db))) = [''pending'']"
    by code_simp
  ultimately show ?thesis
    using acceptance_gate [of claimed_task draft_result claimed_db rejecting _ sample_iteration_env "\<lambda>_. 9" 100 5 None] by simp
qed

text \<open>
  (C18) A worker whose claim was replaced cannot settle a finished one-shot task: when no row holds the
  claim it started under, and the deadline has not passed during the review, the database stays as it was, no
  transport is called, and the run ends.
\<close>

theorem replaced_worker_fenced:
  assumes "durableOneShot task" "ir_Done result" "\<not> ir_Pause result" "lost_claim (t_ID task) claim d"
    and "\<not> (has_criteria task \<and> deadline_passed task (clk 1))"
    and "out = settle env evaluate clk new claim submission task result d"
  shows "io_DB out = d \<and> \<not> io_again out \<and> io_Calls out = [] \<and> \<not> io_IsFinal out"
proof -
  have "no_effect d (settle_done env evaluate clk new claim submission task result d)"
  proof (cases "submission = None \<and> trim_space (ir_Output result) \<noteq> []")
    case True
    have "SaveTaskSubmission (clk 0) (t_ID task) claim result d = Inl ErrTaskClaimLost"
      using assms(4) by (simp add: SaveTaskSubmission_def lost_claim_def)
    then show ?thesis using True assms(1) by (simp add: settle_done_def)
  next
    case False
    then show ?thesis using assms(1,5) settle_lost [OF assms(4,1)] by (auto simp: settle_done_def Let_def)
  qed
  then show ?thesis using assms(2,3,6) by (simp add: settle_def no_effect_def)
qed

theorem replaced_worker_fenced_witness:
  "lost_claim (t_ID claimed_task) 4 claimed_db \<and>
   io_DB (settle sample_iteration_env rejecting (\<lambda>_. 9) 100 4 None claimed_task draft_result claimed_db) = claimed_db"
proof -
  have "durableOneShot claimed_task" "ir_Done draft_result" "\<not> ir_Pause draft_result" "\<not> deadline_passed claimed_task 9" by code_simp+
  moreover have "lost_claim (t_ID claimed_task) 4 claimed_db"
    by (simp add: lost_claim_def claimed_db_def claimed_task_def holds_claim_def)
  ultimately show ?thesis using replaced_worker_fenced [OF _ _ _ _ _ refl, of claimed_task draft_result 4 claimed_db "\<lambda>_. 9"] by blast
qed

text \<open>
  (C19) The back-to-back loop of a task with an iteration budget ends within it: it runs at most as many iterations as are left of
  it (one, when nothing is left), whatever its handler and its reviews answer, as long as the handler itself leaves the
  state, the count and the budget of its task alone.
\<close>

theorem runTask_ends:
  assumes "task_rows_of (t_ID task) d = [t]" "0 < t_MaxIterations t" "\<And>k. handler_keeps (t_ID task) (w k)"
  shows "\<exists>d'. run_iterations (max 1 (nat (t_MaxIterations t - t_Iteration t))) env w clk after new cancelled k task d = Some d'"
proof -
  obtain n where n: "max 1 (nat (t_MaxIterations t - t_Iteration t)) = Suc n"
    by (rule that [of "max 1 (nat (t_MaxIterations t - t_Iteration t)) - 1"]) simp
  then have "nat (t_MaxIterations t - t_Iteration t) \<le> Suc n" by linarith
  from run_iterations_ends [OF assms(3) refl assms(1,2) this] show ?thesis unfolding n .
qed

definition busy_worker :: "string worker" where
  "busy_worker = \<lparr>wo_decode = (\<lambda>_. None), wo_meta = (\<lambda>_. \<lparr>tm_Provider = [], tm_Core = False\<rparr>), wo_mcp = None, wo_policy = NoPolicy,
     wo_hour = 12, wo_DefaultTools = [], wo_base = NewToolRegistry,
     wo_Run = (\<lambda>_ _ d. (Inr (draft_result\<lparr>ir_Done := False, ir_Notify := []\<rparr>), d)), wo_evaluate = rejecting\<rparr>"

theorem runTask_ends_witness:
  "\<exists>d'. run_iterations 2 sample_iteration_env (\<lambda>_. busy_worker) (\<lambda>_ _. 9) (\<lambda>_ _. 9) (\<lambda>_. 100) (\<lambda>_. False) 0
     ((blank_task 1 7 1)\<lparr>t_MaxIterations := 2\<rparr>) (empty_db\<lparr>agent_tasks := [(blank_task 1 7 1)\<lparr>t_MaxIterations := 2\<rparr>]\<rparr>) = Some d'"
proof -
  let ?t = "(blank_task 1 7 1)\<lparr>t_MaxIterations := 2\<rparr>"
  have "handler_keeps (t_ID ?t) busy_worker" by (simp add: handler_keeps_def busy_worker_def)
  moreover have "task_rows_of (t_ID ?t) (empty_db\<lparr>agent_tasks := [?t]\<rparr>) = [?t]" by (simp add: task_rows_of_def)
  moreover have "0 < t_MaxIterations ?t" by simp
  ultimately have "\<exists>d'. run_iterations (max 1 (nat (t_MaxIterations ?t - t_Iteration ?t))) sample_iteration_env (\<lambda>_. busy_worker) (\<lambda>_ _. 9) (\<lambda>_ _. 9)
      (\<lambda>_. 100) (\<lambda>_. False) 0 ?t (empty_db\<lparr>agent_tasks := [?t]\<rparr>) = Some d'" by (intro runTask_ends)
  moreover have "max 1 (nat (t_MaxIterations ?t - t_Iteration ?t)) = 2" by (simp add: blank_task_def)
  ultimately show ?thesis by (simp only:)
qed

text \<open>
  (C20) After a pass of deadline maintenance that did not fail, every unfinished one-shot task of the old
  executor has a stored deadline after the time of the pass, and no later than its start plus the wall-clock
  limit: queued, paused or running, none of them can wait for ever.
\<close>

theorem maintenance_bounds_tasks:
  assumes "keys_ok d" "maintainTaskDeadlines env limit now clk new d = Inr d'"
    and "t \<in> set (agent_tasks d')" "t_ExecutorVersion t = 1" "unfinished t" "\<not> periodic t"
  shows "\<exists>dl. t_Deadline t = Some dl \<and> now < dl \<and> dl \<le> TaskWallStart t now + taskWallTimeout limit"
proof -
  have ids: "distinct (map t_ID (agent_tasks d))" using assms(1) by (simp add: keys_ok_def)
  let ?kts = "enumerate 0 (DeadlineTasks d)"
  have snds: "snd ` set ?kts = set (DeadlineTasks d)" using map_snd_enumerate [of 0 "DeadlineTasks d"] by (metis list.set_map)
  have "distinct (map (\<lambda>p. t_ID (snd p)) ?kts)"
    using distinct_DeadlineTasks [OF ids] map_map [of t_ID snd ?kts] by (simp add: comp_def map_snd_enumerate)
  from maintain_loop [OF assms(2) [unfolded maintainTaskDeadlines_def] ids this _ assms(3), unfolded snds, OF set_DeadlineTasks]
  have "bounded_task now (taskWallTimeout limit) t \<or> t \<in> set (agent_tasks d) \<and> t_ID t \<notin> t_ID ` set (DeadlineTasks d)" by blast
  moreover have "one_shot t" using assms(4-6) by (simp add: one_shot_def)
  ultimately show ?thesis using one_shot_maintained by (auto simp: bounded_task_def)
qed

theorem maintenance_bounds_tasks_witness:
  "\<exists>d'. maintainTaskDeadlines sample_iteration_env None (5 * minute) (\<lambda>_ _. 5 * minute) (\<lambda>_. 100)
      (empty_db\<lparr>agent_tasks := [blank_task 1 7 1]\<rparr>) = Inr d' \<and>
    (\<exists>t dl. agent_tasks d' = [t] \<and> t_Deadline t = Some dl \<and> 5 * minute < dl)"
proof -
  let ?d = "empty_db\<lparr>agent_tasks := [blank_task 1 7 1]\<rparr>" and ?d' = "empty_db\<lparr>agent_tasks := [(blank_task 1 7 1)\<lparr>t_Deadline := Some (30 * minute + 1)\<rparr>]\<rparr>"
  have run: "maintainTaskDeadlines sample_iteration_env None (5 * minute) (\<lambda>_ _. 5 * minute) (\<lambda>_. 100) ?d = Inr ?d'" by code_simp
  have "keys_ok ?d" by code_simp
  from maintenance_bounds_tasks [OF this run, of "(blank_task 1 7 1)\<lparr>t_Deadline := Some (30 * minute + 1)\<rparr>"]
  show ?thesis using run by (simp add: blank_task_def unfinished_def periodic_def)
qed

end
