(* ===== verification/Task_Wakeup.thy ===== *)
theory Task_Wakeup
  imports Task_Finalize
begin

text \<open>
  The wake-up timer of \<open>internal/agenttask/wakeup.go\<close>: one timer that keeps the earliest hint, armed after
  each tick for the next moment the stores and the host know of. A callback of \<open>time.AfterFunc\<close> that has
  already started when \<open>Stop\<close> is called still runs, so the outstanding callbacks are part of the state.
\<close>

section \<open>The timer\<close>

text \<open>A callback: its timer, the moment it was armed for and the moment it fires.\<close>

record callback =
  cb_timer :: nat
  cb_at :: gotime
  cb_fires :: gotime

record wake_state =
  wk_timer :: "nat option"
  wk_at :: gotime
  wk_fresh :: nat
  wk_callbacks :: "callback list"
  wk_signals :: nat

definition no_wakeups :: wake_state where
  "no_wakeups = \<lparr>wk_timer = None, wk_at = time_zero, wk_fresh = 0, wk_callbacks = [], wk_signals = 0\<rparr>"

text \<open>\<open>s.wakeTimer.Stop()\<close> when a timer is set; \<open>stopped\<close> tells whether it came in time.\<close>

definition stop_timer :: "bool \<Rightarrow> wake_state \<Rightarrow> wake_state" where
  "stop_timer stopped w =
     (if stopped then w\<lparr>wk_callbacks := filter (\<lambda>c. wk_timer w \<noteq> Some (cb_timer c)) (wk_callbacks w)\<rparr> else w)"

definition arm_timer :: "gotime \<Rightarrow> bool \<Rightarrow> gotime \<Rightarrow> wake_state \<Rightarrow> wake_state" where
  "arm_timer now stopped moment w =
     (let w = stop_timer stopped w
      in w\<lparr>wk_timer := Some (wk_fresh w), wk_at := moment, wk_fresh := Suc (wk_fresh w),
           wk_callbacks := wk_callbacks w @ [\<lparr>cb_timer = wk_fresh w, cb_at = moment,
             cb_fires = now + max (time_sub moment now) (25 * millisecond)\<rparr>]\<rparr>)"

text \<open>\<open>installed\<close>: a wake-up function is set; \<open>alive\<close>: the context has no error.\<close>

definition scheduleWakeupAt :: "bool \<Rightarrow> bool \<Rightarrow> gotime \<Rightarrow> bool \<Rightarrow> gotime \<Rightarrow> wake_state \<Rightarrow> wake_state" where
  "scheduleWakeupAt installed alive now stopped moment w =
     (if \<not> installed \<or> moment = time_zero \<or> \<not> alive then w
      else if time_sub moment now > minute then w
      else if wk_timer w \<noteq> None \<and> \<not> moment < wk_at w then w
      else arm_timer now stopped moment w)"

text \<open>The callback: only the current moment clears the timer and signals.\<close>

definition run_callback :: "bool \<Rightarrow> callback \<Rightarrow> wake_state \<Rightarrow> wake_state" where
  "run_callback alive c w =
     (let w = w\<lparr>wk_callbacks := remove1 c (wk_callbacks w)\<rparr> in
      if wk_at w = cb_at c
      then w\<lparr>wk_timer := None, wk_at := time_zero, wk_signals := wk_signals w + (if alive then 1 else 0)\<rparr>
      else w)"

definition StopWakeups :: "bool \<Rightarrow> wake_state \<Rightarrow> wake_state" where
  "StopWakeups stopped w = (stop_timer stopped w)\<lparr>wk_timer := None, wk_at := time_zero\<rparr>"

section \<open>The next moment\<close>

text \<open>
  The zero time stands for no moment. The host's answer is absent without a hook and an error is \<open>None\<close>;
  a moment that is not in the future is dropped.
\<close>

definition future_or_zero :: "gotime \<Rightarrow> gotime option \<Rightarrow> gotime" where
  "future_or_zero now answer = (case answer of None \<Rightarrow> time_zero | Some m \<Rightarrow> if m > now then m else time_zero)"

definition nextRecurringWake :: "(gotime \<Rightarrow> gotime option) option \<Rightarrow> gotime \<Rightarrow> gotime" where
  "nextRecurringWake hook now = (case hook of None \<Rightarrow> time_zero | Some f \<Rightarrow> future_or_zero now (f now))"

definition nextNotificationRetry :: "bool \<Rightarrow> gotime \<Rightarrow> db \<Rightarrow> gotime" where
  "nextNotificationRetry journal now d = (if journal then future_or_zero now (Some (NextNotificationRetry now d)) else time_zero)"

definition earlier_wake :: "gotime \<Rightarrow> gotime \<Rightarrow> gotime" where
  "earlier_wake a b = (if b \<noteq> time_zero \<and> (a = time_zero \<or> b < a) then b else a)"

text \<open>\<open>now 0\<close> is the clock of the graph query, \<open>now 1\<close> and \<open>now 2\<close> those of the other two.\<close>

definition persisted_wake ::
    "(json \<Rightarrow> string) \<Rightarrow> (string \<Rightarrow> gotime option) \<Rightarrow> (gotime \<Rightarrow> gotime option) option \<Rightarrow> bool \<Rightarrow> (nat \<Rightarrow> gotime) \<Rightarrow> db \<Rightarrow> gotime" where
  "persisted_wake render timestamptz hook journal now d =
     earlier_wake (earlier_wake (NextGraphWake render timestamptz (now 0) d) (nextRecurringWake hook (now 1)))
       (nextNotificationRetry journal (now 2) d)"

definition schedulePersistedWake ::
    "(json \<Rightarrow> string) \<Rightarrow> (string \<Rightarrow> gotime option) \<Rightarrow> (gotime \<Rightarrow> gotime option) option \<Rightarrow> bool \<Rightarrow> bool \<Rightarrow> bool \<Rightarrow> (nat \<Rightarrow> gotime) \<Rightarrow>
     bool \<Rightarrow> db \<Rightarrow> wake_state \<Rightarrow> wake_state" where
  "schedulePersistedWake render timestamptz hook journal installed alive now stopped d w =
     (if \<not> installed \<or> \<not> alive then w
      else scheduleWakeupAt installed alive (now 3) stopped (persisted_wake render timestamptz hook journal now d) w)"

section \<open>Invariant\<close>

text \<open>The clock never goes back, and a callback runs no earlier than its timer fires.\<close>

inductive wake_step :: "gotime \<times> wake_state \<Rightarrow> gotime \<times> wake_state \<Rightarrow> bool" where
  hint: "t \<le> now \<Longrightarrow> wake_step (t, w) (now, scheduleWakeupAt installed alive now stopped moment w)"
| fires: "c \<in> set (wk_callbacks w) \<Longrightarrow> t \<le> now \<Longrightarrow> cb_fires c \<le> now \<Longrightarrow> wake_step (t, w) (now, run_callback alive c w)"
| stops: "t \<le> now \<Longrightarrow> wake_step (t, w) (now, StopWakeups stopped w)"

text \<open>
  A set timer has a moment and an outstanding callback for it: a kept hint is never lost. A callback fires at its
  moment, or 25 milliseconds after it was armed when that is later.
\<close>

definition fires_in_time :: "gotime \<Rightarrow> callback \<Rightarrow> bool" where
  "fires_in_time t c \<longleftrightarrow> cb_at c \<le> cb_fires c \<and> cb_fires c \<le> max (cb_at c) (t + 25 * millisecond)"

definition wake_ok :: "gotime \<times> wake_state \<Rightarrow> bool" where
  "wake_ok x \<longleftrightarrow>
     (case wk_timer (snd x) of
        None \<Rightarrow> wk_at (snd x) = time_zero
      | Some i \<Rightarrow> wk_at (snd x) \<noteq> time_zero \<and> (\<exists>c \<in> set (wk_callbacks (snd x)). cb_timer c = i \<and> cb_at c = wk_at (snd x))) \<and>
     (\<forall>c \<in> set (wk_callbacks (snd x)). cb_at c \<noteq> time_zero \<and> fires_in_time (fst x) c)"

lemma fires_in_time_mono: "fires_in_time t c \<Longrightarrow> t \<le> now \<Longrightarrow> fires_in_time now c"
  unfolding fires_in_time_def by linarith

lemma wake_ok_later: "wake_ok (t, w) \<Longrightarrow> t \<le> now \<Longrightarrow> wake_ok (now, w)"
  using fires_in_time_mono by (fastforce simp: wake_ok_def split: option.splits)

lemma armed_in_time:
  "time_sub moment now \<le> minute \<Longrightarrow>
   fires_in_time now \<lparr>cb_timer = i, cb_at = moment, cb_fires = now + max (time_sub moment now) (25 * millisecond)\<rparr>"
  by (auto simp: fires_in_time_def time_sub_def)

lemma stop_timer_simps [simp]:
  "wk_timer (stop_timer b w) = wk_timer w" "wk_at (stop_timer b w) = wk_at w" "wk_fresh (stop_timer b w) = wk_fresh w"
  "wk_signals (stop_timer b w) = wk_signals w"
  by (auto simp: stop_timer_def)

lemma stop_timer_callbacks: "c \<in> set (wk_callbacks (stop_timer b w)) \<Longrightarrow> c \<in> set (wk_callbacks w)"
  by (auto simp: stop_timer_def split: if_splits)

lemma arm_timer_ok:
  "wake_ok (now, w) \<Longrightarrow> moment \<noteq> time_zero \<Longrightarrow> time_sub moment now \<le> minute \<Longrightarrow> wake_ok (now, arm_timer now stopped moment w)"
  using armed_in_time [of moment now "wk_fresh w"]
  by (auto simp: arm_timer_def wake_ok_def Let_def dest: stop_timer_callbacks)

lemma scheduleWakeupAt_ok: "wake_ok (now, w) \<Longrightarrow> wake_ok (now, scheduleWakeupAt installed alive now stopped moment w)"
  by (simp add: scheduleWakeupAt_def arm_timer_ok)

lemma run_callback_ok:
  assumes "wake_ok (now, w)" shows "wake_ok (now, run_callback alive c w)"
proof (cases "wk_at w = cb_at c")
  case True
  then show ?thesis using assms by (auto simp: run_callback_def wake_ok_def Let_def dest: notin_set_remove1 [rotated])
next
  case False
  then have "d \<in> set (remove1 c (wk_callbacks w)) \<longleftrightarrow> d \<in> set (wk_callbacks w)" if "cb_at d = wk_at w" for d
    using that by (intro in_set_remove1) auto
  then show ?thesis using assms False
    by (auto simp: run_callback_def wake_ok_def Let_def dest: notin_set_remove1 [rotated] split: option.splits)
qed

lemma StopWakeups_ok: "wake_ok (now, w) \<Longrightarrow> wake_ok (now, StopWakeups stopped w)"
  by (auto simp: StopWakeups_def wake_ok_def dest: stop_timer_callbacks)

interpretation wakeups: invariant_system "\<lambda>x. snd x = no_wakeups" wake_step wake_ok
proof
  show "snd x = no_wakeups \<Longrightarrow> wake_ok x" for x by (simp add: no_wakeups_def wake_ok_def)
  show "wake_ok x \<Longrightarrow> wake_step x y \<Longrightarrow> wake_ok y" for x y
    by (auto elim!: wake_step.cases intro: scheduleWakeupAt_ok run_callback_ok StopWakeups_ok dest: wake_ok_later)
qed

text \<open>The moment to wake at is the least of those known, and lies in the future of the clock that gave it.\<close>

lemma earlier_wake_least:
  "earlier_wake a b = time_zero \<longleftrightarrow> a = time_zero \<and> b = time_zero"
  "earlier_wake a b \<in> {a, b}" "a \<noteq> time_zero \<Longrightarrow> earlier_wake a b \<le> a" "b \<noteq> time_zero \<Longrightarrow> earlier_wake a b \<le> b"
  by (auto simp: earlier_wake_def)

lemma nextRecurringWake_future: "nextRecurringWake hook now = time_zero \<or> now < nextRecurringWake hook now"
  by (auto simp: nextRecurringWake_def future_or_zero_def split: option.splits)

lemma nextNotificationRetry_future: "nextNotificationRetry j now d = time_zero \<or> now < nextNotificationRetry j now d"
  by (auto simp: nextNotificationRetry_def future_or_zero_def)

lemma least_future:
  fixes xs :: "gotime list" and P :: "gotime \<Rightarrow> bool"
  defines "m \<equiv> if filter P xs = [] then time_zero else Min (set (filter P xs))"
  shows "m = time_zero \<or> P m"
proof (cases "filter P xs = []")
  case False
  then have "Min (set (filter P xs)) \<in> set (filter P xs)" by (intro Min_in) (auto simp: filter_empty_conv)
  then have "P (Min (set (filter P xs)))" unfolding set_filter by blast
  with False show ?thesis unfolding m_def by presburger
qed (simp add: m_def)

lemma NextGraphWake_future: "NextGraphWake render tz now d = time_zero \<or> now < NextGraphWake render tz now d"
  unfolding NextGraphWake_def Let_def by (rule least_future)

section \<open>Results\<close>

text \<open>
  (C23) However hints, callbacks and stops interleave, a hint for a moment at most a minute away, given while the context is
  alive, leaves
  a timer armed for that moment or an earlier one, with a callback outstanding for it that fires no earlier than its own
  moment and no later than the hint's, or 25 milliseconds from now when the hint is nearer; the callback, when it
  runs while its context is alive, signals the scheduler once and clears the timer.
\<close>

theorem wake_hint_kept:
  assumes "reachable_from (\<lambda>x. snd x = no_wakeups) wake_step (t, w)" and "t \<le> now"
    and "moment \<noteq> time_zero" "time_sub moment now \<le> minute"
    and w': "w' = scheduleWakeupAt True True now stopped moment w"
  shows "\<exists>c. c \<in> set (wk_callbacks w') \<and> wk_timer w' = Some (cb_timer c) \<and> wk_at w' = cb_at c \<and> cb_at c \<le> moment \<and>
    cb_at c \<le> cb_fires c \<and> cb_fires c \<le> max moment (now + 25 * millisecond) \<and>
    wk_signals (run_callback True c w') = wk_signals w + 1 \<and> wk_timer (run_callback True c w') = None"
proof -
  have ok: "wake_ok (now, w)" using wakeups.reachable_inv [OF assms(1)] assms(2) by (rule wake_ok_later)
  have "wk_timer w' \<noteq> None" "wk_at w' \<le> moment" "wk_signals w' = wk_signals w"
    using assms(3,4) by (auto simp: w' scheduleWakeupAt_def arm_timer_def Let_def)
  moreover have ok': "wake_ok (now, w')" unfolding w' using ok by (rule scheduleWakeupAt_ok)
  ultimately obtain c where c: "c \<in> set (wk_callbacks w')" "wk_timer w' = Some (cb_timer c)" "cb_at c = wk_at w'"
    "wk_at w' \<le> moment" "wk_signals w' = wk_signals w"
    by (auto simp: wake_ok_def)
  then have "fires_in_time now c" using ok' by (simp add: wake_ok_def)
  with c show ?thesis by (intro exI [of _ c]) (auto simp: run_callback_def Let_def fires_in_time_def)
qed

theorem wake_hint_kept_witness:
  "\<exists>c. c \<in> set (wk_callbacks (scheduleWakeupAt True True 0 True (5 * second) no_wakeups)) \<and> cb_at c \<le> 5 * second \<and>
    cb_fires c \<le> 5 * second \<and> wk_signals (run_callback True c (scheduleWakeupAt True True 0 True (5 * second) no_wakeups)) = 1"
proof -
  have "reachable_from (\<lambda>x. snd x = no_wakeups) wake_step (0, no_wakeups)" by (rule reach_start) simp
  moreover have "time_sub (5 * second) 0 \<le> minute" by (simp add: time_sub_def)
  moreover have "wk_signals no_wakeups = 0" by (simp add: no_wakeups_def)
  ultimately show ?thesis using wake_hint_kept [of 0 no_wakeups 0 "5 * second" _ True] by (auto simp: max_def)
qed

end
