(* ===== verification/Go_Float.thy ===== *)
theory Go_Float
  imports Complex_Main Go_Duration
begin

text \<open>
  The error of the double-precision operations of \<open>Go_Duration\<close>: a quotient is rounded to 53 bits, so its value
  is exact when the true value has that many, and otherwise off by at most one part in \<open>2 ^ 53\<close>.
\<close>

definition float_val :: "go_float \<Rightarrow> real" where
  "float_val x = of_int (fst x) * 2 powi snd x"

definition float_le :: "go_float \<Rightarrow> go_float \<Rightarrow> bool" where
  "float_le x y = (let k = min (snd x) (snd y) in fst x * 2 ^ nat (snd x - k) \<le> fst y * 2 ^ nat (snd y - k))"

definition float_round :: "go_float \<Rightarrow> int" where
  "float_round x = (if snd x \<ge> 0 then fst x * 2 ^ nat (snd x) else round_even (fst x) (2 ^ nat (- snd x)))"

lemma bit_width_bounds:
  assumes "0 < x"
  shows "1 \<le> bit_width x \<and> 2 powi (bit_width x - 1) \<le> real_of_int x \<and> real_of_int x < 2 powi bit_width x"
  using assms
proof (induction x rule: bit_width.induct)
  case (1 x)
  show ?case
  proof (cases "x = 1")
    case True
    then show ?thesis by (simp add: bit_width.simps)
  next
    case False
    define w where "w = bit_width (x div 2)"
    have pos: "0 < x div 2" and bw: "bit_width x = w + 1" using 1 False by (auto simp: w_def bit_width.simps [of x])
    have IH: "1 \<le> w" "2 powi (w - 1) \<le> real_of_int (x div 2)" "real_of_int (x div 2) < 2 powi w"
      using 1 pos by (auto simp: w_def)
    have int_w: "(2::real) powi w = of_int (2 ^ nat w)" "(2::real) powi (w + 1) = 2 * 2 powi w" "2 * (2::real) powi (w - 1) = 2 powi w"
      using IH(1) by (auto simp: power_int_def power_int_add nat_add_distrib nat_diff_distrib power_diff)
    have "real_of_int (2 * (x div 2)) \<le> real_of_int x" "x \<le> 2 * (x div 2) + 1" by auto
    moreover have "x div 2 + 1 \<le> 2 ^ nat w" using IH(3) int_w(1) by (metis of_int_less_iff zless_iff_Suc_zadd zless_imp_add1_zle)
    then have "real_of_int (x div 2 + 1) \<le> 2 powi w" unfolding int_w(1) of_int_le_iff .
    ultimately show ?thesis using IH(1,2) bw int_w(2,3) by (simp add: field_simps)
  qed
qed

lemma round_even_bounds:
  assumes "0 < b"
  shows "\<bar>of_int (round_even a b) - real_of_int a / of_int b\<bar> \<le> 1 / 2" and "a div b \<le> round_even a b"
proof -
  have eq: "real_of_int a = of_int (a div b) * of_int b + of_int (a mod b)"
    by (metis div_mult_mod_eq of_int_add of_int_mult)
  have m: "0 \<le> a mod b" "a mod b < b" using assms by auto
  have n: "(a div b) mod 2 = 0 \<or> (a div b) mod 2 = 1" by auto
  have re: "round_even a b = (if 2 * (a mod b) < b then a div b else if 2 * (a mod b) > b then a div b + 1
      else a div b + a div b mod 2)" by (simp add: round_even_def Let_def)
  consider "2 * (a mod b) < b" "round_even a b = a div b" | "2 * (a mod b) > b" "round_even a b = a div b + 1"
    | "2 * (a mod b) = b" "round_even a b = a div b" | "2 * (a mod b) = b" "round_even a b = a div b + 1"
    using n re by (cases "2 * (a mod b) < b"; cases "2 * (a mod b) > b") auto
  then have "\<bar>of_int (round_even a b) - real_of_int a / of_int b\<bar> \<le> 1 / 2 \<and> a div b \<le> round_even a b"
  proof cases
    case 1
    then have "2 * real_of_int (a mod b) \<le> of_int b" by linarith
    then show ?thesis using 1 m assms eq by (simp add: field_simps)
  next
    case 2
    then have "2 * real_of_int (a mod b) \<ge> of_int b" "real_of_int (a mod b) \<le> of_int b" using m by linarith+
    then show ?thesis using 2 assms eq by (simp add: field_simps abs_le_iff)
  next
    case 3
    then have "2 * real_of_int (a mod b) = of_int b" by linarith
    then show ?thesis using 3(2) assms eq by (simp add: field_simps abs_le_iff)
  next
    case 4
    then have "2 * real_of_int (a mod b) = of_int b" by linarith
    then show ?thesis using 4(2) assms eq by (simp add: field_simps abs_le_iff)
  qed
  then show "\<bar>of_int (round_even a b) - real_of_int a / of_int b\<bar> \<le> 1 / 2" "a div b \<le> round_even a b" by auto
qed

lemma round_even_exact: "0 < b \<Longrightarrow> round_even (n * b) b = n"
  by (simp add: round_even_def)

lemma scaled_value:
  assumes "0 < p" "0 < q" "scaled p q k = (a, b)"
  shows "0 < a" "0 < b" "real_of_int a / of_int b = of_int p / of_int q * 2 powi k"
  using assms by (auto simp: scaled_def power_int_def field_simps split: if_splits)

text \<open>The quotient before rounding lies in the range of 53-bit mantissas.\<close>

lemma float_quot_scale:
  assumes "0 < p" "0 < q"
  obtains k a b where "scaled p q k = (a, b)" "float_quot p q = (round_even a b, - k)"
    "2 ^ 52 \<le> real_of_int a / of_int b" "real_of_int a / of_int b < 2 ^ 53"
proof -
  define bp bq k0 where defs: "bp = bit_width p" "bq = bit_width q" "k0 = 53 + bit_width q - bit_width p"
  define x where "x = real_of_int p / of_int q"
  note P = bit_width_bounds [OF assms(1), folded defs] and Q = bit_width_bounds [OF assms(2), folded defs]
  have pos: "0 < real_of_int q" "0 < real_of_int p" using assms by auto
  have two: "(2::real) powi (m + n) = 2 powi m * 2 powi n" for m n by (simp add: power_int_add)
  have half: "(2::real) powi (n - 1) = 2 powi n / 2" for n by (simp add: power_int_diff)
  define y where "y = x * (2 powi bq / 2 powi bp)"
  have y1: "1 / 2 \<le> y"
  proof -
    have "2 powi bp / 2 * of_int q \<le> real_of_int p * 2 powi bq"
      using P Q pos unfolding half by (intro mult_mono) auto
    then show ?thesis using pos unfolding x_def y_def by (simp add: field_simps)
  qed
  have y2: "y < 2"
  proof -
    have "real_of_int p * 2 powi bq < 2 powi bp * (2 * of_int q)"
      using P Q pos unfolding half by (intro mult_less_le_imp_less) auto
    then show ?thesis using pos unfolding x_def y_def by (simp add: field_simps)
  qed
  have k0: "2 powi k0 = 2 ^ 53 * ((2::real) powi bq / 2 powi bp)"
    unfolding defs by (simp add: power_int_add power_int_diff)
  have y: "x * 2 powi k0 = 2 ^ 53 * y" unfolding k0 y_def by simp
  have range: "2 ^ 52 \<le> x * 2 powi k0" "x * 2 powi k0 < 2 ^ 54" unfolding y using y1 y2 by simp_all
  obtain a0 b0 where ab0: "scaled p q k0 = (a0, b0)" by force
  note v0 = scaled_value [OF assms ab0, folded x_def]
  have big: "a0 div b0 \<ge> 2 ^ 53 \<longleftrightarrow> 2 ^ 53 \<le> x * 2 powi k0"
    by (simp add: le_floor_iff flip: v0(3) floor_divide_of_int_eq [where ?'a = real])
  define k where "k = (if a0 div b0 \<ge> 2 ^ 53 then k0 - 1 else k0)"
  obtain a b where ab: "scaled p q k = (a, b)" by force
  have "2 ^ 52 \<le> x * 2 powi k" "x * 2 powi k < 2 ^ 53"
    using range big unfolding k_def by (auto simp: half not_le)
  moreover have "float_quot p q = (round_even a b, - k)"
    using assms ab ab0 by (simp add: float_quot_def Let_def k_def flip: defs(3))
  ultimately show ?thesis using that ab scaled_value(3) [OF assms ab, folded x_def] by simp
qed

lemma float_quot_error:
  assumes "0 < p" "0 < q" and f: "float_quot p q = (m, e)"
  shows "2 ^ 52 \<le> m" "m \<le> 2 ^ 53" "\<bar>float_val (m, e) - of_int p / of_int q\<bar> \<le> float_val (m, e) / 2 ^ 53"
proof -
  obtain k a b where k: "scaled p q k = (a, b)" "float_quot p q = (round_even a b, - k)"
    "2 ^ 52 \<le> real_of_int a / of_int b" "real_of_int a / of_int b < 2 ^ 53" using float_quot_scale [OF assms(1,2)] .
  note v = scaled_value [OF assms(1,2) k(1)]
  have me: "m = round_even a b" "e = - k" using k(2) f by auto
  note r = round_even_bounds [OF v(2), of a, folded me(1)]
  have "2 ^ 52 \<le> a div b" using le_floor_iff [of "2 ^ 52" "real_of_int a / of_int b"] k(3) by (simp add: floor_divide_of_int_eq)
  then show m: "2 ^ 52 \<le> m" using r(2) by linarith
  have "real_of_int m < 2 ^ 53 + 1" using r(1) k(4) by linarith
  then have "real_of_int m < of_int (2 ^ 53 + 1)" by simp
  then show "m \<le> 2 ^ 53" unfolding of_int_less_iff by linarith
  have "\<bar>of_int m - of_int p / of_int q * 2 powi k\<bar> \<le> real_of_int m / 2 ^ 53" using r(1) v(3) m by (simp add: field_simps)
  then have le: "\<bar>real_of_int m - of_int p / of_int q * 2 powi k\<bar> * 2 powi e \<le> of_int m / 2 ^ 53 * 2 powi e"
    by (rule mult_right_mono) simp
  have "(2::real) powi k * 2 powi e = 1" by (simp add: me(2) flip: power_int_add)
  then have "float_val (m, e) - of_int p / of_int q = (of_int m - of_int p / of_int q * 2 powi k) * 2 powi e"
    by (simp add: float_val_def left_diff_distrib)
  then have "\<bar>float_val (m, e) - of_int p / of_int q\<bar> = \<bar>real_of_int m - of_int p / of_int q * 2 powi k\<bar> * 2 powi e"
    by (simp add: abs_mult)
  also have "\<dots> \<le> float_val (m, e) / 2 ^ 53" using le by (simp add: float_val_def)
  finally show "\<bar>float_val (m, e) - of_int p / of_int q\<bar> \<le> float_val (m, e) / 2 ^ 53" .
qed

text \<open>Integers and halves of integers with at most 53 bits are exact.\<close>

lemma float_quot_exact:
  assumes "0 < p" "0 < q" "q dvd p * 2 ^ j" "real_of_int p / of_int q * 2 ^ j < 2 ^ 53"
  shows "float_val (float_quot p q) = of_int p / of_int q"
proof -
  obtain k a b where k: "scaled p q k = (a, b)" "float_quot p q = (round_even a b, - k)"
    "2 ^ 52 \<le> real_of_int a / of_int b" "real_of_int a / of_int b < 2 ^ 53" using float_quot_scale [OF assms(1,2)] .
  note v = scaled_value [OF assms(1,2) k(1)]
  have "j \<le> k"
  proof (rule ccontr)
    assume "\<not> j \<le> k"
    then have "(2::real) powi (k + 1) \<le> 2 powi (int j)" by (intro power_int_increasing) auto
    then have "(2::real) * 2 powi k \<le> 2 ^ j" by (simp add: power_int_add)
    then have "2 * (real_of_int p / of_int q * 2 powi k) \<le> real_of_int p / of_int q * 2 ^ j"
      using assms(1,2) by (simp add: mult_left_mono field_simps)
    then show False using k(3) v(3) assms(4) by simp
  qed
  then have ab: "a = p * 2 ^ j * 2 ^ nat (k - j)" "b = q"
    using k(1) by (auto simp: scaled_def nat_diff_distrib' simp flip: power_add split: if_splits)
  then obtain n where n: "a = n * b" using assms(3) by (metis dvdE dvd_mult2 mult.commute)
  have "real_of_int n = of_int p / of_int q * 2 powi k" using v(2,3) n by simp
  then show ?thesis using n round_even_exact [OF v(2), of n] by (simp add: k(2) float_val_def power_int_minus)
qed

lemma float_le_val: "float_le x y \<longleftrightarrow> float_val x \<le> float_val y"
proof -
  define k where "k = min (snd x) (snd y)"
  have e: "float_val z = of_int (fst z * 2 ^ nat (snd z - k)) * 2 powi k" if "k \<le> snd z" for z
  proof -
    have "(2::real) powi snd z = 2 powi (snd z - k) * 2 powi k" by (simp flip: power_int_add)
    then show ?thesis using that by (simp add: float_val_def power_int_def [of _ "snd z - k"])
  qed
  have "k \<le> snd x" "k \<le> snd y" by (simp_all add: k_def)
  then have "float_val x \<le> float_val y \<longleftrightarrow> real_of_int (fst x * 2 ^ nat (snd x - k)) \<le> of_int (fst y * 2 ^ nat (snd y - k))"
    by (simp only: e mult_le_cancel_right_pos zero_less_power_int zero_less_numeral)
  then show ?thesis by (simp only: float_le_def Let_def of_int_le_iff flip: k_def)
qed

end
