(* ===== verification/Grounding.thy ===== *)
theory Grounding
  imports Review_Verdict Go_Float Dialog_Window
begin

text \<open>
  The scoring of a grounding audit, \<open>scoreGroundingVerdict\<close> of \<open>internal/agenttask/grounding.go\<close>, the strict reading
  of version-2 tasks (\<open>graph_grounding.go\<close>) and the partition of a report (\<open>grounding_parts.go\<close>). \<open>quote\<close> is
  \<open>%q\<close>. Counts are numbers of claims in memory, below the \<open>2 ^ 52\<close> where a double holds every half.
\<close>

section \<open>Scoring\<close>

definition groundedRatioThreshold :: go_float where "groundedRatioThreshold = float_quot 7 10"

definition hardCategories :: "string list" where
  "hardCategories = [''attribution'', ''architectural'', ''numerical'', ''quote'']"

definition status_count :: "string \<Rightarrow> ClaimGrounding list \<Rightarrow> int" where
  "status_count st claims = int (length (filter (\<lambda>c. cg_Status c = st) claims))"

definition hard_ungrounded :: "ClaimGrounding list \<Rightarrow> ClaimGrounding list" where
  "hard_ungrounded claims = filter (\<lambda>c. cg_Status c = ''ungrounded'' \<and> cg_ClaimType c \<in> set hardCategories) claims"

text \<open>The URLs to fetch again, each once, in the order of the claims.\<close>

definition recheck_of :: "ClaimGrounding list \<Rightarrow> string list" where
  "recheck_of claims = rev (remdups (rev (filter (\<lambda>u. u \<noteq> [])
     (map (\<lambda>c. trim_space (cg_SupportingDocURL c))
       (filter (\<lambda>c. cg_ClaimType c = ''attribution'' \<or> cg_ClaimType c = ''architectural'') (hard_ungrounded claims))))))"

definition support_ratio :: "int \<Rightarrow> int \<Rightarrow> int \<Rightarrow> go_float" where
  "support_ratio g p n = float_divide (float_quot (2 * g + p) 2) (float_quot n 1)"

definition truncate_runes :: "string \<Rightarrow> nat \<Rightarrow> string" where
  "truncate_runes s n = (let rs = runes s in if length rs \<le> n then s else concat (map encode_rune (take n rs)) @ ellipsis)"

definition dash :: string where "dash = [CHR 0x20, CHR 0xE2, CHR 0x80, CHR 0x94, CHR 0x20]"

definition percent :: "go_float \<Rightarrow> string" where
  "percent ratio = show_int (float_round (float_mult ratio (100, 0))) @ ''%''"

definition score_head :: "string \<Rightarrow> GroundingVerdict \<Rightarrow> go_float \<Rightarrow> string" where
  "score_head noun v ratio = show_int (gv_GroundedCount v) @ ''/'' @ show_int (gv_TotalCount v) @ noun @ '' grounded + '' @
     show_int (gv_PartialCount v) @ '' partial (support '' @ percent ratio @ '')''"

definition pass_reason :: "GroundingVerdict \<Rightarrow> go_float \<Rightarrow> int \<Rightarrow> int \<Rightarrow> string" where
  "pass_reason v ratio hard tolerance = score_head '' claims'' v ratio @ '', '' @
     (if hard = 0 then ''no hard-category ungrounded''
      else show_int hard @ '' hard ungrounded within tolerance of '' @ show_int tolerance @ '' for '' @
        show_int (gv_TotalCount v) @ ''-claim report'')"

definition reject_reason :: "(string \<Rightarrow> string) \<Rightarrow> GroundingVerdict \<Rightarrow> go_float \<Rightarrow> ClaimGrounding list \<Rightarrow> int \<Rightarrow> string" where
  "reject_reason quote v ratio hard tolerance = score_head [] v ratio @ ''; '' @
     (case hard of
        c # _ \<Rightarrow>
          if int (length hard) > tolerance then
            (if tolerance = 0 then ''ungrounded '' @ cg_ClaimType c @ '' claim'' @ dash @ quote (truncate_runes (cg_Claim c) 140)
             else show_int (int (length hard)) @ '' hard ungrounded claims, only '' @ show_int tolerance @ '' tolerated for '' @
               show_int (gv_TotalCount v) @ ''-claim report; first'' @ dash @ cg_ClaimType c @ '' claim '' @
               quote (truncate_runes (cg_Claim c) 140)) @
            (if cg_Issue c \<noteq> [] then '' (issue: '' @ cg_Issue c @ '')'' else [])
          else ''support ratio below '' @ percent groundedRatioThreshold @ '' threshold''
      | [] \<Rightarrow> ''support ratio below '' @ percent groundedRatioThreshold @ '' threshold'') @
     (if gv_RecheckURLs v \<noteq> [] then ''; you MUST re-fetch and re-verify: '' @ join '', '' (gv_RecheckURLs v) else [])"

definition scoreGroundingVerdict :: "(string \<Rightarrow> string) \<Rightarrow> GroundingVerdict \<Rightarrow> GroundingVerdict" where
  "scoreGroundingVerdict quote v0 =
     (let claims = gv_Claims v0;
          g = gv_GroundedCount v0 + status_count ''grounded'' claims;
          p = gv_PartialCount v0 + status_count ''partial'' claims;
          u = gv_UngroundedCount v0 + status_count ''ungrounded'' claims;
          hard = hard_ungrounded claims;
          v = v0\<lparr>gv_GroundedCount := g, gv_PartialCount := p, gv_UngroundedCount := u, gv_TotalCount := g + p + u,
                gv_RecheckURLs := recheck_of claims\<rparr>
      in
      if g + p + u = 0 then
        v\<lparr>gv_Met := True, gv_Reason := ''auditor returned no classifiable claims; nothing to verify''\<rparr>
      else
        let ratio = support_ratio g p (g + p + u);
            tolerance = (g + p + u) div 20;
            met = (float_le groundedRatioThreshold ratio \<and> int (length hard) \<le> tolerance)
        in v\<lparr>gv_Met := met,
             gv_Reason := (if met then pass_reason v ratio (int (length hard)) tolerance
                           else reject_reason quote v ratio hard tolerance)\<rparr>)"

section \<open>The strict reading\<close>

definition claim_types :: "string list" where
  "claim_types = [''attribution'', ''architectural'', ''numerical'', ''quote'', ''framing'']"

definition claim_statuses :: "string list" where
  "claim_statuses = [''grounded'', ''partial'', ''ungrounded'']"

fun strict_issues :: "(string \<Rightarrow> string) \<Rightarrow> ClaimGrounding list \<Rightarrow> string + string list" where
  "strict_issues quote [] = Inr []"
| "strict_issues quote (c # cs) =
     (if cg_ClaimType c \<notin> set claim_types then Inl ''grounding audit returned an unknown claim type''
      else if cg_Status c \<notin> set claim_statuses then Inl ''grounding audit returned an unknown claim status''
      else case strict_issues quote cs of
          Inl e \<Rightarrow> Inl e
        | Inr rest \<Rightarrow>
            if cg_ClaimType c \<noteq> ''framing'' \<and> cg_Status c \<noteq> ''grounded'' then
              Inr ((cg_Status c @ '' '' @ cg_ClaimType c @ '' claim '' @ quote (cg_Claim c) @ '': '' @ cg_Issue c) # rest)
            else Inr rest)"

definition strictGraphGrounding :: "(string \<Rightarrow> string) \<Rightarrow> GroundingVerdict \<Rightarrow> GroundingVerdict" where
  "strictGraphGrounding quote v =
     (if gv_Claims v = [] then v\<lparr>gv_Met := False, gv_Unavailable := True, gv_Reason := ''grounding audit returned no claims''\<rparr>
      else case strict_issues quote (gv_Claims v) of
          Inl e \<Rightarrow> v\<lparr>gv_Met := False, gv_Unavailable := True, gv_Reason := e\<rparr>
        | Inr [] \<Rightarrow> v
        | Inr issues \<Rightarrow> v\<lparr>gv_Met := False, gv_Reason := join ''; '' issues\<rparr>)"

fun repairable_claims :: "bool \<Rightarrow> ClaimGrounding list \<Rightarrow> bool" where
  "repairable_claims unsupported [] = unsupported"
| "repairable_claims unsupported (c # cs) =
     (if cg_ClaimType c \<notin> set claim_types \<or> cg_Status c \<notin> set claim_statuses then False
      else repairable_claims (unsupported \<or> cg_Status c \<noteq> ''grounded'') cs)"

definition graphGroundingRepairable :: "GroundingVerdict option \<Rightarrow> bool" where
  "graphGroundingRepairable verdict =
     (case verdict of
        None \<Rightarrow> True
      | Some v \<Rightarrow> if gv_Unavailable v then False else if gv_Met v then True
          else gv_Claims v \<noteq> [] \<and> repairable_claims False (gv_Claims v))"

section \<open>Partitions\<close>

fun split_after :: "string \<Rightarrow> string list" where
  "split_after [] = [[]]"
| "split_after (c # cs) =
     (if c = CHR 0x0A then [c] # split_after cs
      else case split_after cs of [] \<Rightarrow> [[c]] | l # ls \<Rightarrow> (c # l) # ls)"

definition targetRunes :: nat where "targetRunes = 2500"

fun partition_lines :: "string \<Rightarrow> nat \<Rightarrow> string list \<Rightarrow> string list" where
  "partition_lines current used [] = (if current \<noteq> [] then [current] else [])"
| "partition_lines current used (line # lines) =
     (let n = length (runes line) in
      if used > 0 \<and> used + n > targetRunes then current # partition_lines line n lines
      else partition_lines (current @ line) (used + n) lines)"

definition partitionGroundingReport :: "string \<Rightarrow> string list" where
  "partitionGroundingReport report = partition_lines [] 0 (split_after report)"

text \<open>
  The three workers take the indices one by one and write the result of each into its own place, so the
  results do not depend on their interleaving; \<open>canceled i\<close> tells that the context was done when
  part \<open>i\<close> was taken.
\<close>

definition runGroundingParts :: "(nat \<Rightarrow> bool) \<Rightarrow> (string \<Rightarrow> GroundingVerdict) \<Rightarrow> string list \<Rightarrow> GroundingVerdict list" where
  "runGroundingParts canceled audit parts =
     map (\<lambda>(i, part). if canceled i
        then no_verdict\<lparr>gv_Unavailable := True, gv_Reason := ''partitioned grounding canceled''\<rparr> else audit part)
       (enumerate 0 parts)"

definition add_part :: "GroundingVerdict \<Rightarrow> GroundingVerdict \<Rightarrow> GroundingVerdict" where
  "add_part result combined =
     (let c = combined\<lparr>gv_Claims := gv_Claims combined @ gv_Claims result\<rparr> in
      if gv_Unavailable result then
        c\<lparr>gv_Unavailable := True, gv_Reason := ''partitioned grounding incomplete: '' @ gv_Reason result,
          gv_RetryDelay := max (gv_RetryDelay c) (gv_RetryDelay result)\<rparr>
      else c)"

definition combineGroundingParts :: "(string \<Rightarrow> string) \<Rightarrow> GroundingVerdict list \<Rightarrow> GroundingVerdict" where
  "combineGroundingParts quote results =
     (let combined = fold add_part results no_verdict in
      if gv_Unavailable combined then combined else strictGraphGrounding quote (scoreGroundingVerdict quote combined))"

text \<open>Claims of a saved part audit are scored again; \<open>sha256\<close> is the hexadecimal digest.\<close>

definition completed_parts :: "(string \<Rightarrow> string) \<Rightarrow> GroundingVerdict option \<Rightarrow> (string \<times> GroundingVerdict) list" where
  "completed_parts quote prior =
     (case prior of
        None \<Rightarrow> []
      | Some v \<Rightarrow> filter (\<lambda>(_, w). \<not> gv_Unavailable w)
          (map (\<lambda>part. (pa_TargetHash part,
                 strictGraphGrounding quote (scoreGroundingVerdict quote (no_verdict\<lparr>gv_Claims := pa_Claims part\<rparr>))))
             (gv_AuditedParts v)))"

definition audited_parts :: "(string \<Rightarrow> string) \<Rightarrow> string list \<Rightarrow> GroundingVerdict list \<Rightarrow> GroundingPartAudit list" where
  "audited_parts sha256 parts results =
     map (\<lambda>(part, r). \<lparr>pa_TargetHash = sha256 part, pa_Claims = gv_Claims r\<rparr>)
       (filter (\<lambda>(_, r). \<not> gv_Unavailable r) (zip parts results))"

definition evaluateGroundingParts ::
    "(string \<Rightarrow> string) \<Rightarrow> (string \<Rightarrow> string) \<Rightarrow> (nat \<Rightarrow> bool) \<Rightarrow> (string \<Rightarrow> GroundingVerdict) \<Rightarrow> string list \<Rightarrow>
     GroundingVerdict option \<Rightarrow> GroundingVerdict" where
  "evaluateGroundingParts quote sha256 canceled audit parts prior =
     (let completed = rev (completed_parts quote prior);
          results = runGroundingParts canceled
            (\<lambda>target. case map_of completed (sha256 target) of Some v \<Rightarrow> v | None \<Rightarrow> audit target) parts;
          combined = combineGroundingParts quote results
      in combined\<lparr>gv_AuditedParts := gv_AuditedParts combined @ audited_parts sha256 parts results\<rparr>)"

section \<open>The threshold\<close>

text \<open>
  The double comparison of the support ratio decides exactly as the rational one: seventy percent of the
  claims, with half credit for partial ones.
\<close>

lemma threshold_value: "groundedRatioThreshold = (6305039478318694, -53)"
  by (simp add: groundedRatioThreshold_def float_quot_def scaled_def round_even_def Let_def bit_width.simps)

lemma support_ratio_error:
  assumes "0 < s" "s < 2 ^ 53" "0 < t" "t < 2 ^ 53" and r: "r = float_divide (float_quot s 2) (float_quot t 1)"
  shows "\<bar>float_val r - of_int s / (2 * of_int t)\<bar> \<le> float_val r / 2 ^ 53" and "2 ^ 52 \<le> fst r \<and> fst r \<le> 2 ^ 53"
proof -
  obtain m1 e1 m2 e2 m e where f: "float_quot s 2 = (m1, e1)" "float_quot t 1 = (m2, e2)" "float_quot m1 m2 = (m, e)"
    by (metis surj_pair)
  have r': "r = (m, e + e1 - e2)" by (simp add: r float_divide_def f)
  have m: "2 ^ 52 \<le> m1" "2 ^ 52 \<le> m2"
    using float_quot_error(1) [OF assms(1) _ f(1)] float_quot_error(1) [OF assms(3) _ f(2)] by auto
  have v: "of_int m1 * 2 powi e1 = real_of_int s / 2" "of_int m2 * 2 powi e2 = real_of_int t"
    using float_quot_exact [of s 2 1] float_quot_exact [of t 1 0] assms by (simp_all add: f float_val_def)
  have pos: "0 < m1" "0 < m2" using m by (simp_all add: less_le_trans [rotated])
  note E = float_quot_error [OF pos f(3)]
  show "2 ^ 52 \<le> fst r \<and> fst r \<le> 2 ^ 53" using E by (simp add: r')
  have val: "float_val r = float_val (m, e) * 2 powi (e1 - e2)"
    by (simp add: r' float_val_def power_int_add power_int_diff)
  have quot: "of_int s / (2 * of_int t) = real_of_int m1 / of_int m2 * 2 powi (e1 - e2)"
    using v assms(3) pos by (simp add: power_int_diff field_simps)
  have "\<bar>float_val (m, e) - of_int m1 / of_int m2\<bar> * 2 powi (e1 - e2) \<le> float_val (m, e) / 2 ^ 53 * 2 powi (e1 - e2)"
    by (rule mult_right_mono [OF E(3)]) simp
  moreover have "float_val r - of_int s / (2 * of_int t) = (float_val (m, e) - of_int m1 / of_int m2) * 2 powi (e1 - e2)"
    unfolding val quot by (simp add: left_diff_distrib)
  then have "\<bar>float_val r - of_int s / (2 * of_int t)\<bar> = \<bar>float_val (m, e) - of_int m1 / of_int m2\<bar> * 2 powi (e1 - e2)"
    by (simp add: abs_mult)
  ultimately show "\<bar>float_val r - of_int s / (2 * of_int t)\<bar> \<le> float_val r / 2 ^ 53" by (simp only: val times_divide_eq_left)
qed

lemma multiple_of_ulp:
  assumes "1 / 2 < float_val r" "fst r \<le> 2 ^ 53"
  shows "\<exists>n. float_val r * 2 ^ 53 = of_int n"
proof -
  have "- 53 \<le> snd r"
  proof (rule ccontr)
    assume "\<not> - 53 \<le> snd r"
    then have "(2::real) powi snd r \<le> 2 powi (- 54)" by (intro power_int_increasing) auto
    moreover have "real_of_int (fst r) \<le> 2 ^ 53" using assms(2) by (metis of_int_le_numeral_power_cancel_iff)
    ultimately have "float_val r \<le> 2 ^ 53 * 2 powi (- 54)" unfolding float_val_def by (intro mult_mono) auto
    also have "\<dots> = 1 / 2" by (simp add: power_int_def power_one_over)
    finally show False using assms(1) by simp
  qed
  then have "float_val r * 2 ^ 53 = of_int (fst r * 2 ^ nat (snd r + 53))"
  proof -
    assume "- 53 \<le> snd r"
    then have "(2::real) ^ nat (snd r + 53) = 2 powi (snd r + 53)" by (simp add: power_int_def)
    then show ?thesis by (simp add: float_val_def power_int_add)
  qed
  then show ?thesis by blast
qed

lemma support_threshold:
  assumes "0 \<le> g" "0 \<le> p" "g + p \<le> n" "0 < n" "n \<le> 2 ^ 48"
  shows "float_le groundedRatioThreshold (support_ratio g p n) \<longleftrightarrow> 7 * n \<le> 5 * (2 * g + p)"
proof (cases "2 * g + p = 0")
  case True
  have "support_ratio g p n = (0, 0 - snd (float_quot n 1))"
    unfolding support_ratio_def True by (simp add: float_divide_def float_quot_def)
  then show ?thesis using True assms(4) by (simp add: float_le_val float_val_def threshold_value power_int_minus)
next
  case False
  define s r x where defs: "s = 2 * g + p" "r = support_ratio g p n" "x = real_of_int s / (2 * of_int n)"
  have s: "0 < s" "s < 2 ^ 53" "n < 2 ^ 53" using False assms by (auto simp: defs)
  have r: "r = float_divide (float_quot s 2) (float_quot n 1)" by (simp add: defs support_ratio_def)
  note E = support_ratio_error(1) [OF s(1,2) assms(4) s(3) r, folded defs(3)]
    and M = support_ratio_error(2) [OF s(1,2) assms(4) s(3) r]
  have th: "float_val groundedRatioThreshold = 6305039478318694 / 2 ^ 53"
    by (simp add: threshold_value float_val_def power_int_minus)
  show ?thesis
  proof (cases "7 * n \<le> 5 * s")
    case True
    then have "real_of_int (7 * n) \<le> of_int (5 * s)" unfolding of_int_le_iff .
    then have x: "7 / 10 \<le> x" using assms(4) by (simp add: defs(3) field_simps)
    moreover have "x \<le> float_val r + float_val r / 2 ^ 53" using E by linarith
    ultimately have big: "7 / 10 \<le> float_val r * (1 + 1 / 2 ^ 53)" by simp
    then have "1 / 2 < float_val r" by simp
    then obtain k where k: "float_val r * 2 ^ 53 = of_int k" using multiple_of_ulp M by blast
    have "6305039478318693 < k"
    proof (rule ccontr)
      assume "\<not> 6305039478318693 < k"
      then have "real_of_int k \<le> 6305039478318693" by linarith
      then show False using big k by simp
    qed
    then have "6305039478318694 \<le> float_val r * 2 ^ 53" unfolding k by linarith
    then show ?thesis using True by (simp add: float_le_val th defs(1,2))
  next
    case False
    then have "real_of_int (5 * s + 1) \<le> of_int (7 * n)" unfolding of_int_le_iff by linarith
    moreover have "real_of_int n \<le> 2 ^ 48" using assms(5) by (metis of_int_le_numeral_power_cancel_iff)
    ultimately have x: "x \<le> 7 / 10 - 1 / (10 * 2 ^ 48)"
    proof -
      assume a: "real_of_int (5 * s + 1) \<le> of_int (7 * n)" "real_of_int n \<le> 2 ^ 48"
      have "x \<le> 7 / 10 - 1 / (10 * real_of_int n)" using a(1) assms(4) by (simp add: defs(3) field_simps)
      moreover have "1 / (10 * (2::real) ^ 48) \<le> 1 / (10 * real_of_int n)" using a(2) assms(4) by (intro divide_left_mono) auto
      ultimately show ?thesis by linarith
    qed
    have "float_val r - float_val r / 2 ^ 53 \<le> x" using E by linarith
    then have "float_val r < 6305039478318694 / 2 ^ 53" using x by simp
    then show ?thesis using False by (simp add: float_le_val th defs(1,2))
  qed
qed

section \<open>Results\<close>

lemma status_counts:
  "status_count ''grounded'' cs + status_count ''partial'' cs + status_count ''ungrounded'' cs =
   int (length (filter (\<lambda>c. cg_Status c \<in> set claim_statuses) cs))"
  by (induction cs) (auto simp: status_count_def claim_statuses_def)

lemma status_count_nonneg [simp]: "0 \<le> status_count st cs"
  by (simp add: status_count_def)

lemma scoreGroundingVerdict_simps [simp]:
  "gv_Claims (scoreGroundingVerdict quote v) = gv_Claims v"
  "gv_Unavailable (scoreGroundingVerdict quote v) = gv_Unavailable v"
  "gv_AuditedParts (scoreGroundingVerdict quote v) = gv_AuditedParts v"
  by (simp_all add: scoreGroundingVerdict_def Let_def)

text \<open>A fresh verdict is met exactly when nothing was classified, or the two conditions of the code hold.\<close>

definition classified :: "ClaimGrounding list \<Rightarrow> int" where
  "classified cs = int (length (filter (\<lambda>c. cg_Status c \<in> set claim_statuses) cs))"

lemma score_met:
  assumes "int (length cs) \<le> 2 ^ 48"
  shows "gv_Met (scoreGroundingVerdict quote (no_verdict\<lparr>gv_Claims := cs\<rparr>)) \<longleftrightarrow> classified cs = 0 \<or>
    7 * classified cs \<le> 10 * status_count ''grounded'' cs + 5 * status_count ''partial'' cs \<and>
    int (length (hard_ungrounded cs)) \<le> classified cs div 20"
proof -
  define g p u where defs: "g = status_count ''grounded'' cs" "p = status_count ''partial'' cs" "u = status_count ''ungrounded'' cs"
  have n: "g + p + u = classified cs" by (simp add: defs status_counts classified_def)
  have "0 \<le> g" "0 \<le> p" "0 \<le> u" by (simp_all add: defs)
  moreover have "classified cs \<le> 2 ^ 48"
    using assms length_filter_le [of "\<lambda>c. cg_Status c \<in> set claim_statuses" cs] unfolding classified_def by linarith
  ultimately have th: "classified cs \<noteq> 0 \<Longrightarrow> float_le groundedRatioThreshold (support_ratio g p (classified cs)) \<longleftrightarrow>
      7 * classified cs \<le> 5 * (2 * g + p)"
    using n by (intro support_threshold) auto
  have met: "gv_Met (scoreGroundingVerdict quote (no_verdict\<lparr>gv_Claims := cs\<rparr>)) \<longleftrightarrow> classified cs = 0 \<or>
      float_le groundedRatioThreshold (support_ratio g p (classified cs)) \<and>
      int (length (hard_ungrounded cs)) \<le> classified cs div 20"
    by (simp add: scoreGroundingVerdict_def no_verdict_def Let_def n flip: defs)
  show ?thesis unfolding met using th by (auto simp: defs)
qed

text \<open>What the strict reading asks of each claim.\<close>

definition known_claim :: "ClaimGrounding \<Rightarrow> bool" where
  "known_claim c \<longleftrightarrow> cg_ClaimType c \<in> set claim_types \<and> cg_Status c \<in> set claim_statuses"

definition supported_claim :: "ClaimGrounding \<Rightarrow> bool" where
  "supported_claim c \<longleftrightarrow> cg_ClaimType c = ''framing'' \<or> cg_Status c = ''grounded''"

lemma strict_issues_known: "(\<exists>is. strict_issues quote cs = Inr is) \<longleftrightarrow> list_all known_claim cs"
  by (induction cs) (auto simp: known_claim_def split: sum.splits)

lemma strict_issues_none: "strict_issues quote cs = Inr [] \<longleftrightarrow> list_all (\<lambda>c. known_claim c \<and> supported_claim c) cs"
  by (induction cs) (auto simp: known_claim_def supported_claim_def split: sum.splits)

lemma strict_available:
  "\<not> gv_Unavailable (strictGraphGrounding quote v) \<longleftrightarrow>
   \<not> gv_Unavailable v \<and> gv_Claims v \<noteq> [] \<and> list_all known_claim (gv_Claims v)"
  using strict_issues_known [of quote "gv_Claims v"]
  by (auto simp: strictGraphGrounding_def split: sum.splits list.splits)

lemma strict_met:
  "gv_Met (strictGraphGrounding quote v) \<longleftrightarrow>
   gv_Met v \<and> gv_Claims v \<noteq> [] \<and> list_all (\<lambda>c. known_claim c \<and> supported_claim c) (gv_Claims v)"
  unfolding strict_issues_none [of quote, symmetric]
  by (auto simp: strictGraphGrounding_def split: sum.splits list.splits)

lemma strictGraphGrounding_Claims [simp]: "gv_Claims (strictGraphGrounding quote v) = gv_Claims v"
  by (auto simp: strictGraphGrounding_def split: sum.splits list.splits)

section \<open>Partitions of a report\<close>

lemma concat_split_after [simp]: "concat (split_after s) = s"
  by (induction s) (auto split: list.splits)

lemma runes_Nil_iff: "runes s = [] \<longleftrightarrow> s = []"
  by (cases s) (auto simp: runes_def split: prod.splits)

lemma concat_partition_lines: "concat (partition_lines cur used ls) = cur @ concat ls"
  by (induction cur used ls rule: partition_lines.induct) (auto simp: Let_def)

text \<open>
  A part is a run of lines with at most \<open>targetRunes\<close> runes, or a single longer line; \<open>used\<close> counts the runes
  of the part being built.
\<close>

definition part_ok :: "string list \<Rightarrow> string \<Rightarrow> bool" where
  "part_ok lines part \<longleftrightarrow> part \<noteq> [] \<and>
     (part \<in> set lines \<or>
      (\<exists>ls. set ls \<subseteq> set lines \<and> part = concat ls \<and> sum_list (map (\<lambda>l. length (runes l)) ls) \<le> targetRunes))"

lemma partition_lines_ok:
  assumes "set ls \<subseteq> set lines" "set xs \<subseteq> set lines" "cur = concat xs" "used = sum_list (map (\<lambda>l. length (runes l)) xs)"
    and "cur \<in> set lines \<or> used \<le> targetRunes" and "part \<in> set (partition_lines cur used ls)"
  shows "part_ok lines part"
  using assms
proof (induction cur used ls arbitrary: xs rule: partition_lines.induct)
  case (1 cur used)
  then show ?case by (auto simp: part_ok_def split: if_splits)
next
  case (2 cur used line ls)
  let ?n = "length (runes line)"
  have empty: "cur = [] \<longleftrightarrow> used = 0" using "2.prems"(3,4) by (auto simp: runes_Nil_iff)
  have line: "line \<in> set lines" "set ls \<subseteq> set lines" using "2.prems"(1) by auto
  show ?case
  proof (cases "used > 0 \<and> used + ?n > targetRunes")
    case True
    then have "part = cur \<or> part \<in> set (partition_lines line ?n ls)" using "2.prems"(6) by (simp add: Let_def)
    then show ?thesis
    proof
      assume "part = cur"
      moreover have "cur \<noteq> []" using True empty by simp
      ultimately show ?thesis using "2.prems"(2-5) unfolding part_ok_def by blast
    next
      assume "part \<in> set (partition_lines line ?n ls)"
      then show ?thesis using True line by (intro "2.IH"(1) [where xs = "[line]"]) auto
    qed
  next
    case False
    then have "part \<in> set (partition_lines (cur @ line) (used + ?n) ls)" using "2.prems"(6) by (auto simp: Let_def)
    moreover have "cur @ line \<in> set lines \<or> used + ?n \<le> targetRunes" using False line empty by auto
    ultimately show ?thesis using False line "2.prems"(2-4)
      by (intro "2.IH"(2) [where xs = "xs @ [line]"]) (auto simp: Let_def)
  qed
qed

lemma partition_parts:
  "concat (partitionGroundingReport report) = report"
  "part \<in> set (partitionGroundingReport report) \<Longrightarrow> part_ok (split_after report) part"
  unfolding partitionGroundingReport_def
  by (simp add: concat_partition_lines) (rule partition_lines_ok [where xs = "[]"], auto)

section \<open>Verdicts of parts\<close>

lemma fold_add_part:
  "gv_Unavailable (fold add_part rs v) \<longleftrightarrow> gv_Unavailable v \<or> list_ex gv_Unavailable rs"
  "\<not> list_ex gv_Unavailable rs \<Longrightarrow> fold add_part rs v = v\<lparr>gv_Claims := gv_Claims v @ concat (map gv_Claims rs)\<rparr>"
  by (induction rs arbitrary: v) (auto simp: add_part_def Let_def)

definition accepted_audit :: "GroundingVerdict \<Rightarrow> bool" where
  "accepted_audit v \<longleftrightarrow> gv_Met v \<and> \<not> gv_Unavailable v"

text \<open>What an accepted audit of a version-2 report says of its claims.\<close>

definition strict_claims :: "ClaimGrounding list \<Rightarrow> bool" where
  "strict_claims cs \<longleftrightarrow> cs \<noteq> [] \<and> list_all (\<lambda>c. known_claim c \<and> supported_claim c) cs \<and>
     7 * int (length cs) \<le> 10 * status_count ''grounded'' cs + 5 * status_count ''partial'' cs"

lemma strict_classified: "list_all known_claim cs \<Longrightarrow> classified cs = int (length cs)"
  by (induction cs) (auto simp: classified_def known_claim_def)

lemma strict_hard: "list_all (\<lambda>c. known_claim c \<and> supported_claim c) cs \<Longrightarrow> hard_ungrounded cs = []"
  by (induction cs) (auto simp: hard_ungrounded_def supported_claim_def hardCategories_def)

lemma strict_accepted:
  assumes "int (length cs) \<le> 2 ^ 48"
  shows "accepted_audit (strictGraphGrounding quote (scoreGroundingVerdict quote (no_verdict\<lparr>gv_Claims := cs\<rparr>))) \<longleftrightarrow> strict_claims cs"
proof (cases "cs \<noteq> [] \<and> list_all (\<lambda>c. known_claim c \<and> supported_claim c) cs")
  case True
  then have "list_all known_claim cs" by (auto simp: list_all_iff)
  moreover have "0 \<le> int (length cs) div 20" by simp
  ultimately show ?thesis
    using True strict_classified strict_hard
    by (simp add: accepted_audit_def strict_met strict_available score_met [OF assms] strict_claims_def) (simp add: no_verdict_def)
next
  case False
  then show ?thesis by (auto simp: accepted_audit_def strict_met strict_claims_def)
qed

lemma combine_accepted:
  assumes "int (length (concat (map gv_Claims rs))) \<le> 2 ^ 48"
  shows "accepted_audit (combineGroundingParts quote rs) \<longleftrightarrow>
    list_all (\<lambda>r. \<not> gv_Unavailable r) rs \<and> strict_claims (concat (map gv_Claims rs))"
proof (cases "list_ex gv_Unavailable rs")
  case True
  then have "gv_Unavailable (combineGroundingParts quote rs)" by (simp add: combineGroundingParts_def Let_def fold_add_part(1))
  then show ?thesis using True by (auto simp: accepted_audit_def list_all_iff list_ex_iff)
next
  case False
  have "fold add_part rs no_verdict = no_verdict\<lparr>gv_Claims := concat (map gv_Claims rs)\<rparr>"
    using fold_add_part(2) [OF False, of no_verdict] by (simp add: no_verdict_def)
  then have "combineGroundingParts quote rs =
      strictGraphGrounding quote (scoreGroundingVerdict quote (no_verdict\<lparr>gv_Claims := concat (map gv_Claims rs)\<rparr>))"
    by (simp add: combineGroundingParts_def Let_def) (simp add: no_verdict_def)
  then show ?thesis using strict_accepted [OF assms] False by (simp add: list_all_iff list_ex_iff)
qed

text \<open>Claims the saved audit of a part may stand in for: available, under the digest of exactly this text.\<close>

definition part_verdict ::
    "(string \<Rightarrow> string) \<Rightarrow> (string \<Rightarrow> string) \<Rightarrow> (string \<Rightarrow> GroundingVerdict) \<Rightarrow> GroundingVerdict option \<Rightarrow> string \<Rightarrow> GroundingVerdict" where
  "part_verdict quote sha256 audit prior part =
     (case map_of (rev (completed_parts quote prior)) (sha256 part) of Some v \<Rightarrow> v | None \<Rightarrow> audit part)"

lemma part_verdict_cases:
  obtains (audited) "part_verdict quote sha256 audit prior part = audit part"
  | (saved) v a where "prior = Some v" "a \<in> set (gv_AuditedParts v)" "pa_TargetHash a = sha256 part"
      "gv_Claims (part_verdict quote sha256 audit prior part) = pa_Claims a"
      "\<not> gv_Unavailable (part_verdict quote sha256 audit prior part)"
proof (cases "map_of (rev (completed_parts quote prior)) (sha256 part)")
  case None
  then show ?thesis using that(1) by (simp add: part_verdict_def)
next
  case (Some w)
  then have "(sha256 part, w) \<in> set (completed_parts quote prior)" using map_of_SomeD by fastforce
  then show ?thesis using that(2) Some by (fastforce simp: part_verdict_def completed_parts_def no_verdict_def split: option.splits)
qed

lemma runGroundingParts_nth:
  "i < length parts \<Longrightarrow> runGroundingParts canceled audit parts ! i =
     (if canceled i then no_verdict\<lparr>gv_Unavailable := True, gv_Reason := ''partitioned grounding canceled''\<rparr> else audit (parts ! i))"
  by (simp add: runGroundingParts_def nth_enumerate_eq)

lemma length_runGroundingParts [simp]: "length (runGroundingParts canceled audit parts) = length parts"
  by (simp add: runGroundingParts_def)

end
