(* ===== verification/Grounding_Docs.thy ===== *)
theory Grounding_Docs
  imports Grounding Json Tool_Registry Go_Error
begin

text \<open>
  The evidence an audit reads: which fetched documents enter it and how much of each
  (\<open>selectGroundingDocs\<close> and the windows of \<open>internal/agenttask/grounding.go\<close>), the identity of a document
  (\<open>internal/core/docurl.go\<close>), the request (\<open>grounding_request.go\<close>) and the audit of one part. Parameters:
  \<open>lower\<close> is \<open>strings.ToLower\<close>, \<open>url_host\<close> the host name of \<open>url.Parse\<close>, \<open>mentions\<close> the search for a
  bare host name, the JSON decoders of claims and the model.
\<close>

section \<open>Links in a text\<close>

text \<open>
  \<open>https?://[^...]+\<close>: \<open>stop\<close> holds the bytes that end a link. A link starts wherever the scheme stands, the
  search goes on behind it.
\<close>

definition match_url :: "char set \<Rightarrow> string \<Rightarrow> (string \<times> string) option" where
  "match_url stop s =
     (let n = (if has_prefix s ''https://'' then 8 else if has_prefix s ''http://'' then 7 else 0);
          body = takeWhile (\<lambda>c. c \<notin> stop) (drop n s)
      in if n = 0 \<or> body = [] then None else Some (take n s @ body, drop (n + length body) s))"

lemma match_url_shorter: "match_url stop s = Some (u, r) \<Longrightarrow> length r < length s"
proof -
  assume m: "match_url stop s = Some (u, r)"
  then have "s \<noteq> []" by (cases s) (auto simp: match_url_def Let_def has_prefix_def split: if_splits)
  with m show ?thesis by (auto simp: match_url_def Let_def split: if_splits)
qed

function find_urls :: "char set \<Rightarrow> string \<Rightarrow> string list" where
  "find_urls stop s =
     (case match_url stop s of
        Some (u, r) \<Rightarrow> u # find_urls stop r
      | None \<Rightarrow> (case s of [] \<Rightarrow> [] | c # t \<Rightarrow> find_urls stop t))"
  by pat_completeness auto
termination
  by (relation "measure (\<lambda>(_, s). length s)") (auto dest: match_url_shorter)

function blank_urls :: "char set \<Rightarrow> string \<Rightarrow> string" where
  "blank_urls stop s =
     (case match_url stop s of
        Some (u, r) \<Rightarrow> CHR '' '' # blank_urls stop r
      | None \<Rightarrow> (case s of [] \<Rightarrow> [] | c # t \<Rightarrow> c # blank_urls stop t))"
  by pat_completeness auto
termination
  by (relation "measure (\<lambda>(_, s). length s)") (auto dest: match_url_shorter)

declare find_urls.simps [simp del] blank_urls.simps [simp del]

definition space_bytes :: "char set" where
  "space_bytes = {CHR 0x09, CHR 0x0A, CHR 0x0C, CHR 0x0D, CHR 0x20}"

definition reportURLRE :: "char set" where
  "reportURLRE = space_bytes \<union> {CHR '')'', CHR '']'', CHR ''}'', CHR ''<'', CHR ''>'', CHR 0x22, CHR 0x27, CHR 0x60}"

section \<open>Identity of a document\<close>

text \<open>\<open>strings.TrimRight\<close> with a cutset of runes, given as their encodings; \<open>trim_front\<close> is \<open>TrimLeft\<close>.\<close>

definition trim_right_of :: "string list \<Rightarrow> string \<Rightarrow> string" where
  "trim_right_of cutset s = rev (trim_front (map rev cutset) (rev s))"

definition trim_suffix :: "string \<Rightarrow> string \<Rightarrow> string" where
  "trim_suffix s p = (if has_suffix s p then take (length s - length p) s else s)"

definition link_open :: "string list" where
  "link_open = [''('', ''<'', ''['', [CHR 0xC2, CHR 0xAB], [CHR 0x22], [CHR 0x27], [CHR 0x60]]"

definition link_close :: "string list" where
  "link_close = [''.'', '','', '';'', '':'', ''!'', ''?'', '')'', ''>'', '']'', [CHR 0xC2, CHR 0xBB], [CHR 0x22], [CHR 0x27], [CHR 0x60]]"

definition NormalizeDocURL :: "(string \<Rightarrow> string) \<Rightarrow> string \<Rightarrow> string" where
  "NormalizeDocURL lower raw =
     (let u = trim_right_of link_close (trim_front link_open (trim_space raw));
          u = trim_prefix (trim_prefix u ''https://'') ''http://'';
          u = takeWhile (\<lambda>c. c \<noteq> CHR ''#'') (trim_prefix u ''www.'')
      in lower (trim_suffix u ''/''))"

definition SameDocURL :: "(string \<Rightarrow> string) \<Rightarrow> string \<Rightarrow> string \<Rightarrow> bool" where
  "SameDocURL lower a b \<longleftrightarrow> NormalizeDocURL lower a \<noteq> [] \<and> NormalizeDocURL lower a = NormalizeDocURL lower b"

section \<open>Tool outputs\<close>

record ToolOutput =
  to_ToolName :: string
  to_ToolInput :: json
  to_Output :: string
  to_OutputFormat :: string
  to_Metadata :: json
  to_Iteration :: int

definition metaString :: "json \<Rightarrow> string \<Rightarrow> string" where
  "metaString meta key = (case jget meta key of Some (JStr s) \<Rightarrow> s | _ \<Rightarrow> [])"

definition groundingDocURL :: "ToolOutput \<Rightarrow> string" where
  "groundingDocURL d =
     (let final = metaString (to_Metadata d) ''final_url''; requested = metaString (to_Metadata d) ''requested_url'' in
      if final \<noteq> [] then final
      else if requested \<noteq> [] then requested
      else case struct_members (to_ToolInput d) of
          None \<Rightarrow> []
        | Some kvs \<Rightarrow> (case str_field ''url'' kvs of None \<Rightarrow> [] | Some u \<Rightarrow> u))"

definition groundingDocHost :: "(string \<Rightarrow> string) \<Rightarrow> (string \<Rightarrow> string option) \<Rightarrow> string \<Rightarrow> string" where
  "groundingDocHost lower url_host raw =
     (case url_host raw of None \<Rightarrow> [] | Some h \<Rightarrow> trim_prefix (lower h) ''www.'')"

definition reportMentionsDocHost ::
    "(string \<Rightarrow> string) \<Rightarrow> (string \<Rightarrow> string option) \<Rightarrow> (string \<Rightarrow> string \<Rightarrow> bool) \<Rightarrow> string \<Rightarrow> string \<Rightarrow> bool" where
  "reportMentionsDocHost lower url_host mentions report raw =
     (let host = groundingDocHost lower url_host raw in if host = [] then False else mentions host report)"

definition reportCitedURLs :: "(string \<Rightarrow> string) \<Rightarrow> string \<Rightarrow> string list" where
  "reportCitedURLs lower report = filter (\<lambda>u. u \<noteq> []) (map (NormalizeDocURL lower) (find_urls reportURLRE report))"

section \<open>Selection\<close>

definition groundingPerDocCap :: nat where "groundingPerDocCap = 25000"
definition groundingCitedDocCap :: nat where "groundingCitedDocCap = 60000"
definition groundingTotalBudget :: nat where "groundingTotalBudget = 250000"
definition groundingMinWindow :: nat where "groundingMinWindow = 4000"

record groundingDoc =
  gd_Doc :: ToolOutput
  gd_URL :: string
  gd_Title :: string
  gd_Cited :: bool
  gd_Window :: nat

abbreviation doc_length :: "groundingDoc \<Rightarrow> nat" where
  "doc_length g \<equiv> length (to_Output (gd_Doc g))"

text \<open>Documents by address, the newest fetch of each, in the order of their first fetch.\<close>

definition url_order :: "ToolOutput list \<Rightarrow> string list" where
  "url_order docs = rev (remdups (rev (map groundingDocURL docs)))"

definition latest_doc :: "ToolOutput list \<Rightarrow> string \<Rightarrow> ToolOutput option" where
  "latest_doc docs = map_of (rev (map (\<lambda>d. (groundingDocURL d, d)) docs))"

definition candidate_docs :: "(string \<Rightarrow> string) \<Rightarrow> string \<Rightarrow> ToolOutput list \<Rightarrow> groundingDoc list" where
  "candidate_docs lower report docs =
     (let cited = reportCitedURLs lower report in
      concat (map (\<lambda>url. case latest_doc docs url of
          None \<Rightarrow> []
        | Some d \<Rightarrow> [\<lparr>gd_Doc = d, gd_URL = url, gd_Title = metaString (to_Metadata d) ''title'',
            gd_Cited = (NormalizeDocURL lower url \<in> set cited \<or>
                        NormalizeDocURL lower (metaString (to_Metadata d) ''requested_url'') \<in> set cited),
            gd_Window = 0\<rparr>]) (url_order docs)))"

definition mentionsUnlinkedHost ::
    "(string \<Rightarrow> string) \<Rightarrow> (string \<Rightarrow> string option) \<Rightarrow> (string \<Rightarrow> string \<Rightarrow> bool) \<Rightarrow> string \<Rightarrow> string \<Rightarrow> bool" where
  "mentionsUnlinkedHost lower url_host mentions report raw \<longleftrightarrow>
     groundingDocHost lower url_host raw \<notin> set (map (groundingDocHost lower url_host) (find_urls reportURLRE report)) \<and>
     reportMentionsDocHost lower url_host mentions (blank_urls reportURLRE report) raw"

definition mentioned_doc ::
    "(string \<Rightarrow> string) \<Rightarrow> (string \<Rightarrow> string option) \<Rightarrow> (string \<Rightarrow> string \<Rightarrow> bool) \<Rightarrow> string \<Rightarrow> groundingDoc \<Rightarrow> bool" where
  "mentioned_doc lower url_host mentions report g \<longleftrightarrow>
     mentionsUnlinkedHost lower url_host mentions report (gd_URL g) \<or>
     mentionsUnlinkedHost lower url_host mentions report (metaString (to_Metadata (gd_Doc g)) ''requested_url'')"

record selection =
  sel_budget :: nat
  sel_out :: "groundingDoc list"
  sel_omitted :: nat

definition admit :: "nat \<Rightarrow> groundingDoc \<Rightarrow> selection \<Rightarrow> selection" where
  "admit cap g sel =
     (if sel_budget sel < min groundingMinWindow (doc_length g) then sel\<lparr>sel_omitted := sel_omitted sel + 1\<rparr>
      else
        let w = min (min (doc_length g) cap) (sel_budget sel)
        in sel\<lparr>sel_budget := sel_budget sel - w, sel_out := sel_out sel @ [g\<lparr>gd_Window := w\<rparr>]\<rparr>)"

definition second_helping :: "nat \<Rightarrow> groundingDoc \<Rightarrow> nat" where
  "second_helping budget g =
     (if gd_Cited g then min (min (doc_length g) groundingCitedDocCap - gd_Window g) budget else 0)"

fun lengthen :: "nat \<Rightarrow> groundingDoc list \<Rightarrow> nat \<times> groundingDoc list" where
  "lengthen budget [] = (budget, [])"
| "lengthen budget (g # gs) =
     (let extra = second_helping budget g;
          rest = lengthen (budget - extra) gs
      in (fst rest, g\<lparr>gd_Window := gd_Window g + extra\<rparr> # snd rest))"

definition first_cap :: "nat \<Rightarrow> nat" where
  "first_cap n = (if n > 0 then min groundingPerDocCap (max groundingMinWindow (groundingTotalBudget div n)) else groundingPerDocCap)"

definition spend :: "groundingDoc list \<Rightarrow> groundingDoc list \<Rightarrow> groundingDoc list \<Rightarrow> selection" where
  "spend head mentioned tail =
     (let cap = first_cap (length head + length mentioned);
          start = \<lparr>sel_budget = groundingTotalBudget, sel_out = [], sel_omitted = 0\<rparr>;
          first = fold (admit cap) (head @ mentioned) start;
          second = (case lengthen (sel_budget first) (sel_out first) of (b, out) \<Rightarrow> first\<lparr>sel_budget := b, sel_out := out\<rparr>)
      in fold (admit groundingPerDocCap) tail second)"

text \<open>The statistics only go to the log, apart from the number of omitted documents.\<close>

definition selectGroundingDocs ::
    "(string \<Rightarrow> string) \<Rightarrow> (string \<Rightarrow> string option) \<Rightarrow> (string \<Rightarrow> string \<Rightarrow> bool) \<Rightarrow> string \<Rightarrow> ToolOutput list \<Rightarrow> selection" where
  "selectGroundingDocs lower url_host mentions report docs =
     (let candidates = candidate_docs lower report docs;
          uncited = filter (\<lambda>g. \<not> gd_Cited g) candidates
      in spend (filter gd_Cited candidates)
           (filter (mentioned_doc lower url_host mentions report) uncited)
           (rev (filter (\<lambda>g. \<not> mentioned_doc lower url_host mentions report g) uncited)))"

section \<open>Windows\<close>

definition continuation :: "string \<Rightarrow> nat \<Rightarrow> bool" where
  "continuation text i \<longleftrightarrow> i < length text \<and> 0x80 \<le> byte_of (text ! i) \<and> byte_of (text ! i) < 0xC0"

fun rune_offset :: "nat \<Rightarrow> int \<Rightarrow> string \<Rightarrow> nat" where
  "rune_offset n r [] = 0"
| "rune_offset (Suc n) r (c # cs) = Suc (rune_offset n r cs)"
| "rune_offset 0 r (c # cs) = (if r \<le> 0 then 0 else Suc (rune_offset (snd (decode_rune c cs) - 1) (r - 1) cs))"

fun back_start :: "string \<Rightarrow> nat \<Rightarrow> nat" where
  "back_start text 0 = 0"
| "back_start text (Suc i) = (if continuation text (Suc i) then back_start text i else Suc i)"

fun back_end :: "string \<Rightarrow> nat \<Rightarrow> nat \<Rightarrow> nat" where
  "back_end text start 0 = 0"
| "back_end text start (Suc i) = (if Suc i > start \<and> continuation text (Suc i) then back_end text start i else Suc i)"

definition window_bounds :: "string \<Rightarrow> nat \<Rightarrow> int \<Rightarrow> nat \<times> nat" where
  "window_bounds text budget readOffset =
     (let offset = rune_offset 0 readOffset text;
          start = back_start text (min (offset - budget div 4) (length text - budget))
      in (start, back_end text start (min (length text) (start + budget))))"

definition groundingReadWindow :: "string \<Rightarrow> nat \<Rightarrow> int \<Rightarrow> string" where
  "groundingReadWindow text budget readOffset =
     (if length text \<le> budget then text
      else case window_bounds text budget readOffset of (start, stop) \<Rightarrow>
        (if start > 0 then ''[...excerpt begins at byte '' @ decimal start @ ''...]'' @ [CHR 0x0A] else []) @
        take (stop - start) (drop start text) @
        (if stop < length text then CHR 0x0A # ''[...truncated...]'' else []))"

fun read_offsets :: "nat \<Rightarrow> json list \<Rightarrow> nat list \<Rightarrow> nat list" where
  "read_offsets n [] acc = rev acc"
| "read_offsets n (v # vs) acc =
     (case v of
        JNum x \<Rightarrow>
          if x < 0 \<or> x > int n then read_offsets n vs acc
          else
            let acc' = (if nat x \<in> set acc then acc else nat x # acc)
            in if length acc' = 7 then rev acc' else read_offsets n vs acc'
      | _ \<Rightarrow> read_offsets n vs acc)"

definition groundingDocumentWindow :: "ToolOutput \<Rightarrow> nat \<Rightarrow> string" where
  "groundingDocumentWindow doc budget =
     (let values = (case jget (to_Metadata doc) ''read_offsets_chars'' of Some (JArr vs) \<Rightarrow> vs | _ \<Rightarrow> []);
          offsets = read_offsets (length (to_Output doc)) values []
      in
      if offsets = [] then
        groundingReadWindow (to_Output doc) budget (case jget (to_Metadata doc) ''read_offset_chars'' of Some (JNum x) \<Rightarrow> x | _ \<Rightarrow> 0)
      else join (CHR 0x0A # ''[...next recorded query window...]'' @ [CHR 0x0A])
        (map (\<lambda>(i, offset). groundingReadWindow (to_Output doc)
             (budget div length offsets + (if i < budget mod length offsets then 1 else 0)) (int offset))
           (enumerate 0 offsets)))"

section \<open>Requests\<close>

record ModelRef =
  mr_Provider :: string
  mr_Name :: string
  mr_ThinkingMode :: string
  mr_Effort :: string

definition ForRouter :: "ModelRef \<Rightarrow> string" where
  "ForRouter r = (if mr_Provider r \<noteq> [] then mr_Provider r @ '':'' @ mr_Name r else mr_Name r)"

record CompletionRequest =
  cr_Model :: string
  cr_System :: string
  cr_Messages :: "Message list"
  cr_MaxTokens :: int
  cr_Temperature :: go_float
  cr_Effort :: string
  cr_ThinkingMode :: string

record CompletionResponse =
  rs_Content :: "ContentBlock list"
  rs_StopReason :: string

text \<open>
  The texts of the two prompts, the configured models and the library functions a review uses. \<open>re_object\<close>
  decodes an object into the texts of its members, \<open>re_claims\<close> an array of claims and \<open>re_parsed\<close> the object with
  the member \<open>claims\<close>, its error as text; \<open>re_LLM\<close> is the configured model, absent when there is none.
\<close>

record review_env =
  re_quote :: "string \<Rightarrow> string"
  re_sha256 :: "string \<Rightarrow> string"
  re_lower :: "string \<Rightarrow> string"
  re_url_host :: "string \<Rightarrow> string option"
  re_mentions :: "string \<Rightarrow> string \<Rightarrow> bool"
  re_rfc3339nano :: "gotime \<Rightarrow> string"
  re_groundingSystemPrompt :: string
  re_graphGroundingPolicy :: string
  re_ModelStore :: "(string \<Rightarrow> ModelRef) option"
  re_Primary :: "ModelRef option"
  re_object :: "string \<Rightarrow> (string \<times> string) list option"
  re_claims :: "string \<Rightarrow> ClaimGrounding list option"
  re_parsed :: "string \<Rightarrow> string + ClaimGrounding list"
  re_marshal :: "CompletionRequest \<Rightarrow> string"
  re_error :: "goerror \<Rightarrow> string"
  re_LLM :: "(CompletionRequest \<Rightarrow> goerror + CompletionResponse option) option"

definition no_model :: ModelRef where
  "no_model = \<lparr>mr_Provider = [], mr_Name = [], mr_ThinkingMode = [], mr_Effort = []\<rparr>"

definition pickGroundingModel :: "review_env \<Rightarrow> ModelRef" where
  "pickGroundingModel env =
     (let configured = (case re_Primary env of Some r \<Rightarrow> r | None \<Rightarrow> no_model) in
      case re_ModelStore env of
        None \<Rightarrow> configured
      | Some get \<Rightarrow>
          if mr_Name (get ''grounding_evaluator'') \<noteq> [] then get ''grounding_evaluator''
          else if mr_Name (get ''compact'') \<noteq> [] then get ''compact''
          else if mr_Name (get ''cortex'') \<noteq> [] then get ''cortex''
          else configured)"

abbreviation newline :: string where "newline \<equiv> [CHR 0x0A]"

definition render_doc :: "review_env \<Rightarrow> nat \<Rightarrow> groundingDoc \<Rightarrow> string" where
  "render_doc env i g =
     ''=== Doc '' @ decimal (i + 1) @ '': '' @ gd_Title g @ '' ('' @ gd_URL g @ '')'' @ newline @
     (if to_ToolName (gd_Doc g) = ''browser_fetch'' then
        (case parse_rfc3339 (metaString (to_Metadata (gd_Doc g)) ''observed_at'') of
           Some t \<Rightarrow> ''[runtime_observation] observed_at='' @ re_rfc3339nano env t @ newline
         | None \<Rightarrow> [])
      else []) @
     (if doc_length g > gd_Window g then groundingDocumentWindow (gd_Doc g) (gd_Window g) else to_Output (gd_Doc g)) @
     newline @ newline"

definition buildGroundingSourceMessage :: "review_env \<Rightarrow> string \<Rightarrow> ToolOutput list \<Rightarrow> string" where
  "buildGroundingSourceMessage env report docs =
     (let sel = selectGroundingDocs (re_lower env) (re_url_host env) (re_mentions env) report docs in
      ''[fetched_documents]'' @ newline @
      concat (map (\<lambda>(i, g). render_doc env i g) (enumerate 0 (sel_out sel))) @
      (if sel_omitted sel > 0 then
         ''[note] '' @ decimal (sel_omitted sel) @
         '' further fetched documents did not fit the audit budget and are not shown. '' @
         ''Judge only against what is above; do not treat a missing document as evidence of fabrication.'' @ newline
       else []))"

definition buildGroundingUserMessage :: "review_env \<Rightarrow> string \<Rightarrow> ToolOutput list \<Rightarrow> string" where
  "buildGroundingUserMessage env report docs =
     ''[report]'' @ newline @ report @ newline @ newline @ buildGroundingSourceMessage env report docs"

definition groundingPrompt :: "review_env \<Rightarrow> int \<Rightarrow> string" where
  "groundingPrompt env version = re_groundingSystemPrompt env @ (if version = 2 then re_graphGroundingPolicy env else [])"

definition user_message :: "string \<Rightarrow> Message" where
  "user_message s = \<lparr>m_Role = ''user'', m_Content = CBlocks (NormalizeContent (CText s))\<rparr>"

definition groundingRequest :: "review_env \<Rightarrow> int \<Rightarrow> string \<Rightarrow> ToolOutput list \<Rightarrow> string \<Rightarrow> CompletionRequest" where
  "groundingRequest env version report docs target =
     (let goal = (if target \<noteq> [] then newline @ newline @ ''[audit_target]'' @ newline @ target else []);
          messages = (if version = 2
            then [user_message (buildGroundingSourceMessage env report docs), user_message (''[report]'' @ newline @ report @ goal)]
            else [user_message (buildGroundingUserMessage env report docs @ goal)]);
          model = pickGroundingModel env
      in \<lparr>cr_Model = ForRouter model, cr_System = groundingPrompt env version, cr_Messages = messages,
          cr_MaxTokens = 8192, cr_Temperature = float_quot 1 5, cr_Effort = mr_Effort model,
          cr_ThinkingMode = mr_ThinkingMode model\<rparr>)"

section \<open>The audit\<close>

definition contentToText :: "ContentBlock list \<Rightarrow> string" where
  "contentToText blocks = concat (map cb_Text (filter (\<lambda>b. cb_Type b = ''text'') blocks))"

definition first_index :: "char \<Rightarrow> string \<Rightarrow> nat option" where
  "first_index c s = (if c \<in> set s then Some (length (takeWhile (\<lambda>x. x \<noteq> c) s)) else None)"

definition last_index :: "char \<Rightarrow> string \<Rightarrow> nat option" where
  "last_index c s = map_option (\<lambda>i. length s - 1 - i) (first_index c (rev s))"

text \<open>A finished answer that lacks only its last brace, with nothing but claims in it.\<close>

definition recovered_claims :: "review_env \<Rightarrow> string \<Rightarrow> ClaimGrounding list option" where
  "recovered_claims env body =
     (case first_index (CHR ''{'') body of
        None \<Rightarrow> None
      | Some start \<Rightarrow>
          if \<not> has_suffix body '']'' then None
          else
            let candidate = drop start body @ ''}'' in
            if \<not> json_valid candidate then None
            else case re_object env candidate of
                None \<Rightarrow> None
              | Some kvs \<Rightarrow>
                  if card (fst ` set kvs) \<noteq> 1 then None
                  else case map_of kvs ''claims'' of
                      None \<Rightarrow> None
                    | Some raw \<Rightarrow>
                        (case re_claims env raw of Some (c # cs) \<Rightarrow> Some (c # cs) | _ \<Rightarrow> None))"

definition parseGroundingResponse :: "review_env \<Rightarrow> string \<Rightarrow> string + GroundingVerdict" where
  "parseGroundingResponse env raw =
     (let body = trim_space raw in
      case recovered_claims env body of
        Some cs \<Rightarrow> Inr (no_verdict\<lparr>gv_Claims := cs\<rparr>)
      | None \<Rightarrow>
          (case (first_index (CHR ''{'') body, last_index (CHR ''}'') body) of
             (Some start, Some stop) \<Rightarrow>
               if stop \<le> start then Inl ''no JSON object found in response''
               else (case re_parsed env (take (stop + 1 - start) (drop start body)) of
                   Inl e \<Rightarrow> Inl e
                 | Inr cs \<Rightarrow> Inr (no_verdict\<lparr>gv_Claims := cs\<rparr>))
           | _ \<Rightarrow> Inl ''no JSON object found in response''))"

definition unavailable_audit :: "string \<Rightarrow> GroundingVerdict" where
  "unavailable_audit reason = no_verdict\<lparr>gv_Unavailable := True, gv_Reason := reason\<rparr>"

definition evaluateGroundingPart :: "review_env \<Rightarrow> int \<Rightarrow> string \<Rightarrow> ToolOutput list \<Rightarrow> string \<Rightarrow> GroundingVerdict" where
  "evaluateGroundingPart env version report docs target =
     (if docs = [] then
        no_verdict\<lparr>gv_Met := True, gv_Reason := ''no fetched documents to audit against (Gate A should have caught this)''\<rparr>
      else case re_LLM env of
          None \<Rightarrow> unavailable_audit ''no LLM configured for grounding eval''
        | Some llm \<Rightarrow>
            let request = groundingRequest env version report docs target in
            if cr_Model request = [] then unavailable_audit ''no model configured for grounding eval''
            else case llm request of
                Inl e \<Rightarrow> (unavailable_audit (''grounding LLM call failed: '' @ re_error env e))
                    \<lparr>gv_RetryDelay := snd (TaskRetryPolicy (Some e))\<rparr>
              | Inr None \<Rightarrow> unavailable_audit ''grounding evaluator returned an incomplete audit''
              | Inr (Some resp) \<Rightarrow>
                  if rs_StopReason resp = ''max_tokens'' then unavailable_audit ''grounding evaluator returned an incomplete audit''
                  else case parseGroundingResponse env (contentToText (rs_Content resp)) of
                      Inl e \<Rightarrow> unavailable_audit (''grounding evaluator JSON parse failed: '' @ e)
                    | Inr v \<Rightarrow>
                        let w = scoreGroundingVerdict (re_quote env) v
                        in if version = 2 then strictGraphGrounding (re_quote env) w else w)"

text \<open>\<open>canceled i\<close> tells that the context of the audit was done when a worker took part \<open>i\<close>.\<close>

definition evaluateGrounding :: "review_env \<Rightarrow> (nat \<Rightarrow> bool) \<Rightarrow> int \<Rightarrow> string \<Rightarrow> ToolOutput list \<Rightarrow> GroundingVerdict" where
  "evaluateGrounding env canceled version report docs =
     (let parts = partitionGroundingReport report in
      if version = 2 \<and> docs \<noteq> [] \<and> length parts > 1 then
        evaluateGroundingParts (re_quote env) (re_sha256 env) canceled (evaluateGroundingPart env version report docs) parts None
      else evaluateGroundingPart env version report docs [])"

definition graphGroundingInputHash :: "review_env \<Rightarrow> int \<Rightarrow> string \<Rightarrow> ToolOutput list \<Rightarrow> string" where
  "graphGroundingInputHash env version report docs = re_sha256 env (re_marshal env (groundingRequest env version report docs []))"

text \<open>
  The review and the audit run side by side; an audit that the review's outcome cancels shows in
  \<open>canceled\<close> and in the errors of the model.
\<close>

definition completeGraphReviews ::
    "review_env \<Rightarrow> (nat \<Rightarrow> bool) \<Rightarrow> (CompletionRequest \<Rightarrow> goerror + CompletionResponse option) \<Rightarrow> int \<Rightarrow> string \<Rightarrow>
     ToolOutput list \<Rightarrow> CompletionRequest \<Rightarrow> AcceptanceVerdict option \<Rightarrow>
     (goerror + CompletionResponse option) \<times> GroundingVerdict option \<times> string" where
  "completeGraphReviews env canceled llm version report docs request prior =
     (if docs = [] then (llm request, None, [])
      else
        let h = graphGroundingInputHash env version report docs;
            saved = (case prior of Some v \<Rightarrow> if av_GroundingInputHash v = h then av_Grounding v else None | None \<Rightarrow> None);
            parts = partitionGroundingReport report
        in
        case saved of
          Some g \<Rightarrow>
            if \<not> gv_Unavailable g then (llm request, Some g, h)
            else if version = 2 \<and> length parts > 1 then
              (llm request,
               Some (evaluateGroundingParts (re_quote env) (re_sha256 env) canceled
                 (evaluateGroundingPart env version report docs) parts (Some g)), h)
            else (llm request, Some (evaluateGrounding env canceled version report docs), h)
        | None \<Rightarrow> (llm request, Some (evaluateGrounding env canceled version report docs), h))"

end
