(* ===== verification/Grounding_Theorems.thy ===== *)
theory Grounding_Theorems
  imports Grounding_Docs "HOL-Library.Multiset"
begin

text \<open>
  What the grounding audit guarantees: the documents and windows it reads, and what an accepted verdict
  says of the claims of the whole report.
\<close>

section \<open>The audit budget\<close>

definition windows :: "groundingDoc list \<Rightarrow> nat" where
  "windows gs = sum_list (map gd_Window gs)"

definition window_ok :: "groundingDoc \<Rightarrow> bool" where
  "window_ok g \<longleftrightarrow> min groundingMinWindow (doc_length g) \<le> gd_Window g \<and> gd_Window g \<le> doc_length g"

definition spent_ok :: "selection \<Rightarrow> bool" where
  "spent_ok sel \<longleftrightarrow> sel_budget sel + windows (sel_out sel) = groundingTotalBudget \<and> list_all window_ok (sel_out sel)"

text \<open>The addresses and rows of a selection, which the windows do not change.\<close>

definition rows_of :: "groundingDoc list \<Rightarrow> (string \<times> ToolOutput \<times> bool) list" where
  "rows_of gs = map (\<lambda>g. (gd_URL g, gd_Doc g, gd_Cited g)) gs"

lemma rows_of_simps [simp]:
  "rows_of [] = []" "rows_of (g # gs) = (gd_URL g, gd_Doc g, gd_Cited g) # rows_of gs"
  "rows_of (gs @ hs) = rows_of gs @ rows_of hs"
  by (simp_all add: rows_of_def)

lemma admit_ok:
  assumes "groundingMinWindow \<le> cap" "spent_ok sel"
  shows "spent_ok (admit cap g sel)"
  using assms by (auto simp: spent_ok_def admit_def Let_def windows_def window_ok_def)

lemma admits_ok:
  assumes "groundingMinWindow \<le> cap" "spent_ok sel"
  shows "spent_ok (fold (admit cap) gs sel)"
  using assms(2) by (induction gs arbitrary: sel) (auto intro: admit_ok [OF assms(1)])

lemma admits_rows:
  "\<exists>kept. subseq kept (rows_of gs) \<and> rows_of (sel_out (fold (admit cap) gs sel)) = rows_of (sel_out sel) @ kept \<and>
     length (sel_out (fold (admit cap) gs sel)) + sel_omitted (fold (admit cap) gs sel) =
       length (sel_out sel) + sel_omitted sel + length gs"
proof (induction gs arbitrary: sel)
  case Nil
  show ?case by (intro exI [of _ "[]"]) simp
next
  case (Cons g gs)
  obtain kept where k: "subseq kept (rows_of gs)"
    "rows_of (sel_out (fold (admit cap) gs (admit cap g sel))) = rows_of (sel_out (admit cap g sel)) @ kept"
    "length (sel_out (fold (admit cap) gs (admit cap g sel))) + sel_omitted (fold (admit cap) gs (admit cap g sel)) =
       length (sel_out (admit cap g sel)) + sel_omitted (admit cap g sel) + length gs"
    using Cons.IH by blast
  show ?case
  proof (cases "sel_budget sel < min groundingMinWindow (doc_length g)")
    case True
    then have "rows_of (sel_out (admit cap g sel)) = rows_of (sel_out sel)" "length (sel_out (admit cap g sel)) = length (sel_out sel)"
      "sel_omitted (admit cap g sel) = sel_omitted sel + 1" by (simp_all add: admit_def)
    then show ?thesis using k by (intro exI [of _ kept]) auto
  next
    case False
    then have "rows_of (sel_out (admit cap g sel)) = rows_of (sel_out sel) @ [(gd_URL g, gd_Doc g, gd_Cited g)]"
      "length (sel_out (admit cap g sel)) = length (sel_out sel) + 1" "sel_omitted (admit cap g sel) = sel_omitted sel"
      by (simp_all only: admit_def Let_def if_False) simp_all
    then show ?thesis using k by (intro exI [of _ "(gd_URL g, gd_Doc g, gd_Cited g) # kept"]) auto
  qed
qed

lemma admits_all:
  assumes "groundingMinWindow \<le> cap" "cap * length gs \<le> sel_budget sel"
  shows "sel_out (fold (admit cap) gs sel) = sel_out sel @ map (\<lambda>g. g\<lparr>gd_Window := min (doc_length g) cap\<rparr>) gs"
  using assms(2)
proof (induction gs arbitrary: sel)
  case (Cons g gs)
  let ?sel = "admit cap g sel"
  have "cap \<le> sel_budget sel" using Cons.prems by simp
  then have sel: "sel_out ?sel = sel_out sel @ [g\<lparr>gd_Window := min (doc_length g) cap\<rparr>]" "sel_budget sel - cap \<le> sel_budget ?sel"
    using assms(1) by (auto simp: admit_def Let_def)
  moreover have "cap * length gs \<le> sel_budget ?sel" using Cons.prems sel(2) by simp
  ultimately show ?case using Cons.IH by simp
qed simp

lemma second_helping_bounds: "second_helping b g \<le> b" "gd_Window g \<le> doc_length g \<Longrightarrow> gd_Window g + second_helping b g \<le> doc_length g"
proof -
  show "second_helping b g \<le> b" by (simp add: second_helping_def)
  assume w: "gd_Window g \<le> doc_length g"
  have "min (min (doc_length g) groundingCitedDocCap - gd_Window g) b \<le> doc_length g - gd_Window g" by linarith
  then show "gd_Window g + second_helping b g \<le> doc_length g" using w unfolding second_helping_def by (cases "gd_Cited g") simp_all
qed

lemma lengthen_budget: "fst (lengthen b gs) + windows (snd (lengthen b gs)) = b + windows gs"
proof (induction b gs rule: lengthen.induct)
  case (2 b g gs)
  show ?case using 2 [OF refl] second_helping_bounds(1) [of b g] by (simp add: windows_def Let_def)
qed simp

lemma lengthen_windows: "list_all window_ok gs \<Longrightarrow> list_all window_ok (snd (lengthen b gs))"
proof (induction b gs rule: lengthen.induct)
  case (2 b g gs)
  have "window_ok (g\<lparr>gd_Window := gd_Window g + second_helping b g\<rparr>)"
    using 2(2) second_helping_bounds(2) [of g b] by (simp add: window_ok_def)
  then show ?case using 2(1) [OF refl] 2(2) by (simp add: Let_def)
qed simp

lemma lengthen_rows: "rows_of (snd (lengthen b gs)) = rows_of gs"
  by (induction b gs rule: lengthen.induct) (auto simp: Let_def)

lemma lengthen_grows: "list_all2 (\<lambda>g h. gd_URL h = gd_URL g \<and> gd_Doc h = gd_Doc g \<and> gd_Window g \<le> gd_Window h) gs (snd (lengthen b gs))"
  by (induction b gs rule: lengthen.induct) (auto simp: Let_def)

lemma first_cap_min: "groundingMinWindow \<le> first_cap n"
  by (simp add: first_cap_def groundingMinWindow_def groundingPerDocCap_def)

text \<open>The selection after the first round, and the one after the cited documents were lengthened.\<close>

definition first_round :: "groundingDoc list \<Rightarrow> groundingDoc list \<Rightarrow> selection" where
  "first_round head mentioned = fold (admit (first_cap (length head + length mentioned))) (head @ mentioned)
     \<lparr>sel_budget = groundingTotalBudget, sel_out = [], sel_omitted = 0\<rparr>"

definition second_round :: "selection \<Rightarrow> selection" where
  "second_round sel = sel\<lparr>sel_budget := fst (lengthen (sel_budget sel) (sel_out sel)),
     sel_out := snd (lengthen (sel_budget sel) (sel_out sel))\<rparr>"

lemma spend_rounds: "spend head mentioned tail = fold (admit groundingPerDocCap) tail (second_round (first_round head mentioned))"
  by (simp add: spend_def first_round_def second_round_def Let_def case_prod_beta)

lemma second_round_ok:
  "spent_ok sel \<Longrightarrow> spent_ok (second_round sel)"
  "rows_of (sel_out (second_round sel)) = rows_of (sel_out sel)"
  "length (sel_out (second_round sel)) = length (sel_out sel)"
  "sel_omitted (second_round sel) = sel_omitted sel"
proof -
  show r: "rows_of (sel_out (second_round sel)) = rows_of (sel_out sel)" by (simp add: second_round_def lengthen_rows)
  then show "length (sel_out (second_round sel)) = length (sel_out sel)" by (metis length_map rows_of_def)
  show "spent_ok (second_round sel)" if "spent_ok sel"
    using that by (simp add: spent_ok_def second_round_def lengthen_budget lengthen_windows)
qed (simp add: second_round_def)

lemma spend_ok: "spent_ok (spend head mentioned tail)"
proof -
  have "spent_ok \<lparr>sel_budget = groundingTotalBudget, sel_out = [], sel_omitted = 0\<rparr>" by (simp add: spent_ok_def windows_def)
  then have "spent_ok (second_round (first_round head mentioned))"
    unfolding first_round_def by (intro second_round_ok admits_ok first_cap_min)
  then show ?thesis unfolding spend_rounds
    by (rule admits_ok [rotated]) (simp add: groundingMinWindow_def groundingPerDocCap_def)
qed

lemma spend_rows:
  "subseq (rows_of (sel_out (spend head mentioned tail))) (rows_of (head @ mentioned @ tail))"
  "length (sel_out (spend head mentioned tail)) + sel_omitted (spend head mentioned tail) =
     length head + length mentioned + length tail"
proof -
  note first = admits_rows [of "head @ mentioned" "first_cap (length head + length mentioned)"
      "\<lparr>sel_budget = groundingTotalBudget, sel_out = [], sel_omitted = 0\<rparr>", folded first_round_def]
  obtain k1 where k1: "subseq k1 (rows_of (head @ mentioned))" "rows_of (sel_out (first_round head mentioned)) = k1"
    "length (sel_out (first_round head mentioned)) + sel_omitted (first_round head mentioned) = length (head @ mentioned)"
    using first by (metis append_Nil add_0 rows_of_simps(1) selection.select_convs(2,3) list.size(3))
  obtain k2 where k2: "subseq k2 (rows_of tail)"
    "rows_of (sel_out (spend head mentioned tail)) = rows_of (sel_out (second_round (first_round head mentioned))) @ k2"
    "length (sel_out (spend head mentioned tail)) + sel_omitted (spend head mentioned tail) =
       length (sel_out (second_round (first_round head mentioned))) + sel_omitted (second_round (first_round head mentioned)) + length tail"
    using admits_rows [of tail groundingPerDocCap] unfolding spend_rounds by blast
  have "subseq (k1 @ k2) (rows_of (head @ mentioned @ tail))" using list_emb_append_mono [OF k1(1) k2(1)] by simp
  then show "subseq (rows_of (sel_out (spend head mentioned tail))) (rows_of (head @ mentioned @ tail))"
    using k1(2) k2(2) second_round_ok(2) by simp
  show "length (sel_out (spend head mentioned tail)) + sel_omitted (spend head mentioned tail) =
     length head + length mentioned + length tail" using k1(3) k2(3) second_round_ok(3,4) by simp
qed

section \<open>The selected documents\<close>

lemma set_url_order [simp]: "set (url_order docs) = groundingDocURL ` set docs"
  by (simp add: url_order_def)

lemma distinct_url_order [simp]: "distinct (url_order docs)"
  by (simp add: url_order_def)

lemma latest_doc_Some: "url \<in> groundingDocURL ` set docs \<Longrightarrow> \<exists>d. latest_doc docs url = Some d \<and> d \<in> set docs \<and> groundingDocURL d = url"
proof -
  assume "url \<in> groundingDocURL ` set docs"
  then obtain d where "latest_doc docs url = Some d"
    by (cases "latest_doc docs url") (auto simp: latest_doc_def map_of_eq_None_iff image_image)
  then show ?thesis by (auto simp: latest_doc_def dest: map_of_SomeD)
qed

lemma map_of_latest:
  assumes "\<And>url d. gd_URL (f url d) = url" "set urls \<subseteq> groundingDocURL ` set docs"
  shows "map gd_URL (concat (map (\<lambda>url. case latest_doc docs url of None \<Rightarrow> [] | Some d \<Rightarrow> [f url d]) urls)) = urls"
  using assms by (induction urls) (auto dest!: latest_doc_Some split: option.splits)

lemma candidate_urls: "map gd_URL (candidate_docs lower report docs) = url_order docs"
  unfolding candidate_docs_def Let_def by (rule map_of_latest) simp_all

lemma candidate_latest:
  "g \<in> set (candidate_docs lower report docs) \<Longrightarrow> latest_doc docs (gd_URL g) = Some (gd_Doc g)"
  by (auto simp: candidate_docs_def Let_def split: option.splits)

text \<open>Cited, mentioned and other candidates, in the order in which they are admitted.\<close>

definition admission_order ::
    "(string \<Rightarrow> string) \<Rightarrow> (string \<Rightarrow> string option) \<Rightarrow> (string \<Rightarrow> string \<Rightarrow> bool) \<Rightarrow> string \<Rightarrow> groundingDoc list \<Rightarrow> groundingDoc list" where
  "admission_order lower url_host mentions report cands =
     filter gd_Cited cands @
     filter (mentioned_doc lower url_host mentions report) (filter (\<lambda>g. \<not> gd_Cited g) cands) @
     rev (filter (\<lambda>g. \<not> mentioned_doc lower url_host mentions report g) (filter (\<lambda>g. \<not> gd_Cited g) cands))"

lemma mset_admission_order: "mset (admission_order lower url_host mentions report cands) = mset cands"
  by (simp add: admission_order_def) (rule multiset_eqI, simp)

lemma admission_urls:
  "distinct (map gd_URL (admission_order lower url_host mentions report (candidate_docs lower report docs)))"
  "set (admission_order lower url_host mentions report (candidate_docs lower report docs)) = set (candidate_docs lower report docs)"
  "length (admission_order lower url_host mentions report (candidate_docs lower report docs)) = length (url_order docs)"
proof -
  note m = mset_admission_order [of lower url_host mentions report "candidate_docs lower report docs"]
  show "set (admission_order lower url_host mentions report (candidate_docs lower report docs)) = set (candidate_docs lower report docs)"
    using m by (rule mset_eq_setD)
  have "mset (map gd_URL (admission_order lower url_host mentions report (candidate_docs lower report docs))) = mset (url_order docs)"
    by (simp add: m flip: candidate_urls [of lower report])
  then show "distinct (map gd_URL (admission_order lower url_host mentions report (candidate_docs lower report docs)))"
    "length (admission_order lower url_host mentions report (candidate_docs lower report docs)) = length (url_order docs)"
    using mset_eq_imp_distinct_iff distinct_url_order by (blast, metis length_map mset_eq_length)
qed

lemma subseq_set: "subseq xs ys \<Longrightarrow> set xs \<subseteq> set ys"
  by (induction rule: list_emb.induct) auto

lemma distinct_subseq: "subseq xs ys \<Longrightarrow> distinct ys \<Longrightarrow> distinct xs"
proof (induction rule: list_emb.induct)
  case (list_emb_Cons2 x y xs ys)
  then show ?case using subseq_set [OF list_emb_Cons2(2)] by auto
qed auto

lemma rows_urls: "map fst (rows_of gs) = map gd_URL gs"
  by (simp add: rows_of_def)

lemma selected_docs:
  fixes docs :: "ToolOutput list" and lower report url_host mentions
  defines "sel \<equiv> selectGroundingDocs lower url_host mentions report docs"
  shows "sum_list (map gd_Window (sel_out sel)) \<le> groundingTotalBudget"
    and "list_all (\<lambda>g. min groundingMinWindow (doc_length g) \<le> gd_Window g \<and> gd_Window g \<le> doc_length g) (sel_out sel)"
    and "distinct (map gd_URL (sel_out sel))"
    and "list_all (\<lambda>g. latest_doc docs (gd_URL g) = Some (gd_Doc g)) (sel_out sel)"
    and "length (sel_out sel) + sel_omitted sel = card (groundingDocURL ` set docs)"
proof -
  define head mentioned tail where defs:
    "head = filter gd_Cited (candidate_docs lower report docs)"
    "mentioned = filter (mentioned_doc lower url_host mentions report) (filter (\<lambda>g. \<not> gd_Cited g) (candidate_docs lower report docs))"
    "tail = rev (filter (\<lambda>g. \<not> mentioned_doc lower url_host mentions report g) (filter (\<lambda>g. \<not> gd_Cited g) (candidate_docs lower report docs)))"
  have sel: "sel = spend head mentioned tail" by (simp add: sel_def selectGroundingDocs_def Let_def defs)
  note A = admission_urls [of lower url_host mentions report docs, unfolded admission_order_def, folded defs]
  note ok = spend_ok [of head mentioned tail, folded sel, unfolded spent_ok_def windows_def]
  note R = spend_rows [of head mentioned tail, folded sel]
  show "sum_list (map gd_Window (sel_out sel)) \<le> groundingTotalBudget" using ok by linarith
  show "list_all (\<lambda>g. min groundingMinWindow (doc_length g) \<le> gd_Window g \<and> gd_Window g \<le> doc_length g) (sel_out sel)"
    using ok by (simp add: window_ok_def [abs_def])
  have "subseq (map gd_URL (sel_out sel)) (map gd_URL (head @ mentioned @ tail))"
    using subseq_map [OF R(1), of fst] by (simp only: rows_urls)
  then show "distinct (map gd_URL (sel_out sel))" using A(1) by (rule distinct_subseq)
  have "latest_doc docs (gd_URL g) = Some (gd_Doc g)" if "g \<in> set (sel_out sel)" for g
  proof -
    have "(gd_URL g, gd_Doc g, gd_Cited g) \<in> set (rows_of (head @ mentioned @ tail))"
      using that set_mp [OF subseq_set [OF R(1)]] by (force simp: rows_of_def)
    then have "(gd_URL g, gd_Doc g, gd_Cited g) \<in> (\<lambda>g. (gd_URL g, gd_Doc g, gd_Cited g)) ` set (candidate_docs lower report docs)"
      unfolding rows_of_def set_map A(2) .
    then obtain h where "h \<in> set (candidate_docs lower report docs)" "gd_URL h = gd_URL g" "gd_Doc h = gd_Doc g" by auto
    then show ?thesis using candidate_latest by metis
  qed
  then show "list_all (\<lambda>g. latest_doc docs (gd_URL g) = Some (gd_Doc g)) (sel_out sel)" by (simp add: list_all_iff)
  have "card (groundingDocURL ` set docs) = length (url_order docs)" by (metis distinct_card distinct_url_order set_url_order)
  then show "length (sel_out sel) + sel_omitted sel = card (groundingDocURL ` set docs)" using R(2) A(3) by simp
qed

text \<open>
  (C16) The evidence of an audit stays within its budget: the windows of the selected documents sum to at most
  250000 bytes; each is at least 4000 bytes or the whole document, and never more than it; every address
  appears once, with its newest fetch; selected and omitted documents are together all the distinct addresses.
\<close>

theorem audit_budget:
  "let sel = selectGroundingDocs lower url_host mentions report docs in
     sum_list (map gd_Window (sel_out sel)) \<le> groundingTotalBudget \<and>
     list_all (\<lambda>g. min groundingMinWindow (doc_length g) \<le> gd_Window g \<and> gd_Window g \<le> doc_length g) (sel_out sel) \<and>
     distinct (map gd_URL (sel_out sel)) \<and>
     list_all (\<lambda>g. latest_doc docs (gd_URL g) = Some (gd_Doc g)) (sel_out sel) \<and>
     length (sel_out sel) + sel_omitted sel = card (groundingDocURL ` set docs)"
  unfolding Let_def by (intro conjI selected_docs)

text \<open>
  Up to 62 cited or mentioned documents are all selected, each with its share of the budget: a later
  document never displaces them.
\<close>

lemma lengthen_keeps:
  "list_all2 (\<lambda>g h. gd_URL h = gd_URL g \<and> gd_Doc h = gd_Doc g \<and> gd_Window g \<le> gd_Window h) gs (snd (lengthen b gs))"
  by (induction b gs rule: lengthen.induct) (auto simp: Let_def)

lemma admits_keep: "set (sel_out sel) \<subseteq> set (sel_out (fold (admit cap) gs sel))"
proof (induction gs arbitrary: sel)
  case (Cons g gs)
  have "set (sel_out sel) \<subseteq> set (sel_out (admit cap g sel))" by (auto simp: admit_def Let_def)
  then show ?case using Cons.IH [of "admit cap g sel"] by auto
qed simp

lemma first_cap_fits:
  assumes "0 < n" "n \<le> 62"
  shows "first_cap n * n \<le> groundingTotalBudget"
proof -
  have "250000 div 62 \<le> 250000 div n" using assms by (intro div_le_mono2) auto
  then have "first_cap n \<le> 250000 div n"
    using assms by (simp add: first_cap_def groundingMinWindow_def groundingPerDocCap_def groundingTotalBudget_def)
  then have "first_cap n * n \<le> 250000 div n * n" by (rule mult_right_mono) simp
  also have "\<dots> \<le> 250000" by (rule div_times_less_eq_dividend)
  finally show ?thesis by (simp add: groundingTotalBudget_def)
qed

lemma cited_documents_kept:
  assumes "length head + length mentioned \<le> 62" "g \<in> set head \<union> set mentioned"
  shows "\<exists>h \<in> set (sel_out (spend head mentioned tail)). gd_URL h = gd_URL g \<and> gd_Doc h = gd_Doc g \<and>
    min (doc_length g) (first_cap (length head + length mentioned)) \<le> gd_Window h"
proof -
  let ?cap = "first_cap (length head + length mentioned)"
  have "0 < length head + length mentioned" using assms(2) by (cases head; cases mentioned) auto
  then have "?cap * length (head @ mentioned) \<le> groundingTotalBudget" using first_cap_fits assms(1) by simp
  then have first: "sel_out (first_round head mentioned) = map (\<lambda>g. g\<lparr>gd_Window := min (doc_length g) ?cap\<rparr>) (head @ mentioned)"
    unfolding first_round_def by (subst admits_all [OF first_cap_min]) simp_all
  have "g\<lparr>gd_Window := min (doc_length g) ?cap\<rparr> \<in> set (sel_out (first_round head mentioned))"
    unfolding first set_map using assms(2) by (intro image_eqI [of _ _ g]) auto
  then obtain i where i: "i < length (sel_out (first_round head mentioned))"
    "sel_out (first_round head mentioned) ! i = g\<lparr>gd_Window := min (doc_length g) ?cap\<rparr>" by (auto simp: in_set_conv_nth)
  note L = lengthen_keeps [of "sel_out (first_round head mentioned)" "sel_budget (first_round head mentioned)"]
  let ?h = "sel_out (second_round (first_round head mentioned)) ! i"
  have "gd_URL ?h = gd_URL g \<and> gd_Doc ?h = gd_Doc g \<and> min (doc_length g) ?cap \<le> gd_Window ?h"
    using list_all2_nthD [OF L i(1)] i(2) by (simp add: second_round_def)
  moreover have "?h \<in> set (sel_out (spend head mentioned tail))"
    using admits_keep i(1) unfolding spend_rounds by (metis nth_mem second_round_ok(3) subsetD)
  ultimately show ?thesis by blast
qed

section \<open>Accepted audits\<close>

lemma enumerate_claims:
  "length (concat (map gv_Claims (map (\<lambda>(i, part). if canceled i then v else audit part) (enumerate n parts)))) \<le>
   length (concat (map (\<lambda>part. gv_Claims (audit part)) parts))" if "gv_Claims v = []"
  using that by (induction parts arbitrary: n) (auto intro: trans_le_add2)

lemma run_claims:
  "length (concat (map gv_Claims (runGroundingParts canceled audit parts))) \<le> length (concat (map (\<lambda>part. gv_Claims (audit part)) parts))"
  unfolding runGroundingParts_def by (rule enumerate_claims) (simp add: no_verdict_def)

lemma run_available:
  "list_all (\<lambda>r. \<not> gv_Unavailable r) (runGroundingParts canceled audit parts) \<longleftrightarrow>
   (\<forall>i < length parts. \<not> canceled i \<and> \<not> gv_Unavailable (audit (parts ! i)))"
  by (auto simp: list_all_length runGroundingParts_nth no_verdict_def)

lemma run_uncanceled: "\<forall>i < length parts. \<not> canceled i \<Longrightarrow> runGroundingParts canceled audit parts = map audit parts"
  by (rule nth_equalityI) (auto simp: runGroundingParts_nth)

lemma evaluate_parts:
  "accepted_audit (evaluateGroundingParts quote sha256 canceled audit parts prior) \<longleftrightarrow>
   accepted_audit (combineGroundingParts quote (runGroundingParts canceled (part_verdict quote sha256 audit prior) parts))"
  by (simp add: evaluateGroundingParts_def Let_def accepted_audit_def part_verdict_def [abs_def])

definition sample_claim :: "string \<Rightarrow> string \<Rightarrow> ClaimGrounding" where
  "sample_claim type status = \<lparr>cg_Claim = ''x'', cg_ClaimType = type, cg_Status = status, cg_SupportingDocURL = [],
     cg_SupportingSpan = [], cg_Issue = []\<rparr>"

text \<open>
  The parts are scored as one report, not each by itself. Parts that each pass make an accepted report; but a part whose only
  claim is an unsupported framing claim, which fails alone, is outweighed by the grounded claims of the others.
\<close>

lemma strict_claims_concat:
  assumes "css \<noteq> []" "\<And>cs. cs \<in> set css \<Longrightarrow> strict_claims cs" shows "strict_claims (concat css)"
proof -
  have "strict_claims xs \<Longrightarrow> strict_claims ys \<Longrightarrow> strict_claims (xs @ ys)" for xs ys
    by (simp add: strict_claims_def status_count_def)
  then show ?thesis using assms by (induction css) (case_tac css; simp)+
qed

lemma framing_part_outweighed:
  "\<not> strict_claims [sample_claim ''framing'' ''ungrounded'']"
  "strict_claims (concat [[sample_claim ''framing'' ''ungrounded''], replicate 10 (sample_claim ''numerical'' ''grounded'')])"
  by code_simp+

text \<open>
  (C15) The audit of a partitioned version-2 report scores the claims of all parts together. It is accepted exactly when every
  part was audited, or has a saved audit of the same text, no part was cancelled or unavailable, and the
  claims of all the parts taken as one list are at least one, each of a type and a status of the auditor's scheme, each grounded
  unless it is a framing claim, and carry seventy percent support over the whole list, a partial claim counting half. The parts are
  the whole report, no part is empty, and each has at most 2500 runes or is one line. The code decides the
  threshold in double precision, the theorem exactly.
\<close>

theorem partitioned_audit:
  fixes audit prior
  assumes "int (length (concat (map (\<lambda>part. gv_Claims (part_verdict quote sha256 audit prior part)) (partitionGroundingReport report)))) \<le> 2 ^ 48"
  shows "let parts = partitionGroundingReport report; verdict = part_verdict quote sha256 audit prior in
    (accepted_audit (evaluateGroundingParts quote sha256 canceled audit parts prior) \<longleftrightarrow>
      (\<forall>i < length parts. \<not> canceled i \<and> \<not> gv_Unavailable (verdict (parts ! i))) \<and>
      strict_claims (concat (map (\<lambda>part. gv_Claims (verdict part)) parts))) \<and>
    concat parts = report \<and> list_all (part_ok (split_after report)) parts"
proof -
  let ?parts = "partitionGroundingReport report" and ?verdict = "part_verdict quote sha256 audit prior"
  let ?results = "runGroundingParts canceled ?verdict ?parts"
  have bound: "int (length (concat (map gv_Claims ?results))) \<le> 2 ^ 48"
    using assms run_claims [of canceled ?verdict ?parts] by linarith
  have "accepted_audit (evaluateGroundingParts quote sha256 canceled audit ?parts prior) \<longleftrightarrow>
      (\<forall>i < length ?parts. \<not> canceled i \<and> \<not> gv_Unavailable (?verdict (?parts ! i))) \<and>
      strict_claims (concat (map gv_Claims ?results))"
    unfolding evaluate_parts combine_accepted [OF bound] run_available ..
  moreover have "strict_claims (concat (map gv_Claims ?results)) = strict_claims (concat (map (\<lambda>part. gv_Claims (?verdict part)) ?parts))"
    if "\<forall>i < length ?parts. \<not> canceled i \<and> \<not> gv_Unavailable (?verdict (?parts ! i))"
    using run_uncanceled [of ?parts canceled ?verdict] that by (simp add: comp_def)
  ultimately have "accepted_audit (evaluateGroundingParts quote sha256 canceled audit ?parts prior) \<longleftrightarrow>
      (\<forall>i < length ?parts. \<not> canceled i \<and> \<not> gv_Unavailable (?verdict (?parts ! i))) \<and>
      strict_claims (concat (map (\<lambda>part. gv_Claims (?verdict part)) ?parts))" by blast
  moreover have "list_all (part_ok (split_after report)) ?parts" using partition_parts(2) unfolding list_all_iff by blast
  ultimately show ?thesis unfolding Let_def using partition_parts(1) by blast
qed

definition sample_audit :: "string \<Rightarrow> GroundingVerdict" where
  "sample_audit part = no_verdict\<lparr>gv_Met := True, gv_Claims := [sample_claim ''numerical'' ''grounded'']\<rparr>"

theorem partitioned_audit_witness:
  "accepted_audit (evaluateGroundingParts id id (\<lambda>_. False) sample_audit (partitionGroundingReport ''ab'') None)"
proof -
  have parts: "partitionGroundingReport ''ab'' = [''ab'']"
    by (simp add: partitionGroundingReport_def targetRunes_def runes_def decode_rune_def)
  have verdict: "part_verdict id id sample_audit None = sample_audit"
    by (rule ext) (simp add: part_verdict_def completed_parts_def)
  show ?thesis
    using partitioned_audit [of id id sample_audit None "''ab''" "\<lambda>_. False"] unfolding parts verdict Let_def
    by (simp add: sample_audit_def sample_claim_def no_verdict_def strict_claims_def known_claim_def supported_claim_def
        claim_types_def claim_statuses_def status_count_def)
qed

text \<open>
  (C14) The score of version-1 tasks, on any list of claims: a verdict is met exactly when no claim has a known status, or
  seven tenths of the classified claims are covered (partial ones counting half) and at most one in twenty of
  them is an ungrounded claim of a hard category. The double-precision division of the code never
  changes this decision.
\<close>

theorem score_exact:
  assumes "int (length cs) \<le> 2 ^ 48"
  shows "gv_Met (scoreGroundingVerdict quote (no_verdict\<lparr>gv_Claims := cs\<rparr>)) \<longleftrightarrow> classified cs = 0 \<or>
    7 * classified cs \<le> 10 * status_count ''grounded'' cs + 5 * status_count ''partial'' cs \<and>
    int (length (hard_ungrounded cs)) \<le> classified cs div 20"
  by (rule score_met [OF assms])

theorem score_exact_witness:
  "gv_Met (scoreGroundingVerdict id (no_verdict\<lparr>gv_Claims := replicate 13 (sample_claim ''quote'' ''grounded'') @
     replicate 2 (sample_claim ''quote'' ''partial'') @ replicate 4 (sample_claim ''framing'' ''ungrounded'') @
     [sample_claim ''numerical'' ''ungrounded'']\<rparr>))"
  by (subst score_exact) (simp_all add: sample_claim_def classified_def claim_statuses_def status_count_def
      hard_ungrounded_def hardCategories_def numeral_eq_Suc)

end
