(* ===== verification/Cited_Pages.thy ===== *)
theory Cited_Pages
  imports Grounding_Docs Message_Projection Task_Program Task_Finalize
begin

text \<open>
  The pages a report cites, as \<open>internal/agenttask/evaluator.go\<close> reads them: the identity of a page
  (\<open>RewriteAbstractToPDF\<close> of \<open>internal/webaccess/browser\<close>), independent sources, the number of sources the criteria ask
  for and the pages a tool trace fetched.
\<close>

section \<open>Cited pages\<close>

text \<open>
  A parsed URL as far as the code reads it: host, path and the query parameter \<open>id\<close>; \<open>with_path raw p\<close> is the text of
  \<open>raw\<close> parsed, with its path replaced by \<open>p\<close>.
\<close>

record url =
  u_Host :: string
  u_Path :: string
  u_QueryID :: string

record url_library =
  ul_parse :: "string \<Rightarrow> url option"
  ul_with_path :: "string \<Rightarrow> string \<Rightarrow> string"
  ul_lower :: "string \<Rightarrow> string"

definition RewriteAbstractToPDF :: "url_library \<Rightarrow> string \<Rightarrow> string" where
  "RewriteAbstractToPDF ul raw =
     (case ul_parse ul raw of
        None \<Rightarrow> raw
      | Some u \<Rightarrow>
          if u_Host u = [] then raw
          else
            let host = trim_prefix (ul_lower ul (u_Host u)) ''www.'' in
            if host = ''arxiv.org'' then
              (if \<not> has_prefix (u_Path u) ''/abs/'' then raw
               else
                 let i = trim_suffix (trim_prefix (u_Path u) ''/abs/'') ''/'' in
                 if i = [] then raw else ul_with_path ul raw (''/pdf/'' @ i @ ''.pdf''))
            else if host = ''biorxiv.org'' \<or> host = ''medrxiv.org'' then
              (if \<not> has_prefix (u_Path u) ''/content/'' \<or> has_suffix (u_Path u) ''.full.pdf'' then raw
               else ul_with_path ul raw (trim_suffix (trim_suffix (u_Path u) ''/'') ''.full'' @ ''.full.pdf''))
            else if host = ''openreview.net'' then
              (if u_Path u \<noteq> ''/forum'' \<or> u_QueryID u = [] then raw else ul_with_path ul raw ''/pdf'')
            else raw)"

definition canonURLKey :: "url_library \<Rightarrow> string \<Rightarrow> string" where
  "canonURLKey ul raw =
     (case ul_parse ul (RewriteAbstractToPDF ul raw) of
        None \<Rightarrow> []
      | Some u \<Rightarrow> if u_Host u = [] then [] else ul_lower ul (u_Host u) @ u_Path u)"

definition reURLAny :: "char set" where
  "reURLAny = space_bytes \<union> {CHR '')'', CHR '']'', CHR 0x5C, CHR 0x22, CHR 0x27, CHR ''<'', CHR ''>''}"

definition contains :: "string \<Rightarrow> string \<Rightarrow> bool" where
  "contains s p \<longleftrightarrow> index_of s p \<noteq> None"

definition isLooksLikeRealURL :: "url_library \<Rightarrow> string \<Rightarrow> bool" where
  "isLooksLikeRealURL ul s =
     (let low = ul_lower ul s in
      if contains low ''httpshttps'' \<or> contains low ''httphttp'' then False
      else if has_suffix (trim_right_of [''/''] s) ''..'' then False
      else case index_of low ''://'' of
          None \<Rightarrow> False
        | Some i \<Rightarrow>
            let host = takeWhile (\<lambda>c. c \<notin> {CHR ''/'', CHR ''?'', CHR ''#''}) (drop (i + 3) s)
            in contains host ''.'' \<and> \<not> contains host ''_'')"

definition extractURLs :: "url_library \<Rightarrow> string \<Rightarrow> string list" where
  "extractURLs ul text =
     remdups (filter (\<lambda>k. k \<noteq> []) (map (canonURLKey ul) (filter (isLooksLikeRealURL ul)
       (map (trim_right_of [''.'', '','', '';'', '':'', ''!'', ''?'']) (find_urls reURLAny text)))))"

section \<open>Independent sources\<close>

definition multiAuthorPlatforms :: "string list" where
  "multiAuthorPlatforms = [''arxiv.org'', ''openreview.net'', ''neurips.cc'', ''thecvf.com'', ''mlr.press'', ''aclanthology.org'',
     ''aaai.org'', ''acm.org'', ''ieee.org'', ''paperswithcode.com'', ''semanticscholar.org'', ''nature.com'', ''science.org'',
     ''plos.org'', ''biorxiv.org'', ''medrxiv.org'', ''ssrn.com'']"

fun split_on :: "char \<Rightarrow> string \<Rightarrow> string list" where
  "split_on x [] = [[]]"
| "split_on x (c # cs) =
     (if c = x then [] # split_on x cs else case split_on x cs of [] \<Rightarrow> [[c]] | l # ls \<Rightarrow> (c # l) # ls)"

definition registrableDomain :: "string \<Rightarrow> string" where
  "registrableDomain canonKey =
     (let host = trim_prefix (takeWhile (\<lambda>c. c \<noteq> CHR ''/'') canonKey) ''www.'';
          parts = split_on (CHR ''.'') host; n = length parts
      in if n < 2 then host else parts ! (n - 2) @ ''.'' @ parts ! (n - 1))"

definition diversityBucket :: "string \<Rightarrow> string" where
  "diversityBucket canonKey =
     (let d = registrableDomain canonKey in if d \<in> set multiAuthorPlatforms then canonKey else d)"

definition buckets_of :: "string list \<Rightarrow> string list" where
  "buckets_of keys = filter (\<lambda>b. b \<noteq> []) (map diversityBucket keys)"

definition top_share :: "string list \<Rightarrow> nat" where
  "top_share bs = foldr max (map (count_list bs) bs) 0"

text \<open>
  \<open>json.Unmarshal\<close> into the nested flag, its error ignored: members of the right type are set, others skipped.
\<close>

definition taskRequiresSourceDiversity :: "AgentTask \<Rightarrow> bool" where
  "taskRequiresSourceDiversity task =
     (case struct_members (t_Config task) of
        None \<Rightarrow> False
      | Some kvs \<Rightarrow>
          let members = concat (List.map_filter struct_members (field_values ''result_contract'' kvs))
          in last (False # List.map_filter dec_bool (field_values ''require_independent_sources'' members)))"

section \<open>The number of sources the criteria ask for\<close>

definition word_char :: "char \<Rightarrow> bool" where
  "word_char c \<longleftrightarrow> alnum c \<or> c = CHR ''_''"

definition source_nouns :: "string list" where
  "source_nouns = [''url'', ''urls'', ''source'', ''sources'', ''citation'', ''citations'', ''reference'', ''references'', ''link'', ''links'']"

text \<open>
  A match of \<open>reURLRequirement\<close> at the front of \<open>s\<close>, \<open>prev\<close> being the byte before it: a word boundary, up to three
  digits, spaces around an optional plus sign, the first noun in the order of the pattern that a word boundary follows.
\<close>

definition boundary :: "char option \<Rightarrow> string \<Rightarrow> bool" where
  "boundary prev s \<longleftrightarrow> (case prev of None \<Rightarrow> False | Some c \<Rightarrow> word_char c) \<noteq> (s \<noteq> [] \<and> word_char (hd s))"

definition consumed :: "string \<Rightarrow> string \<Rightarrow> char option" where
  "consumed s rest = (let n = length s - length rest in if n = 0 then None else Some (s ! (n - 1)))"

fun noun_match :: "string list \<Rightarrow> string \<Rightarrow> string option" where
  "noun_match [] s = None"
| "noun_match (w # ws) s =
     (case match_fold w s of
        Some r \<Rightarrow> if boundary (consumed s r) r then Some r else noun_match ws s
      | None \<Rightarrow> noun_match ws s)"

definition requirement_match :: "char option \<Rightarrow> string \<Rightarrow> (int \<times> string) option" where
  "requirement_match prev s =
     (let ds = take 3 (takeWhile digit s); t = dropWhile regex_space (drop (length ds) s);
          t = dropWhile regex_space (if has_prefix t ''+'' then tl t else t)
      in if ds = [] \<or> \<not> boundary prev s then None
         else map_option (\<lambda>r. (fold (\<lambda>c n. 10 * n + digit_value c) ds 0, r)) (noun_match source_nouns t))"

lemma noun_match_shorter: "noun_match ws s = Some r \<Longrightarrow> [] \<notin> set ws \<Longrightarrow> length r < length s"
proof (induction ws)
  case (Cons w ws)
  then show ?case using match_fold_length [of w s] by (cases w) (fastforce split: option.splits if_splits)+
qed simp

lemma requirement_match_shorter: "requirement_match prev s = Some (k, r) \<Longrightarrow> length r < length s"
proof -
  assume m: "requirement_match prev s = Some (k, r)"
  define ds where "ds = take 3 (takeWhile digit s)"
  define t where "t = dropWhile regex_space (drop (length ds) s)"
  define u where "u = dropWhile regex_space (if has_prefix t ''+'' then tl t else t)"
  have "noun_match source_nouns u = Some r" using m by (auto simp: requirement_match_def Let_def ds_def t_def u_def split: if_splits)
  moreover have "length u \<le> length t" unfolding u_def by (rule order_trans [OF length_dropWhile_le]) simp
  moreover have "length t \<le> length s" unfolding t_def by (rule order_trans [OF length_dropWhile_le]) simp
  ultimately show ?thesis using noun_match_shorter [of source_nouns u r] by (simp add: source_nouns_def)
qed

function requirements :: "char option \<Rightarrow> string \<Rightarrow> int list" where
  "requirements prev [] = []"
| "requirements prev (c # cs) =
     (case requirement_match prev (c # cs) of
        Some (k, r) \<Rightarrow> k # requirements (consumed (c # cs) r) r
      | None \<Rightarrow> requirements (Some c) cs)"
  by pat_completeness auto
termination
  by (relation "measure (\<lambda>(_, s). length s)") (auto dest: requirement_match_shorter)

definition extractURLRequirement :: "string \<Rightarrow> int" where
  "extractURLRequirement criteria = foldr max (requirements None criteria) 0"

section \<open>Tool traces\<close>

fun trace_entries :: "json list \<Rightarrow> (string \<times> string) list option" where
  "trace_entries [] = Some []"
| "trace_entries (j # js) =
     (case struct_members j of
        None \<Rightarrow> None
      | Some kvs \<Rightarrow>
          (case (str_field ''name'' kvs, str_field ''input'' kvs, trace_entries js) of
             (Some name, Some input, Some rest) \<Rightarrow> Some ((name, input) # rest)
           | _ \<Rightarrow> None))"

definition extractFetchedURLsFromTrace :: "url_library \<Rightarrow> json option \<Rightarrow> string list" where
  "extractFetchedURLsFromTrace ul trace =
     (case trace of
        Some (JArr js) \<Rightarrow>
          (case trace_entries js of
             None \<Rightarrow> []
           | Some es \<Rightarrow> remdups (concat (map (\<lambda>(name, input). if name = ''browser_fetch'' then extractURLs ul input else []) es)))
      | _ \<Rightarrow> [])"

end
