(* ===== verification/Review_Prompt.thy ===== *)
theory Review_Prompt
  imports Cited_Pages
begin

text \<open>
  The request to the reviewer: the digest of the iteration's tool calls, the fetch record and the prompt of
  \<open>internal/agenttask/evaluator.go\<close>, and for version-2 tasks the JSON input with the compacted receipts of
  \<open>graph_review_receipts.go\<close>.
\<close>

section \<open>The prompt of a version-1 task\<close>

definition maxLines :: nat where "maxLines = 30"

definition digest_line :: "string \<times> string \<Rightarrow> string" where
  "digest_line e = ''- '' @ fst e @ ''('' @ truncate_runes (trim_space (snd e)) 160 @ '')'' @ newline"

definition toolCallDigest :: "json option \<Rightarrow> string" where
  "toolCallDigest trace =
     (case trace of
        Some (JArr js) \<Rightarrow>
          (case trace_entries js of
             None \<Rightarrow> []
           | Some es \<Rightarrow> concat (map digest_line (take maxLines es)) @
               (if length es > maxLines then ''- '' @ ellipsis @ '' '' @ decimal (length es - maxLines) @ '' more tool calls'' @ newline
                else []))
      | _ \<Rightarrow> [])"

definition fetchRecordBlock :: "string list \<Rightarrow> string list \<Rightarrow> string" where
  "fetchRecordBlock urls fetched =
     (if urls = [] then []
      else
        let opened = length (filter (\<lambda>u. u \<in> set fetched) urls); unfetched = sort (filter (\<lambda>u. u \<notin> set fetched) urls) in
        newline @ newline @ ''FETCH RECORD (whole task, machine-verified): '' @ decimal (length fetched) @
        '' distinct URLs were opened via browser_fetch over all iterations. Of the '' @ decimal (length urls) @
        '' URLs cited in the result, '' @ decimal opened @ '' are in that record.'' @
        (if unfetched \<noteq> [] then '' Cited but never opened: '' @ join '', '' unfetched @ ''.'' else '' Every cited URL was opened.'') @
        newline @ ''Judge any criterion about URLs being checked, verified or fetched via browser_fetch by THIS record'' @ dash @
        ''not by the single-iteration log below, which only shows the final iteration.'')"

definition acceptanceReviewPrompt ::
    "string \<Rightarrow> string \<Rightarrow> string \<Rightarrow> string \<Rightarrow> string \<Rightarrow> string \<Rightarrow> string \<Rightarrow> string" where
  "acceptanceReviewPrompt title desc criteria result extraHint fetchRecord actions =
     ''TASK: '' @ title @ newline @ newline @ ''DESCRIPTION:'' @ newline @ desc @ newline @ newline @
     ''ACCEPTANCE CRITERIA:'' @ newline @ criteria @ newline @ newline @ ''RESULT:'' @ newline @ result @ extraHint @ fetchRecord @
     newline @ newline @ ''ACTIONS TAKEN THIS ITERATION (machine-generated tool-call log of the FINAL iteration only'' @ dash @
     ''ground-truth for delivery-type criteria such as \"message sent\" or \"file created\"; earlier iterations' actions are not listed here):'' @
     newline @ actions @ newline @ ''Does the result meet the acceptance criteria?''"

definition evidence_hint :: "int \<Rightarrow> nat \<Rightarrow> string" where
  "evidence_hint required verified =
     (if required > 0 then newline @ newline @
        ''EVIDENTIARY GATE (parsed from criteria): the criteria asks for at least '' @ show_int required @
        '' URL citations. The hard pre-gate already verified that '' @ decimal verified @
        '' distinct URLs in the result match URLs the task actually fetched via browser_fetch'' @ dash @
        ''that part passed. Your job is to assess *quality*: do the citations actually support the claims made? '' @
        ''Is the structure coherent? Use met=false if the report is technically cited but the cited pages don't back the '' @
        ''specific assertions (e.g. cited a homepage instead of the relevant article).''
      else [])"

section \<open>The input of a version-2 task\<close>

text \<open>
  \<open>json.Marshal\<close>, the members an incremental decoder reads of an object before its first error, the
  formatted time of the review, and the fixed instructions.
\<close>

record prompt_env =
  rp_marshal :: "json \<Rightarrow> string"
  rp_members :: "string \<Rightarrow> (string \<times> json) list"
  rp_reviewed_at :: string
  rp_instructions :: string

definition receipt_member :: "string \<times> json \<Rightarrow> bool" where
  "receipt_member m \<longleftrightarrow>
     (if fst m = ''observed_at'' then (case snd m of JStr stamp \<Rightarrow> parse_rfc3339 stamp \<noteq> None | _ \<Rightarrow> False)
      else fst m \<in> {''url'', ''final_url'', ''requested_url'', ''engine_used'', ''cached'', ''status_code'', ''error''})"

definition browserReviewMetadata :: "prompt_env \<Rightarrow> string \<Rightarrow> (string \<times> json) list" where
  "browserReviewMetadata pe output = fold (\<lambda>(k, v). set_member k v) (filter receipt_member (rp_members pe output)) []"

definition text_member :: "(string \<times> json) list \<Rightarrow> string \<Rightarrow> string" where
  "text_member kvs k = (case map_of kvs k of Some (JStr s) \<Rightarrow> s | _ \<Rightarrow> [])"

definition trace_name :: "(string \<times> json) list \<Rightarrow> string" where
  "trace_name kvs = (if text_member kvs ''name'' = [] then text_member kvs ''tool'' else text_member kvs ''name'')"

definition trace_failed :: "(string \<times> json) list \<Rightarrow> bool" where
  "trace_failed kvs \<longleftrightarrow>
     list_ex (\<lambda>k. case map_of kvs k of None \<Rightarrow> False | Some v \<Rightarrow> v \<notin> {JBool False, JNull, JStr []}) [''error'', ''timed_out'']"

definition compact_trace :: "prompt_env \<Rightarrow> (string \<times> json) list \<Rightarrow> (string \<times> json) list" where
  "compact_trace pe kvs =
     (let receipt = browserReviewMetadata pe (text_member kvs ''output'') in
      if trace_name kvs \<notin> {''browser_fetch'', ''browser_search''} \<or> trace_failed kvs \<or>
         (case map_of kvs ''output'' of Some (JStr _) \<Rightarrow> False | Some JNull \<Rightarrow> False | _ \<Rightarrow> True) \<or> receipt = [] then kvs
      else set_member ''output'' (JStr (rp_marshal pe (JObj (set_member ''content_omitted'' (JBool True) receipt)))) kvs)"

fun compact_traces :: "prompt_env \<Rightarrow> json list \<Rightarrow> json list option" where
  "compact_traces pe [] = Some []"
| "compact_traces pe (j # js) =
     (case j of
        JObj kvs \<Rightarrow> map_option (\<lambda>rest. JObj (compact_trace pe kvs) # rest) (compact_traces pe js)
      | JNull \<Rightarrow> map_option (\<lambda>rest. JNull # rest) (compact_traces pe js)
      | _ \<Rightarrow> None)"

definition graphReviewReceipts :: "prompt_env \<Rightarrow> json option \<Rightarrow> json option" where
  "graphReviewReceipts pe raw =
     (case raw of
        None \<Rightarrow> Some (JArr [])
      | Some JNull \<Rightarrow> Some JNull
      | Some (JArr js) \<Rightarrow> map_option JArr (compact_traces pe js)
      | Some _ \<Rightarrow> None)"

definition string_or_null :: "string option \<Rightarrow> json" where
  "string_or_null s = (case s of None \<Rightarrow> JNull | Some t \<Rightarrow> JStr t)"

definition graphAcceptanceInput ::
    "prompt_env \<Rightarrow> AgentTask \<Rightarrow> string \<Rightarrow> json option \<Rightarrow> string list \<Rightarrow> string list \<Rightarrow> string option" where
  "graphAcceptanceInput pe task result traces cited fetched =
     map_option (\<lambda>receipts. rp_marshal pe (JObj
       [(''acceptance_criteria'', string_or_null (t_AcceptanceCriteria task)),
        (''cited_url_keys'', JArr (map JStr (sort cited))),
        (''confirmed_step_tool_traces'', receipts),
        (''description'', string_or_null (t_Description task)),
        (''evidence_scope'', JStr ''all_confirmed_graph_steps''),
        (''fetched_url_keys'', JArr (map JStr (sort fetched))),
        (''result'', JStr result),
        (''reviewed_at'', JStr (rp_reviewed_at pe)),
        (''task'', JStr (t_Title task))])) (graphReviewReceipts pe traces)"

section \<open>The request\<close>

definition graphAcceptanceMaxTokens :: int where "graphAcceptanceMaxTokens = 8192"

definition v1_prompt :: "AgentTask \<Rightarrow> string \<Rightarrow> json option \<Rightarrow> string list \<Rightarrow> string list \<Rightarrow> string" where
  "v1_prompt task result trace urls fetched =
     (let criteria = (case t_AcceptanceCriteria task of None \<Rightarrow> [] | Some c \<Rightarrow> c);
          actions = toolCallDigest trace
      in acceptanceReviewPrompt (t_Title task) (case t_Description task of None \<Rightarrow> [] | Some s \<Rightarrow> s) criteria result
           (evidence_hint (extractURLRequirement criteria) (length (filter (\<lambda>u. u \<in> set fetched) urls)))
           (fetchRecordBlock urls fetched) (if actions = [] then ''(no tool calls this iteration)'' else actions))"

text \<open>\<open>graphSystem\<close> is the host's prompt for version-2 tasks; without traces that decode there is no request.\<close>

definition acceptance_request ::
    "prompt_env \<Rightarrow> ModelRef \<Rightarrow> string \<Rightarrow> AgentTask \<Rightarrow> string \<Rightarrow> json option \<Rightarrow> string list \<Rightarrow> string list \<Rightarrow> CompletionRequest option" where
  "acceptance_request pe model graphSystem task result trace urls fetched =
     (let v2 = (t_ExecutorVersion task = 2) in
      map_option (\<lambda>user.
        \<lparr>cr_Model = ForRouter model, cr_System = (if v2 then graphSystem else rp_instructions pe),
         cr_Messages = [user_message user], cr_MaxTokens = (if v2 then graphAcceptanceMaxTokens else 4096),
         cr_Temperature = float_quot 1 100, cr_Effort = mr_Effort model, cr_ThinkingMode = mr_ThinkingMode model\<rparr>)
        (if v2 then graphAcceptanceInput pe task result trace urls fetched else Some (v1_prompt task result trace urls fetched)))"

text \<open>
  Compacting keeps the reviewer's evidence of what was called: the number, order, names and failures of the traces,
  and every output that is not a successful page or search.
\<close>

lemma compact_trace_keeps:
  "k \<noteq> ''output'' \<Longrightarrow> map_of (compact_trace pe kvs) k = map_of kvs k"
  "trace_name kvs \<notin> {''browser_fetch'', ''browser_search''} \<or> trace_failed kvs \<Longrightarrow> compact_trace pe kvs = kvs"
  by (auto simp: compact_trace_def Let_def map_of_set_member)

lemma compact_traces_pointwise:
  "compact_traces pe js = Some ks \<Longrightarrow>
   list_all2 (\<lambda>j k. j = JNull \<and> k = JNull \<or> (\<exists>kvs. j = JObj kvs \<and> k = JObj (compact_trace pe kvs))) js ks"
  by (induction js arbitrary: ks) (auto split: json.splits)

end
