(* ===== verification/Acceptance_Review.thy ===== *)
theory Acceptance_Review
  imports Grounding_Theorems Review_Prompt
begin

text \<open>
  The acceptance of a result, \<open>evaluateAcceptanceWithPrior\<close> of \<open>internal/agenttask/evaluator.go\<close>: the gates that
  check the citations against what the task fetched, the grounding audit and the reviewer's answer.
\<close>

section \<open>Evidence\<close>

text \<open>
  What a review reads and calls: the prompts' store, the fetch record (inputs of traced fetches, and the two
  addresses of each stored output), the stored documents, what the request to the reviewer needs, the decoding of
  its answer, and which of several equally frequent sources a message names.
\<close>

record acceptance_env =
  ac_review :: review_env
  ac_urls :: url_library
  ac_Prompt :: "(goerror + string) option"
  ac_fetch_rows :: "uuid \<Rightarrow> goerror + string list \<times> (string option \<times> string option) list"
  ac_docs :: "uuid \<Rightarrow> goerror + ToolOutput list"
  ac_prompt_env :: prompt_env
  ac_decode :: "string \<Rightarrow> (bool option \<times> string) option"
  ac_top :: "string list \<Rightarrow> string"
  ac_canceled :: "nat \<Rightarrow> bool"

text \<open>The reviewer's model is the primary one; the configuration is present.\<close>

definition reviewer_model :: "acceptance_env \<Rightarrow> ModelRef" where
  "reviewer_model env = (case re_Primary (ac_review env) of Some r \<Rightarrow> r | None \<Rightarrow> no_model)"

definition review_request ::
    "acceptance_env \<Rightarrow> AgentTask \<Rightarrow> string \<Rightarrow> json option \<Rightarrow> string list \<Rightarrow> string list \<Rightarrow> CompletionRequest option" where
  "review_request env task result trace urls fetched =
     acceptance_request (ac_prompt_env env) (reviewer_model env) (case ac_Prompt env of Some (Inr p) \<Rightarrow> p | _ \<Rightarrow> [])
       task result trace urls fetched"

definition loadFetchedURLs :: "acceptance_env \<Rightarrow> uuid \<Rightarrow> goerror + string list" where
  "loadFetchedURLs env i =
     (case ac_fetch_rows env i of
        Inl e \<Rightarrow> Inl e
      | Inr (inputs, rows) \<Rightarrow>
          let key = (\<lambda>u. case u of None \<Rightarrow> [] | Some s \<Rightarrow> canonURLKey (ac_urls env) s) in
          Inr (remdups (concat (map (extractURLs (ac_urls env)) inputs) @
            filter (\<lambda>k. k \<noteq> []) (concat (map (\<lambda>(requested, final). [key requested, key final]) rows)))))"

section \<open>The gates\<close>

definition unavailableAcceptance :: "string \<Rightarrow> GroundingVerdict option \<Rightarrow> goerror option list \<Rightarrow> AcceptanceVerdict" where
  "unavailableAcceptance reason grounding causes =
     no_acceptance\<lparr>av_Unavailable := True, av_Reason := ''verification_unavailable: '' @ reason, av_Grounding := grounding,
       av_RetryDelay := fold (\<lambda>e d. max d (snd (TaskRetryPolicy e))) causes
         (case grounding of None \<Rightarrow> 0 | Some g \<Rightarrow> gv_RetryDelay g)\<rparr>"

definition rejected_with :: "string \<Rightarrow> AcceptanceVerdict" where
  "rejected_with reason = no_acceptance\<lparr>av_Reason := reason\<rparr>"

definition missing_rechecks :: "url_library \<Rightarrow> AgentTask \<Rightarrow> json option \<Rightarrow> string list" where
  "missing_rechecks ul task trace =
     filter (\<lambda>u. canonURLKey ul u \<noteq> [] \<and> canonURLKey ul u \<notin> set (extractFetchedURLsFromTrace ul trace)) (t_RequiredRecheckURLs task)"

definition recheck_gate :: "url_library \<Rightarrow> AgentTask \<Rightarrow> json option \<Rightarrow> AcceptanceVerdict option" where
  "recheck_gate ul task trace =
     (let missing = missing_rechecks ul task trace in
      if missing = [] then None
      else Some (rejected_with (''recheck gate: previous iteration's grounding audit flagged claims tied to '' @
        decimal (length (t_RequiredRecheckURLs task)) @
        '' URL(s); you must call browser_fetch on each in this same iteration before resubmitting. Missing this iteration: '' @
        join '', '' missing)))"

definition diversity_reason :: "nat \<Rightarrow> nat \<Rightarrow> string \<Rightarrow> nat \<Rightarrow> string" where
  "diversity_reason n distinct_buckets lead share =
     ''diversity gate: '' @ decimal n @ '' cited URLs but only '' @ decimal distinct_buckets @ '' distinct sources (top: '' @ lead @
     '' with '' @ decimal share @ ''/'' @ decimal n @ [CHR 0x20, CHR 0xE2, CHR 0x89, CHR 0x88, CHR 0x20] @ decimal (share * 100 div n) @
     ''%). Strong research needs triangulation across '' @ [CHR 0xE2, CHR 0x89, CHR 0xA5] @
     ''3 distinct sources with no single source over 50%. Different papers on a shared preprint server (arxiv, openreview, etc.) '' @
     ''each count as a separate source; but multiple URLs from one vendor's blog or one company's domain count as one. '' @
     ''Fetch and cite at least one independent or comparative source outside '' @ lead @ '' before re-submitting.''"

definition evidence_gate ::
    "acceptance_env \<Rightarrow> AgentTask \<Rightarrow> int \<Rightarrow> string list \<Rightarrow> string list \<Rightarrow> AcceptanceVerdict option" where
  "evidence_gate env task required urls fetched =
     (let n = length urls; verified = length (filter (\<lambda>u. u \<in> set fetched) urls);
          bs = buckets_of urls; d = length (remdups bs); share = top_share bs
      in
      if n > 0 \<and> fetched = [] then
        Some (rejected_with (''hard gate: result lists '' @ decimal n @ '' URL-like strings but browser_fetch was never called'' @ dash @
          ''citations are synthesised, not read. Open at least '' @ show_int (if required = 0 then 1 else required) @
          '' distinct pages via browser_fetch and cite them.''))
      else if required > 0 \<and> int verified < required then
        Some (rejected_with (''hard gate: only '' @ decimal verified @ '' of '' @ show_int required @
          '' cited URLs were actually fetched (result has '' @ decimal n @ '' URL-like strings, '' @ decimal (length fetched) @
          '' distinct URLs were fetched). Fetched URLs must appear in the result, not synthesised ones.''))
      else if n \<ge> 2 \<and> fetched \<noteq> [] \<and> verified * 2 < n then
        Some (rejected_with (''hard gate: only '' @ decimal verified @ '' of '' @ decimal n @
          '' URLs in the report were actually fetched ('' @ decimal (length fetched) @
          '' distinct URLs were opened via browser_fetch). The majority of your citations are synthesised. Cite only URLs you opened, or open the URLs you cite.''))
      else if n \<ge> 4 \<and> taskRequiresSourceDiversity task \<and> (d < 3 \<or> share * 2 > n) then
        Some (rejected_with (diversity_reason n d (ac_top env (filter (\<lambda>b. count_list bs b = share) (remdups bs))) share))
      else None)"

definition parseAcceptanceResponse :: "acceptance_env \<Rightarrow> CompletionResponse option \<Rightarrow> AcceptanceVerdict option" where
  "parseAcceptanceResponse env resp =
     (case resp of
        None \<Rightarrow> None
      | Some r \<Rightarrow>
          if rs_StopReason r = ''max_tokens'' then None
          else
            let text = trim_space (contentToText (rs_Content r));
                body = (case (first_index (CHR ''{'') text, last_index (CHR ''}'') text) of
                  (Some start, Some stop) \<Rightarrow> if stop > start then take (stop + 1 - start) (drop start text) else text
                | _ \<Rightarrow> text)
            in case ac_decode env body of
                 Some (Some met, reason) \<Rightarrow> Some (no_acceptance\<lparr>av_Met := met, av_Reason := reason\<rparr>)
               | _ \<Rightarrow> None)"

section \<open>The verdict\<close>

text \<open>From the answers of the reviewer and the audit to the verdict.\<close>

definition conclude ::
    "acceptance_env \<Rightarrow> int \<Rightarrow> goerror + CompletionResponse option \<Rightarrow> GroundingVerdict option \<Rightarrow> AcceptanceVerdict" where
  "conclude env version answer grounding =
     (case answer of
        Inl e \<Rightarrow> unavailableAcceptance ''acceptance provider failed'' grounding [Some e]
      | Inr resp \<Rightarrow>
          let parsed = parseAcceptanceResponse env resp;
              unavailable = (case grounding of None \<Rightarrow> False | Some g \<Rightarrow> gv_Unavailable g)
          in
          if version = 2 \<and> (case parsed of Some v \<Rightarrow> \<not> av_Met v | None \<Rightarrow> False) then
            (case parsed of Some v \<Rightarrow> if unavailable then v else v\<lparr>av_Grounding := grounding\<rparr> | None \<Rightarrow> no_acceptance)
          else if unavailable then
            unavailableAcceptance (case grounding of Some g \<Rightarrow> gv_Reason g | None \<Rightarrow> []) grounding []
          else if (case resp of None \<Rightarrow> True | Some r \<Rightarrow> rs_StopReason r = ''max_tokens'') then
            unavailableAcceptance ''acceptance returned an incomplete verdict'' grounding []
          else case parsed of
              None \<Rightarrow> unavailableAcceptance ''acceptance returned an invalid verdict'' grounding []
            | Some v \<Rightarrow>
                (case grounding of
                   Some g \<Rightarrow> if av_Met v \<and> \<not> gv_Met g
                     then v\<lparr>av_Grounding := grounding, av_Met := False, av_Reason := ''grounding audit failed: '' @ gv_Reason g\<rparr>
                     else v\<lparr>av_Grounding := grounding\<rparr>
                 | None \<Rightarrow> v))"

text \<open>The audit of a version-1 task comes before the review; that of a version-2 task runs beside it.\<close>

definition review_and_audit ::
    "acceptance_env \<Rightarrow> (CompletionRequest \<Rightarrow> goerror + CompletionResponse option) \<Rightarrow> AgentTask \<Rightarrow> string \<Rightarrow> ToolOutput list \<Rightarrow>
     CompletionRequest option \<Rightarrow> AcceptanceVerdict option \<Rightarrow> AcceptanceVerdict" where
  "review_and_audit env llm task result docs request prior =
     (let version = t_ExecutorVersion task;
          grounding = (if docs \<noteq> [] \<and> version \<noteq> 2
            then Some (evaluateGrounding (ac_review env) (ac_canceled env) version result docs) else None)
      in
      case grounding of
        Some g \<Rightarrow>
          if gv_Unavailable g then unavailableAcceptance (gv_Reason g) grounding []
          else (case request of
              None \<Rightarrow> unavailableAcceptance ''graph acceptance evidence is invalid'' grounding []
            | Some req \<Rightarrow>
                if ForRouter (reviewer_model env) = [] then unavailableAcceptance ''acceptance model is not configured'' grounding []
                else conclude env version (llm req) grounding)
      | None \<Rightarrow>
          (case request of
             None \<Rightarrow> unavailableAcceptance ''graph acceptance evidence is invalid'' None []
           | Some req \<Rightarrow>
               if ForRouter (reviewer_model env) = [] then unavailableAcceptance ''acceptance model is not configured'' None []
               else if version = 2 then
                 (case completeGraphReviews (ac_review env) (ac_canceled env) llm version result docs req prior of
                    (answer, audit, h) \<Rightarrow> (conclude env version answer audit)\<lparr>av_GroundingInputHash := h\<rparr>)
               else conclude env version (llm req) None))"

definition blank_criteria :: "AgentTask \<Rightarrow> bool" where
  "blank_criteria task \<longleftrightarrow> (case t_AcceptanceCriteria task of None \<Rightarrow> True | Some c \<Rightarrow> trim_space c = [])"

definition evaluateAcceptanceWithPrior ::
    "acceptance_env \<Rightarrow> AgentTask \<Rightarrow> string \<Rightarrow> json option \<Rightarrow> AcceptanceVerdict option \<Rightarrow> AcceptanceVerdict" where
  "evaluateAcceptanceWithPrior env task result trace prior =
     (if blank_criteria task then no_acceptance\<lparr>av_Met := True\<rparr>
      else case re_LLM (ac_review env) of
        None \<Rightarrow> unavailableAcceptance ''acceptance provider is not configured'' None []
      | Some llm \<Rightarrow>
          if t_ExecutorVersion task = 2 \<and> ac_Prompt env = None then
            unavailableAcceptance ''graph acceptance prompt store is not configured'' None []
          else if t_ExecutorVersion task = 2 \<and> (case ac_Prompt env of Some (Inr p) \<Rightarrow> trim_space p = [] | _ \<Rightarrow> True) then
            unavailableAcceptance ''graph acceptance prompt is unavailable'' None []
          else case recheck_gate (ac_urls env) task trace of
            Some v \<Rightarrow> v
          | None \<Rightarrow>
              let required = extractURLRequirement (case t_AcceptanceCriteria task of Some c \<Rightarrow> c | None \<Rightarrow> []);
                  urls = extractURLs (ac_urls env) result;
                  record_needed = (required > 0 \<or> urls \<noteq> [])
              in
              (case (if record_needed then loadFetchedURLs env (t_ID task) else Inr []) of
                 Inl e \<Rightarrow> unavailableAcceptance ''source evidence could not be read'' None []
               | Inr fetched \<Rightarrow>
                   (case (if record_needed then evidence_gate env task required urls fetched else None) of
                      Some v \<Rightarrow> v
                    | None \<Rightarrow>
                        (case ac_docs env (t_ID task) of
                           Inl e \<Rightarrow> unavailableAcceptance ''source documents could not be read'' None []
                         | Inr docs \<Rightarrow>
                             review_and_audit env llm task result docs (review_request env task result trace urls fetched) prior))))"

definition evaluateAcceptance :: "acceptance_env \<Rightarrow> AgentTask \<Rightarrow> string \<Rightarrow> json option \<Rightarrow> AcceptanceVerdict" where
  "evaluateAcceptance env task result trace = evaluateAcceptanceWithPrior env task result trace None"

section \<open>When a result is accepted\<close>

definition evidence_ok :: "AgentTask \<Rightarrow> int \<Rightarrow> string list \<Rightarrow> string list \<Rightarrow> bool" where
  "evidence_ok task required urls fetched \<longleftrightarrow>
     (let n = length urls; verified = length (filter (\<lambda>u. u \<in> set fetched) urls) in
      (urls = [] \<or> fetched \<noteq> []) \<and> required \<le> int verified \<and> (n < 2 \<or> n \<le> verified * 2) \<and>
      (n < 4 \<or> \<not> taskRequiresSourceDiversity task \<or>
       3 \<le> length (remdups (buckets_of urls)) \<and> top_share (buckets_of urls) * 2 \<le> n))"

definition reviewer_met :: "acceptance_env \<Rightarrow> goerror + CompletionResponse option \<Rightarrow> bool" where
  "reviewer_met env answer \<longleftrightarrow>
     (case answer of Inl e \<Rightarrow> False
      | Inr resp \<Rightarrow> (case parseAcceptanceResponse env resp of None \<Rightarrow> False | Some v \<Rightarrow> av_Met v))"

definition audit_met :: "GroundingVerdict option \<Rightarrow> bool" where
  "audit_met grounding \<longleftrightarrow> (case grounding of None \<Rightarrow> True | Some g \<Rightarrow> accepted_audit g)"

definition prompt_ok :: "acceptance_env \<Rightarrow> AgentTask \<Rightarrow> bool" where
  "prompt_ok env task \<longleftrightarrow> t_ExecutorVersion task \<noteq> 2 \<or> (case ac_Prompt env of Some (Inr p) \<Rightarrow> trim_space p \<noteq> [] | _ \<Rightarrow> False)"

lemma evidence_gate_None:
  "0 \<le> required \<Longrightarrow> evidence_gate env task required urls fetched = None \<longleftrightarrow> evidence_ok task required urls fetched"
  by (auto simp: evidence_gate_def evidence_ok_def Let_def not_less not_le)

lemma evidence_gate_rejects: "evidence_gate env task required urls fetched = Some v \<Longrightarrow> \<not> av_Met v \<and> \<not> av_Unavailable v"
  by (auto simp: evidence_gate_def Let_def rejected_with_def no_acceptance_def split: if_splits)

lemma recheck_gate_None: "recheck_gate ul task trace = None \<longleftrightarrow> missing_rechecks ul task trace = []"
  by (simp add: recheck_gate_def Let_def)

lemma recheck_gate_rejects: "recheck_gate ul task trace = Some v \<Longrightarrow> \<not> av_Met v \<and> \<not> av_Unavailable v"
  by (auto simp: recheck_gate_def Let_def rejected_with_def no_acceptance_def split: if_splits)

lemma unavailableAcceptance_simps [simp]:
  "\<not> av_Met (unavailableAcceptance reason grounding causes)" "av_Unavailable (unavailableAcceptance reason grounding causes)"
  by (simp_all add: unavailableAcceptance_def no_acceptance_def)

lemma parse_complete:
  "parseAcceptanceResponse env resp = Some v \<Longrightarrow> \<not> av_Unavailable v \<and> (\<exists>r. resp = Some r \<and> rs_StopReason r \<noteq> ''max_tokens'')"
  by (auto simp: parseAcceptanceResponse_def Let_def no_acceptance_def split: option.splits if_splits prod.splits)

lemma conclude_met:
  "av_Met (conclude env version answer grounding) \<longleftrightarrow> reviewer_met env answer \<and> audit_met grounding"
proof (cases answer)
  case (Inl e)
  then show ?thesis by (simp add: conclude_def reviewer_met_def)
next
  case (Inr resp)
  show ?thesis
  proof (cases "parseAcceptanceResponse env resp")
    case None
    then show ?thesis by (simp add: conclude_def reviewer_met_def Inr Let_def)
  next
    case (Some v)
    then show ?thesis using parse_complete [OF Some]
      by (auto simp: conclude_def reviewer_met_def audit_met_def accepted_audit_def Inr Let_def split: option.splits)
  qed
qed

lemma conclude_available: "av_Met (conclude env version answer grounding) \<Longrightarrow> \<not> av_Unavailable (conclude env version answer grounding)"
proof -
  assume met: "av_Met (conclude env version answer grounding)"
  then obtain resp where a: "answer = Inr resp" by (cases answer) (auto simp: conclude_def)
  with met obtain v where v: "parseAcceptanceResponse env resp = Some v"
    by (cases "parseAcceptanceResponse env resp") (auto simp: conclude_def Let_def split: if_splits)
  then show ?thesis using met parse_complete [OF v] a by (auto simp: conclude_def Let_def split: option.splits if_splits)
qed

text \<open>The answer and the audit that \<open>review_and_audit\<close> concludes from.\<close>

definition answer_and_audit ::
    "acceptance_env \<Rightarrow> (CompletionRequest \<Rightarrow> goerror + CompletionResponse option) \<Rightarrow> AgentTask \<Rightarrow> string \<Rightarrow> ToolOutput list \<Rightarrow>
     CompletionRequest \<Rightarrow> AcceptanceVerdict option \<Rightarrow> (goerror + CompletionResponse option) \<times> GroundingVerdict option" where
  "answer_and_audit env llm task result docs req prior =
     (if t_ExecutorVersion task = 2 then
        (case completeGraphReviews (ac_review env) (ac_canceled env) llm 2 result docs req prior of (answer, audit, h) \<Rightarrow> (answer, audit))
      else (llm req, if docs = [] then None
        else Some (evaluateGrounding (ac_review env) (ac_canceled env) (t_ExecutorVersion task) result docs)))"

lemma review_and_audit_met:
  "av_Met (review_and_audit env llm task result docs request prior) \<longleftrightarrow>
   ForRouter (reviewer_model env) \<noteq> [] \<and> (\<exists>req. request = Some req \<and>
     (case answer_and_audit env llm task result docs req prior of (answer, audit) \<Rightarrow> reviewer_met env answer \<and> audit_met audit))"
  by (auto simp: review_and_audit_def answer_and_audit_def Let_def conclude_met audit_met_def accepted_audit_def
      split: option.splits prod.splits)

lemma review_and_audit_available:
  "av_Met (review_and_audit env llm task result docs request prior) \<Longrightarrow>
   \<not> av_Unavailable (review_and_audit env llm task result docs request prior)"
  by (auto simp: review_and_audit_def Let_def split: option.splits if_splits prod.splits dest: conclude_available)

lemma extractURLRequirement_nonneg: "0 \<le> extractURLRequirement criteria"
proof -
  have "0 \<le> foldr max xs (0::int)" for xs by (induction xs) auto
  then show ?thesis by (simp add: extractURLRequirement_def)
qed

text \<open>The fetch record, read only when the criteria or the result name sources.\<close>

definition record_needed :: "acceptance_env \<Rightarrow> string \<Rightarrow> string \<Rightarrow> bool" where
  "record_needed env criteria result \<longleftrightarrow> extractURLRequirement criteria > 0 \<or> extractURLs (ac_urls env) result \<noteq> []"

definition citations_ok :: "acceptance_env \<Rightarrow> AgentTask \<Rightarrow> string \<Rightarrow> string \<Rightarrow> string list \<Rightarrow> bool" where
  "citations_ok env task criteria result fetched \<longleftrightarrow>
     (if record_needed env criteria result
      then loadFetchedURLs env (t_ID task) = Inr fetched \<and>
        evidence_ok task (extractURLRequirement criteria) (extractURLs (ac_urls env) result) fetched
      else fetched = [])"

lemma prompt_okD:
  assumes "prompt_ok env task"
  shows "(t_ExecutorVersion task = 2 \<and> ac_Prompt env = None) = False"
    "(t_ExecutorVersion task = 2 \<and> (case ac_Prompt env of Some (Inr p) \<Rightarrow> trim_space p = [] | _ \<Rightarrow> True)) = False"
  using assms by (auto simp: prompt_ok_def split: option.splits sum.splits)

lemma evaluate_past_gates:
  assumes "\<not> blank_criteria task" "re_LLM (ac_review env) = Some llm" "prompt_ok env task"
    "missing_rechecks (ac_urls env) task trace = []" "t_AcceptanceCriteria task = Some criteria"
  shows "evaluateAcceptanceWithPrior env task result trace prior =
    (case (if record_needed env criteria result then loadFetchedURLs env (t_ID task) else Inr []) of
       Inl e \<Rightarrow> unavailableAcceptance ''source evidence could not be read'' None []
     | Inr fetched \<Rightarrow>
         (case (if record_needed env criteria result then evidence_gate env task (extractURLRequirement criteria)
              (extractURLs (ac_urls env) result) fetched else None) of
            Some v \<Rightarrow> v
          | None \<Rightarrow>
              (case ac_docs env (t_ID task) of
                 Inl e \<Rightarrow> unavailableAcceptance ''source documents could not be read'' None []
               | Inr docs \<Rightarrow> review_and_audit env llm task result docs
                   (review_request env task result trace (extractURLs (ac_urls env) result) fetched) prior)))"
proof -
  have gate: "recheck_gate (ac_urls env) task trace = None" using assms(4) recheck_gate_None by blast
  show ?thesis
    unfolding evaluateAcceptanceWithPrior_def record_needed_def Let_def
    by (simp only: assms gate prompt_okD [OF assms(3)] if_False option.case simp_thms)
qed

lemma evaluate_stopped:
  assumes "\<not> blank_criteria task"
    "re_LLM (ac_review env) = None \<or> \<not> prompt_ok env task \<or> missing_rechecks (ac_urls env) task trace \<noteq> []"
  shows "\<not> av_Met (evaluateAcceptanceWithPrior env task result trace prior)"
proof (cases "re_LLM (ac_review env) = None \<or> \<not> prompt_ok env task")
  case True
  then show ?thesis using assms(1)
    by (cases "re_LLM (ac_review env)"; cases "ac_Prompt env"; cases "the (ac_Prompt env)")
      (simp_all add: evaluateAcceptanceWithPrior_def prompt_ok_def)
next
  case False
  then obtain v where "recheck_gate (ac_urls env) task trace = Some v"
    using assms(2) recheck_gate_None [of "ac_urls env" task trace] by auto
  then show ?thesis using recheck_gate_rejects [of "ac_urls env" task trace v] assms(1) False
    by (cases "ac_Prompt env"; cases "the (ac_Prompt env)") (auto simp: evaluateAcceptanceWithPrior_def prompt_ok_def)
qed

lemma citations_ok_gate:
  "citations_ok env task criteria result fetched \<longleftrightarrow>
   (if record_needed env criteria result then loadFetchedURLs env (t_ID task) else Inr []) = Inr fetched \<and>
   (if record_needed env criteria result then evidence_gate env task (extractURLRequirement criteria)
     (extractURLs (ac_urls env) result) fetched else None) = None"
  by (auto simp: citations_ok_def evidence_gate_None [OF extractURLRequirement_nonneg])

lemma evaluate_reviewed:
  assumes "\<not> blank_criteria task" "re_LLM (ac_review env) = Some llm" "prompt_ok env task"
    "missing_rechecks (ac_urls env) task trace = []" "t_AcceptanceCriteria task = Some criteria"
  shows "av_Met (evaluateAcceptanceWithPrior env task result trace prior) \<longleftrightarrow>
    (\<exists>fetched docs. citations_ok env task criteria result fetched \<and> ac_docs env (t_ID task) = Inr docs \<and>
      av_Met (review_and_audit env llm task result docs
        (review_request env task result trace (extractURLs (ac_urls env) result) fetched) prior))"
  unfolding evaluate_past_gates [OF assms] citations_ok_gate
  by (auto split: sum.splits option.splits dest: evidence_gate_rejects)

text \<open>
  (C13) When a result is accepted: exactly when the task has no criteria, or a reviewer is configured, every page a rejection
  asked to read again was fetched in this iteration, the citations pass the gates against the fetch record, the
  stored documents can be read, the reviewer's complete answer says so, and the grounding audit, where there
  are documents, is available and met. Nothing unreadable or unavailable is ever accepted, and an accepted
  verdict is never marked unavailable.
\<close>

theorem acceptance_exact:
  "(av_Met (evaluateAcceptanceWithPrior env task result trace prior) \<longleftrightarrow> blank_criteria task \<or>
    (\<exists>llm criteria fetched docs req. re_LLM (ac_review env) = Some llm \<and> t_AcceptanceCriteria task = Some criteria \<and>
      prompt_ok env task \<and> missing_rechecks (ac_urls env) task trace = [] \<and>
      citations_ok env task criteria result fetched \<and> ac_docs env (t_ID task) = Inr docs \<and> ForRouter (reviewer_model env) \<noteq> [] \<and>
      review_request env task result trace (extractURLs (ac_urls env) result) fetched = Some req \<and>
      (case answer_and_audit env llm task result docs req prior of (answer, audit) \<Rightarrow> reviewer_met env answer \<and> audit_met audit))) \<and>
   \<not> (av_Met (evaluateAcceptanceWithPrior env task result trace prior) \<and>
      av_Unavailable (evaluateAcceptanceWithPrior env task result trace prior))"
proof (cases "blank_criteria task")
  case True
  then show ?thesis by (simp add: evaluateAcceptanceWithPrior_def no_acceptance_def)
next
  case False
  then obtain criteria where c: "t_AcceptanceCriteria task = Some criteria" by (auto simp: blank_criteria_def split: option.splits)
  show ?thesis
  proof (cases "re_LLM (ac_review env) = None \<or> \<not> prompt_ok env task \<or> missing_rechecks (ac_urls env) task trace \<noteq> []")
    case True
    then show ?thesis using evaluate_stopped [OF False True] False by auto
  next
    case go: False
    then obtain llm where llm: "re_LLM (ac_review env) = Some llm" by auto
    have ok: "prompt_ok env task" "missing_rechecks (ac_urls env) task trace = []" using go by auto
    note R = evaluate_reviewed [OF False llm ok c] and P = evaluate_past_gates [OF False llm ok c]
    have "\<not> (av_Met (evaluateAcceptanceWithPrior env task result trace prior) \<and>
      av_Unavailable (evaluateAcceptanceWithPrior env task result trace prior))"
      unfolding P by (auto split: sum.splits option.splits dest: evidence_gate_rejects review_and_audit_available)
    then show ?thesis unfolding R review_and_audit_met using False llm ok c by auto
  qed
qed

end
