(* ===== verification/Task_Report.thy ===== *)
theory Task_Report
  imports Grounding_Docs Task_Finalize
begin

text \<open>
  The notice of a finished report and its button marker, \<open>internal/core/task_report.go\<close>: the summary of the
  report's opening, the marker and its removal. \<open>heading\<close> is the configured format applied to the title; \<open>uuid_text\<close>
  and \<open>parse_uuid\<close> are the text form of an id and its parser.
\<close>

section \<open>The summary\<close>

text \<open>The state of the loop over the lines: the lines kept, the runes they have and the code fence.\<close>

record summary_state =
  su_out :: "string list"
  su_size :: nat
  su_inCode :: bool

definition finishSummary :: "string list \<Rightarrow> string" where
  "finishSummary lines = trim_space (join [CHR 0x0A] lines)"

definition summaryLimit :: nat where "summaryLimit = 700"

definition code_fence :: string where "code_fence = [CHR 0x60, CHR 0x60, CHR 0x60]"

fun summary_lines :: "summary_state \<Rightarrow> string list \<Rightarrow> string" where
  "summary_lines st [] = finishSummary (su_out st)"
| "summary_lines st (line # lines) =
     (let trimmed = trim_space line; n = length (runes trimmed) in
      if has_prefix trimmed code_fence then summary_lines (st\<lparr>su_inCode := \<not> su_inCode st\<rparr>) lines
      else if su_inCode st \<or> has_prefix trimmed ''|'' \<or> has_prefix trimmed ''[unverified_step_result]'' then summary_lines st lines
      else if has_prefix trimmed ''#'' then (if su_size st > 0 then finishSummary (su_out st) else summary_lines st lines)
      else if trimmed = [] then
        (if su_size st \<ge> 200 then finishSummary (su_out st)
         else if su_out st \<noteq> [] \<and> last (su_out st) \<noteq> [] then summary_lines (st\<lparr>su_out := su_out st @ [[]]\<rparr>) lines
         else summary_lines st lines)
      else if su_size st + n > summaryLimit then
        finishSummary (su_out st @
          [if su_size st = 0 then trim_space (concat (map encode_rune (take summaryLimit (runes trimmed)))) @ ellipsis else ellipsis])
      else summary_lines (st\<lparr>su_out := su_out st @ [trimmed], su_size := su_size st + n\<rparr>) lines)"

fun split_lines :: "string \<Rightarrow> string list" where
  "split_lines [] = [[]]"
| "split_lines (c # cs) =
     (if c = CHR 0x0A then [] # split_lines cs else case split_lines cs of [] \<Rightarrow> [[c]] | l # ls \<Rightarrow> (c # l) # ls)"

definition taskReportSummary :: "string \<Rightarrow> string" where
  "taskReportSummary body = summary_lines \<lparr>su_out = [], su_size = 0, su_inCode = False\<rparr> (split_lines body)"

section \<open>The marker\<close>

definition taskReportMarker :: string where "taskReportMarker = ''[task_report:''"

definition report_text :: "string \<Rightarrow> string \<Rightarrow> string" where
  "report_text heading body =
     heading @ (if taskReportSummary body \<noteq> [] then [CHR 0x0A, CHR 0x0A] @ taskReportSummary body else [])"

definition TaskReportNotification :: "(uuid \<Rightarrow> string) \<Rightarrow> string \<Rightarrow> string \<Rightarrow> uuid \<Rightarrow> string" where
  "TaskReportNotification uuid_text heading body i =
     report_text heading body @ [CHR 0x0A] @ taskReportMarker @ uuid_text i @ '']''"

definition id_char :: "char \<Rightarrow> bool" where
  "id_char c \<longleftrightarrow> ascii_digit c \<or> c \<in> {CHR ''a'', CHR ''b'', CHR ''c'', CHR ''d'', CHR ''e'', CHR ''f'', CHR ''-''}"

text \<open>A match of \<open>taskReportMarkerRE\<close> at the front of the text, and the first one in the text.\<close>

definition marker_here :: "string \<Rightarrow> string option" where
  "marker_here s =
     (let i = take 36 (drop (length taskReportMarker) s); rest = drop (length taskReportMarker + 36) s in
      if has_prefix s taskReportMarker \<and> length i = 36 \<and> list_all id_char i \<and> has_prefix rest '']'' \<and>
         list_all regex_space (tl rest) then Some i else None)"

definition marker_at :: "string \<Rightarrow> string option" where
  "marker_at s =
     (if has_prefix s [CHR 0x0A] \<and> marker_here (tl s) \<noteq> None then marker_here (tl s) else marker_here s)"

fun find_marker :: "string \<Rightarrow> (string \<times> string) option" where
  "find_marker s =
     (case marker_at s of
        Some i \<Rightarrow> Some ([], i)
      | None \<Rightarrow> (case s of [] \<Rightarrow> None | c # t \<Rightarrow> map_option (\<lambda>(before, i). (c # before, i)) (find_marker t)))"

declare find_marker.simps [simp del]

definition trim_blanks :: "string \<Rightarrow> string" where
  "trim_blanks s = trim_right_of ['' '', [CHR 0x09], [CHR 0x0A]] s"

definition SplitTaskReportMarker :: "(string \<Rightarrow> uuid option) \<Rightarrow> string \<Rightarrow> string \<times> uuid \<times> bool" where
  "SplitTaskReportMarker parse_uuid text =
     (case find_marker text of
        None \<Rightarrow> (text, uuid_Nil, False)
      | Some (before, i) \<Rightarrow>
          (case parse_uuid i of
             None \<Rightarrow> (text, uuid_Nil, False)
           | Some u \<Rightarrow> (trim_blanks before, u, True)))"

section \<open>Round trip\<close>

lemma marker_here_suffix:
  assumes "marker_here s = Some j"
  shows "\<exists>ws. s = taskReportMarker @ j @ '']'' @ ws \<and> list_all regex_space ws"
proof -
  let ?n = "length taskReportMarker"
  have p: "take ?n s = taskReportMarker" "j = take 36 (drop ?n s)" "take 1 (drop (?n + 36) s) = '']''"
    "list_all regex_space (tl (drop (?n + 36) s))"
    using assms by (auto simp: marker_here_def Let_def has_prefix_def split: if_splits)
  have "s = take ?n s @ take 36 (drop ?n s) @ drop (?n + 36) s"
    by (metis append_take_drop_id drop_drop add.commute)
  moreover have "drop (?n + 36) s = '']'' @ tl (drop (?n + 36) s)" using p(3) by (cases "drop (?n + 36) s") auto
  ultimately show ?thesis using p by metis
qed

text \<open>A marker ends the text, so no marker starts before the last one.\<close>

lemma marker_length:
  assumes "marker_here s = Some j" "s \<noteq> [] \<Longrightarrow> last s = CHR '']''" 
  shows "length s = length taskReportMarker + length j + 1"
proof -
  obtain ws where s: "s = taskReportMarker @ j @ '']'' @ ws" "list_all regex_space ws" using marker_here_suffix [OF assms(1)] by blast
  have "ws = []"
  proof (rule ccontr)
    assume "ws \<noteq> []"
    then have "regex_space (CHR '']'')" using s assms(2) by (auto simp: list_all_iff dest: last_in_set)
    then show False by (simp add: regex_space_def)
  qed
  then show ?thesis by (simp add: s(1))
qed

lemma marker_here_length: "marker_here s = Some j \<Longrightarrow> length j = 36"
  by (auto simp: marker_here_def Let_def split: if_splits)

definition marked :: "string \<Rightarrow> string \<Rightarrow> string" where
  "marked text i = text @ [CHR 0x0A] @ taskReportMarker @ i @ '']''"

lemma marked_facts:
  "length i = 36 \<Longrightarrow> length (marked t i) = length t + length taskReportMarker + 38" "last (marked t i) = CHR '']''"
  "marked (c # t) i = c # marked t i"
  by (simp_all add: marked_def)

lemma no_early_marker:
  assumes "length i = 36" shows "marker_at (c # marked t i) = None"
proof -
  have none: "marker_here s = None" if "last s = CHR '']''" "length s > length taskReportMarker + 37" for s
    using that marker_length [of s] marker_here_length [of s] by (cases "marker_here s") auto
  show ?thesis
    using none [of "marked t i"] none [of "c # marked t i"] marked_facts [where i = i and t = t] assms by (simp add: marker_at_def marked_def)
qed

lemma marker_at_end:
  assumes "length i = 36" "list_all id_char i" shows "marker_at (marked [] i) = Some i"
  using assms by (simp add: marker_at_def marked_def marker_here_def has_prefix_def Let_def)

lemma find_marker_marked:
  assumes "length i = 36" "list_all id_char i" shows "find_marker (marked t i) = Some (t, i)"
proof (induction t)
  case Nil
  show ?case by (subst find_marker.simps) (simp add: marker_at_end [OF assms])
next
  case (Cons c t)
  show ?case by (subst find_marker.simps) (simp add: marked_facts(3) no_early_marker [OF assms(1)] Cons.IH)
qed

lemma summary_trimmed: "trim_space (summary_lines st lines) = summary_lines st lines"
  by (induction st lines rule: summary_lines.induct) (simp_all add: finishSummary_def Let_def)

lemma trim_blanks_last:
  assumes "s \<noteq> []" "last s \<notin> {CHR '' '', CHR 0x09, CHR 0x0A}"
  shows "trim_blanks (t @ s) = t @ s"
proof -
  obtain r where r: "rev s = last s # r" using assms(1) by (cases s rule: rev_cases) auto
  have "trim_front [[CHR '' ''], [CHR 0x09], [CHR 0x0A]] (rev (t @ s)) = rev (t @ s)"
    unfolding rev_append r append_Cons by (rule trim_front_first) (use assms(2) in auto)
  then show ?thesis by (simp add: trim_blanks_def trim_right_of_def)
qed

lemma trim_space_last: "trim_space s \<noteq> [] \<Longrightarrow> last (trim_space s) \<notin> {CHR '' '', CHR 0x09, CHR 0x0A}"
proof
  assume ne: "trim_space s \<noteq> []" and blank: "last (trim_space s) \<in> {CHR '' '', CHR 0x09, CHR 0x0A}"
  have "strip_front (map rev white_space) (rev (trim_space s)) = None" by (simp add: trim_space_def)
  then have no: "\<not> prefix p (rev (trim_space s))" if "p \<in> set (map rev white_space)" "p \<noteq> []" for p
    using that unfolding strip_front_None by blast
  have "\<not> prefix [CHR '' ''] (rev (trim_space s)) \<and> \<not> prefix [CHR 0x09] (rev (trim_space s)) \<and> \<not> prefix [CHR 0x0A] (rev (trim_space s))"
    by (intro conjI no) (simp_all add: white_space_def)
  moreover obtain r where "rev (trim_space s) = last (trim_space s) # r" using ne by (cases "trim_space s" rule: rev_cases) auto
  ultimately show False using blank by auto
qed

lemma trim_blanks_report:
  assumes "taskReportSummary body \<noteq> [] \<or> trim_blanks heading = heading"
  shows "trim_blanks (report_text heading body) = report_text heading body"
proof (cases "taskReportSummary body = []")
  case True
  then show ?thesis using assms by (simp add: report_text_def)
next
  case False
  have "trim_space (taskReportSummary body) = taskReportSummary body" by (simp add: taskReportSummary_def summary_trimmed)
  then have "last (taskReportSummary body) \<notin> {CHR '' '', CHR 0x09, CHR 0x0A}" using trim_space_last False by metis
  then show ?thesis
    using trim_blanks_last [OF False, of "heading @ [CHR 0x0A, CHR 0x0A]"] False by (simp add: report_text_def)
qed

text \<open>
  (C17) The transport takes back from a report's notice what was put in: the task's id and the notice without the marker and
  without blanks at its end, whatever the title and the body contain, also text that looks like a marker. A notice with a summary comes
  back exactly; one that is only a heading does when the heading does not end with a blank.
\<close>

theorem report_marker_roundtrip:
  assumes "length (uuid_text i) = 36" "list_all id_char (uuid_text i)" "parse_uuid (uuid_text i) = Some i"
  shows "SplitTaskReportMarker parse_uuid (TaskReportNotification uuid_text heading body i) = (trim_blanks (report_text heading body), i, True) \<and>
    (taskReportSummary body \<noteq> [] \<or> trim_blanks heading = heading \<longrightarrow> trim_blanks (report_text heading body) = report_text heading body)"
proof -
  have "TaskReportNotification uuid_text heading body i = marked (report_text heading body) (uuid_text i)"
    by (simp add: TaskReportNotification_def marked_def)
  then show ?thesis
    using find_marker_marked [OF assms(1,2)] assms(3) trim_blanks_report by (simp add: SplitTaskReportMarker_def)
qed

definition sample_uuid_text :: "uuid \<Rightarrow> string" where
  "sample_uuid_text i = ''7ee9fd00-0000-4000-8000-00000000000'' @ (if i = 7 then ''7'' else ''0'')"

theorem report_marker_roundtrip_witness:
  "SplitTaskReportMarker (\<lambda>s. if s = sample_uuid_text 7 then Some 7 else None)
     (TaskReportNotification sample_uuid_text ''Ready [task_report:x]'' ''# Title'' 7) =
   (report_text ''Ready [task_report:x]'' ''# Title'', 7, True)"
proof -
  have "taskReportSummary ''# Title'' = []" by code_simp
  moreover have "trim_blanks ''Ready [task_report:x]'' = ''Ready [task_report:x]''" by code_simp
  ultimately show ?thesis
    using report_marker_roundtrip [of sample_uuid_text 7 "\<lambda>s. if s = sample_uuid_text 7 then Some 7 else None" "''Ready [task_report:x]''" "''# Title''"]
    by (simp add: sample_uuid_text_def id_char_def ascii_digit_def)
qed

end
