(* ===== verification/Graph_Validation.thy ===== *)
theory Graph_Validation
  imports Grounding Task_Report Task_Iteration
begin

text \<open>
  The validation of the report of a version-2 task, \<open>validateGraphResult\<close> of \<open>internal/agenttask/graph_validation.go\<close>,
  and \<open>finishGraph\<close> of \<open>graph_runner.go\<close>: the saved progress of the validation, the bounded repairs, the response
  guard, the review and the finalization.
\<close>

section \<open>The saved state\<close>

record graphFinalValidation =
  fv_RepairPending :: bool
  fv_RepairAttempts :: nat
  fv_RepairBody :: string
  fv_Verdict :: "AcceptanceVerdict option"
  fv_CandidateHash :: string
  fv_Attempts :: nat
  fv_ResponseChecked :: bool
  fv_Accepted :: bool
  fv_SafeBody :: string
  fv_LastCheckedBody :: string
  fv_Reason :: string

definition fresh_validation :: "string \<Rightarrow> graphFinalValidation" where
  "fresh_validation h = \<lparr>fv_RepairPending = False, fv_RepairAttempts = 0, fv_RepairBody = [], fv_Verdict = None,
     fv_CandidateHash = h, fv_Attempts = 0, fv_ResponseChecked = False, fv_Accepted = False, fv_SafeBody = [],
     fv_LastCheckedBody = [], fv_Reason = []\<rparr>"

definition checkedBody :: "graphFinalValidation \<Rightarrow> string" where
  "checkedBody v = (if fv_ResponseChecked v \<and> trim_space (fv_SafeBody v) \<noteq> [] then fv_SafeBody v else fv_LastCheckedBody v)"

text \<open>
  Parameters: the texts on the task's title, the run of the coordinator, the JSON codec of the state, the hexadecimal digest,
  the decoding of a step's checkpoint into receipts and traces, the host's response guard, the repairer of the
  handler and the acceptance review (\<open>evaluateAcceptanceWithPrior\<close>); the last three take the number of the round
  because two calls may answer differently.
\<close>

record validation_env =
  ve_ext :: external
  ve_ready :: "string \<Rightarrow> string"
  ve_failure_empty :: "string \<Rightarrow> string"
  ve_unverified :: string
  ve_run :: uuid
  ve_enc :: "graphFinalValidation \<Rightarrow> json"
  ve_dec :: "json \<Rightarrow> graphFinalValidation option"
  ve_hash :: "string \<Rightarrow> string"
  ve_checkpoint :: "json \<Rightarrow> (json list \<times> json list) option"
  ve_validator :: "(nat \<Rightarrow> AgentTask \<Rightarrow> string \<Rightarrow> json list \<Rightarrow> goerror + string) option"
  ve_repair :: "(nat \<Rightarrow> AgentTask \<Rightarrow> string \<Rightarrow> string \<Rightarrow> goerror + string) option"
  ve_review :: "nat \<Rightarrow> AgentTask \<Rightarrow> string \<Rightarrow> json \<Rightarrow> AcceptanceVerdict option \<Rightarrow> AcceptanceVerdict"

text \<open>The member is only ever written under its exact name; a progress without it decodes to the zero state.\<close>

definition saved_validation :: "validation_env \<Rightarrow> json \<Rightarrow> graphFinalValidation option" where
  "saved_validation env progress =
     (case progress of
        JNull \<Rightarrow> Some (fresh_validation [])
      | JObj kvs \<Rightarrow> (case map_of kvs ''final_validation'' of None \<Rightarrow> Some (fresh_validation []) | Some j \<Rightarrow> ve_dec env j)
      | _ \<Rightarrow> None)"

text \<open>
  What a call did: its error, the finalization it made (outcome, body and reason) and the database. A round either
  settles the call or ends in a rejection, after which the function calls itself.
\<close>

record validated =
  vd_error :: "goerror option"
  vd_finish :: "(string \<times> string \<times> string) option"
  vd_db :: db

datatype round = Settled validated | Again db

section \<open>Steps of a round\<close>

definition failed_with :: "goerror \<Rightarrow> db \<Rightarrow> round" where
  "failed_with e d = Settled \<lparr>vd_error = Some e, vd_finish = None, vd_db = d\<rparr>"

definition finishGraph :: "validation_env \<Rightarrow> clock \<Rightarrow> uuid \<Rightarrow> AgentTask \<Rightarrow> string \<Rightarrow> string \<Rightarrow> string \<Rightarrow> db \<Rightarrow> store_error option \<times> db" where
  "finishGraph env clk new task outcome body reason d =
     (let ext = ve_ext env; empty = ve_failure_empty env (t_Title task);
          fin = (blank_finalization outcome)\<lparr>fin_Body := body, fin_Reason := reason,
            fin_Notify := TaskReportNotification (ext_uuid_text ext) (ve_ready env (t_Title task)) body (t_ID task),
            fin_UnverifiedDraftFmt := ve_unverified env, fin_EmptyBody := empty, fin_EmptyNotify := empty\<rparr>
      in case FinalizeTask (ext_sha256 ext) (ext_sprintf3 ext) (ext_render ext) (ext_coll ext) (ve_run env) clk new (t_ID task) fin d of
           Inl e \<Rightarrow> (Some e, d)
         | Inr (_, d') \<Rightarrow> (None, d'))"

definition finish :: "validation_env \<Rightarrow> clock \<Rightarrow> uuid \<Rightarrow> AgentTask \<Rightarrow> string \<Rightarrow> string \<Rightarrow> string \<Rightarrow> db \<Rightarrow> round" where
  "finish env clk new task outcome body reason d =
     (case finishGraph env clk new task outcome body reason d of (err, d') \<Rightarrow>
        Settled \<lparr>vd_error = map_option Store err, vd_finish = Some (outcome, body, reason), vd_db = d'\<rparr>)"

definition yield_until :: "validation_env \<Rightarrow> clock \<Rightarrow> AgentTask \<Rightarrow> gotime \<Rightarrow> db \<Rightarrow> round" where
  "yield_until env clk task nxt d =
     (case YieldGraphTask (ext_iso (ve_ext env)) (ve_run env) clk (t_ID task) nxt d of
        Inl e \<Rightarrow> failed_with (Store e) d
      | Inr (_, d') \<Rightarrow> Settled \<lparr>vd_error = None, vd_finish = None, vd_db = d'\<rparr>)"

definition save_validation :: "validation_env \<Rightarrow> clock \<Rightarrow> AgentTask \<Rightarrow> graphFinalValidation \<Rightarrow> db \<Rightarrow> unit tx" where
  "save_validation env clk task st d =
     SaveGraphProgress (ve_run env) clk (t_ID task)
       (JObj [(''final_validation'', ve_enc env st), (''phase'', JStr ''finalizing'')]) d"

definition past_stop :: "gotime option \<Rightarrow> gotime \<Rightarrow> bool" where
  "past_stop stop t \<longleftrightarrow> (case stop of None \<Rightarrow> False | Some s \<Rightarrow> \<not> t < s)"

definition deferCheck ::
    "validation_env \<Rightarrow> clock \<Rightarrow> uuid \<Rightarrow> AgentTask \<Rightarrow> graphFinalValidation \<Rightarrow> string \<Rightarrow> duration \<Rightarrow> db \<Rightarrow> round" where
  "deferCheck env clk new task st0 reason delay d =
     (let st = st0\<lparr>fv_Reason := reason\<rparr> in
      case save_validation env clk task st d of
        Inl e \<Rightarrow> failed_with (Store e) d
      | Inr (_, d1) \<Rightarrow>
          let nxt = clk 10 + max (int (fv_Attempts st) * 5 * second) delay in
          if fv_Attempts st \<ge> 3 \<or> past_stop (TaskStopDeadline task) nxt then
            finish env (later 11 clk) new task ''partial'' (checkedBody st) ''final_verification_unavailable'' d1
          else yield_until env (later 11 clk) task nxt d1)"

section \<open>Repair\<close>

definition repair_reason :: "graphFinalValidation \<Rightarrow> string" where
  "repair_reason st = ''final_acceptance_rejected: '' @ fv_Reason st"

definition may_repair :: "validation_env \<Rightarrow> gotime \<Rightarrow> AgentTask \<Rightarrow> graphFinalValidation \<Rightarrow> bool" where
  "may_repair env now task st \<longleftrightarrow>
     ve_repair env \<noteq> None \<and>
     (case fv_Verdict st of None \<Rightarrow> True | Some v \<Rightarrow> graphGroundingRepairable (av_Grounding v)) \<and>
     (case TaskStopDeadline task of None \<Rightarrow> True | Some s \<Rightarrow> time_sub s now > 30 * second) \<and>
     fv_RepairAttempts st < 2"

text \<open>A repair either settles the call or leaves the state, the revised body and the database.\<close>

definition repair_step ::
    "validation_env \<Rightarrow> nat \<Rightarrow> clock \<Rightarrow> uuid \<Rightarrow> AgentTask \<Rightarrow> graphFinalValidation \<Rightarrow> db \<Rightarrow>
     round + graphFinalValidation \<times> string \<times> db" where
  "repair_step env k clk new task st0 d =
     (if \<not> may_repair env (clk 0) task st0 then
        Inl (finish env (later 1 clk) new task ''partial'' (checkedBody st0) (repair_reason st0) d)
      else
        let st = st0\<lparr>fv_RepairAttempts := fv_RepairAttempts st0 + 1\<rparr> in
        case save_validation env (later 1 clk) task st d of
          Inl e \<Rightarrow> Inl (failed_with (Store e) d)
        | Inr (_, d1) \<Rightarrow>
            let reply = (case ve_repair env of None \<Rightarrow> Inr [] | Some r \<Rightarrow> r k task (fv_SafeBody st) (fv_Reason st));
                err = (case reply of Inl e \<Rightarrow> Some e | Inr _ \<Rightarrow> None);
                revised = (case reply of Inl _ \<Rightarrow> [] | Inr s \<Rightarrow> s)
            in
            if err \<noteq> None \<or> trim_space revised = [] then
              let nxt = clk 10 + max (5 * second) (snd (TaskRetryPolicy err)) in
              if fv_RepairAttempts st \<ge> 2 \<or> past_stop (TaskStopDeadline task) nxt then
                Inl (finish env (later 11 clk) new task ''partial'' (checkedBody st) ''final_repair_unavailable'' d1)
              else Inl (yield_until env (later 11 clk) task nxt d1)
            else
              let st' = st\<lparr>fv_RepairBody := revised, fv_Attempts := 0, fv_RepairPending := False,
                    fv_LastCheckedBody := checkedBody st, fv_ResponseChecked := False, fv_SafeBody := [], fv_Verdict := None\<rparr>
              in case save_validation env (later 20 clk) task st' d1 of
                   Inl e \<Rightarrow> Inl (failed_with (Store e) d1)
                 | Inr (_, d2) \<Rightarrow> Inr (st', revised, d2))"

section \<open>Response guard and review\<close>

fun collect_evidence :: "validation_env \<Rightarrow> TaskStep list \<Rightarrow> (json list \<times> json list) option" where
  "collect_evidence env [] = Some ([], [])"
| "collect_evidence env (s # ss) =
     (if s_Status s \<noteq> ''done'' then collect_evidence env ss
      else case (ve_checkpoint env (s_Checkpoint s), collect_evidence env ss) of
          (Some (r, t), Some (rs, ts)) \<Rightarrow> Some (r @ rs, t @ ts)
        | _ \<Rightarrow> None)"

definition response_step ::
    "validation_env \<Rightarrow> nat \<Rightarrow> clock \<Rightarrow> uuid \<Rightarrow> AgentTask \<Rightarrow> graphFinalValidation \<Rightarrow> string \<Rightarrow> json list \<Rightarrow> db \<Rightarrow>
     round + graphFinalValidation \<times> db" where
  "response_step env k clk new task st body receipts d =
     (if fv_ResponseChecked st then Inr (st, d)
      else case (case ve_validator env of None \<Rightarrow> Inr body | Some validate \<Rightarrow> validate k task body receipts) of
          Inl e \<Rightarrow> Inl (deferCheck env clk new task st ''response_validation_unavailable'' (snd (TaskRetryPolicy (Some e))) d)
        | Inr safe \<Rightarrow>
            if ve_validator env \<noteq> None \<and> trim_space safe = [] then
              Inl (deferCheck env clk new task st ''response_validation_empty'' 0 d)
            else
              let st' = st\<lparr>fv_SafeBody := safe, fv_LastCheckedBody := safe, fv_ResponseChecked := True\<rparr>
              in case save_validation env (later 20 clk) task st' d of
                   Inl e \<Rightarrow> Inl (failed_with (Store e) d)
                 | Inr (_, d1) \<Rightarrow> Inr (st', d1))"

definition review_step ::
    "validation_env \<Rightarrow> nat \<Rightarrow> clock \<Rightarrow> uuid \<Rightarrow> AgentTask \<Rightarrow> graphFinalValidation \<Rightarrow> json list \<Rightarrow> db \<Rightarrow> round" where
  "review_step env k clk new task st0 traces d =
     (let verdict = ve_review env k task (fv_SafeBody st0) (JArr traces) (fv_Verdict st0);
          st = st0\<lparr>fv_Verdict := Some verdict\<rparr>
      in
      if av_Unavailable verdict then deferCheck env clk new task st (av_Reason verdict) (av_RetryDelay verdict) d
      else if \<not> av_Met verdict then
        (case save_validation env clk task (st\<lparr>fv_Reason := av_Reason verdict, fv_RepairPending := True\<rparr>) d of
           Inl e \<Rightarrow> failed_with (Store e) d
         | Inr (_, d1) \<Rightarrow> Again d1)
      else
        (case save_validation env clk task (st\<lparr>fv_Accepted := True, fv_Reason := []\<rparr>) d of
           Inl e \<Rightarrow> failed_with (Store e) d
         | Inr (_, d1) \<Rightarrow> finish env (later 10 clk) new task ''completed'' (fv_SafeBody st) [] d1))"

definition check_step ::
    "validation_env \<Rightarrow> nat \<Rightarrow> clock \<Rightarrow> uuid \<Rightarrow> AgentTask \<Rightarrow> TaskStep list \<Rightarrow> graphFinalValidation \<Rightarrow> string \<Rightarrow> db \<Rightarrow> round" where
  "check_step env k clk new task steps st0 body d =
     (if fv_Attempts st0 \<ge> 3 then finish env clk new task ''partial'' (checkedBody st0) ''final_verification_unavailable'' d
      else
        let st = st0\<lparr>fv_Attempts := fv_Attempts st0 + 1\<rparr> in
        case save_validation env clk task st d of
          Inl e \<Rightarrow> failed_with (Store e) d
        | Inr (_, d1) \<Rightarrow>
            (case collect_evidence env steps of
               None \<Rightarrow> failed_with (Plain ''checkpoint'') d1
             | Some (receipts, traces) \<Rightarrow>
                 (case response_step env k (later 10 clk) new task st body receipts d1 of
                    Inl r \<Rightarrow> r
                  | Inr (st', d2) \<Rightarrow> review_step env k (later 40 clk) new task st' traces d2)))"

section \<open>The function\<close>

definition current_state :: "validation_env \<Rightarrow> AgentTask \<Rightarrow> string \<Rightarrow> db \<Rightarrow> graphFinalValidation option" where
  "current_state env task body d =
     (case find_task d (t_ID task) of
        None \<Rightarrow> None
      | Some current \<Rightarrow> map_option (\<lambda>st. if fv_CandidateHash st \<noteq> ve_hash env body then fresh_validation (ve_hash env body) else st)
          (saved_validation env (t_Progress current)))"

definition validation_round ::
    "validation_env \<Rightarrow> nat \<Rightarrow> clock \<Rightarrow> uuid \<Rightarrow> AgentTask \<Rightarrow> TaskStep list \<Rightarrow> string \<Rightarrow> db \<Rightarrow> round" where
  "validation_round env k clk new task steps original d =
     (case current_state env task original d of
        None \<Rightarrow> failed_with (Plain ''progress'') d
      | Some st \<Rightarrow>
          if fv_Accepted st then finish env clk new task ''completed'' (fv_SafeBody st) [] d
          else
            let body = (if fv_RepairBody st \<noteq> [] then fv_RepairBody st else original) in
            if fv_RepairPending st then
              (case repair_step env k clk new task st d of
                 Inl r \<Rightarrow> r
               | Inr (st', revised, d') \<Rightarrow> check_step env k (later 40 clk) new task steps st' revised d')
            else check_step env k (later 40 clk) new task steps st body d)"

text \<open>\<open>clk k\<close> and \<open>new k\<close> belong to round \<open>k\<close>; the first argument is fuel.\<close>

fun validate_rounds ::
    "nat \<Rightarrow> validation_env \<Rightarrow> nat \<Rightarrow> (nat \<Rightarrow> clock) \<Rightarrow> (nat \<Rightarrow> uuid) \<Rightarrow> AgentTask \<Rightarrow> TaskStep list \<Rightarrow> string \<Rightarrow> db \<Rightarrow> validated option" where
  "validate_rounds 0 env k clk new task steps original d = None"
| "validate_rounds (Suc n) env k clk new task steps original d =
     (case validation_round env k (clk k) (new k) task steps original d of
        Settled r \<Rightarrow> Some r
      | Again d' \<Rightarrow> validate_rounds n env (Suc k) clk new task steps original d')"

definition validateGraphResult ::
    "validation_env \<Rightarrow> (nat \<Rightarrow> clock) \<Rightarrow> (nat \<Rightarrow> uuid) \<Rightarrow> AgentTask \<Rightarrow> TaskStep list \<Rightarrow> string \<Rightarrow> db \<Rightarrow> validated option" where
  "validateGraphResult env clk new task steps body d = validate_rounds 4 env 0 clk new task steps body d"

end
