(* ===== verification/Validation_Theorems.thy ===== *)
theory Validation_Theorems
  imports Graph_Validation Dispatch_Theorems
begin

text \<open>
  What the validation of a graph's report guarantees: it returns, within two repairs, and a report is only
  completed when the reviewer met exactly that text.
\<close>

section \<open>The saved state across rounds\<close>

text \<open>
  The codec is only asked to read back what it wrote in the fields that steer the loop: three flags, a counter,
  the hexadecimal digest and the checked text.
\<close>

definition control_codec :: "validation_env \<Rightarrow> bool" where
  "control_codec env \<longleftrightarrow> (\<forall>st. \<exists>st'. ve_dec env (ve_enc env st) = Some st' \<and>
     fv_RepairPending st' = fv_RepairPending st \<and> fv_RepairAttempts st' = fv_RepairAttempts st \<and>
     fv_CandidateHash st' = fv_CandidateHash st \<and> fv_Accepted st' = fv_Accepted st \<and>
     fv_ResponseChecked st' = fv_ResponseChecked st \<and> fv_SafeBody st' = fv_SafeBody st)"

lemma save_progress:
  assumes "save_validation env clk task st d = Inr (u, d')" and "find_task d (t_ID task) = Some t"
  shows "find_task d' (t_ID task) = Some (t\<lparr>t_Progress := jconcat (t_Progress t)
    (JObj [(''final_validation'', ve_enc env st), (''phase'', JStr ''finalizing'')])\<rparr>)"
  using assms find_task_SomeD [OF assms(2)]
  by (auto simp: save_validation_def SaveGraphProgress_def find_task_update split: sum.splits)

lemma save_found: "save_validation env clk task st d = Inr (u, d') \<Longrightarrow> \<exists>t. find_task d (t_ID task) = Some t"
  by (auto simp: save_validation_def SaveGraphProgress_def lockTaskExecution_def split: sum.splits option.splits)

text \<open>After a save the next round reads that state, or fails on a progress that was no object.\<close>

lemma save_state:
  assumes "control_codec env" and save: "save_validation env clk task st d = Inr (u, d')" and "fv_CandidateHash st = ve_hash env body"
  shows "current_state env task body d' = None \<or>
    (\<exists>st'. current_state env task body d' = Some st' \<and> fv_RepairPending st' = fv_RepairPending st \<and>
      fv_RepairAttempts st' = fv_RepairAttempts st \<and> fv_Accepted st' = fv_Accepted st \<and>
      fv_ResponseChecked st' = fv_ResponseChecked st \<and> fv_SafeBody st' = fv_SafeBody st)"
proof -
  obtain st' where c: "ve_dec env (ve_enc env st) = Some st'" "fv_RepairPending st' = fv_RepairPending st"
    "fv_RepairAttempts st' = fv_RepairAttempts st" "fv_CandidateHash st' = fv_CandidateHash st" "fv_Accepted st' = fv_Accepted st"
    "fv_ResponseChecked st' = fv_ResponseChecked st" "fv_SafeBody st' = fv_SafeBody st"
    using assms(1) unfolding control_codec_def by blast
  obtain t where t: "find_task d (t_ID task) = Some t" using save_found [OF save] by blast
  note f = save_progress [OF save t]
  show ?thesis
  proof (cases "t_Progress t")
    case (JObj kvs)
    have "map_of (fold (\<lambda>(k, v). set_member k v) [(''final_validation'', ve_enc env st), (''phase'', JStr ''finalizing'')] kvs)
        ''final_validation'' = Some (ve_enc env st)"
      by (simp add: map_of_set_member)
    then show ?thesis using f c assms(3) JObj by (simp add: current_state_def saved_validation_def)
  qed (use f in \<open>simp_all add: current_state_def saved_validation_def\<close>)
qed

section \<open>Rejections\<close>

lemma not_Again [simp]:
  "failed_with e d \<noteq> Again d'" "finish env clk new task outcome body reason d \<noteq> Again d'"
  "yield_until env clk task nxt d \<noteq> Again d'" "deferCheck env clk new task st reason delay d \<noteq> Again d'"
  by (simp_all add: failed_with_def finish_def yield_until_def deferCheck_def Let_def split: prod.splits sum.splits)

definition rejected_save :: "validation_env \<Rightarrow> AgentTask \<Rightarrow> graphFinalValidation \<Rightarrow> db \<Rightarrow> bool" where
  "rejected_save env task st d' \<longleftrightarrow> (\<exists>clk d u st1. save_validation env clk task st1 d = Inr (u, d') \<and> fv_RepairPending st1 \<and>
     fv_RepairAttempts st1 = fv_RepairAttempts st \<and> fv_CandidateHash st1 = fv_CandidateHash st \<and> fv_Accepted st1 = fv_Accepted st)"

lemma review_step_Again:
  assumes "review_step env k clk new task st traces d = Again d'" shows "rejected_save env task st d'"
proof -
  have "\<exists>v u. save_validation env clk task (st\<lparr>fv_Verdict := v, fv_Reason := r, fv_RepairPending := True\<rparr>) d = Inr (u, d')" 
    if "r = av_Reason (ve_review env k task (fv_SafeBody st) (JArr traces) (fv_Verdict st))" for r
    using assms that by (auto simp: review_step_def Let_def split: if_splits sum.splits)
  then show ?thesis unfolding rejected_save_def by fastforce
qed

lemma response_step_state:
  "response_step env k clk new task st body receipts d = Inr (st', d') \<Longrightarrow>
   fv_RepairAttempts st' = fv_RepairAttempts st \<and> fv_CandidateHash st' = fv_CandidateHash st \<and> fv_Accepted st' = fv_Accepted st"
  "response_step env k clk new task st body receipts d \<noteq> Inl (Again d')"
  by (auto simp: response_step_def Let_def split: if_splits sum.splits option.splits)

lemma check_step_Again:
  assumes "check_step env k clk new task steps st body d = Again d'" shows "rejected_save env task st d'"
proof -
  define st0 where "st0 = st\<lparr>fv_Attempts := fv_Attempts st + 1\<rparr>"
  obtain receipts traces st' d1 d2 where r: "response_step env k (later 10 clk) new task st0 body receipts d1 = Inr (st', d2)"
    "review_step env k (later 40 clk) new task st' traces d2 = Again d'"
    using assms response_step_state(2)
    by (fastforce simp: check_step_def Let_def st0_def split: if_splits sum.splits option.splits prod.splits)
  then show ?thesis using review_step_Again [OF r(2)] response_step_state(1) [OF r(1)]
    unfolding rejected_save_def by (fastforce simp: st0_def)
qed

lemma repair_step_state:
  "repair_step env k clk new task st d = Inr (st', revised, d') \<Longrightarrow>
   fv_RepairAttempts st < 2 \<and> fv_RepairAttempts st' = fv_RepairAttempts st + 1 \<and> fv_CandidateHash st' = fv_CandidateHash st \<and>
   fv_Accepted st' = fv_Accepted st \<and> \<not> fv_ResponseChecked st'"
  "repair_step env k clk new task st d \<noteq> Inl (Again d')"
  by (auto simp: repair_step_def may_repair_def Let_def split: if_splits sum.splits option.splits)

lemma round_Again:
  assumes "validation_round env k clk new task steps body d = Again d'"
  obtains st clk1 d1 u st1 where "current_state env task body d = Some st" "\<not> fv_Accepted st"
    "save_validation env clk1 task st1 d1 = Inr (u, d')" "fv_RepairPending st1" "\<not> fv_Accepted st1"
    "fv_CandidateHash st1 = ve_hash env body"
    "fv_RepairAttempts st1 = fv_RepairAttempts st + (if fv_RepairPending st then 1 else 0)"
    "fv_RepairPending st \<longrightarrow> fv_RepairAttempts st < 2"
proof -
  obtain st where st: "current_state env task body d = Some st" "\<not> fv_Accepted st"
    using assms by (auto simp: validation_round_def split: option.splits if_splits)
  have h: "fv_CandidateHash st = ve_hash env body"
    using st(1) by (auto simp: current_state_def fresh_validation_def split: option.splits if_splits)
  show ?thesis
  proof (cases "fv_RepairPending st")
    case True
    then obtain st' revised d2 where r: "repair_step env k clk new task st d = Inr (st', revised, d2)"
      "check_step env k (later 40 clk) new task steps st' revised d2 = Again d'"
      using assms st repair_step_state(2) by (fastforce simp: validation_round_def split: sum.splits)
    obtain clk1 d1 u st1 where s: "save_validation env clk1 task st1 d1 = Inr (u, d')" "fv_RepairPending st1"
      "fv_RepairAttempts st1 = fv_RepairAttempts st'" "fv_CandidateHash st1 = fv_CandidateHash st'" "fv_Accepted st1 = fv_Accepted st'"
      using check_step_Again [OF r(2)] unfolding rejected_save_def by blast
    show ?thesis by (rule that [OF st s(1,2)]) (use s repair_step_state(1) [OF r(1)] st h True in auto)
  next
    case False
    then have "rejected_save env task st d'"
      using assms st by (intro check_step_Again [where k = k and clk = "later 40 clk" and new = new and steps = steps and d = d
          and body = "if fv_RepairBody st \<noteq> [] then fv_RepairBody st else body"]) (simp add: validation_round_def Let_def)
    then obtain clk1 d1 u st1 where s: "save_validation env clk1 task st1 d1 = Inr (u, d')" "fv_RepairPending st1"
      "fv_RepairAttempts st1 = fv_RepairAttempts st" "fv_CandidateHash st1 = fv_CandidateHash st" "fv_Accepted st1 = fv_Accepted st"
      unfolding rejected_save_def by blast
    show ?thesis by (rule that [OF st s(1,2)]) (use s st h False in auto)
  qed
qed

text \<open>The rounds a state may still need.\<close>

fun rounds_left :: "graphFinalValidation option \<Rightarrow> nat" where
  "rounds_left None = 1"
| "rounds_left (Some st) = (if fv_RepairPending st then max 1 (3 - fv_RepairAttempts st) else 4)"

lemma rounds_suffice:
  assumes "control_codec env" and "rounds_left (current_state env task body d) \<le> n"
  shows "validate_rounds n env k clk new task steps body d \<noteq> None"
  using assms(2)
proof (induction n arbitrary: k d)
  case 0
  then show ?case by (cases "current_state env task body d") (auto split: if_splits)
next
  case (Suc n)
  show ?case
  proof (cases "validation_round env k (clk k) (new k) task steps body d")
    case (Again d')
    from round_Again [OF Again] obtain st clk1 d1 u st1 where st: "current_state env task body d = Some st"
      "save_validation env clk1 task st1 d1 = Inr (u, d')" "fv_RepairPending st1" "fv_CandidateHash st1 = ve_hash env body"
      "fv_RepairAttempts st1 = fv_RepairAttempts st + (if fv_RepairPending st then 1 else 0)"
      "fv_RepairPending st \<longrightarrow> fv_RepairAttempts st < 2" by metis
    have "rounds_left (current_state env task body d') \<le> n"
      using save_state [OF assms(1) st(2,4)] st Suc.prems by (auto split: if_splits)
    then show ?thesis using Suc.IH Again by simp
  qed simp
qed

section \<open>A sample validation\<close>

text \<open>A codec of the steering fields and the checked body, a reviewer that wants ''better'' and a repairer that writes it.\<close>

definition sample_encode :: "graphFinalValidation \<Rightarrow> json" where
  "sample_encode st = JArr [JBool (fv_RepairPending st), JNum (int (fv_RepairAttempts st)), JStr (fv_CandidateHash st),
     JBool (fv_Accepted st), JBool (fv_ResponseChecked st), JStr (fv_SafeBody st), JStr (fv_RepairBody st)]"

fun bool_of :: "json \<Rightarrow> bool" where "bool_of (JBool b) = b" | "bool_of _ = False"

fun string_of :: "json \<Rightarrow> string" where "string_of (JStr s) = s" | "string_of _ = []"

fun nat_of :: "json \<Rightarrow> nat" where "nat_of (JNum n) = nat n" | "nat_of _ = 0"

definition sample_decode :: "json \<Rightarrow> graphFinalValidation option" where
  "sample_decode j =
     (case j of
        JArr vs \<Rightarrow>
          Some ((fresh_validation (string_of (vs ! 2)))\<lparr>fv_RepairPending := bool_of (vs ! 0), fv_RepairAttempts := nat_of (vs ! 1),
            fv_Accepted := bool_of (vs ! 3), fv_ResponseChecked := bool_of (vs ! 4), fv_SafeBody := string_of (vs ! 5),
            fv_RepairBody := string_of (vs ! 6)\<rparr>)
      | _ \<Rightarrow> None)"

definition sample_reviewer :: "nat \<Rightarrow> AgentTask \<Rightarrow> string \<Rightarrow> json \<Rightarrow> AcceptanceVerdict option \<Rightarrow> AcceptanceVerdict" where
  "sample_reviewer k task b traces prior = no_acceptance\<lparr>av_Met := (b = ''better''), av_Reason := ''worse''\<rparr>"

definition sample_validation_env :: validation_env where
  "sample_validation_env = \<lparr>ve_ext = sample_ext, ve_ready = (\<lambda>t. t), ve_failure_empty = (\<lambda>t. t), ve_unverified = [],
     ve_run = 100, ve_enc = sample_encode, ve_dec = sample_decode, ve_hash = (\<lambda>b. b), ve_checkpoint = (\<lambda>_. Some ([], [])),
     ve_validator = None, ve_repair = Some (\<lambda>_ _ _ _. Inr ''better''), ve_review = sample_reviewer\<rparr>"

definition graph_task :: AgentTask where "graph_task = (blank_task 1 7 2)\<lparr>t_Status := ''running''\<rparr>"

definition graph_db :: db where
  "graph_db = empty_db\<lparr>agent_tasks := [graph_task],
     agent_task_runs := [\<lparr>r_TaskID = 1, r_RunID = 100, r_LeaseUntil = 9, r_HeartbeatAt = 1, r_NextAttemptAt = 1, r_StartedAt = 1\<rparr>]\<rparr>"

lemma sample_codec: "control_codec sample_validation_env"
  by (simp add: control_codec_def sample_validation_env_def sample_encode_def sample_decode_def fresh_validation_def)

text \<open>
  The validation of a report always returns: whatever the reviewer, the repairer, the response guard and the
  database answer, it calls itself at most three times, because every rejection uses up a repair and there are two.
\<close>

theorem validation_returns:
  assumes "control_codec env"
  shows "\<exists>r. validateGraphResult env clk new task steps body d = Some r"
proof -
  have "rounds_left (current_state env task body d) \<le> 4" by (cases "current_state env task body d") auto
  then show ?thesis using rounds_suffice [OF assms] unfolding validateGraphResult_def by fast
qed

theorem validation_returns_witness:
  "\<exists>r. validateGraphResult sample_validation_env (\<lambda>_ _. 2) (\<lambda>k. 300 + k) graph_task [] ''draft'' graph_db = Some r"
  by (rule validation_returns [OF sample_codec])

section \<open>Completed reports\<close>

definition completes :: "round \<Rightarrow> string \<Rightarrow> bool" where
  "completes r b \<longleftrightarrow> (\<exists>v reason. r = Settled v \<and> vd_finish v = Some (''completed'', b, reason))"

definition guard_passed :: "validation_env \<Rightarrow> nat \<Rightarrow> AgentTask \<Rightarrow> string \<Rightarrow> string \<Rightarrow> bool" where
  "guard_passed env k task draft b \<longleftrightarrow>
     (case ve_validator env of
        None \<Rightarrow> b = draft
      | Some validate \<Rightarrow> \<exists>receipts. validate k task draft receipts = Inr b \<and> trim_space b \<noteq> [])"

definition review_met :: "validation_env \<Rightarrow> nat \<Rightarrow> AgentTask \<Rightarrow> string \<Rightarrow> bool" where
  "review_met env k task b \<longleftrightarrow> (\<exists>traces prior. av_Met (ve_review env k task b traces prior) \<and>
     \<not> av_Unavailable (ve_review env k task b traces prior))"

lemma completes_simps [simp]:
  "\<not> completes (failed_with e d) b" "\<not> completes (yield_until env clk task nxt d) b" "\<not> completes (Again d) b"
  "\<not> completes (deferCheck env clk new task st reason delay d) b"
  "completes (finish env clk new task outcome body reason d) b \<longleftrightarrow> outcome = ''completed'' \<and> body = b"
  by (auto simp: completes_def failed_with_def yield_until_def deferCheck_def finish_def Let_def split: prod.splits sum.splits)

lemma review_step_completes:
  "completes (review_step env k clk new task st traces d) b \<Longrightarrow> b = fv_SafeBody st \<and> review_met env k task b"
  unfolding review_met_def
  by (intro conjI exI [of _ "JArr traces"] exI [of _ "fv_Verdict st"])
    (auto simp: review_step_def Let_def split: if_splits sum.splits)

lemma response_step_guard:
  "response_step env k clk new task st body receipts d = Inr (st', d') \<Longrightarrow>
   guard_passed env k task body (fv_SafeBody st') \<or> fv_ResponseChecked st \<and> fv_SafeBody st' = fv_SafeBody st"
  "\<not> (response_step env k clk new task st body receipts d = Inl r \<and> completes r b)"
  by (auto simp: response_step_def guard_passed_def Let_def split: if_splits sum.splits option.splits)

lemma check_step_completes:
  assumes "completes (check_step env k clk new task steps st body d) b"
  shows "review_met env k task b \<and> (guard_passed env k task body b \<or> fv_ResponseChecked st \<and> fv_SafeBody st = b)"
proof -
  define st0 where "st0 = st\<lparr>fv_Attempts := fv_Attempts st + 1\<rparr>"
  obtain receipts traces st' d1 d2 where r: "response_step env k (later 10 clk) new task st0 body receipts d1 = Inr (st', d2)"
    "completes (review_step env k (later 40 clk) new task st' traces d2) b"
    using assms response_step_guard(2)
    by (fastforce simp: check_step_def Let_def st0_def split: if_splits sum.splits option.splits prod.splits)
  then show ?thesis using review_step_completes [OF r(2)] response_step_guard(1) [OF r(1)] by (auto simp: st0_def)
qed

lemma repair_step_completes: "repair_step env k clk new task st d = Inl r \<Longrightarrow> \<not> completes r b"
  by (auto simp: repair_step_def Let_def split: if_splits sum.splits)

lemma round_completes:
  assumes "completes (validation_round env k clk new task steps body d) b"
  obtains st where "current_state env task body d = Some st"
    "fv_Accepted st \<and> b = fv_SafeBody st \<or>
     review_met env k task b \<and> ((\<exists>draft. guard_passed env k task draft b) \<or>
       \<not> fv_RepairPending st \<and> fv_ResponseChecked st \<and> fv_SafeBody st = b)"
proof -
  obtain st where st: "current_state env task body d = Some st"
    using assms by (auto simp: validation_round_def split: option.splits)
  consider "fv_Accepted st" "b = fv_SafeBody st" | draft where "\<not> fv_RepairPending st" "completes (check_step env k (later 40 clk) new task steps st draft d) b"
    | st' revised d' where "repair_step env k clk new task st d = Inr (st', revised, d')"
        "completes (check_step env k (later 40 clk) new task steps st' revised d') b"
    using assms repair_step_completes [of env k clk new task st d _ b] st
    by (auto simp: validation_round_def Let_def split: if_splits sum.splits)
  then show ?thesis
    using that [OF st] check_step_completes repair_step_state(1) by cases metis+
qed

section \<open>Saved acceptances\<close>

text \<open>
  A state that may be saved: its accepted text has \<open>P\<close>, its checked text \<open>G\<close>; and a database whose saved state is such.
\<close>

definition sound :: "(string \<Rightarrow> bool) \<Rightarrow> (string \<Rightarrow> bool) \<Rightarrow> graphFinalValidation \<Rightarrow> bool" where
  "sound P G st \<longleftrightarrow> (fv_Accepted st \<longrightarrow> P (fv_SafeBody st)) \<and> (fv_ResponseChecked st \<longrightarrow> G (fv_SafeBody st))"

definition backed :: "(string \<Rightarrow> bool) \<Rightarrow> (string \<Rightarrow> bool) \<Rightarrow> validation_env \<Rightarrow> AgentTask \<Rightarrow> string \<Rightarrow> db \<Rightarrow> bool" where
  "backed P G env task body d \<longleftrightarrow> (\<forall>st. current_state env task body d = Some st \<longrightarrow> sound P G st)"

definition round_backed :: "(string \<Rightarrow> bool) \<Rightarrow> (string \<Rightarrow> bool) \<Rightarrow> validation_env \<Rightarrow> AgentTask \<Rightarrow> string \<Rightarrow> round \<Rightarrow> bool" where
  "round_backed P G env task body r \<longleftrightarrow> backed P G env task body (case r of Settled v \<Rightarrow> vd_db v | Again d \<Rightarrow> d)"

lemma save_backed:
  assumes "control_codec env" "save_validation env clk task st d = Inr (u, d')" "fv_CandidateHash st = ve_hash env body" "sound P G st"
  shows "backed P G env task body d'"
  using save_state [OF assms(1-3)] assms(4) by (auto simp: backed_def sound_def)

lemma queue_result_tasks: "queue_result sha256 now new task notify pending version d = Inr d' \<Longrightarrow> agent_tasks d' = agent_tasks d"
  by (auto simp: queue_result_def Let_def split: sum.splits if_splits)

lemma find_task_updated:
  assumes "agent_tasks d' = update_where p f (agent_tasks d)" and "\<And>t. t_ID (f t) = t_ID t"
  shows "find_task d' i = map_option (\<lambda>t. if p t then f t else t) (find_task d i)"
proof -
  have "find_task d' i = find_task (d\<lparr>agent_tasks := update_where p f (agent_tasks d)\<rparr>) i" by (simp add: find_task_def assms(1))
  then show ?thesis by (simp add: find_task_update [OF assms(2)])
qed

text \<open>Members beside the saved state do not change it.\<close>

lemma saved_beside:
  assumes "''final_validation'' \<notin> fst ` set kvs"
  shows "saved_validation env (jconcat j (JObj kvs)) = None \<or> saved_validation env (jconcat j (JObj kvs)) = saved_validation env j"
proof (cases j)
  case (JObj members)
  have "map_of (fold (\<lambda>(k, v). set_member k v) kvs members) ''final_validation'' = map_of members ''final_validation''"
    using assms by (induction kvs arbitrary: members) (auto simp: map_of_set_member)
  then show ?thesis by (simp add: JObj saved_validation_def)
qed (simp_all add: saved_validation_def)

lemma current_state_beside:
  assumes "agent_tasks d' = update_where p f (agent_tasks d)" and "\<And>t. t_ID (f t) = t_ID t"
    and "\<And>t. saved_validation env (t_Progress (f t)) = None \<or> saved_validation env (t_Progress (f t)) = saved_validation env (t_Progress t)"
    and "backed P G env task body d"
  shows "backed P G env task body d'"
proof -
  have "current_state env task body d' = None \<or> current_state env task body d' = current_state env task body d"
  proof (cases "find_task d (t_ID task)")
    case (Some t)
    then have "find_task d' (t_ID task) = Some (if p t then f t else t)" using find_task_updated [OF assms(1,2)] by simp
    then show ?thesis using Some assms(3) [of t] by (auto simp: current_state_def)
  qed (simp add: current_state_def find_task_updated [OF assms(1,2)])
  then show ?thesis using assms(4) by (auto simp: backed_def)
qed

lemma write_result_backed:
  assumes "write_result sha256 clk new t fin b d = Inr (a, d')" "fin_Progress fin = None" "backed P G env task body d"
  shows "backed P G env task body d'"
proof -
  obtain art where art: "agent_tasks d' = update_where (\<lambda>u. t_ID u = t_ID t)
      (finalized_task (clk 0) (TaskTerminalStatus t (a_Outcome art)) fin art) (agent_tasks d)"
    using assms(1) by (auto simp: write_result_def Let_def dest!: queue_result_tasks split: if_splits sum.splits)
  show ?thesis
  proof (rule current_state_beside [OF art _ _ assms(3)])
    fix u
    let ?kvs = "[(''phase'', JStr ''terminal''), (''result_outcome'', JStr (a_Outcome art)), (''result_version'', JNum (a_Version art)),
      (''termination_reason'', JStr (fin_Reason fin))]"
    show "saved_validation env (t_Progress (finalized_task (clk 0) (TaskTerminalStatus t (a_Outcome art)) fin art u)) = None \<or>
        saved_validation env (t_Progress (finalized_task (clk 0) (TaskTerminalStatus t (a_Outcome art)) fin art u)) = saved_validation env (t_Progress u)"
      using saved_beside [of ?kvs env "jconcat (t_Progress u) (JObj [])"] saved_beside [of "[]" env "t_Progress u"] assms(2)
      by (cases "t_Progress u") (auto simp: finalized_task_def jsonbObject_def saved_validation_def)
  qed (simp add: finalized_task_def)
qed

lemma FinalizeTask_backed:
  assumes "FinalizeTask sha256 sprintf3 render coll run clk new i fin d = Inr (a, d')" "fin_Progress fin = None" "backed P G env task body d"
  shows "backed P G env task body d'"
  using assms by (auto simp: FinalizeTask_def finalizeTaskTx_def intro: write_result_backed split: if_splits option.splits)

lemma YieldGraphTask_backed:
  assumes "YieldGraphTask rend run clk i nxt d = Inr (u, d')" "backed P G env task body d"
  shows "backed P G env task body d'"
proof -
  have "agent_tasks d' = update_where (\<lambda>t. t_ID t = i)
      (\<lambda>t. t\<lparr>t_Status := ''pending'', t_Progress := jconcat (t_Progress t)
        (JObj [(''phase'', JStr ''retry_wait''), (''next_attempt_at'', JStr (rend nxt))])\<rparr>) (agent_tasks d)"
    using assms(1) by (auto simp: YieldGraphTask_def split: sum.splits if_splits)
  then show ?thesis
    by (rule current_state_beside [OF _ _ _ assms(2)]) (simp_all add: saved_beside)
qed

lemma ends_backed [intro]:
  assumes "backed P G env task body d"
  shows "round_backed P G env task body (failed_with e d)" "round_backed P G env task body (yield_until env clk task nxt d)"
    "round_backed P G env task body (finish env clk new task outcome b reason d)"
  using assms
  by (auto simp: round_backed_def failed_with_def yield_until_def finish_def finishGraph_def blank_finalization_def Let_def
      dest: YieldGraphTask_backed FinalizeTask_backed split: sum.splits prod.splits)

lemma deferCheck_backed:
  assumes "control_codec env" "fv_CandidateHash st = ve_hash env body" "sound P G st" "backed P G env task body d"
  shows "round_backed P G env task body (deferCheck env clk new task st reason delay d)"
proof -
  have "backed P G env task body d1" if "save_validation env clk task (st\<lparr>fv_Reason := reason\<rparr>) d = Inr (u, d1)" for u d1
    by (rule save_backed [OF assms(1) that]) (use assms(2,3) in \<open>simp_all add: sound_def\<close>)
  then show ?thesis using assms(4) by (auto simp: deferCheck_def Let_def split: sum.splits)
qed

lemma repair_backed:
  assumes "control_codec env" "fv_CandidateHash st = ve_hash env body" "sound P G st" "backed P G env task body d"
  shows "repair_step env k clk new task st d = Inl r \<Longrightarrow> round_backed P G env task body r"
    and "repair_step env k clk new task st d = Inr (st', revised, d') \<Longrightarrow> \<not> fv_Accepted st \<Longrightarrow> backed P G env task body d'"
proof -
  let ?st = "st\<lparr>fv_RepairAttempts := Suc (fv_RepairAttempts st)\<rparr>"
  have first: "backed P G env task body d1" if "save_validation env c task ?st d = Inr (u, d1)" for c u d1
    by (rule save_backed [OF assms(1) that]) (use assms(2,3) in \<open>simp_all add: sound_def\<close>)
  show "round_backed P G env task body r" if "repair_step env k clk new task st d = Inl r"
    using that assms(4) by (auto simp: repair_step_def Let_def dest!: first intro!: ends_backed split: if_splits sum.splits)
  show "backed P G env task body d'" if r: "repair_step env k clk new task st d = Inr (st', revised, d')" "\<not> fv_Accepted st"
  proof -
    obtain c d1 u where s: "save_validation env c task st' d1 = Inr (u, d')"
      using r(1) by (auto simp: repair_step_def Let_def split: if_splits sum.splits)
    have "\<not> fv_Accepted st'" "\<not> fv_ResponseChecked st'" "fv_CandidateHash st' = ve_hash env body"
      using repair_step_state(1) [OF r(1)] r(2) assms(2) by auto
    then show ?thesis using save_backed [OF assms(1) s] by (simp add: sound_def)
  qed
qed

lemma response_backed:
  assumes "control_codec env" "fv_CandidateHash st = ve_hash env body" "sound P G st" "\<not> fv_Accepted st" "backed P G env task body d"
    and "\<And>b. guard_passed env k task draft b \<Longrightarrow> G b"
  shows "response_step env k clk new task st draft receipts d = Inl r \<Longrightarrow> round_backed P G env task body r"
    and "response_step env k clk new task st draft receipts d = Inr (st', d') \<Longrightarrow> sound P G st' \<and> backed P G env task body d'"
proof -
  have saved: "sound P G (st\<lparr>fv_SafeBody := b, fv_LastCheckedBody := b, fv_ResponseChecked := True\<rparr>) \<and>
      backed P G env task body d1"
    if "save_validation env c task (st\<lparr>fv_SafeBody := b, fv_LastCheckedBody := b, fv_ResponseChecked := True\<rparr>) d = Inr (u, d1)"
      "guard_passed env k task draft b" for b c u d1
  proof -
    have "sound P G (st\<lparr>fv_SafeBody := b, fv_LastCheckedBody := b, fv_ResponseChecked := True\<rparr>)"
      using assms(4,6) that(2) by (simp add: sound_def)
    then show ?thesis using save_backed [OF assms(1) that(1)] assms(2) by simp
  qed
  show "round_backed P G env task body r" if "response_step env k clk new task st draft receipts d = Inl r"
    using that assms(5) deferCheck_backed [OF assms(1-3,5)]
    by (auto simp: response_step_def Let_def split: if_splits sum.splits option.splits)
  show "sound P G st' \<and> backed P G env task body d'" if "response_step env k clk new task st draft receipts d = Inr (st', d')"
    using that assms(3,5) saved
    by (auto simp: response_step_def guard_passed_def Let_def split: if_splits sum.splits option.splits)
qed

lemma review_backed:
  assumes "control_codec env" "fv_CandidateHash st = ve_hash env body" "sound P G st" "\<not> fv_Accepted st" "backed P G env task body d"
    and "review_met env k task (fv_SafeBody st) \<Longrightarrow> P (fv_SafeBody st)"
  shows "round_backed P G env task body (review_step env k clk new task st traces d)"
proof -
  let ?v = "ve_review env k task (fv_SafeBody st) (JArr traces) (fv_Verdict st)"
  have met: "P (fv_SafeBody st)" if "\<not> av_Unavailable ?v" "av_Met ?v"
    using assms(6) that unfolding review_met_def by blast
  have rejected: "backed P G env task body d1"
    if "save_validation env c task (st\<lparr>fv_Verdict := x, fv_Reason := y, fv_RepairPending := z\<rparr>) d = Inr (u, d1)" for c x y z u d1
    by (rule save_backed [OF assms(1) that]) (use assms(2,3) in \<open>simp_all add: sound_def\<close>)
  have accepted: "backed P G env task body d1"
    if "save_validation env c task (st\<lparr>fv_Verdict := x, fv_Accepted := True, fv_Reason := y\<rparr>) d = Inr (u, d1)"
      "\<not> av_Unavailable ?v" "av_Met ?v" for c x y u d1
    by (rule save_backed [OF assms(1) that(1)]) (use assms(2,3) met [OF that(2,3)] in \<open>simp_all add: sound_def\<close>)
  have "sound P G (st\<lparr>fv_Verdict := x\<rparr>)" for x using assms(3) by (simp add: sound_def)
  note deferred = deferCheck_backed [OF assms(1) _ this assms(5)]
  show ?thesis
  proof (cases "av_Unavailable ?v")
    case True
    then show ?thesis using deferred assms(2) by (simp add: review_step_def Let_def)
  next
    case unavailable: False
    show ?thesis
    proof (cases "av_Met ?v")
      case True
      then show ?thesis using accepted unavailable assms(5) by (auto simp: review_step_def Let_def split: sum.splits)
    next
      case False
      then show ?thesis using rejected unavailable assms(5)
        by (auto simp: review_step_def Let_def round_backed_def failed_with_def split: sum.splits)
    qed
  qed
qed

lemma check_backed:
  assumes "control_codec env" "fv_CandidateHash st = ve_hash env body" "sound P G st" "\<not> fv_Accepted st" "backed P G env task body d"
    and guard: "\<And>b. guard_passed env k task draft b \<Longrightarrow> G b"
    and review: "\<And>b. review_met env k task b \<Longrightarrow> guard_passed env k task draft b \<or> fv_ResponseChecked st \<and> fv_SafeBody st = b \<Longrightarrow> P b"
  shows "round_backed P G env task body (check_step env k clk new task steps st draft d)"
proof (cases "check_step env k clk new task steps st draft d = finish env clk new task ''partial'' (checkedBody st) ''final_verification_unavailable'' d")
  case True
  then show ?thesis using assms(5) by (auto intro!: ends_backed)
next
  case False
  define st0 where "st0 = st\<lparr>fv_Attempts := fv_Attempts st + 1\<rparr>"
  have st0: "fv_CandidateHash st0 = ve_hash env body" "sound P G st0" "\<not> fv_Accepted st0"
    using assms(2-4) by (simp_all add: st0_def sound_def)
  show ?thesis
  proof (cases "save_validation env clk task st0 d")
    case (Inl e)
    then show ?thesis using False assms(5) by (auto simp: check_step_def st0_def Let_def intro!: ends_backed)
  next
    case (Inr saved)
    then obtain d1 where d1: "save_validation env clk task st0 d = Inr ((), d1)" by (cases saved) auto
    note b1 = save_backed [OF assms(1) d1 st0(1,2)]
    show ?thesis
    proof (cases "collect_evidence env steps")
      case None
      then show ?thesis using False d1 b1 by (auto simp: check_step_def st0_def Let_def intro!: ends_backed)
    next
      case (Some evidence)
      obtain receipts traces where e: "evidence = (receipts, traces)" by fastforce
      have step: "check_step env k clk new task steps st draft d =
          (case response_step env k (later 10 clk) new task st0 draft receipts d1 of Inl r \<Rightarrow> r
           | Inr (st', d2) \<Rightarrow> review_step env k (later 40 clk) new task st' traces d2)"
        using False d1 Some e by (auto simp: check_step_def st0_def Let_def split: if_splits)
      show ?thesis
      proof (cases "response_step env k (later 10 clk) new task st0 draft receipts d1")
        case (Inl r)
        then show ?thesis using response_backed(1) [OF assms(1) st0 b1 guard] step by simp
      next
        case (Inr reply)
        then obtain st' d2 where r: "response_step env k (later 10 clk) new task st0 draft receipts d1 = Inr (st', d2)"
          by (cases reply) auto
        have "round_backed P G env task body (review_step env k (later 40 clk) new task st' traces d2)"
        proof (rule review_backed [OF assms(1)])
          show "review_met env k task (fv_SafeBody st') \<Longrightarrow> P (fv_SafeBody st')"
            using review response_step_guard(1) [OF r] by (auto simp: st0_def)
        qed (use response_backed(2) [OF assms(1) st0 b1 guard r] response_step_state(1) [OF r] st0 in auto)
        then show ?thesis using step r by simp
      qed
    qed
  qed
qed

text \<open>
  Where an accepted and where a checked text come from, for the rounds from \<open>k\<close> on of a call on \<open>d\<close>: the saved state the call
  found, or a round of the call.
\<close>

definition guarded_text :: "validation_env \<Rightarrow> AgentTask \<Rightarrow> graphFinalValidation \<Rightarrow> nat \<Rightarrow> nat \<Rightarrow> string \<Rightarrow> bool" where
  "guarded_text env task st k n b \<longleftrightarrow>
     (\<exists>j < n. \<exists>draft. guard_passed env (k + j) task draft b) \<or> fv_ResponseChecked st \<and> fv_SafeBody st = b"

definition approved_text :: "validation_env \<Rightarrow> AgentTask \<Rightarrow> graphFinalValidation \<Rightarrow> nat \<Rightarrow> nat \<Rightarrow> string \<Rightarrow> bool" where
  "approved_text env task st k n b \<longleftrightarrow>
     fv_Accepted st \<and> fv_SafeBody st = b \<or>
     (\<exists>j < n. review_met env (k + j) task b \<and> ((\<exists>draft. guard_passed env (k + j) task draft b) \<or>
       \<not> fv_RepairPending st \<and> fv_ResponseChecked st \<and> fv_SafeBody st = b))"

lemma round_saved:
  assumes "control_codec env" and st: "current_state env task body d = Some st"
  shows "round_backed (approved_text env task st k (Suc n)) (guarded_text env task st k (Suc n)) env task body
    (validation_round env k clk new task steps body d)"
proof -
  let ?P = "approved_text env task st k (Suc n)" and ?G = "guarded_text env task st k (Suc n)"
  have h: "fv_CandidateHash st = ve_hash env body"
    using st by (auto simp: current_state_def fresh_validation_def split: option.splits if_splits)
  have sd: "sound ?P ?G st" by (simp add: sound_def approved_text_def guarded_text_def)
  then have bd: "backed ?P ?G env task body d" using st by (simp add: backed_def)
  have guard: "?G b" if "guard_passed env k task draft b" for draft b
    using that by (auto simp: guarded_text_def intro!: exI [of _ 0])
  have review: "?P b" if "review_met env k task b"
    "(\<exists>draft. guard_passed env k task draft b) \<or> \<not> fv_RepairPending st \<and> fv_ResponseChecked st \<and> fv_SafeBody st = b" for b
    using that by (auto simp: approved_text_def intro!: exI [of _ 0])
  consider "fv_Accepted st" | "\<not> fv_Accepted st" "\<not> fv_RepairPending st" | "\<not> fv_Accepted st" "fv_RepairPending st" by blast
  then show ?thesis
  proof cases
    case 1
    then show ?thesis using st bd by (auto simp: validation_round_def intro!: ends_backed)
  next
    case 2
    have "round_backed ?P ?G env task body (check_step env k (later 40 clk) new task steps st draft d)" for draft
      by (rule check_backed [OF assms(1) h sd 2(1) bd guard review]) (use 2(2) in auto)
    then show ?thesis using 2 st by (simp add: validation_round_def Let_def)
  next
    case 3
    show ?thesis
    proof (cases "repair_step env k clk new task st d")
      case (Inl r)
      then show ?thesis using repair_backed(1) [OF assms(1) h sd bd Inl] st 3 by (simp add: validation_round_def)
    next
      case (Inr reply)
      then obtain st' revised d' where r: "repair_step env k clk new task st d = Inr (st', revised, d')" by (cases reply) auto
      note after = repair_step_state(1) [OF r]
      have "round_backed ?P ?G env task body (check_step env k (later 40 clk) new task steps st' revised d')"
        by (rule check_backed [OF assms(1) _ _ _ repair_backed(2) [OF assms(1) h sd bd r] guard review])
          (use after h 3 in \<open>auto simp: sound_def\<close>)
      then show ?thesis using st 3 r by (simp add: validation_round_def)
    qed
  qed
qed

definition claims_text :: "validation_env \<Rightarrow> AgentTask \<Rightarrow> string \<Rightarrow> validated \<Rightarrow> string \<Rightarrow> bool" where
  "claims_text env task body r b \<longleftrightarrow> (\<exists>reason. vd_finish r = Some (''completed'', b, reason)) \<or>
     (\<exists>st. current_state env task body (vd_db r) = Some st \<and> fv_Accepted st \<and> fv_SafeBody st = b)"

definition checks_text :: "validation_env \<Rightarrow> AgentTask \<Rightarrow> string \<Rightarrow> validated \<Rightarrow> string \<Rightarrow> bool" where
  "checks_text env task body r b \<longleftrightarrow>
     (\<exists>st. current_state env task body (vd_db r) = Some st \<and> fv_ResponseChecked st \<and> fv_SafeBody st = b)"

lemma rounds_origin:
  assumes "control_codec env" and "validate_rounds n env k clk new task steps body d = Some r"
    and "current_state env task body d = Some st"
  shows "(claims_text env task body r b \<longrightarrow> approved_text env task st k n b) \<and>
    (checks_text env task body r b \<longrightarrow> guarded_text env task st k n b)"
  using assms(2,3)
proof (induction n arbitrary: k d st)
  case (Suc n)
  note saved = round_saved [OF assms(1) Suc.prems(2), where k = k and n = n and clk = "clk k" and new = "new k" and steps = steps]
  show ?case
  proof (cases "validation_round env k (clk k) (new k) task steps body d")
    case (Settled v)
    then have v: "r = v" using Suc.prems(1) by simp
    have done_now: "approved_text env task st k (Suc n) b" if "vd_finish v = Some (''completed'', b, reason)" for reason
    proof -
      have "completes (validation_round env k (clk k) (new k) task steps body d) b"
        using that Settled by (simp add: completes_def)
      then obtain st' where "current_state env task body d = Some st'"
        "fv_Accepted st' \<and> b = fv_SafeBody st' \<or> review_met env k task b \<and> ((\<exists>draft. guard_passed env k task draft b) \<or>
          \<not> fv_RepairPending st' \<and> fv_ResponseChecked st' \<and> fv_SafeBody st' = b)" by (rule round_completes)
      then show ?thesis using Suc.prems(2) by (auto simp: approved_text_def intro!: exI [of _ 0])
    qed
    show ?thesis
      using saved done_now unfolding Settled v
      by (auto simp: claims_text_def checks_text_def round_backed_def backed_def sound_def)
  next
    case (Again d')
    have rest: "validate_rounds n env (Suc k) clk new task steps body d' = Some r" using Suc.prems(1) Again by simp
    from round_Again [OF Again] Suc.prems(2) obtain clk1 d1 u st1 where s1: "save_validation env clk1 task st1 d1 = Inr (u, d')"
      "fv_RepairPending st1" "\<not> fv_Accepted st1" "fv_CandidateHash st1 = ve_hash env body" by metis
    show ?thesis
    proof (cases "current_state env task body d'")
      case None
      then have "validation_round env (Suc k) (clk (Suc k)) (new (Suc k)) task steps body d' = failed_with (Plain ''progress'') d'"
        by (simp add: validation_round_def)
      then have "r = \<lparr>vd_error = Some (Plain ''progress''), vd_finish = None, vd_db = d'\<rparr>"
        using rest by (cases n) (auto simp: failed_with_def)
      then show ?thesis using None by (simp add: claims_text_def checks_text_def)
    next
      case (Some st')
      have st': "fv_RepairPending st'" "\<not> fv_Accepted st'" using save_state [OF assms(1) s1(1,4)] s1(2,3) Some by auto
      have checked: "guarded_text env task st k (Suc n) (fv_SafeBody st')" if "fv_ResponseChecked st'"
        using saved Some that unfolding Again by (simp add: round_backed_def backed_def sound_def)
      note IH = Suc.IH [OF rest Some]
      have "approved_text env task st k (Suc n) b" if "approved_text env task st' (Suc k) n b"
        using that st' by (auto simp: approved_text_def intro!: exI [of _ "Suc _"])
      moreover have "guarded_text env task st k (Suc n) b" if g: "guarded_text env task st' (Suc k) n b"
      proof (cases "fv_ResponseChecked st' \<and> fv_SafeBody st' = b")
        case False
        then obtain j draft where "j < n" "guard_passed env (Suc k + j) task draft b" using g by (auto simp: guarded_text_def)
        then show ?thesis by (auto simp: guarded_text_def intro!: exI [of _ "Suc j"])
      qed (use checked in blast)
      ultimately show ?thesis using IH by blast
    qed
  qed
qed simp

text \<open>
  (C10) A report is completed, and a text is saved as accepted, only when the review accepted exactly that text: the text the
  call publishes, and the text its saved state holds as accepted afterwards, is one on which the
  reviewer, in one of the call's four rounds, answered that it meets the task while being available, and which the response
  guard let through in that round or, before any repair, in an earlier call; or it was saved as accepted before. A text saved as
  checked, in turn, is one the guard let through in a round of the call, or was saved as checked before. This holds
  also of a call that fails or waits, for every saved state the call can read under a codec that reads back what
  steers the loop; a repaired, unreviewed or unguarded text is never completed nor saved as accepted.
\<close>

theorem completed_report_reviewed:
  assumes "control_codec env" and "validateGraphResult env clk new task steps body d = Some r"
    and "current_state env task body d = Some st"
  shows "((\<exists>reason. vd_finish r = Some (''completed'', b, reason)) \<or>
      (\<exists>st'. current_state env task body (vd_db r) = Some st' \<and> fv_Accepted st' \<and> fv_SafeBody st' = b) \<longrightarrow>
      fv_Accepted st \<and> fv_SafeBody st = b \<or>
      (\<exists>k < 4. review_met env k task b \<and> ((\<exists>draft. guard_passed env k task draft b) \<or>
        \<not> fv_RepairPending st \<and> fv_ResponseChecked st \<and> fv_SafeBody st = b))) \<and>
    ((\<exists>st'. current_state env task body (vd_db r) = Some st' \<and> fv_ResponseChecked st' \<and> fv_SafeBody st' = b) \<longrightarrow>
      (\<exists>k < 4. \<exists>draft. guard_passed env k task draft b) \<or> fv_ResponseChecked st \<and> fv_SafeBody st = b)"
  using rounds_origin [OF assms(1) assms(2) [unfolded validateGraphResult_def] assms(3), of b]
  by (simp only: claims_text_def checks_text_def approved_text_def guarded_text_def add_0)

lemma sample_run:
  "map_option vd_finish (validateGraphResult sample_validation_env (\<lambda>_ _. 2) (\<lambda>k. 300 + k) graph_task [] ''draft'' graph_db) =
   Some (Some (''completed'', ''better'', []))"
  by code_simp

theorem completed_report_reviewed_witness:
  "\<exists>k < 4. review_met sample_validation_env k graph_task ''better''"
proof -
  obtain r where r: "validateGraphResult sample_validation_env (\<lambda>_ _. 2) (\<lambda>k. 300 + k) graph_task [] ''draft'' graph_db = Some r"
    "vd_finish r = Some (''completed'', ''better'', [])" using sample_run by auto
  have "map_option fv_Accepted (current_state sample_validation_env graph_task ''draft'' graph_db) = Some False" by code_simp
  then obtain st where "current_state sample_validation_env graph_task ''draft'' graph_db = Some st" "\<not> fv_Accepted st" by auto
  then show ?thesis using completed_report_reviewed [OF sample_codec r(1), of st "''better''"] r(2) by blast
qed

end
