(* ===== verification/Graph_Runner.thy ===== *)
theory Graph_Runner
  imports Graph_Executor Validation_Theorems
begin

text \<open>
  The runner of a version-2 task, \<open>internal/agenttask/graph_runner.go\<close>: planning with its fallback, the run of the
  executor, the resolution of stuck branches and the decision how the attempt ends; and \<open>GraphCoordinator.Run\<close> of
  \<open>graph_coordinator.go\<close>, which claims the task and checks what the runner left. Texts a model or a tool produced are
  valid UTF-8, so JSON keeps them as they are.
\<close>

section \<open>Parameters\<close>

text \<open>
  The handler's planner, its synthesizer of partial reports when it has one, the host's context injector, the
  order in which Go ranges over the planned steps, one run of the executor (whose loop is \<open>executor_step\<close>) and the error
  of the context after planning and after the run. The number of the round tells calls apart.
\<close>

record runner_env =
  ru_validation :: validation_env
  ru_reserve :: duration
  ru_order :: "TaskStep list \<Rightarrow> string list"
  ru_inject :: "(AgentTask \<Rightarrow> string) option"
  ru_plan :: "nat \<Rightarrow> AgentTask \<Rightarrow> string \<Rightarrow> goerror + TaskStep list"
  ru_run :: "nat \<Rightarrow> db \<Rightarrow> goerror option \<times> db"
  ru_plan_over :: "nat \<Rightarrow> goerror option"
  ru_run_over :: "nat \<Rightarrow> goerror option"
  ru_synthesize :: "(nat \<Rightarrow> AgentTask \<Rightarrow> TaskStep list \<Rightarrow> goerror + string) option"

section \<open>Tools\<close>

definition graphDeps :: "'h Task_Iteration.worker \<Rightarrow> AgentTask \<Rightarrow> goerror + 'h ToolRegistry" where
  "graphDeps w task =
     (case taskRequestedTools (wo_decode w) task of
        Inl _ \<Rightarrow> Inl (Plain ''task program'')
      | Inr requested \<Rightarrow>
          (case composeSoulTaskRegistry (wo_meta w) (wo_mcp w) (wo_policy w)
                  (taskProgramInQuietHours (wo_decode w) (wo_hour w) task) (t_SoulID task) (wo_base w)
                  (case requested of None \<Rightarrow> [] | Some ns \<Rightarrow> ns) of
             Inl e \<Rightarrow> Inl (Plain e)
           | Inr base \<Rightarrow>
               let registry = registryForTask base (wo_DefaultTools w) requested in
               if requested \<noteq> None \<and> Count registry = 0 then Inl (Plain ''task has no permitted tools'') else Inr registry))"

section \<open>Planning\<close>

record plan_progress =
  pp_PlanAttempts :: int
  pp_ContextPrepared :: bool
  pp_ContextSnapshot :: string

definition read_plan_progress :: "json \<Rightarrow> plan_progress option" where
  "read_plan_progress progress =
     (case struct_members progress of
        None \<Rightarrow> None
      | Some kvs \<Rightarrow>
          (case (int_field ''plan_attempts'' kvs, bool_field ''context_prepared'' kvs, str_field ''context_snapshot'' kvs) of
             (Some n, Some b, Some s) \<Rightarrow> Some \<lparr>pp_PlanAttempts = n, pp_ContextPrepared = b, pp_ContextSnapshot = s\<rparr>
           | _ \<Rightarrow> None))"

definition plan_progress_json :: "plan_progress \<Rightarrow> json" where
  "plan_progress_json p = JObj [(''plan_attempts'', JNum (pp_PlanAttempts p)),
     (''context_prepared'', JBool (pp_ContextPrepared p)), (''context_snapshot'', JStr (pp_ContextSnapshot p))]"

definition planned_step :: "string \<Rightarrow> string \<Rightarrow> string \<Rightarrow> string \<Rightarrow> TaskStep" where
  "planned_step i kind goal acceptance = \<lparr>s_ProgressAt = None, s_Tools = [], s_NextAttemptAt = time_zero, s_LastError = [],
     s_TaskID = uuid_Nil, s_ID = i, s_Goal = goal, s_Acceptance = acceptance, s_Kind = kind, s_Dependencies = [], s_Status = [],
     s_Result = [], s_Checkpoint = JNull, s_Attempts = 0, s_MaxAttempts = 3, s_RunID = None, s_LeaseUntil = None,
     s_HeartbeatAt = None, s_StartedAt = None, s_CompletedAt = None, s_EstimatedMS = None\<rparr>"

definition fallbackGraphPlan :: "'h ToolRegistry \<Rightarrow> TaskStep list" where
  "fallbackGraphPlan registry =
     [(planned_step ''research'' ''read''
         ''Research everything the task asks for, within its stated sources and constraints.''
         ''Every requirement of the task is covered with exact sources; data that could not be found is stated explicitly.'')
        \<lparr>s_Tools := filter (IsReadOnly registry) (map td_Name (Definitions registry))\<rparr>,
      (planned_step ''report'' ''finalize''
         ''Write the requested final deliverable from the research.''
         ''All task requirements are addressed; unsupported claims and missing data are explicit.'')
        \<lparr>s_Dependencies := [''research'']\<rparr>]"

definition before_research_end :: "gotime option \<Rightarrow> gotime \<Rightarrow> bool" where
  "before_research_end researchUntil t \<longleftrightarrow> (case researchUntil of None \<Rightarrow> True | Some u \<Rightarrow> t < u)"

text \<open>Saving the context snapshot, once per task.\<close>

definition prepare_context ::
    "runner_env \<Rightarrow> clock \<Rightarrow> AgentTask \<Rightarrow> plan_progress \<Rightarrow> db \<Rightarrow> store_error + plan_progress \<times> db" where
  "prepare_context env clk task p d =
     (if pp_ContextPrepared p then Inr (p, d)
      else
        let p' = p\<lparr>pp_ContextSnapshot := (case ru_inject env of None \<Rightarrow> pp_ContextSnapshot p | Some f \<Rightarrow> f task),
              pp_ContextPrepared := True\<rparr>
        in case SaveGraphProgress (ve_run (ru_validation env)) clk (t_ID task) (plan_progress_json p') d of
             Inl e \<Rightarrow> Inl e
           | Inr (_, d') \<Rightarrow> Inr (p', d'))"

text \<open>A failed planner: another attempt later, the error of the context, or the fallback plan.\<close>

definition plan_failed ::
    "runner_env \<Rightarrow> nat \<Rightarrow> clock \<Rightarrow> AgentTask \<Rightarrow> 'h ToolRegistry \<Rightarrow> gotime option \<Rightarrow> plan_progress \<Rightarrow> goerror \<Rightarrow> db \<Rightarrow>
     round + TaskStep list" where
  "plan_failed env k clk task registry researchUntil p err d =
     (let delay = snd (TaskRetryPolicy (Some err)); nxt = clk 0 + max delay (pp_PlanAttempts p * 5 * second) in
      if fst (TaskRetryPolicy (Some err)) \<and> pp_PlanAttempts p < 3 \<and> before_research_end researchUntil nxt then
        Inl (yield_until (ru_validation env) (later 1 clk) task nxt d)
      else case ru_plan_over env k of
          Some e \<Rightarrow> Inl (failed_with e d)
        | None \<Rightarrow> Inr (fallbackGraphPlan registry))"

text \<open>
  The claim of \<open>SaveTaskSteps\<close> is the start of this run; the coordinator reads the task after the admission has set
  it, and without one the code would panic.
\<close>

definition save_plan :: "runner_env \<Rightarrow> clock \<Rightarrow> AgentTask \<Rightarrow> TaskStep list \<Rightarrow> db \<Rightarrow> round + db" where
  "save_plan env clk task steps d =
     (case t_LastRunAt task of
        None \<Rightarrow> Inl (failed_with (Plain ''invalid memory address or nil pointer dereference'') d)
      | Some claim \<Rightarrow>
          (case SaveTaskSteps (ve_run (ru_validation env)) clk (ru_order env steps) (t_ID task) claim steps d of
             Inl e \<Rightarrow> Inl (failed_with (Store e) d)
           | Inr (_, d') \<Rightarrow> Inr d'))"

definition plan_graph ::
    "runner_env \<Rightarrow> nat \<Rightarrow> clock \<Rightarrow> uuid \<Rightarrow> AgentTask \<Rightarrow> 'h ToolRegistry \<Rightarrow> gotime option \<Rightarrow> db \<Rightarrow> round + db" where
  "plan_graph env k clk new task registry researchUntil d =
     (if \<not> before_research_end researchUntil (clk 0) then
        Inl (finish (ru_validation env) (later 1 clk) new task ''partial'' [] ''research_budget_exhausted'' d)
      else case read_plan_progress (t_Progress task) of
        None \<Rightarrow> Inl (failed_with (Plain ''progress'') d)
      | Some p0 \<Rightarrow>
          (case prepare_context env (later 10 clk) task p0 d of
             Inl e \<Rightarrow> Inl (failed_with (Store e) d)
           | Inr (p1, d1) \<Rightarrow>
               let p = p1\<lparr>pp_PlanAttempts := pp_PlanAttempts p1 + 1\<rparr> in
               (case SaveGraphProgress (ve_run (ru_validation env)) (later 20 clk) (t_ID task) (plan_progress_json p) d1 of
                  Inl e \<Rightarrow> Inl (failed_with (Store e) d1)
                | Inr (_, d2) \<Rightarrow>
                    (case (case ru_plan env k task (pp_ContextSnapshot p) of
                             Inr steps \<Rightarrow> Inr steps
                           | Inl err \<Rightarrow> plan_failed env k (later 30 clk) task registry researchUntil p err d2) of
                       Inl r \<Rightarrow> Inl r
                     | Inr steps \<Rightarrow> save_plan env (later 40 clk) task steps d2))))"

section \<open>The executor and its steps\<close>

definition BackgroundParallelReads :: nat where "BackgroundParallelReads = 3"

definition graph_executor :: "gotime option \<Rightarrow> GraphExecutor" where
  "graph_executor researchUntil = \<lparr>g_ResearchDeadline = researchUntil, g_SeparateReadBudget = True,
     g_ParallelReads = BackgroundParallelReads, g_Lease = 30 * second\<rparr>"

text \<open>What the executor is told of a step, from the output, acceptance and error of \<open>ExecuteGraphStep\<close>.\<close>

definition graph_step_result :: "TaskStep \<Rightarrow> string \<Rightarrow> bool \<Rightarrow> goerror option \<Rightarrow> goerror + StepResult" where
  "graph_step_result step output accepted err =
     (case err of
        Some e \<Rightarrow>
          (case TaskRetryPolicy (Some e) of (retry, delay) \<Rightarrow>
             if retry then Inl (RetryableStepError e delay)
             else if errors_Is e (Sentinel ErrTaskVerificationUnavailable) then Inl (RetryableStepError e 0)
             else Inl e)
      | None \<Rightarrow>
          if \<not> accepted \<and> (s_Kind step = ''read'' \<or> s_Kind step = ''finalize'' \<and> s_Tools step = []) then
            Inl (RetryableStepError (Plain ''step acceptance rejected'') 0)
          else Inr \<lparr>sr_Output = output, sr_Accepted = accepted\<rparr>)"

section \<open>After the run\<close>

definition finishGraphPartial ::
    "runner_env \<Rightarrow> nat \<Rightarrow> clock \<Rightarrow> uuid \<Rightarrow> AgentTask \<Rightarrow> TaskStep list \<Rightarrow> string \<Rightarrow> db \<Rightarrow> round" where
  "finishGraphPartial env k clk new task steps reason d =
     finish (ru_validation env) clk new task ''partial''
       (case ru_synthesize env of
          None \<Rightarrow> []
        | Some synthesize \<Rightarrow> (case synthesize k task steps of Inl _ \<Rightarrow> [] | Inr draft \<Rightarrow> draft)) reason d"

definition stuck_step :: "TaskStep \<Rightarrow> bool" where
  "stuck_step s \<longleftrightarrow> s_Status s = ''blocked'' \<or> s_Status s = ''reconciliation''"

definition ready_step :: "TaskStep list \<Rightarrow> TaskStep \<Rightarrow> bool" where
  "ready_step steps s \<longleftrightarrow> s_Status s = ''pending'' \<and>
     list_all (\<lambda>dep. (case step_by_id steps dep of None \<Rightarrow> False | Some p \<Rightarrow> s_Status p = ''done'')) (s_Dependencies s)"

text \<open>\<open>next\<close> starts as the zero time, which also stands for no time.\<close>

definition earliest_attempt :: "TaskStep list \<Rightarrow> gotime" where
  "earliest_attempt steps = fold (\<lambda>s nxt. if nxt = time_zero \<or> s_NextAttemptAt s < nxt then s_NextAttemptAt s else nxt)
     (filter (ready_step steps) steps) time_zero"

definition final_output :: "TaskStep list \<Rightarrow> string" where
  "final_output steps = fold (\<lambda>s out. s_Result s) (filter (\<lambda>s. s_Status s = ''done'' \<and> s_Kind s = ''finalize'') steps) []"

definition research_pending :: "TaskStep list \<Rightarrow> bool" where
  "research_pending steps \<longleftrightarrow> list_ex (\<lambda>s. s_Status s \<noteq> ''done'' \<and> s_Kind s \<noteq> ''finalize'' \<and> \<not> TaskStepHasCandidate s) steps"

definition wait_or_finish ::
    "runner_env \<Rightarrow> nat \<Rightarrow> clock \<Rightarrow> uuid \<Rightarrow> AgentTask \<Rightarrow> TaskStep list \<Rightarrow> gotime option \<Rightarrow> db \<Rightarrow> round" where
  "wait_or_finish env k clk new task steps researchUntil d =
     (let nxt = earliest_attempt steps in
      if nxt = time_zero then finishGraphPartial env k (later 2 clk) new task steps ''graph_incomplete'' d
      else
        let nxt = (if nxt < clk 0 + 5 * second then clk 1 + 5 * second else nxt) in
        if research_pending steps \<and> \<not> before_research_end researchUntil nxt then
          finishGraphPartial env k (later 2 clk) new task steps ''research_budget_exhausted'' d
        else yield_until (ru_validation env) (later 2 clk) task nxt d)"

text \<open>
  \<open>None\<close> would be a validation that does not return. \<open>Again\<close> is the call of the function on itself after the stuck
  branches were resolved; \<open>vclk\<close> and \<open>vnew\<close> are the clocks and ids of the validation's rounds.
\<close>

definition after_run ::
    "runner_env \<Rightarrow> nat \<Rightarrow> clock \<Rightarrow> uuid \<Rightarrow> (nat \<Rightarrow> clock) \<Rightarrow> (nat \<Rightarrow> uuid) \<Rightarrow> AgentTask \<Rightarrow> gotime option \<Rightarrow> goerror option \<Rightarrow> db \<Rightarrow>
     round option" where
  "after_run env k clk new vclk vnew task researchUntil runErr d =
     (let venv = ru_validation env; steps = TaskSteps (ext_coll (ve_ext venv)) (t_ID task) d in
      if (case runErr of None \<Rightarrow> False | Some e \<Rightarrow> errors_Is e (Sentinel ErrGraphResearchBudget)) then
        Some (finishGraphPartial env k clk new task steps ''research_budget_exhausted'' d)
      else case List.find (\<lambda>s. stuck_step s \<and> s_Kind s = ''finalize'') steps of
        Some s \<Rightarrow> Some (finishGraphPartial env k clk new task steps (''finalize_'' @ s_Status s) d)
      | None \<Rightarrow>
          if list_ex stuck_step steps then
            Some (case ResolveStuckTaskSteps (ext_render (ve_ext venv)) (ve_run venv) clk (t_ID task) d of
                Inl e \<Rightarrow> failed_with (Store e) d
              | Inr (_, d') \<Rightarrow> Again d')
          else if list_all (\<lambda>s. s_Status s = ''done'') steps \<and> trim_space (final_output steps) \<noteq> [] then
            map_option Settled (validateGraphResult venv vclk vnew task steps (final_output steps) d)
          else Some (wait_or_finish env k clk new task steps researchUntil d))"

section \<open>The runner\<close>

definition graph_round ::
    "runner_env \<Rightarrow> 'h Task_Iteration.worker \<Rightarrow> nat \<Rightarrow> clock \<Rightarrow> uuid \<Rightarrow> (nat \<Rightarrow> clock) \<Rightarrow> (nat \<Rightarrow> uuid) \<Rightarrow> AgentTask \<Rightarrow> db \<Rightarrow> round option" where
  "graph_round env w k clk new vclk vnew task d =
     (let venv = ru_validation env; researchUntil = TaskResearchDeadline task (ru_reserve env) in
      case graphDeps w task of
        Inl e \<Rightarrow> Some (finish venv clk new task ''partial'' [] ''tool_configuration_failed'' d)
      | Inr registry \<Rightarrow>
          (case (if TaskSteps (ext_coll (ve_ext venv)) (t_ID task) d = []
                 then plan_graph env k clk new task registry researchUntil d else Inr d) of
             Inl r \<Rightarrow> Some r
           | Inr d1 \<Rightarrow>
               (case ru_run env k d1 of (runErr, d2) \<Rightarrow>
                  if (case runErr of None \<Rightarrow> False | Some e \<Rightarrow> errors_Is e (Store ErrTaskClaimLost)) \<or> ru_run_over env k \<noteq> None then
                    Some (Settled \<lparr>vd_error = runErr, vd_finish = None, vd_db = d2\<rparr>)
                  else after_run env k (later 50 clk) new vclk vnew task researchUntil runErr d2)))"

text \<open>The first argument is fuel.\<close>

fun executeGraphTask ::
    "nat \<Rightarrow> runner_env \<Rightarrow> 'h Task_Iteration.worker \<Rightarrow> nat \<Rightarrow> (nat \<Rightarrow> clock) \<Rightarrow> (nat \<Rightarrow> uuid) \<Rightarrow> (nat \<Rightarrow> nat \<Rightarrow> clock) \<Rightarrow>
     (nat \<Rightarrow> nat \<Rightarrow> uuid) \<Rightarrow> AgentTask \<Rightarrow> db \<Rightarrow> validated option" where
  "executeGraphTask 0 env w k clk new vclk vnew task d = None"
| "executeGraphTask (Suc n) env w k clk new vclk vnew task d =
     (case graph_round env w k (clk k) (new k) (vclk k) (vnew k) task d of
        None \<Rightarrow> None
      | Some (Settled r) \<Rightarrow> Some r
      | Some (Again d') \<Rightarrow> executeGraphTask n env w (Suc k) clk new vclk vnew task d')"

section \<open>The coordinator\<close>

text \<open>
  \<open>work\<close> is the installed runner, which takes the id of the run, and with it the renewals of the lease beside it; \<open>renewal\<close> is
  the error their goroutine ended with. The store is configured.
\<close>

record coordinated =
  co_started :: bool
  co_error :: "goerror option"
  co_db :: db

definition transitioned :: "AgentTask \<Rightarrow> bool" where
  "transitioned t \<longleftrightarrow> t_Status t \<in> {''done'', ''failed'', ''canceled'', ''pending'', ''paused''}"

definition coordinator_error :: "AgentTask \<Rightarrow> goerror option \<Rightarrow> goerror option \<Rightarrow> goerror option" where
  "coordinator_error current err renewal =
     (if transitioned current then err
      else join_errors
        [if err = None \<and> renewal = None then Some (Plain ''graph runner returned without yielding or finalizing'') else err,
         renewal])"

definition GraphCoordinator_Run ::
    "external \<Rightarrow> duration \<Rightarrow> clock \<Rightarrow> uuid \<Rightarrow> uuid \<Rightarrow> (uuid \<Rightarrow> AgentTask \<Rightarrow> db \<Rightarrow> goerror option \<times> db) option \<Rightarrow> goerror option \<Rightarrow>
     db \<Rightarrow> coordinated" where
  "GraphCoordinator_Run ext lease clk new i work renewal d =
     (case work of
        None \<Rightarrow> \<lparr>co_started = False, co_error = Some (Plain ''invalid graph coordinator configuration''), co_db = d\<rparr>
      | Some run \<Rightarrow>
          if \<not> lease_ok lease then
            \<lparr>co_started = False, co_error = Some (Plain ''invalid graph coordinator configuration''), co_db = d\<rparr>
          else case ClaimGraphTask (ext_render ext) (ext_timestamptz ext) clk new i lease d of
            Inl e \<Rightarrow> \<lparr>co_started = False, co_error = Some (Store e), co_db = d\<rparr>
          | Inr (None, d1) \<Rightarrow> \<lparr>co_started = False, co_error = None, co_db = d1\<rparr>
          | Inr (Some row, d1) \<Rightarrow>
              (case find_task d1 i of
                 None \<Rightarrow> \<lparr>co_started = True, co_error = Some (Store ErrNoRows), co_db = d1\<rparr>
               | Some task \<Rightarrow>
                   (case run (r_RunID row) task d1 of (err, d2) \<Rightarrow>
                      \<lparr>co_started = True,
                       co_error = (case find_task d2 i of
                           None \<Rightarrow> join_errors [err, renewal, Some (Store ErrNoRows)]
                         | Some current \<Rightarrow> coordinator_error current err renewal),
                       co_db = d2\<rparr>)))"

end
