(* ===== verification/Runner_Theorems.thy ===== *)
theory Runner_Theorems
  imports Graph_Runner
begin

text \<open>
  What the runner of a graph task guarantees: it returns, and when it returns without an error the task is
  finished or waits for its next attempt.
\<close>

section \<open>Finished or waiting\<close>

definition left_running :: "uuid \<Rightarrow> db \<Rightarrow> bool" where
  "left_running i d \<longleftrightarrow> (\<exists>t. find_task d i = Some t \<and> t_Status t \<noteq> ''running'')"

definition honest :: "AgentTask \<Rightarrow> round \<Rightarrow> bool" where
  "honest task r \<longleftrightarrow> (case r of Settled v \<Rightarrow> vd_error v = None \<longrightarrow> left_running (t_ID task) (vd_db v) | Again _ \<Rightarrow> True)"

lemma TaskTerminalStatus_final: "TaskTerminalStatus task outcome \<noteq> ''running''"
  by (simp add: TaskTerminalStatus_def)

lemma left_running_update:
  assumes "agent_tasks d' = update_where (\<lambda>t. t_ID t = i) f (agent_tasks d)" and "\<And>t. t_ID (f t) = t_ID t \<and> t_Status (f t) \<noteq> ''running''"
    and "find_task d i = Some t"
  shows "left_running i d'"
  using find_task_updated [OF assms(1), of i] assms(2,3) find_task_SomeD [OF assms(3)] by (simp add: left_running_def)

lemma write_result_left:
  assumes "write_result sha256 clk new task fin body d = Inr (a, d')" and "find_task d i = Some t" and "t_ID task = i"
  shows "left_running i d'"
proof -
  obtain art where art: "agent_tasks d' = update_where (\<lambda>t. t_ID t = i)
      (finalized_task (clk 0) (TaskTerminalStatus task (a_Outcome art)) fin art) (agent_tasks d)"
    using assms(1,3) by (auto simp: write_result_def Let_def dest!: queue_result_tasks split: if_splits sum.splits)
  show ?thesis
    by (rule left_running_update [OF art _ assms(2)]) (use TaskTerminalStatus_final in \<open>simp add: finalized_task_def\<close>)
qed

lemma FinalizeTask_left:
  assumes "FinalizeTask sha256 sprintf3 render coll run clk new i fin d = Inr (a, d')" and "fin_ExpiredAt fin = None"
  shows "left_running i d'"
proof -
  obtain t where t: "find_task d i = Some t"
    using assms(1) by (auto simp: FinalizeTask_def finalizeTaskTx_def split: if_splits option.splits)
  note i = find_task_SomeD [OF t]
  show ?thesis
  proof (cases "unfinished t")
    case True
    then have "write_result sha256 clk new t fin (final_body sprintf3 render coll fin t d) d = Inr (a, d')"
      using assms t by (auto simp: FinalizeTask_def finalizeTaskTx_def split: if_splits)
    then show ?thesis using write_result_left t i by blast
  next
    case False
    then have "d' = d" using assms(1) t by (auto simp: FinalizeTask_def finalizeTaskTx_def split: if_splits)
    then show ?thesis using False t by (auto simp: left_running_def unfinished_def)
  qed
qed

lemma YieldGraphTask_left:
  assumes "YieldGraphTask rend run clk i nxt d = Inr (u, d')"
  shows "left_running i d'"
proof -
  obtain t where t: "find_task d i = Some t"
    using assms by (auto simp: YieldGraphTask_def lockTaskExecution_def split: option.splits sum.splits)
  have "agent_tasks d' = update_where (\<lambda>t. t_ID t = i)
      (\<lambda>t. t\<lparr>t_Status := ''pending'', t_Progress := jconcat (t_Progress t)
        (JObj [(''phase'', JStr ''retry_wait''), (''next_attempt_at'', JStr (rend nxt))])\<rparr>) (agent_tasks d)"
    using assms by (auto simp: YieldGraphTask_def split: sum.splits if_splits)
  then show ?thesis by (rule left_running_update [OF _ _ t]) simp
qed

lemma finish_honest [simp]: "honest task (finish venv clk new task outcome body reason d)"
  by (auto simp: honest_def finish_def finishGraph_def blank_finalization_def Let_def
      dest!: FinalizeTask_left split: prod.splits sum.splits)

lemma yield_honest [simp]: "honest task (yield_until venv clk task nxt d)"
  by (auto simp: honest_def yield_until_def failed_with_def dest!: YieldGraphTask_left split: sum.splits)

lemma honest_simps [simp]: "honest task (failed_with e d)" "honest task (Again d)"
  by (simp_all add: honest_def failed_with_def)

lemma deferCheck_honest [simp]: "honest task (deferCheck venv clk new task st reason delay d)"
  by (auto simp: deferCheck_def Let_def split: sum.splits)

lemma repair_honest: "repair_step venv k clk new task st d = Inl r \<Longrightarrow> honest task r"
  by (auto simp: repair_step_def Let_def split: if_splits sum.splits)

lemma response_honest: "response_step venv k clk new task st body receipts d = Inl r \<Longrightarrow> honest task r"
  by (auto simp: response_step_def Let_def split: if_splits sum.splits option.splits)

lemma review_honest: "honest task (review_step venv k clk new task st traces d)"
  by (auto simp: review_step_def Let_def split: sum.splits)

lemma check_honest: "honest task (check_step venv k clk new task steps st body d)"
  by (auto simp: check_step_def Let_def review_honest dest: response_honest split: if_splits sum.splits option.splits prod.splits)

lemma validation_round_honest: "honest task (validation_round venv k clk new task steps body d)"
  by (auto simp: validation_round_def Let_def check_honest dest: repair_honest split: option.splits sum.splits prod.splits)

lemma validation_honest: "validate_rounds n venv k clk new task steps body d = Some r \<Longrightarrow> honest task (Settled r)"
proof (induction n arbitrary: k d)
  case (Suc n)
  show ?case
  proof (cases "validation_round venv k (clk k) (new k) task steps body d")
    case (Settled v)
    then show ?thesis using Suc.prems validation_round_honest [of task venv k "clk k" "new k" steps body d] by simp
  next
    case (Again d')
    then show ?thesis using Suc.prems Suc.IH by simp
  qed
qed simp

lemma plan_honest: "plan_graph env k clk new task registry researchUntil d = Inl r \<Longrightarrow> honest task r"
  by (auto simp: plan_graph_def plan_failed_def save_plan_def Let_def split: if_splits option.splits sum.splits prod.splits)

lemma after_run_honest: "after_run env k clk new vclk vnew task researchUntil runErr d = Some r \<Longrightarrow> honest task r"
  by (auto simp: after_run_def finishGraphPartial_def wait_or_finish_def validateGraphResult_def Let_def
      dest: validation_honest split: if_splits option.splits sum.splits)

text \<open>A context that ended shows in the error of the run.\<close>

definition ends_with_error :: "runner_env \<Rightarrow> bool" where
  "ends_with_error env \<longleftrightarrow> (\<forall>k d. ru_run_over env k \<noteq> None \<longrightarrow> fst (ru_run env k d) \<noteq> None)"

lemma graph_round_honest:
  assumes "ends_with_error env" and "graph_round env w k clk new vclk vnew task d = Some r"
  shows "honest task r"
proof -
  have ended: "honest task (Settled \<lparr>vd_error = e, vd_finish = None, vd_db = d2\<rparr>)"
    if "ru_run env k d1 = (e, d2)" "(case e of None \<Rightarrow> False | Some x \<Rightarrow> errors_Is x (Store ErrTaskClaimLost)) \<or> ru_run_over env k \<noteq> None"
    for e d1 d2
  proof (cases e)
    case None
    then show ?thesis using assms(1) that unfolding ends_with_error_def by (metis fst_conv option.case(1))
  qed (simp add: honest_def)
  show ?thesis
    using assms(2) by (auto simp: graph_round_def Let_def dest: plan_honest after_run_honest ended
        split: sum.splits if_splits prod.splits)
qed

section \<open>Steps that remain\<close>

definition kept_steps :: "uuid \<Rightarrow> db \<Rightarrow> db \<Rightarrow> bool" where
  "kept_steps i d d' \<longleftrightarrow> list_all2 (\<lambda>s s'. s_Status s = ''done'' \<longrightarrow> s_Status s' = ''done'') (steps_of d i) (steps_of d' i)"

definition open_steps :: "uuid \<Rightarrow> db \<Rightarrow> nat" where
  "open_steps i d = length (filter (\<lambda>s. s_Status s \<noteq> ''done'') (steps_of d i))"

lemma kept_steps_refl: "kept_steps i d d"
  by (simp add: kept_steps_def list_all2_same)

lemma kept_steps_trans: "kept_steps i d d' \<Longrightarrow> kept_steps i d' d'' \<Longrightarrow> kept_steps i d d''"
  unfolding kept_steps_def by (rule list_all2_trans) auto

lemma kept_steps_open:
  assumes "kept_steps i d d'"
  shows "open_steps i d' \<le> open_steps i d \<and> length (steps_of d' i) = length (steps_of d i)"
proof -
  have "length (filter (\<lambda>s. s_Status s \<noteq> ''done'') ys) \<le> length (filter (\<lambda>s. s_Status s \<noteq> ''done'') xs)"
    if "list_all2 (\<lambda>s s'. s_Status s = ''done'' \<longrightarrow> s_Status s' = ''done'') xs ys" for xs ys
    using that by (induction rule: list_all2_induct) auto
  then show ?thesis using assms by (auto simp: kept_steps_def open_steps_def dest: list_all2_lengthD)
qed

lemma kept_update:
  assumes "agent_task_steps d' = update_where p f (agent_task_steps d)"
    and "\<And>s. p s \<Longrightarrow> s_TaskID (f s) = s_TaskID s \<and> (s_Status s = ''done'' \<longrightarrow> s_Status (f s) = ''done'')"
  shows "kept_steps i d d'"
proof -
  have "filter (\<lambda>s. s_TaskID s = i) (update_where p f rows) = update_where p f (filter (\<lambda>s. s_TaskID s = i) rows)" for rows
    using assms(2) by (induction rows) auto
  moreover have "list_all2 (\<lambda>s s'. s_Status s = ''done'' \<longrightarrow> s_Status s' = ''done'') rows (update_where p f rows)" for rows
    using assms(2) by (induction rows) auto
  ultimately show ?thesis by (simp add: kept_steps_def steps_of_def assms(1))
qed

text \<open>
  The transactions of one run of the executor on the plan of task \<open>i\<close>: claims, checkpoints, completions and failures of its
  steps, recoveries, and whatever else leaves its steps alone.
\<close>

inductive executor_tx :: "external \<Rightarrow> uuid \<Rightarrow> db \<Rightarrow> db \<Rightarrow> bool" for ext :: external and i :: uuid where
  tx_claim: "ClaimTaskStep run clk new i sid lease d = Inr (s, d') \<Longrightarrow> executor_tx ext i d d'"
| tx_checkpoint: "CheckpointTaskStep run clk i sid srun lease cp d = Inr (u, d') \<Longrightarrow> executor_tx ext i d d'"
| tx_complete: "CompleteTaskStep run clk i sid srun result d = Inr (u, d') \<Longrightarrow> executor_tx ext i d d'"
| tx_fail: "FailTaskStepAfter (ext_render ext) run clk i sid srun reason retryable delay d = Inr (u, d') \<Longrightarrow> executor_tx ext i d d'"
| tx_recover: "RecoverTaskSteps (ext_render ext) run clk i d = Inr (u, d') \<Longrightarrow> executor_tx ext i d d'"
| tx_elsewhere: "steps_of d' i = steps_of d i \<Longrightarrow> executor_tx ext i d d'"

lemma update_claimed_kept:
  assumes "update_claimed (live_claim now i sid srun) f d = Inr (u, d')" "\<And>s. s_TaskID (f s) = s_TaskID s"
  shows "kept_steps j d d'"
  by (rule kept_update [where p = "live_claim now i sid srun" and f = f])
    (use assms in \<open>auto simp: update_claimed_def live_claim_def split: if_splits\<close>)

lemma executor_tx_kept: "executor_tx ext i d d' \<Longrightarrow> kept_steps i d d'"
proof (induction rule: executor_tx.induct)
  case (tx_claim run clk new sid lease d s d')
  then consider "d' = d" | p where "agent_task_steps d' = update_where (claimable (clk 3) i sid p) (claimed new (clk 3) lease) (agent_task_steps d)"
    by (auto simp: ClaimTaskStep_def Let_def split: if_splits sum.splits option.splits)
  then show ?case
    by cases (auto intro: kept_steps_refl kept_update simp: claimable_def claimed_def)
next
  case tx_checkpoint
  then show ?case
    by (auto simp: CheckpointTaskStep_def updateTaskStep_def checkpointed_row_def intro: update_claimed_kept split: if_splits sum.splits)
next
  case tx_complete
  then show ?case
    by (auto simp: CompleteTaskStep_def updateTaskStep_def completed_row_def intro: update_claimed_kept split: if_splits sum.splits)
next
  case tx_fail
  then show ?case by (auto simp: FailTaskStepAfter_def failed_row_def intro: update_claimed_kept split: sum.splits)
next
  case (tx_recover run clk d u d')
  then have "agent_task_steps d' = update_where (\<lambda>s. s_TaskID s = i \<and> s_Status s = ''running'' \<and>
      (case s_LeaseUntil s of None \<Rightarrow> False | Some l \<Rightarrow> l \<le> clk 3)) (recovered (ext_render ext)) (agent_task_steps d)"
    by (auto simp: RecoverTaskSteps_def split: sum.splits)
  then show ?case by (rule kept_update) (auto simp: recovered_def)
next
  case tx_elsewhere
  then show ?case by (simp add: kept_steps_def list_all2_same)
qed

lemma executor_run_kept: "(executor_tx ext i)\<^sup>*\<^sup>* d d' \<Longrightarrow> kept_steps i d d'"
  by (induction rule: rtranclp_induct) (auto intro: kept_steps_refl kept_steps_trans executor_tx_kept)

section \<open>Rounds\<close>

lemma insert_steps_rows:
  "foldM (insert_step now i) steps rows = Inr rows' \<Longrightarrow> rows' = rows @ map (new_step now i) steps"
proof (induction steps arbitrary: rows)
  case (Cons s steps)
  then have "foldM (insert_step now i) steps (rows @ [new_step now i s]) = Inr rows'"
    by (auto simp: insert_step_Inr split: sum.splits)
  from Cons.IH [OF this] show ?case by simp
qed simp

lemma SaveTaskSteps_length:
  assumes "SaveTaskSteps run clk order i claim steps d = Inr (u, d')" and "steps_of d i = []"
  shows "length (steps_of d' i) \<le> 64 \<and> steps_of d' i \<noteq> []"
proof -
  have "steps \<noteq> []" "length steps \<le> 64" and rows: "agent_task_steps d' = agent_task_steps d @ map (new_step (clk 0) i) steps"
    using assms(1) by (auto simp: SaveTaskSteps_def ValidateTaskSteps_def dest!: insert_steps_rows split: sum.splits if_splits)
  moreover have "filter (\<lambda>s. s_TaskID s = i) (map (new_step (clk 0) i) steps) = map (new_step (clk 0) i) steps"
    by (simp add: filter_id_conv new_step_def)
  ultimately show ?thesis using assms(2) by (simp add: steps_of_def)
qed

lemma SaveGraphProgress_steps: "SaveGraphProgress run clk i p d = Inr (u, d') \<Longrightarrow> steps_of d' j = steps_of d j"
  by (auto simp: SaveGraphProgress_def steps_of_def split: sum.splits)

lemma plan_graph_steps:
  assumes "plan_graph env k clk new task registry researchUntil d = Inr d1" and "steps_of d (t_ID task) = []"
  shows "length (steps_of d1 (t_ID task)) \<le> 64 \<and> steps_of d1 (t_ID task) \<noteq> []"
proof -
  obtain p d2 steps where s: "steps_of d2 (t_ID task) = []" "save_plan env (later 40 clk) task steps d2 = Inr d1"
    using assms by (auto simp: plan_graph_def prepare_context_def Let_def dest!: SaveGraphProgress_steps [where j = "t_ID task"]
        split: if_splits option.splits sum.splits prod.splits)
  then show ?thesis using SaveTaskSteps_length by (fastforce simp: save_plan_def split: option.splits sum.splits)
qed

lemma plan_never_Again: "plan_graph env k clk new task registry researchUntil d \<noteq> Inl (Again d')"
  by (auto simp: plan_graph_def plan_failed_def save_plan_def Let_def split: if_splits option.splits sum.splits prod.splits)

lemma TaskSteps_Nil: "TaskSteps coll i d = [] \<longleftrightarrow> steps_of d i = []"
  by (metis TaskSteps_def set_empty set_sort)

lemma resolve_open:
  assumes "ResolveStuckTaskSteps render run clk i d = Inr (n, d')" and "s \<in> set (steps_of d i)" "stuck i s"
  shows "open_steps i d' < open_steps i d \<and> length (steps_of d' i) = length (steps_of d i)"
proof -
  let ?f = "resolved_row render (clk 3)"
  have rows: "agent_task_steps d' = update_where (stuck i) ?f (agent_task_steps d)"
    using assms(1) by (auto simp: ResolveStuckTaskSteps_def split: sum.splits)
  have f: "s_TaskID (?f x) = s_TaskID x" "s_Status (?f x) = ''done''" for x by (simp_all add: resolved_row_def)
  have steps: "steps_of d' i = update_where (stuck i) ?f (steps_of d i)"
  proof -
    have "filter (\<lambda>s. s_TaskID s = i) (update_where (stuck i) ?f rows) = update_where (stuck i) ?f (filter (\<lambda>s. s_TaskID s = i) rows)" for rows
      by (induction rows) (auto simp: f)
    then show ?thesis by (simp add: steps_of_def rows)
  qed
  have le: "length (filter (\<lambda>s. s_Status s \<noteq> ''done'') (update_where (stuck i) ?f xs)) \<le> length (filter (\<lambda>s. s_Status s \<noteq> ''done'') xs)" for xs
    by (induction xs) (auto simp: f)
  have "length (filter (\<lambda>s. s_Status s \<noteq> ''done'') (update_where (stuck i) ?f xs)) < length (filter (\<lambda>s. s_Status s \<noteq> ''done'') xs)"
    if "s \<in> set xs" for xs
    using that
  proof (induction xs)
    case (Cons x xs)
    show ?case
    proof (cases "x = s")
      case True
      then have "stuck i x" "s_Status x \<noteq> ''done''" using assms(3) by (auto simp: stuck_def)
      then show ?thesis using le [of xs] by (simp add: f)
    next
      case False
      then show ?thesis using Cons f(2) [of x] by (auto simp: less_Suc_eq)
    qed
  qed simp
  then show ?thesis using assms(2) by (simp add: open_steps_def steps update_where_def)
qed

lemma after_run_Again:
  assumes "after_run env k clk new vclk vnew task researchUntil runErr d = Some (Again d')"
  shows "open_steps (t_ID task) d' < open_steps (t_ID task) d \<and> length (steps_of d' (t_ID task)) = length (steps_of d (t_ID task))"
proof -
  let ?steps = "TaskSteps (ext_coll (ve_ext (ru_validation env))) (t_ID task) d"
  have none: "List.find (\<lambda>s. stuck_step s \<and> s_Kind s = ''finalize'') ?steps = None" and "list_ex stuck_step ?steps"
    and res: "\<exists>n. ResolveStuckTaskSteps (ext_render (ve_ext (ru_validation env))) (ve_run (ru_validation env)) clk (t_ID task) d = Inr (n, d')"
    using assms by (auto simp: after_run_def finishGraphPartial_def wait_or_finish_def failed_with_def Let_def
        split: if_splits option.splits sum.splits)
  then obtain s where s: "s \<in> set ?steps" "stuck_step s" by (auto simp: list_ex_iff)
  then have "s_Kind s \<noteq> ''finalize''" using none by (auto simp: find_None_iff)
  moreover have "s \<in> set (steps_of d (t_ID task))" using s(1) by (simp add: TaskSteps_def)
  moreover have "s_TaskID s = t_ID task" using calculation(2) by (simp add: steps_of_def)
  ultimately show ?thesis using res resolve_open s(2) unfolding stuck_def stuck_step_def by blast
qed

definition executes_plan :: "runner_env \<Rightarrow> uuid \<Rightarrow> bool" where
  "executes_plan env i \<longleftrightarrow> (\<forall>k d. (executor_tx (ve_ext (ru_validation env)) i)\<^sup>*\<^sup>* d (snd (ru_run env k d)))"

lemma graph_round_Again:
  assumes "executes_plan env (t_ID task)" and "graph_round env w k clk new vclk vnew task d = Some (Again d')"
  shows "steps_of d' (t_ID task) \<noteq> [] \<and>
    open_steps (t_ID task) d' < (if steps_of d (t_ID task) = [] then 64 else open_steps (t_ID task) d)"
proof -
  let ?i = "t_ID task"
  obtain d1 runErr d2 where d1: "steps_of d1 ?i \<noteq> []" "open_steps ?i d1 \<le> (if steps_of d ?i = [] then 64 else open_steps ?i d)"
    and run: "ru_run env k d1 = (runErr, d2)"
    and after: "after_run env k (later 50 clk) new vclk vnew task (TaskResearchDeadline task (ru_reserve env)) runErr d2 = Some (Again d')"
  proof -
    obtain registry where reg: "graphDeps w task = Inr registry"
      using assms(2) by (cases "graphDeps w task") (auto simp: graph_round_def finish_def split: prod.splits)
    obtain d1 where step: "(if steps_of d ?i = [] then plan_graph env k clk new task registry (TaskResearchDeadline task (ru_reserve env)) d
        else Inr d) = Inr d1" and rest: "(case ru_run env k d1 of (runErr, d2) \<Rightarrow>
          if (case runErr of None \<Rightarrow> False | Some e \<Rightarrow> errors_Is e (Store ErrTaskClaimLost)) \<or> ru_run_over env k \<noteq> None then
            Some (Settled \<lparr>vd_error = runErr, vd_finish = None, vd_db = d2\<rparr>)
          else after_run env k (later 50 clk) new vclk vnew task (TaskResearchDeadline task (ru_reserve env)) runErr d2) = Some (Again d')"
      using assms(2) reg by (auto simp: graph_round_def TaskSteps_Nil Let_def plan_never_Again split: sum.splits if_splits)
    have "steps_of d1 ?i \<noteq> []" "open_steps ?i d1 \<le> (if steps_of d ?i = [] then 64 else open_steps ?i d)"
      using step plan_graph_steps [of env k clk new task registry "TaskResearchDeadline task (ru_reserve env)" d d1]
      by (auto simp: open_steps_def split: if_splits intro: order_trans [OF length_filter_le])
    then show thesis using that rest by (cases "ru_run env k d1") (auto split: if_splits)
  qed
  have "kept_steps ?i d1 d2"
    using assms(1) run executor_run_kept unfolding executes_plan_def by (metis snd_conv)
  then show ?thesis using kept_steps_open after_run_Again [OF after] d1 by fastforce
qed

lemma graph_round_returns:
  assumes "control_codec (ru_validation env)" shows "graph_round env w k clk new vclk vnew task d \<noteq> None"
proof -
  have "after_run env k clk' new vclk vnew task until err d' \<noteq> None" for clk' until err d'
  proof -
    obtain r where "validateGraphResult (ru_validation env) vclk vnew task (TaskSteps (ext_coll (ve_ext (ru_validation env))) (t_ID task) d')
        (final_output (TaskSteps (ext_coll (ve_ext (ru_validation env))) (t_ID task) d')) d' = Some r"
      using validation_returns [OF assms] by blast
    then show ?thesis by (auto simp: after_run_def Let_def split: option.splits)
  qed
  then show ?thesis by (auto simp: graph_round_def Let_def split: sum.splits prod.splits if_splits)
qed

lemma graph_rounds_return:
  assumes "control_codec (ru_validation env)" "executes_plan env (t_ID task)"
    and "(if steps_of d (t_ID task) = [] then 64 else open_steps (t_ID task) d) < n"
  shows "executeGraphTask n env w k clk new vclk vnew task d \<noteq> None"
  using assms(3)
proof (induction n arbitrary: k d)
  case (Suc n)
  obtain r where r: "graph_round env w k (clk k) (new k) (vclk k) (vnew k) task d = Some r"
    using graph_round_returns [OF assms(1)] by blast
  show ?case
  proof (cases r)
    case (Again d')
    have "(if steps_of d' (t_ID task) = [] then 64 else open_steps (t_ID task) d') < n"
      using graph_round_Again [OF assms(2) r [unfolded Again]] Suc.prems by (auto split: if_splits)
    then show ?thesis using Suc.IH r Again by simp
  qed (simp add: r)
qed simp

section \<open>A sample run\<close>

text \<open>A plan of one finished report, which the reviewer of \<open>sample_validation_env\<close> rejects once.\<close>

definition sample_worker :: "unit Task_Iteration.worker" where
  "sample_worker = \<lparr>wo_decode = (\<lambda>_. None), wo_meta = (\<lambda>_. \<lparr>tm_Provider = [], tm_Core = True\<rparr>), wo_mcp = None, wo_policy = NoPolicy,
     wo_hour = 12, wo_DefaultTools = [], wo_base = NewToolRegistry, wo_Run = (\<lambda>_ _ d. (Inl (Plain []), d)),
     wo_evaluate = (\<lambda>_ _ _. no_acceptance)\<rparr>"

definition sample_runner :: runner_env where
  "sample_runner = \<lparr>ru_validation = sample_validation_env, ru_reserve = 0, ru_order = map s_ID, ru_inject = None,
     ru_plan = (\<lambda>_ _ _. Inl (Plain ''no plan'')), ru_run = (\<lambda>_ d. (None, d)), ru_plan_over = (\<lambda>_. None), ru_run_over = (\<lambda>_. None),
     ru_synthesize = None\<rparr>"

definition planned_db :: db where
  "planned_db = graph_db\<lparr>agent_task_steps := [(blank_step 1 ''report'' ''finalize'')\<lparr>s_Status := ''done'', s_Result := ''draft''\<rparr>]\<rparr>"

lemma sample_runner_ok:
  "control_codec (ru_validation sample_runner)" "executes_plan sample_runner i" "ends_with_error sample_runner"
  using sample_codec by (simp_all add: sample_runner_def executes_plan_def ends_with_error_def)

text \<open>
  (C12) The runner of a graph task returns, whatever planner, steps, guard, repairer and review answer: it calls itself only after
  resolving a stuck branch, each time with fewer unfinished steps, so at most as often as the saved plan has steps that are not done
  (64 times when the plan is still to be made, the size of the largest plan), and the validation of the report ends. The
  executor may do any of the step transactions of the store on the task's plan, and whatever leaves these steps alone; the codec of the saved
  validation reads back what steers it.
\<close>

theorem graph_task_returns:
  assumes "control_codec (ru_validation env)" and "executes_plan env (t_ID task)"
    and "steps_of d (t_ID task) \<noteq> [] \<Longrightarrow> open_steps (t_ID task) d < n" and "steps_of d (t_ID task) = [] \<Longrightarrow> 64 < n"
  shows "\<exists>r. executeGraphTask n env w k clk new vclk vnew task d = Some r"
  using graph_rounds_return [OF assms(1,2), of d n w k clk new vclk vnew] assms(3,4) by auto

theorem graph_task_returns_witness:
  "\<exists>r. executeGraphTask 1 sample_runner sample_worker 0 (\<lambda>_ _. 2) (\<lambda>k. 200 + k) (\<lambda>_ _ _. 2) (\<lambda>_ k. 300 + k) graph_task planned_db = Some r"
  by (rule graph_task_returns [OF sample_runner_ok(1,2)])
    (simp_all add: open_steps_def steps_of_def planned_db_def graph_db_def graph_task_def blank_task_def blank_step_def empty_db_def)

text \<open>
  (C11) The contract of a graph runner: when it returns without an error, the task is finalized or yielded, so the
  coordinator never finds it running. This needs that an executor whose context ended says so.
\<close>

theorem runner_contract:
  assumes "ends_with_error env" and "executeGraphTask n env w k clk new vclk vnew task d = Some r" and "vd_error r = None"
  shows "\<exists>t. find_task (vd_db r) (t_ID task) = Some t \<and> t_Status t \<noteq> ''running''"
  using assms(2)
proof (induction n arbitrary: k d)
  case (Suc n)
  obtain x where x: "graph_round env w k (clk k) (new k) (vclk k) (vnew k) task d = Some x"
    using Suc.prems by (auto split: option.splits)
  show ?case
  proof (cases x)
    case (Settled v)
    then show ?thesis
      using graph_round_honest [OF assms(1) x] x Suc.prems assms(3) by (simp add: honest_def left_running_def)
  next
    case (Again d')
    then show ?thesis using Suc x by simp
  qed
qed simp

lemma sample_outcome:
  "map_option (\<lambda>r. (vd_error r, vd_finish r)) (executeGraphTask 65 sample_runner sample_worker 0 (\<lambda>_ _. 2) (\<lambda>k. 200 + k) (\<lambda>_ _ _. 2)
     (\<lambda>_ k. 300 + k) graph_task planned_db) = Some (None, Some (''completed'', ''better'', []))"
  by code_simp

theorem runner_contract_witness:
  "\<exists>r t. executeGraphTask 65 sample_runner sample_worker 0 (\<lambda>_ _. 2) (\<lambda>k. 200 + k) (\<lambda>_ _ _. 2) (\<lambda>_ k. 300 + k) graph_task planned_db = Some r \<and>
     find_task (vd_db r) 1 = Some t \<and> t_Status t \<noteq> ''running''"
proof -
  obtain r where r: "executeGraphTask 65 sample_runner sample_worker 0 (\<lambda>_ _. 2) (\<lambda>k. 200 + k) (\<lambda>_ _ _. 2) (\<lambda>_ k. 300 + k)
      graph_task planned_db = Some r" "vd_error r = None" using sample_outcome by auto
  have "t_ID graph_task = 1" by (simp add: graph_task_def blank_task_def)
  then show ?thesis using runner_contract [OF sample_runner_ok(3) r] r(1) by auto
qed

text \<open>
  Without it the contract fails: a context that ends just after the executor finished makes the runner return no error
  while the task still runs.
\<close>

lemma ended_context_breaks_contract:
  "map_option (\<lambda>r. (vd_error r, map_option t_Status (find_task (vd_db r) 1)))
     (executeGraphTask 1 (sample_runner\<lparr>ru_run_over := \<lambda>_. Some (Sentinel ContextDeadlineExceeded)\<rparr>) sample_worker 0 (\<lambda>_ _. 2)
       (\<lambda>k. 200 + k) (\<lambda>_ _ _. 2) (\<lambda>_ k. 300 + k) graph_task planned_db) = Some (None, Some ''running'')"
  by code_simp

section \<open>The fallback plan and the coordinator\<close>

lemma fallback_valid: "valid_plan (fallbackGraphPlan registry)"
proof -
  let ?p = "fallbackGraphPlan registry"
  have "plan_edges ?p = {(''research'', ''report'')}"
  proof -
    have "plan_edges ?p = (\<Union>s \<in> set ?p. (\<lambda>d. (d, s_ID s)) ` set (s_Dependencies s))" by (auto simp: plan_edges_def)
    then show ?thesis by (simp add: fallbackGraphPlan_def planned_step_def)
  qed
  moreover have "\<forall>s \<in> set ?p. step_fields_ok s"
  proof -
    have "step_fields_ok (planned_step ''research'' ''read''
        ''Research everything the task asks for, within its stated sources and constraints.''
        ''Every requirement of the task is covered with exact sources; data that could not be found is stated explicitly.'')"
      by code_simp
    moreover have "step_fields_ok (planned_step ''report'' ''finalize'' ''Write the requested final deliverable from the research.''
        ''All task requirements are addressed; unsupported claims and missing data are explicit.'')"
      by code_simp
    moreover have "step_fields_ok (s\<lparr>s_Tools := ts\<rparr>) = step_fields_ok s" "step_fields_ok (s\<lparr>s_Dependencies := ds\<rparr>) = step_fields_ok s"
      for s ts ds by (simp_all add: step_fields_ok_def)
    ultimately show ?thesis by (simp add: fallbackGraphPlan_def)
  qed
  moreover have "acyclic {(''research'', ''report'')}" by (simp add: acyclic_insert wf_acyclic)
  moreover have "length ?p = 2" "map s_ID ?p = [''research'', ''report'']" "map s_Dependencies ?p = [[], [''research'']]"
    by (simp_all add: fallbackGraphPlan_def planned_step_def)
  moreover have "distinct (s_Dependencies s) \<and> set (s_Dependencies s) \<subseteq> s_ID ` set ?p" if "s \<in> set ?p" for s
    using that by (auto simp: fallbackGraphPlan_def planned_step_def)
  ultimately show ?thesis by (simp add: valid_plan_def)
qed

text \<open>
  A coordinator that reports no error for a task it started leaves it finished or waiting; a runner that only
  returned is reported.
\<close>

lemma coordinator_reports:
  assumes "co_started (GraphCoordinator_Run ext lease clk new i work renewal d)"
    and "co_error (GraphCoordinator_Run ext lease clk new i work renewal d) = None"
  shows "\<exists>t. find_task (co_db (GraphCoordinator_Run ext lease clk new i work renewal d)) i = Some t \<and> transitioned t"
  using assms
  by (auto simp: GraphCoordinator_Run_def coordinator_error_def join_errors_def map_filter_simps
      split: option.splits if_splits sum.splits prod.splits list.splits)

end
