(* ===== verification/Spec2Isabelle.thy ===== *)
theory Spec2Isabelle
  imports Workflow_Graph Execution_Theorems Dispatch_Theorems Journal_Theorems Notify_Theorems Executor_Theorems Task_Tools Outbox Chat_History
    Scheduler_Theorems Iteration_Theorems Task_Wakeup Acceptance_Review Runner_Theorems
begin

text \<open>
  \<^bold>\<open>BlueShip: the durable task core, its scheduler, the notification journal, the tool registry and the chat store\<close>

  BlueShip is a Go framework for agents. An owner's request becomes a row of \<open>agent_tasks\<close>; a scheduler
  runs it, one-shot graph tasks through a plan of steps with leases, recurring tasks through task programs;
  what it has to say leaves through a notification journal, exactly one row per message, and, when it is a turn
  of a conversation, is written into the chat. This library models the parts that decide what happens to
  that state. Each theory models the files named with it; a definition keeps the name of the function it
  models.

  \<^bold>\<open>Theories.\<close>
  \<^item> \<open>Prelude\<close>, \<open>Json\<close>, \<open>Json_Scan\<close>, \<open>Go_Time\<close>, \<open>Go_Duration\<close>, \<open>Base64\<close>: what the code uses of Go and PostgreSQL. Strings are byte
    lists, tables are lists of rows, ids are numbers, instants and durations are nanoseconds.
  \<^item> \<open>Dependency_Walk\<close>, \<open>Workflow_Graph\<close> (\<open>runtime/workflow/graph.go\<close>) and \<open>Step_Plan\<close> (\<open>internal/core/task_steps.go\<close>):
    validation of graphs, with one locale for the walk both share.
  \<^item> \<open>Task_Model\<close>: the rows of the task tables and the database as a record of tables.
  \<^item> \<open>Step_Store\<close> (\<open>task_steps.go\<close>), \<open>Run_Store\<close> (\<open>task_run.go\<close>), \<open>Task_Deadline\<close> (\<open>agent_deadline.go\<close>,
    \<open>task_research_budget.go\<close>, \<open>internal/agenttask/deadline.go\<close>): the step graph, coordinator leases and deadlines;
    \<open>Step_Invariant\<close> and \<open>Run_Invariant\<close> hold their invariants.
  \<^item> \<open>Task_Lifecycle\<close> (\<open>agent_store.go\<close>, \<open>task_rollout.go\<close>, \<open>agent_checkpoint.go\<close>, \<open>agent_submission.go\<close>), \<open>Task_Finalize\<close>
    (\<open>agent_finalize.go\<close>), \<open>Task_Control\<close> (\<open>task_control.go\<close>, \<open>task_restart.go\<close>), \<open>Task_Origin\<close> (\<open>task_origin.go\<close>).
  \<^item> \<open>Task_System\<close>: all of these operations as one transition system, its invariant, and \<open>Task_Sample\<close>, a run that
    the witnesses use. \<open>Execution_Theorems\<close> and \<open>Dispatch_Theorems\<close> hold what the system guarantees.
  \<^item> \<open>Autonomous_Turn\<close> (\<open>autonomous_turn.go\<close>), \<open>Notify_Journal\<close> (\<open>agent_store.go\<close>, the attempts), \<open>Journal_System\<close>, \<open>Delivery_Log\<close>:
    the journal inside the task system; \<open>Journal_Theorems\<close>, \<open>Delivery_Theorems\<close>. \<open>Outbox\<close> is its abstract specification and
    the refinement.
  \<^item> \<open>Go_Error\<close> (\<open>agent.go\<close>, \<open>task_retry.go\<close>), \<open>Notify_Delivery\<close> (\<open>internal/agenttask/scheduler.go\<close>, \<open>delivery_validation.go\<close>),
    \<open>Graph_Executor\<close> (\<open>internal/agenttask/graph.go\<close>): error chains, delivery of one message and the retry worker, the
    dispatch loop of a plan; \<open>Notify_Theorems\<close>, \<open>Executor_Theorems\<close>.
  \<^item> \<open>Task_Scheduler\<close> (\<open>internal/agenttask/scheduler.go\<close>, \<open>graph_coordinator.go\<close>, \<open>wakeup.go\<close>,
    \<open>internal/core/config_gateway.go\<close>): the gates of a tick and its dispatch of tasks; \<open>Scheduler_Theorems\<close> with the
    machine of workers; \<open>Task_Wakeup\<close> (\<open>wakeup.go\<close>), the wake-up timer.
  \<^item> \<open>Task_Iteration\<close> (\<open>scheduler.go\<close>, \<open>deadline.go\<close>, \<open>router.go\<close>, the feedback of \<open>evaluator.go\<close>): one iteration of a task from
    its claim to the row it leaves, the back-to-back loop, expiry and maintenance; \<open>Iteration_Theorems\<close>.
  \<^item> \<open>Go_Float\<close>, \<open>Review_Verdict\<close>, \<open>Grounding\<close> (\<open>grounding.go\<close>, \<open>graph_grounding.go\<close>, \<open>grounding_parts.go\<close>), \<open>Grounding_Docs\<close>
    (\<open>grounding.go\<close>, \<open>grounding_request.go\<close>, \<open>graph_reviews.go\<close>, \<open>internal/core/docurl.go\<close>), \<open>Cited_Pages\<close> and
    \<open>Acceptance_Review\<close> (\<open>evaluator.go\<close>), \<open>Review_Prompt\<close> (\<open>evaluator.go\<close>, \<open>graph_review_receipts.go\<close>): the
    gates a result passes, the request to its reviewer, its audit against the fetched documents and the score of that audit in double precision;
    \<open>Grounding_Theorems\<close>.
  \<^item> \<open>Task_Report\<close> (\<open>internal/core/task_report.go\<close>), the notice of a report, and \<open>Graph_Validation\<close>
    (\<open>graph_validation.go\<close>, \<open>graph_runner.go\<close>), the validation of a graph task's report; \<open>Validation_Theorems\<close>.
  \<^item> \<open>Graph_Runner\<close> (\<open>graph_runner.go\<close>, \<open>graph_coordinator.go\<close>): the runner of a graph task, which joins planning, the
    executor, the validation and the finalizer, and the coordinator that claims the task for it; \<open>Runner_Theorems\<close>.
  \<^item> \<open>Tool_Registry\<close> (\<open>internal/core/registry.go\<close>), \<open>Task_Program\<close> (\<open>task_program.go\<close>), \<open>Task_Tools\<close> (the registry of a task,
    \<open>scheduler.go\<close>).
  \<^item> \<open>Transcript\<close> (\<open>types.go\<close>, \<open>runtime/session/compact.go\<close>, \<open>runtime/agent/compact.go\<close>), \<open>Dialog_Window\<close>
    (\<open>runtime/session/messages.go\<close>, \<open>models.go\<close>), \<open>Message_Projection\<close> (\<open>message_projection.go\<close>), \<open>Session_Store\<close> and
    \<open>Session_Theorems\<close> (\<open>runtime/session\<close>), \<open>Chat_History\<close> (\<open>agent_store.go\<close>, the history projection).

  \<^bold>\<open>How state and operations correspond.\<close>
  A transaction is a function from a database to an error or a result with the new database; an error leaves the
  database as it was, which is what the rollback does. \<open>RenewGraphTask\<close>, which the code runs without the owner's lock, is one too. The operations that are not one transaction
  (\<open>CreateWithPrevious\<close>, the drains) return the state beside the error. The guards follow the order of the
  code, \<open>UPDATE ... WHERE\<close> is \<open>update_where\<close>, and a row count of zero is the branch the code takes. The
  constraints of the schema the operations can run into (keys, foreign keys, checks, the range of an
  \<open>INT\<close> column) are errors too. The systems \<open>system_step\<close>, \<open>history_step\<close>, \<open>executor_step\<close> and the logged system interleave whole
  transactions in any order, with clock readings that never go back; a reading is one per SQL statement.
  The locales \<open>invariant_system\<close>, \<open>keyed_rows\<close> and \<open>refinement\<close> are interpreted on these systems and tables.

  \<^bold>\<open>Groups of results.\<close>
  Execution: exclusive side effects, dependencies before attempts, no blind replay, leases and fences, final
  results, shape of rows. Dispatch: plans stored whole, fairness and limits, deadlines. Journal: canonical
  references, one reservation per reference, at most one open send, final outcomes, the outbox refinement,
  bounded retries. Executor: concurrency, draining, what a step reports. Scheduler: exactly which
  tasks a tick starts, one worker per task within the pool, wake-ups that are not lost and fire in time. Iterations: nothing published
  without acceptance, a replaced worker changes nothing, the loop ends, every open task is bounded in time. Review: exactly when a result is
  accepted, documents within the budget of an audit, a score that decides as the rational threshold, audits of
  parts scored together as one report; only text that guard and review passed is completed or saved as accepted, within four
  rounds; the marker of a notice is recovered. Graph tasks: their runner returns, and without an error it leaves the task finished or waiting. Tools: confinement of a task's tools, evidence readers. Validation of workflows, plans and programs, as equivalences with declarative
  predicates. Chat: repaired transcripts, the dialogue window, exact counters, single projection of turns.
  The lemmas \<open>stored_deadline_starves\<close>, \<open>canceled_schedule_restarts\<close>, \<open>wildcard_reaches_message_send\<close>,
  \<open>split_orphans_result\<close>, \<open>long_chat_shrinks\<close>, \<open>clear_keeps_counters\<close>, \<open>untrimmed_start_at\<close> and \<open>ended_context_breaks_contract\<close> show behaviours that differ from what the code says of itself.

  \<^bold>\<open>Parameters.\<close>
  What is not in the repository is an argument: JSON codecs of Go structs, rendering of JSON and times,
  SHA-256 and the UUID hash, formatting with several verbs, the collation, \<open>uuid.Parse\<close>, the Unicode tables behind
  \<open>strings.ToLower\<close> and \<open>%q\<close>, tool and task handlers, language models and the texts of their prompts, URL parsing, the time zone database, the texts shown to
  users, the transport, the validator and the host's hooks. Hypotheses on them stand in
  the theorems that need one (the codecs of turns and of the saved validation read back what they wrote).

  \<^bold>\<open>Bounds.\<close>
  The back-to-back loop \<open>run_iterations\<close> has fuel, and \<open>runTask_ends\<close> shows that the task's iterations left, or one when none
  is left, are enough; \<open>validate_rounds\<close> has fuel four, and \<open>validation_returns\<close> shows that it suffices; \<open>executeGraphTask\<close> has fuel, and
  \<open>graph_task_returns\<close> shows that more than the unfinished steps of the saved plan is enough, or more than 64 when the plan is
  made on the way. No other definition has fuel: loops are structural or have a measure (the walks by the set of unvisited nodes, the
  transcript repair by the messages left, the window by the rows kept, the stripping loops by the length of the text). The
  limits of the code (two leases per owner, twenty calls per pass, thirty messages per block) are definitions.

  \<^bold>\<open>Not modelled.\<close>
  Failures of the database itself and of connections; rounding of instants to microseconds by PostgreSQL;
  goroutine scheduling below the level of transactions and completions; calls of language models, the handlers that
  use them (planning, steps, the agent loop) and their prompts; transports, providers,
  the gateway's message handling, federation, web access, document integrations, configuration, migrations,
  telemetry; iteration history, audit rows and tool outputs of tasks; the queue of
  database notifications and session archiving in the scheduler; cross-session reads of the chat store.
\<close>

end
